(* ===== verification/Magiclaw_Prelude.thy ===== *)
theory Magiclaw_Prelude
  imports Main "HOL-Library.Word" "HOL-Library.Multiset"
begin

text \<open>
  Vocabulary shared by the components.

  \<^item> Results: Rust's \<open>Result<T, E>\<close> is the sum type \<open>'e + 'a\<close>, with \<open>Err\<close> for
    \<open>Inl\<close> and \<open>Ok\<close> for \<open>Inr\<close>.
  \<^item> Strings: a Rust \<open>String\<close> is its UTF-8 byte sequence, a \<open>char list\<close>.
    \<open>trim\<close> removes the UTF-8 encodings of every code point with the Unicode
    property White_Space, as \<open>str::trim\<close> does.
  \<^item> Tables: a database table is the list of its rows in rowid order; the functions
    \<open>tbl_*\<close> are the effects of the SQL statements the adapters issue.
  \<^item> Saturating and reinterpreting arithmetic on the 64-bit integers.
\<close>

named_theorems table_simps \<open>effects of SQL statements on the keys and rows of a table\<close>

named_theorems frame_simps \<open>parts of the state an operation leaves alone\<close>

section \<open>Results\<close>

abbreviation Ok :: "'a \<Rightarrow> 'e + 'a" where "Ok \<equiv> Inr"

abbreviation Err :: "'e \<Rightarrow> 'e + 'a" where "Err \<equiv> Inl"

definition is_Ok :: "'e + 'a \<Rightarrow> bool" where
  "is_Ok r = (case r of Ok _ \<Rightarrow> True | Err _ \<Rightarrow> False)"

definition map_err :: "('e \<Rightarrow> 'f) \<Rightarrow> 'e + 'a \<Rightarrow> 'f + 'a" where
  "map_err f r = (case r of Ok x \<Rightarrow> Ok x | Err e \<Rightarrow> Err (f e))"

section \<open>Strings\<close>

definition starts_with :: "string \<Rightarrow> string \<Rightarrow> bool" where
  "starts_with s p = (take (length p) s = p)"

definition strip_prefix :: "string \<Rightarrow> string \<Rightarrow> string option" where
  "strip_prefix s p = (if starts_with s p then Some (drop (length p) s) else None)"

fun contains :: "string \<Rightarrow> string \<Rightarrow> bool" where
  "contains [] p = (p = [])"
| "contains (c # s) p = (starts_with (c # s) p \<or> contains s p)"

definition ascii_lower :: "char \<Rightarrow> char" where
  "ascii_lower c = (if 65 \<le> (of_char c :: nat) \<and> (of_char c :: nat) \<le> 90
                    then char_of ((of_char c :: nat) + 32) else c)"

text \<open>
  ASCII lower-casing. Where the source calls the Unicode \<open>to_lowercase\<close> it compares
  the result with fixed texts whose letters are not the lower-case image of any
  non-ASCII code point, so that the comparison has the same outcome.
\<close>

definition to_lowercase :: "string \<Rightarrow> string" where
  "to_lowercase s = map ascii_lower s"

text \<open>UTF-8 encodings of the code points with the property White_Space.\<close>

definition white_space :: "string list" where
  "white_space =
     [[CHR 0x09], [CHR 0x0A], [CHR 0x0B], [CHR 0x0C], [CHR 0x0D], [CHR 0x20],
      [CHR 0xC2, CHR 0x85], [CHR 0xC2, CHR 0xA0], [CHR 0xE1, CHR 0x9A, CHR 0x80],
      [CHR 0xE2, CHR 0x80, CHR 0x80], [CHR 0xE2, CHR 0x80, CHR 0x81],
      [CHR 0xE2, CHR 0x80, CHR 0x82], [CHR 0xE2, CHR 0x80, CHR 0x83],
      [CHR 0xE2, CHR 0x80, CHR 0x84], [CHR 0xE2, CHR 0x80, CHR 0x85],
      [CHR 0xE2, CHR 0x80, CHR 0x86], [CHR 0xE2, CHR 0x80, CHR 0x87],
      [CHR 0xE2, CHR 0x80, CHR 0x88], [CHR 0xE2, CHR 0x80, CHR 0x89],
      [CHR 0xE2, CHR 0x80, CHR 0x8A], [CHR 0xE2, CHR 0x80, CHR 0xA8],
      [CHR 0xE2, CHR 0x80, CHR 0xA9], [CHR 0xE2, CHR 0x80, CHR 0xAF],
      [CHR 0xE2, CHR 0x81, CHR 0x9F], [CHR 0xE3, CHR 0x80, CHR 0x80]]"

fun strip_any :: "string list \<Rightarrow> string \<Rightarrow> string option" where
  "strip_any [] s = None"
| "strip_any (p # ps) s =
     (if p \<noteq> [] \<and> starts_with s p then Some (drop (length p) s) else strip_any ps s)"

lemma starts_with_append: "starts_with s p \<longleftrightarrow> (\<exists>r. s = p @ r)"
  by (metis append_eq_conv_conj append_take_drop_id starts_with_def)

lemma strip_any_length: "strip_any ps s = Some r \<Longrightarrow> length r < length s"
  by (induction ps) (auto simp: starts_with_append split: if_splits)

function trim_by :: "string list \<Rightarrow> string \<Rightarrow> string" where
  "trim_by ps s = (case strip_any ps s of None \<Rightarrow> s | Some r \<Rightarrow> trim_by ps r)"
  by pat_completeness auto
termination
  by (relation "measure (\<lambda>(ps, s). length s)") (auto simp: strip_any_length)

declare trim_by.simps [simp del]

definition trim_start :: "string \<Rightarrow> string" where
  "trim_start s = trim_by white_space s"

definition trim_end :: "string \<Rightarrow> string" where
  "trim_end s = rev (trim_by (map rev white_space) (rev s))"

definition trim :: "string \<Rightarrow> string" where
  "trim s = trim_end (trim_start s)"

fun digit_char :: "nat \<Rightarrow> char" where
  "digit_char n = char_of (48 + n)"

text \<open>Decimal rendering of an unsigned integer, as \<open>Display\<close> prints it.\<close>

fun show_nat :: "nat \<Rightarrow> string" where
  "show_nat n = (if n < 10 then [digit_char n] else show_nat (n div 10) @ [digit_char (n mod 10)])"

declare show_nat.simps [simp del]

definition show_int :: "int \<Rightarrow> string" where
  "show_int i = (if i < 0 then ''-'' @ show_nat (nat (- i)) else show_nat (nat i))"

text \<open>\<open>str::split\<close> on a character: always at least one piece.\<close>

fun split_on :: "char \<Rightarrow> string \<Rightarrow> string list" where
  "split_on c [] = [[]]"
| "split_on c (x # xs) =
     (if x = c then [] # split_on c xs
      else (case split_on c xs of [] \<Rightarrow> [[x]] | w # ws \<Rightarrow> (x # w) # ws))"

section \<open>Tables\<close>

text \<open>\<open>UPDATE ... WHERE p\<close>\<close>

definition tbl_update :: "('r \<Rightarrow> bool) \<Rightarrow> ('r \<Rightarrow> 'r) \<Rightarrow> 'r list \<Rightarrow> 'r list" where
  "tbl_update p f t = map (\<lambda>r. if p r then f r else r) t"

text \<open>\<open>DELETE ... WHERE p\<close>\<close>

definition tbl_delete :: "('r \<Rightarrow> bool) \<Rightarrow> 'r list \<Rightarrow> 'r list" where
  "tbl_delete p t = filter (\<lambda>r. \<not> p r) t"

text \<open>\<open>INSERT OR IGNORE\<close>: a row whose key is taken is dropped.\<close>

definition tbl_insert_ignore :: "('r \<Rightarrow> 'k) \<Rightarrow> 'r \<Rightarrow> 'r list \<Rightarrow> 'r list" where
  "tbl_insert_ignore k r t = (if k r \<in> k ` set t then t else t @ [r])"

text \<open>\<open>INSERT OR REPLACE\<close>: the row in conflict is deleted, the new one has the last rowid.\<close>

definition tbl_insert_replace :: "('r \<Rightarrow> 'k) \<Rightarrow> 'r \<Rightarrow> 'r list \<Rightarrow> 'r list" where
  "tbl_insert_replace k r t = filter (\<lambda>r'. k r' \<noteq> k r) t @ [r]"

text \<open>\<open>INSERT\<close>: a taken key violates the constraint.\<close>

definition tbl_insert :: "('r \<Rightarrow> 'k) \<Rightarrow> string \<Rightarrow> 'r \<Rightarrow> 'r list \<Rightarrow> string + 'r list" where
  "tbl_insert k e r t = (if k r \<in> k ` set t then Err e else Ok (t @ [r]))"

text \<open>\<open>INSERT ... ON CONFLICT(k) DO UPDATE\<close>: the merge function builds the updated row.\<close>

definition tbl_upsert :: "('r \<Rightarrow> 'k) \<Rightarrow> ('r \<Rightarrow> 'r) \<Rightarrow> 'r \<Rightarrow> 'r list \<Rightarrow> 'r list" where
  "tbl_upsert k g r t = (if k r \<in> k ` set t then tbl_update (\<lambda>r'. k r' = k r) g t else t @ [r])"

text \<open>
  \<open>ORDER BY k\<close>: rows with equal \<open>k\<close> come in an order SQL leaves open; a rank
  function, different for every statement, stands for the engine's choice.
\<close>

definition order_by :: "('r \<Rightarrow> int) \<Rightarrow> ('r \<Rightarrow> nat) \<Rightarrow> 'r list \<Rightarrow> 'r list" where
  "order_by k rank t = sort_key k (sort_key rank t)"

definition order_by_desc :: "('r \<Rightarrow> int) \<Rightarrow> ('r \<Rightarrow> nat) \<Rightarrow> 'r list \<Rightarrow> 'r list" where
  "order_by_desc k rank t = order_by (\<lambda>r. - k r) rank t"

text \<open>\<open>LIMIT n\<close> with the \<open>usize\<close> cast to \<open>i64\<close>: a negative limit is no limit.\<close>

definition sql_limit :: "64 word \<Rightarrow> 'r list \<Rightarrow> 'r list" where
  "sql_limit n t = (if sint n < 0 then t else take (nat (sint n)) t)"

section \<open>Machine integers\<close>

definition i64_min :: int where "i64_min = - (2 ^ 63)"

definition i64_max :: int where "i64_max = 2 ^ 63 - 1"

definition is_i64 :: "int \<Rightarrow> bool" where
  "is_i64 x = (i64_min \<le> x \<and> x \<le> i64_max)"

definition i64_saturating_sub :: "int \<Rightarrow> int \<Rightarrow> int" where
  "i64_saturating_sub x y = max i64_min (min i64_max (x - y))"

definition u64_max :: nat where "u64_max = 2 ^ 64 - 1"

definition u64_saturating_mul :: "nat \<Rightarrow> nat \<Rightarrow> nat" where
  "u64_saturating_mul x y = min u64_max (x * y)"

definition u64_saturating_add :: "nat \<Rightarrow> nat \<Rightarrow> nat" where
  "u64_saturating_add x y = min u64_max (x + y)"

definition u64_saturating_pow :: "nat \<Rightarrow> nat \<Rightarrow> nat" where
  "u64_saturating_pow x n = min u64_max (x ^ n)"

section \<open>Lemmas on strings\<close>

lemma starts_with_self_append [simp]: "starts_with (p @ s) p"
  by (auto simp: starts_with_append)

lemma starts_with_Nil [simp]: "starts_with s []"
  by (simp add: starts_with_def)

lemma strip_prefix_Some: "strip_prefix s p = Some r \<longleftrightarrow> s = p @ r"
  by (auto simp: strip_prefix_def starts_with_append)

lemma strip_any_Some:
  "strip_any ps s = Some r \<Longrightarrow> \<exists>p\<in>set ps. p \<noteq> [] \<and> s = p @ r"
  by (induction ps) (auto simp: starts_with_append split: if_splits)

lemma strip_any_None:
  "strip_any ps s = None \<longleftrightarrow> (\<forall>p\<in>set ps. p \<noteq> [] \<longrightarrow> \<not> starts_with s p)"
  by (induction ps) auto

lemma strip_any_Nil [simp]: "strip_any ps [] = None"
  by (auto simp: strip_any_None starts_with_append)

lemma trim_by_stops: "strip_any ps (trim_by ps s) = None"
  by (induction ps s rule: trim_by.induct) (subst trim_by.simps, simp split: option.split)

lemma trim_by_id: "strip_any ps s = None \<Longrightarrow> trim_by ps s = s"
  by (subst trim_by.simps) simp

lemma trim_by_suffix: "\<exists>r. s = r @ trim_by ps s"
proof (induction ps s rule: trim_by.induct)
  case (1 ps s)
  show ?case
  proof (cases "strip_any ps s")
    case None
    then show ?thesis by (simp add: trim_by_id)
  next
    case (Some t)
    with "1.IH" obtain r where "t = r @ trim_by ps t" by blast
    moreover from Some obtain p where "s = p @ t" using strip_any_Some by blast
    ultimately have "s = (p @ r) @ trim_by ps s"
      using Some by (subst trim_by.simps) simp
    then show ?thesis by blast
  qed
qed

lemma strip_any_prefix: "strip_any ps (s @ t) = None \<Longrightarrow> strip_any ps s = None"
  by (auto simp: strip_any_None starts_with_append)

lemma trim_end_prefix: "\<exists>r. s = trim_end s @ r"
proof -
  obtain r where "rev s = r @ trim_by (map rev white_space) (rev s)"
    using trim_by_suffix by blast
  then have "s = rev (trim_by (map rev white_space) (rev s)) @ rev r"
    by (metis rev_append rev_rev_ident)
  then show ?thesis unfolding trim_end_def by blast
qed

lemma set_trim: "set (trim s) \<subseteq> set s"
proof -
  obtain r where "trim_start s = trim s @ r" using trim_end_prefix unfolding trim_def by blast
  moreover obtain q where "s = q @ trim_start s" using trim_by_suffix unfolding trim_start_def by blast
  ultimately have "set s = set q \<union> set (trim s) \<union> set r" by (metis set_append Un_assoc)
  then show ?thesis by blast
qed

lemma trim_start_trim: "trim_start (trim s) = trim s"
proof -
  obtain r where "trim_start s = trim s @ r"
    using trim_end_prefix unfolding trim_def by blast
  then have "strip_any white_space (trim s @ r) = None"
    by (metis trim_by_stops trim_start_def)
  then show ?thesis
    unfolding trim_start_def by (intro trim_by_id) (rule strip_any_prefix)
qed

text \<open>Trimming twice is trimming once.\<close>

lemma trim_idem [simp]: "trim (trim s) = trim s"
proof -
  have "trim_end (trim s) = trim s"
    by (simp add: trim_def trim_end_def trim_by_id trim_by_stops)
  then show ?thesis by (simp add: trim_def [of "trim s"] trim_start_trim)
qed

lemma trim_Nil [simp]: "trim [] = []"
  by (simp add: trim_def trim_start_def trim_end_def trim_by_id)

lemma show_nat_nonempty [simp]: "show_nat n \<noteq> []"
  by (subst show_nat.simps) simp

section \<open>Lemmas on tables\<close>

lemma tbl_update_keys [table_simps, simp]:
  "(\<And>r. k (f r) = k r) \<Longrightarrow> map k (tbl_update p f t) = map k t"
  by (simp add: tbl_update_def)

lemma tbl_update_length [simp]: "length (tbl_update p f t) = length t"
  by (simp add: tbl_update_def)

lemma distinct_insert_ignore [table_simps]:
  "distinct (map k t) \<Longrightarrow> distinct (map k (tbl_insert_ignore k r t))"
  by (auto simp: tbl_insert_ignore_def)

lemma distinct_insert_replace [table_simps]:
  "distinct (map k t) \<Longrightarrow> distinct (map k (tbl_insert_replace k r t))"
  by (auto simp: tbl_insert_replace_def distinct_map inj_on_def)

lemma distinct_delete [table_simps]:
  "distinct (map k t) \<Longrightarrow> distinct (map k (tbl_delete p t))"
  by (simp add: tbl_delete_def distinct_map inj_on_def)

lemma tbl_insert_Ok:
  "tbl_insert k e r t = Ok t' \<longleftrightarrow> k r \<notin> k ` set t \<and> t' = t @ [r]"
  by (auto simp: tbl_insert_def)

lemma distinct_upsert [table_simps]:
  assumes "distinct (map k t)" and "\<And>r. k (g r) = k r"
  shows "distinct (map k (tbl_upsert k g r t))"
  using assms by (auto simp: tbl_upsert_def)

lemma mset_order_by [simp]: "mset (order_by k rank t) = mset t"
  by (simp add: order_by_def)

lemma set_order_by [simp]: "set (order_by k rank t) = set t"
  by (simp add: order_by_def)

lemma length_order_by [simp]: "length (order_by k rank t) = length t"
  by (simp add: order_by_def)

lemma sorted_order_by: "sorted (map k (order_by k rank t))"
  by (simp add: order_by_def)

lemma distinct_order_by [simp]:
  "distinct (map f (order_by k rank t)) = distinct (map f t)"
proof -
  have "mset (map f (order_by k rank t)) = mset (map f t)" by simp
  then show ?thesis by (rule mset_eq_imp_distinct_iff)
qed

lemma set_sql_limit: "set (sql_limit n t) \<subseteq> set t"
  by (auto simp: sql_limit_def dest: in_set_takeD)

lemma distinct_sql_limit: "distinct (map f t) \<Longrightarrow> distinct (map f (sql_limit n t))"
  by (simp add: sql_limit_def take_map [symmetric])

lemma length_sql_limit: "0 \<le> sint n \<Longrightarrow> length (sql_limit n t) \<le> nat (sint n)"
  by (simp add: sql_limit_def)

lemma sorted_sql_limit: "sorted (map k t) \<Longrightarrow> sorted (map k (sql_limit n t))"
  by (simp add: sql_limit_def take_map [symmetric] sorted_wrt_take)

text \<open>Looking a row up by its key.\<close>

definition tbl_find :: "('r \<Rightarrow> 'k) \<Rightarrow> 'k \<Rightarrow> 'r list \<Rightarrow> 'r option" where
  "tbl_find k x t = find (\<lambda>r. k r = x) t"

lemma tbl_find_Nil [simp]: "tbl_find k x [] = None"
  by (simp add: tbl_find_def)

lemma tbl_find_Cons [simp]:
  "tbl_find k x (r # t) = (if k r = x then Some r else tbl_find k x t)"
  by (simp add: tbl_find_def)

lemma tbl_find_append [simp]:
  "tbl_find k x (s @ t) = (case tbl_find k x s of None \<Rightarrow> tbl_find k x t | Some r \<Rightarrow> Some r)"
  by (induction s) auto

lemma tbl_find_None: "tbl_find k x t = None \<longleftrightarrow> x \<notin> k ` set t"
  by (induction t) auto

lemma tbl_find_absent [simp]: "x \<notin> k ` set t \<Longrightarrow> tbl_find k x t = None"
  by (simp add: tbl_find_None)

lemma tbl_find_Some_key: "tbl_find k x t = Some r \<Longrightarrow> k r = x \<and> r \<in> set t"
  by (induction t) (auto split: if_splits)

lemma tbl_find_distinct:
  "distinct (map k t) \<Longrightarrow> r \<in> set t \<Longrightarrow> tbl_find k (k r) t = Some r"
  by (induction t) (auto simp: image_iff)

lemma tbl_find_update [table_simps]:
  assumes "\<And>r. k (f r) = k r"
  shows "tbl_find k x (tbl_update (\<lambda>r. k r = y) f t) =
         (if x = y then map_option f (tbl_find k x t) else tbl_find k x t)"
  using assms by (induction t) (auto simp: tbl_update_def)

lemma tbl_find_insert_ignore [table_simps]:
  "tbl_find k x (tbl_insert_ignore k r t) =
   (case tbl_find k x t of Some r' \<Rightarrow> Some r' | None \<Rightarrow> if x = k r then Some r else None)"
proof (cases "tbl_find k x t")
  case None
  moreover from None have "x \<notin> k ` set t" by (simp add: tbl_find_None)
  ultimately show ?thesis by (auto simp: tbl_insert_ignore_def)
next
  case (Some r')
  then show ?thesis by (simp add: tbl_insert_ignore_def)
qed

lemma tbl_find_filter_key:
  "tbl_find k x (filter (\<lambda>r. k r \<noteq> y) t) = (if x = y then None else tbl_find k x t)"
  by (induction t) auto

lemma tbl_find_insert_replace [table_simps]:
  "tbl_find k x (tbl_insert_replace k r t) = (if x = k r then Some r else tbl_find k x t)"
  by (auto simp: tbl_insert_replace_def tbl_find_filter_key split: option.split)

lemma tbl_find_delete_key [table_simps]:
  "tbl_find k x (tbl_delete (\<lambda>r. k r = y) t) = (if x = y then None else tbl_find k x t)"
  by (simp add: tbl_delete_def tbl_find_filter_key)

section \<open>Lemmas on machine integers\<close>

lemma i64_saturating_sub_i64: "is_i64 (i64_saturating_sub x y)"
  by (auto simp: is_i64_def i64_saturating_sub_def i64_min_def i64_max_def)

lemma i64_saturating_sub_exact: "is_i64 (x - y) \<Longrightarrow> i64_saturating_sub x y = x - y"
  by (auto simp: is_i64_def i64_saturating_sub_def)

lemma u64_saturating_mul_mono: "a \<le> b \<Longrightarrow> c \<le> d \<Longrightarrow> u64_saturating_mul a c \<le> u64_saturating_mul b d"
  using mult_le_mono [of a b c d] by (simp add: u64_saturating_mul_def)

lemma unat_plus_one:
  fixes n m :: "'a::len word"
  assumes "n < m"
  shows "unat (n + 1) = Suc (unat n)"
proof -
  have "unat n < unat m" using assms by (simp add: word_less_nat_alt)
  moreover have "unat m < 2 ^ LENGTH('a)" by (rule unsigned_less)
  ultimately have "unat n + unat (1 :: 'a word) < 2 ^ LENGTH('a)"
    unfolding unsigned_1 by linarith
  then show ?thesis using unat_add_lem [of n "1 :: 'a word"] by simp
qed

end
