(* ===== verification/Domain.thy ===== *)
theory Domain
  imports Magiclaw_Prelude
begin

text \<open>
  The domain types of \<open>src/domain\<close>: value objects (\<open>RouteKey\<close>, \<open>ChannelId\<close>,
  \<open>ConversationType\<close>, backpressure configuration), the entity \<open>Message\<close> and the
  typed errors of the channel, pipeline, AI and media ports with their recoverability
  classification. Strings are UTF-8 byte lists, \<open>i64\<close> values are integers, \<open>u64\<close>
  and \<open>u16\<close> values naturals (no arithmetic is done on them here).
\<close>

section \<open>Value objects: route key\<close>

datatype channel_id = ChannelId string

fun as_str :: "channel_id \<Rightarrow> string" where
  "as_str (ChannelId s) = s"

datatype conversation_type = Direct | Group | Thread | BotSession

fun conversation_type_display :: "conversation_type \<Rightarrow> string" where
  "conversation_type_display Direct = ''direct''"
| "conversation_type_display Group = ''group''"
| "conversation_type_display Thread = ''thread''"
| "conversation_type_display BotSession = ''bot_session''"

record route_key =
  rk_channel :: channel_id
  rk_conversation_id :: string
  rk_peer_id :: string
  rk_conversation_type :: conversation_type

definition route_key_new ::
  "channel_id \<Rightarrow> string \<Rightarrow> string \<Rightarrow> conversation_type \<Rightarrow> route_key" where
  "route_key_new channel conversation_id peer_id ty =
     \<lparr> rk_channel = channel, rk_conversation_id = conversation_id,
       rk_peer_id = peer_id, rk_conversation_type = ty \<rparr>"

section \<open>Value objects: backpressure\<close>

record backpressure_config =
  per_route_buffer :: nat
  inbound_channel_capacity :: nat

definition backpressure_default :: backpressure_config where
  "backpressure_default = \<lparr> per_route_buffer = 256, inbound_channel_capacity = 4096 \<rparr>"

datatype backpressure_action = DropOldest | DropNewest | Block

section \<open>The entity message\<close>

datatype direction = Inbound | Outbound

datatype message_content =
    Text string
  | Image string "string option"
  | File string string nat
  | Unknown

datatype audit_mark =
    LateArrival nat
  | Duplicate
  | OutOfOrder int int

record message =
  m_id :: string
  m_route_key :: route_key
  m_sequence :: "int option"
  m_timestamp_ms :: int
  m_direction :: direction
  m_content :: message_content
  m_audit_mark :: "audit_mark option"

definition new_inbound ::
  "string \<Rightarrow> route_key \<Rightarrow> int option \<Rightarrow> int \<Rightarrow> message_content \<Rightarrow> message" where
  "new_inbound i rk sq ts content =
     \<lparr> m_id = i, m_route_key = rk, m_sequence = sq, m_timestamp_ms = ts,
       m_direction = Inbound, m_content = content, m_audit_mark = None \<rparr>"

text \<open>\<open>Message::sort_key\<close>: the sequence number if there is one, else the timestamp.\<close>

definition sort_key_of :: "message \<Rightarrow> int" where
  "sort_key_of m = (case m_sequence m of Some s \<Rightarrow> s | None \<Rightarrow> m_timestamp_ms m)"

section \<open>Errors\<close>

datatype channel_error =
    CTransport string
  | AuthExpired int string
  | CRateLimited nat
  | InvalidRecipient string
  | ContentRejected string
  | Unsupported string
  | CInternal string

fun channel_is_retryable :: "channel_error \<Rightarrow> bool" where
  "channel_is_retryable (CTransport _) = True"
| "channel_is_retryable (CRateLimited _) = True"
| "channel_is_retryable _ = False"

fun channel_is_terminal :: "channel_error \<Rightarrow> bool" where
  "channel_is_terminal (AuthExpired _ _) = True"
| "channel_is_terminal (InvalidRecipient _) = True"
| "channel_is_terminal (ContentRejected _) = True"
| "channel_is_terminal (Unsupported _) = True"
| "channel_is_terminal (CInternal _) = True"
| "channel_is_terminal _ = False"

fun channel_error_display :: "channel_error \<Rightarrow> string" where
  "channel_error_display (CTransport s) = ''transport error: '' @ s"
| "channel_error_display (AuthExpired code detail) =
     ''authentication expired (errcode='' @ show_int code @ ''): '' @ detail"
| "channel_error_display (CRateLimited n) = ''rate limited, retry after '' @ show_nat n @ ''s''"
| "channel_error_display (InvalidRecipient s) = ''invalid recipient: '' @ s"
| "channel_error_display (ContentRejected s) = ''content rejected: '' @ s"
| "channel_error_display (Unsupported s) = ''unsupported operation: '' @ s"
| "channel_error_display (CInternal s) = ''internal error: '' @ s"

definition channel_error_from_string :: "string \<Rightarrow> channel_error" where
  "channel_error_from_string s = CInternal s"

text \<open>
  \<open>PipelineError\<close>; the boxed source error of \<open>MiddlewareFailed\<close> is its rendered text.
\<close>

datatype pipeline_error =
    MiddlewareFailed string string
  | InvalidContext string
  | UpstreamUnavailable string
  | Shutdown

definition pipeline_error_from_string :: "string \<Rightarrow> pipeline_error" where
  "pipeline_error_from_string s = UpstreamUnavailable s"

datatype ai_error =
    ATransport string
  | Backend nat string
  | Timeout nat
  | ARateLimited nat
  | Refused string
  | NoBackend
  | AInternal string

fun ai_is_retryable :: "ai_error \<Rightarrow> bool" where
  "ai_is_retryable (ATransport _) = True"
| "ai_is_retryable (Timeout _) = True"
| "ai_is_retryable (ARateLimited _) = True"
| "ai_is_retryable _ = False"

fun ai_error_display :: "ai_error \<Rightarrow> string" where
  "ai_error_display (ATransport s) = ''backend transport error: '' @ s"
| "ai_error_display (Backend st b) = ''backend error: status='' @ show_nat st @ '' body='' @ b"
| "ai_error_display (Timeout n) = ''backend timeout after '' @ show_nat n @ ''ms''"
| "ai_error_display (ARateLimited n) = ''rate limited, retry after '' @ show_nat n @ ''s''"
| "ai_error_display (Refused s) = ''backend refused: '' @ s"
| "ai_error_display NoBackend = ''no AI backend configured''"
| "ai_error_display (AInternal s) = ''internal error: '' @ s"

definition ai_error_from_string :: "string \<Rightarrow> ai_error" where
  "ai_error_from_string s = Backend 0 s"

datatype media_error =
    Source string
  | TooLarge nat nat
  | Upload string
  | Send string

fun stage :: "media_error \<Rightarrow> string" where
  "stage (Source _) = ''source''"
| "stage (TooLarge _ _) = ''source''"
| "stage (Upload _) = ''upload''"
| "stage (Send _) = ''send''"

fun media_is_retryable :: "media_error \<Rightarrow> bool" where
  "media_is_retryable (Upload _) = True"
| "media_is_retryable (Send _) = True"
| "media_is_retryable _ = False"

fun media_error_display :: "media_error \<Rightarrow> string" where
  "media_error_display (Source s) = ''media source error: '' @ s"
| "media_error_display (TooLarge n l) =
     ''media too large: '' @ show_nat n @ '' bytes exceeds limit '' @ show_nat l"
| "media_error_display (Upload s) = ''media upload error: '' @ s"
| "media_error_display (Send s) = ''media send error: '' @ s"

section \<open>Repository errors\<close>

datatype repo_error = RepoDb string | NotFound string

fun repo_error_display :: "repo_error \<Rightarrow> string" where
  "repo_error_display (RepoDb s) = ''database error: '' @ s"
| "repo_error_display (NotFound s) = ''not found: '' @ s"

section \<open>Classification lemmas\<close>

text \<open>Every channel error is exactly one of retryable and terminal.\<close>

lemma channel_error_partition: "channel_is_retryable e \<noteq> channel_is_terminal e"
  by (cases e) simp_all

lemma conversation_type_display_inj:
  "conversation_type_display a = conversation_type_display b \<longleftrightarrow> a = b"
  by (cases a; cases b) simp_all

end
