(* ===== verification/Reorder.thy ===== *)
theory Reorder
  imports Domain
begin

text \<open>
  \<open>src/domain/services/reorder_window.rs\<close> and the aggregate of
  \<open>src/domain/aggregates/conversation.rs\<close> that owns a window.

  The \<open>BTreeMap<i64, Message>\<close> is the association list of its entries in strictly
  ascending key order; \<open>bt_insert\<close>, \<open>bt_remove\<close> and \<open>bt_range_to\<close> are the map's
  operations on that list. \<open>window_ms\<close> is a 64-bit word because the source
  reinterprets it as \<open>i64\<close>. \<open>Instant\<close> values are milliseconds of a monotonic clock and
  are passed in.
\<close>

section \<open>The ordered map\<close>

type_synonym btree = "(int \<times> message) list"

fun bt_insert :: "int \<Rightarrow> message \<Rightarrow> btree \<Rightarrow> btree" where
  "bt_insert k m [] = [(k, m)]"
| "bt_insert k m ((k', m') # t) =
     (if k < k' then (k, m) # (k', m') # t
      else if k = k' then (k, m) # t
      else (k', m') # bt_insert k m t)"

definition bt_remove :: "int \<Rightarrow> btree \<Rightarrow> btree" where
  "bt_remove k t = filter (\<lambda>(k', _). k' \<noteq> k) t"

definition bt_range_to :: "int \<Rightarrow> btree \<Rightarrow> message list" where
  "bt_range_to c t = map snd (filter (\<lambda>(k, _). k \<le> c) t)"

section \<open>The reorder window\<close>

record reorder_window =
  buffer :: btree
  window_ms :: "64 word"
  latest_arrival_ms :: int

definition window_new :: "64 word \<Rightarrow> reorder_window" where
  "window_new w = \<lparr> buffer = [], window_ms = w, latest_arrival_ms = 0 \<rparr>"

definition window_default :: reorder_window where
  "window_default = window_new 200"

text \<open>
  \<open>insert\<close>: the new state and the messages released. The \<open>for\<close> loop removes the
  released messages by their sort keys.
\<close>

definition window_insert :: "message \<Rightarrow> int \<Rightarrow> reorder_window \<Rightarrow> message list \<times> reorder_window" where
  "window_insert msg arrival_ms w =
     (let key = sort_key_of msg;
          buf = bt_insert key msg (buffer w);
          latest = max (latest_arrival_ms w) arrival_ms;
          cutoff = i64_saturating_sub latest (sint (window_ms w));
          ready = bt_range_to cutoff buf;
          buf' = fold (\<lambda>m b. bt_remove (sort_key_of m) b) ready buf
      in (ready, w\<lparr>buffer := buf', latest_arrival_ms := latest\<rparr>))"

definition handle_late :: "message \<Rightarrow> nat \<Rightarrow> message" where
  "handle_late msg delay_ms = msg\<lparr>m_audit_mark := Some (LateArrival delay_ms)\<rparr>"

definition flush_all :: "reorder_window \<Rightarrow> message list \<times> reorder_window" where
  "flush_all w = (map snd (buffer w), w\<lparr>buffer := []\<rparr>)"

definition window_len :: "reorder_window \<Rightarrow> nat" where
  "window_len w = length (buffer w)"

definition window_is_empty :: "reorder_window \<Rightarrow> bool" where
  "window_is_empty w = (buffer w = [])"

section \<open>The conversation aggregate\<close>

datatype conversation_state = Active | Idle | Closed

record conversation =
  cv_route_key :: route_key
  cv_participants :: "string list"
  cv_state :: conversation_state
  cv_window :: reorder_window
  cv_last_active :: nat

definition conversation_new :: "route_key \<Rightarrow> 64 word \<Rightarrow> nat \<Rightarrow> conversation" where
  "conversation_new rk w now =
     \<lparr> cv_route_key = rk, cv_participants = [], cv_state = Active,
       cv_window = window_new w, cv_last_active = now \<rparr>"

definition touch :: "nat \<Rightarrow> conversation \<Rightarrow> conversation" where
  "touch now c =
     (let c' = c\<lparr>cv_last_active := now\<rparr>
      in if cv_state c' = Idle then c'\<lparr>cv_state := Active\<rparr> else c')"

definition ingest :: "nat \<Rightarrow> int \<Rightarrow> message \<Rightarrow> conversation \<Rightarrow> message list \<times> conversation" where
  "ingest now now_ms msg c =
     (let c' = touch now c;
          (ready, w) = window_insert msg now_ms (cv_window c')
      in (ready, c'\<lparr>cv_window := w\<rparr>))"

definition is_idle :: "nat \<Rightarrow> nat \<Rightarrow> conversation \<Rightarrow> bool" where
  "is_idle now timeout c = (now - cv_last_active c > timeout)"

definition mark_idle :: "conversation \<Rightarrow> conversation" where
  "mark_idle c = c\<lparr>cv_state := Idle\<rparr>"

definition drain :: "conversation \<Rightarrow> message list \<times> conversation" where
  "drain c = (let (ms, w) = flush_all (cv_window c) in (ms, c\<lparr>cv_window := w\<rparr>))"

definition has_pending :: "conversation \<Rightarrow> bool" where
  "has_pending c = (\<not> window_is_empty (cv_window c))"

text \<open>\<open>ConversationSnapshot::from_conversation\<close>, the read-only view the pipeline gets.\<close>

record conversation_snapshot =
  cs_route_key :: route_key
  cs_conversation_id :: string
  cs_peer_id :: string
  cs_conversation_type :: conversation_type
  cs_participants :: "string list"
  cs_message_count :: nat
  cs_last_active_secs :: nat

definition from_conversation :: "nat \<Rightarrow> conversation \<Rightarrow> nat \<Rightarrow> conversation_snapshot" where
  "from_conversation now c message_count =
     \<lparr> cs_route_key = cv_route_key c,
       cs_conversation_id = rk_conversation_id (cv_route_key c),
       cs_peer_id = rk_peer_id (cv_route_key c),
       cs_conversation_type = rk_conversation_type (cv_route_key c),
       cs_participants = cv_participants c,
       cs_message_count = message_count,
       cs_last_active_secs = (now - cv_last_active c) div 1000 \<rparr>"

section \<open>The window invariant\<close>

text \<open>
  Keys ascend strictly and every entry is filed under its message's sort key.
\<close>

definition window_ok :: "reorder_window \<Rightarrow> bool" where
  "window_ok w \<longleftrightarrow>
     sorted_wrt (<) (map fst (buffer w)) \<and> (\<forall>(k, m) \<in> set (buffer w). sort_key_of m = k)"

lemma set_bt_insert:
  "sorted_wrt (<) (map fst t) \<Longrightarrow>
   set (bt_insert k m t) = insert (k, m) {p \<in> set t. fst p \<noteq> k}"
proof (induction t)
  case Nil
  then show ?case by simp
next
  case (Cons p t)
  obtain k' m' where p: "p = (k', m')" by force
  have "{q \<in> set t. fst q \<noteq> k} = set t" if "k \<le> k'"
    using Cons.prems p that by fastforce
  with Cons p show ?case by auto
qed

lemma sorted_bt_insert:
  "sorted_wrt (<) (map fst t) \<Longrightarrow> sorted_wrt (<) (map fst (bt_insert k m t))"
proof (induction t)
  case Nil
  then show ?case by simp
next
  case (Cons p t)
  obtain k' m' where p: "p = (k', m')" by force
  have sub: "fst ` set (bt_insert k m t) \<subseteq> insert k (fst ` set t)"
    using Cons.prems p by (auto simp: set_bt_insert)
  have "\<forall>q \<in> set (bt_insert k m t). k' < fst q" if "k' < k"
    using Cons.prems p that sub by fastforce
  with Cons p show ?case by (cases "k < k'"; cases "k = k'") auto
qed

lemma window_new_ok [simp]: "window_ok (window_new w)"
  by (simp add: window_ok_def window_new_def)

text \<open>Removing the released messages leaves exactly the entries above the cutoff.\<close>

lemma fold_bt_remove:
  "fold (\<lambda>m b. bt_remove (sort_key_of m) b) ms t =
   filter (\<lambda>(k, _). k \<notin> sort_key_of ` set ms) t"
proof (induction ms arbitrary: t)
  case Nil
  then show ?case by simp
next
  case (Cons m ms)
  then show ?case
    by (auto simp: bt_remove_def intro!: filter_cong)
qed

lemma released_keys:
  assumes "\<forall>(k, m) \<in> set t. sort_key_of m = k"
  shows "sort_key_of ` set (bt_range_to c t) = {k \<in> fst ` set t. k \<le> c}"
  using assms by (force simp: bt_range_to_def)

lemma remove_released:
  assumes "\<forall>(k, m) \<in> set t. sort_key_of m = k"
  shows "fold (\<lambda>m b. bt_remove (sort_key_of m) b) (bt_range_to c t) t =
         filter (\<lambda>(k, _). c < k) t"
proof -
  have "filter (\<lambda>(k, _). k \<notin> {k \<in> fst ` set t. k \<le> c}) t = filter (\<lambda>(k, _). c < k) t"
    by (rule filter_cong) (auto simp: rev_image_eqI)
  then show ?thesis
    by (simp add: fold_bt_remove released_keys [OF assms])
qed

lemma keys_bt_insert:
  assumes "window_ok w"
  shows "\<forall>(k, m) \<in> set (bt_insert (sort_key_of x) x (buffer w)). sort_key_of m = k"
  using assms by (auto simp: window_ok_def set_bt_insert)

text \<open>
  The effect of an insertion, in terms of the cutoff of the new state: what is at or
  below it is released, what is above it stays.
\<close>

definition cutoff :: "reorder_window \<Rightarrow> int" where
  "cutoff w = i64_saturating_sub (latest_arrival_ms w) (sint (window_ms w))"

lemma window_insert_effect:
  assumes "window_ok w" and "window_insert x t w = (ready, w')"
  defines "buf \<equiv> bt_insert (sort_key_of x) x (buffer w)"
  shows "ready = map snd (filter (\<lambda>(k, _). k \<le> cutoff w') buf)"
    and "buffer w' = filter (\<lambda>(k, _). cutoff w' < k) buf"
    and "latest_arrival_ms w' = max (latest_arrival_ms w) t"
    and "window_ms w' = window_ms w"
proof -
  have keys: "\<forall>(k, m) \<in> set buf. sort_key_of m = k"
    unfolding buf_def using assms(1) by (rule keys_bt_insert)
  from assms(2) show "latest_arrival_ms w' = max (latest_arrival_ms w) t"
    and "window_ms w' = window_ms w"
    by (auto simp: window_insert_def Let_def)
  then have cut: "cutoff w' = i64_saturating_sub (max (latest_arrival_ms w) t) (sint (window_ms w))"
    by (simp add: cutoff_def)
  from assms(2) show "ready = map snd (filter (\<lambda>(k, _). k \<le> cutoff w') buf)"
    unfolding cut buf_def by (auto simp: window_insert_def Let_def bt_range_to_def)
  from assms(2) have "buffer w' =
      fold (\<lambda>m b. bt_remove (sort_key_of m) b) (bt_range_to (cutoff w') buf) buf"
    unfolding cut buf_def by (auto simp: window_insert_def Let_def)
  also have "\<dots> = filter (\<lambda>(k, _). cutoff w' < k) buf"
    using keys by (rule remove_released)
  finally show "buffer w' = filter (\<lambda>(k, _). cutoff w' < k) buf" .
qed

lemma sorted_wrt_map_filter:
  "sorted_wrt R (map f t) \<Longrightarrow> sorted_wrt R (map f (filter p t))"
  by (induction t) auto

lemma window_insert_ok:
  assumes "window_ok w" and "window_insert x t w = (ready, w')"
  shows "window_ok w'"
proof -
  have "sorted_wrt (<) (map fst (bt_insert (sort_key_of x) x (buffer w)))"
    using assms(1) by (auto simp: window_ok_def intro: sorted_bt_insert)
  then have "sorted_wrt (<) (map fst (buffer w'))"
    by (simp add: window_insert_effect(2) [OF assms] sorted_wrt_map_filter)
  moreover have "\<forall>(k, m) \<in> set (buffer w'). sort_key_of m = k"
    using keys_bt_insert [OF assms(1), of x]
    by (auto simp: window_insert_effect(2) [OF assms])
  ultimately show ?thesis by (simp add: window_ok_def)
qed

lemma map_snd_keys:
  assumes "\<forall>(k, m) \<in> set t. sort_key_of m = k"
  shows "map sort_key_of (map snd t) = map fst t"
  using assms by (induction t) auto

lemma filter_keys:
  "\<forall>(k, m) \<in> set t. sort_key_of m = k \<Longrightarrow>
   \<forall>(k, m) \<in> set (filter p t). sort_key_of m = k"
  by auto

text \<open>A batch of released messages is in strictly ascending sort-key order.\<close>

lemma window_insert_sorted:
  assumes "window_ok w" and "window_insert x t w = (ready, w')"
  shows "sorted_wrt (<) (map sort_key_of ready)"
proof -
  let ?buf = "bt_insert (sort_key_of x) x (buffer w)"
  have "map sort_key_of ready = map fst (filter (\<lambda>(k, _). k \<le> cutoff w') ?buf)"
    unfolding window_insert_effect(1) [OF assms]
    by (rule map_snd_keys) (rule filter_keys [OF keys_bt_insert [OF assms(1)]])
  moreover have "sorted_wrt (<) (map fst ?buf)"
    using assms(1) by (auto simp: window_ok_def intro: sorted_bt_insert)
  ultimately show ?thesis by (simp add: sorted_wrt_map_filter)
qed

lemma flush_all_sorted:
  assumes "window_ok w"
  shows "sorted_wrt (<) (map sort_key_of (fst (flush_all w)))"
proof -
  have "map sort_key_of (map snd (buffer w)) = map fst (buffer w)"
    by (rule map_snd_keys) (use assms in \<open>simp add: window_ok_def\<close>)
  then show ?thesis using assms by (simp add: flush_all_def window_ok_def del: map_map)
qed

lemma flush_all_ok: "window_ok (snd (flush_all w))"
  by (simp add: flush_all_def window_ok_def)

section \<open>Runs of a window\<close>

text \<open>Feeding a sequence of arrivals: everything released, in order, and the final state.\<close>

fun window_run :: "(message \<times> int) list \<Rightarrow> reorder_window \<Rightarrow> message list \<times> reorder_window" where
  "window_run [] w = ([], w)"
| "window_run ((x, t) # xs) w =
     (let (ready, w') = window_insert x t w; (rest, w'') = window_run xs w'
      in (ready @ rest, w''))"

text \<open>An arrival is on time if its key lies above the cutoff it meets.\<close>

fun on_time :: "(message \<times> int) list \<Rightarrow> reorder_window \<Rightarrow> bool" where
  "on_time [] w = True"
| "on_time ((x, t) # xs) w =
     (cutoff w < sort_key_of x \<and> on_time xs (snd (window_insert x t w)))"

definition buffered :: "reorder_window \<Rightarrow> message multiset" where
  "buffered w = mset (map snd (buffer w))"

lemma mset_bt_insert:
  assumes "sorted_wrt (<) (map fst t)"
  shows "mset (bt_insert k m t) = add_mset (k, m) (filter_mset (\<lambda>p. fst p \<noteq> k) (mset t))"
  using assms
proof (induction t)
  case Nil
  then show ?case by simp
next
  case (Cons p t)
  obtain k' m' where p: "p = (k', m')" by force
  have "filter_mset (\<lambda>q. fst q \<noteq> k) (mset t) = mset t" if "k \<le> k'"
    using Cons.prems p that by (intro filter_mset_eq_conv [THEN iffD2]) fastforce
  with Cons p show ?case by auto
qed

lemma mset_split_cutoff:
  "mset (map snd (filter (\<lambda>(k, _). k \<le> c) t)) + mset (map snd (filter (\<lambda>(k, _). c < k) t)) =
   mset (map snd t)" for c :: int
  by (induction t) auto

text \<open>
  Conservation: what an insertion releases and what it keeps is the new message and
  the messages held before, less the one filed under the same sort key.
\<close>

lemma window_insert_mset:
  assumes "window_ok w" and "window_insert x t w = (ready, w')"
  shows "mset ready + buffered w' =
         add_mset x (filter_mset (\<lambda>m. sort_key_of m \<noteq> sort_key_of x) (buffered w))"
proof -
  let ?buf = "bt_insert (sort_key_of x) x (buffer w)"
  have "mset ready + buffered w' = mset (map snd ?buf)"
    unfolding buffered_def window_insert_effect(1,2) [OF assms] by (rule mset_split_cutoff)
  also have "\<dots> = add_mset x (image_mset snd
      (filter_mset (\<lambda>p. fst p \<noteq> sort_key_of x) (mset (buffer w))))"
    using assms(1) by (simp add: mset_bt_insert window_ok_def)
  also have "image_mset snd (filter_mset (\<lambda>p. fst p \<noteq> sort_key_of x) (mset (buffer w))) =
      filter_mset (\<lambda>m. sort_key_of m \<noteq> sort_key_of x) (buffered w)"
    using assms(1)
    by (auto simp: buffered_def filter_mset_image_mset window_ok_def
        intro!: arg_cong [where f = "image_mset snd"] filter_mset_cong)
  finally show ?thesis .
qed

lemma window_run_ok:
  assumes "window_ok w" and "window_run xs w = (out, w')"
  shows "window_ok w'"
  using assms
proof (induction xs w arbitrary: out w' rule: window_run.induct)
  case (1 w)
  then show ?case by simp
next
  case (2 x t xs w)
  obtain r1 w1 where ins: "window_insert x t w = (r1, w1)" by force
  obtain r2 w2 where run: "window_run xs w1 = (r2, w2)" by force
  from "2.prems"(2) ins run have "w' = w2" by auto
  with "2.IH" [OF ins [symmetric] refl window_insert_ok [OF "2.prems"(1) ins] run]
  show ?case by simp
qed

lemma window_run_mset:
  assumes "window_ok w" and "window_run xs w = (out, w')"
    and "distinct (map (sort_key_of \<circ> fst) xs)"
    and "\<forall>m \<in># buffered w. \<forall>p \<in> set xs. sort_key_of m \<noteq> sort_key_of (fst p)"
  shows "mset out + buffered w' = mset (map fst xs) + buffered w"
  using assms
proof (induction xs w arbitrary: out w' rule: window_run.induct)
  case (1 w)
  then show ?case by simp
next
  case (2 x t xs w)
  obtain r1 w1 where ins: "window_insert x t w = (r1, w1)" by force
  obtain r2 w2 where run: "window_run xs w1 = (r2, w2)" by force
  from "2.prems"(2) ins run have out: "out = r1 @ r2" "w' = w2" by auto
  have "\<forall>m \<in># buffered w. sort_key_of m \<noteq> sort_key_of x"
    using "2.prems"(4) by auto
  then have fresh: "filter_mset (\<lambda>m. sort_key_of m \<noteq> sort_key_of x) (buffered w) = buffered w"
    by (simp add: filter_mset_eq_conv)
  have step: "mset r1 + buffered w1 = add_mset x (buffered w)"
    using window_insert_mset [OF "2.prems"(1) ins] by (simp add: fresh)
  then have "set_mset (buffered w1) \<subseteq> insert x (set_mset (buffered w))"
    by (metis mset_subset_eq_add_right set_mset_add_mset_insert set_mset_mono)
  moreover have "\<forall>p \<in> set xs. sort_key_of x \<noteq> sort_key_of (fst p)"
    using "2.prems"(3) by (auto simp: image_iff)
  ultimately have disj: "\<forall>m \<in># buffered w1. \<forall>p \<in> set xs. sort_key_of m \<noteq> sort_key_of (fst p)"
    using "2.prems"(4) by auto
  have "mset r2 + buffered w2 = mset (map fst xs) + buffered w1"
    using "2.IH" [OF ins [symmetric] refl window_insert_ok [OF "2.prems"(1) ins] run _ disj]
      "2.prems"(3) by auto
  with out step show ?case by (simp add: ac_simps)
qed

lemma window_insert_above:
  assumes "window_ok w" and "window_insert x t w = (ready, w')"
    and "\<forall>m \<in># buffered w. c < sort_key_of m" and "c < sort_key_of x"
  shows "\<forall>m \<in> set ready. c < sort_key_of m"
proof -
  have "set ready \<subseteq> insert x (set_mset (buffered w))"
  proof -
    have "set_mset (mset ready) \<subseteq> set_mset (mset ready + buffered w')" by simp
    also have "\<dots> \<subseteq> insert x (set_mset (buffered w))"
      unfolding window_insert_mset [OF assms(1,2)] by auto
    finally show ?thesis by simp
  qed
  with assms(3,4) show ?thesis by auto
qed

lemma window_insert_cut:
  assumes "window_ok w" and "window_insert x t w = (ready, w')"
  shows "\<forall>m \<in> set ready. sort_key_of m \<le> cutoff w'"
    and "\<forall>m \<in># buffered w'. cutoff w' < sort_key_of m"
  using keys_bt_insert [OF assms(1), of x]
  by (auto simp: window_insert_effect(1,2) [OF assms] buffered_def)

text \<open>
  If every arrival is on time, the concatenation of all batches ascends strictly.
\<close>

lemma window_run_sorted:
  assumes "window_ok w" and "window_run xs w = (out, w')" and "on_time xs w"
    and "\<forall>m \<in># buffered w. cutoff w < sort_key_of m"
  shows "sorted_wrt (<) (map sort_key_of out) \<and> (\<forall>m \<in> set out. cutoff w < sort_key_of m)"
  using assms
proof (induction xs w arbitrary: out w' rule: window_run.induct)
  case (1 w)
  then show ?case by simp
next
  case (2 x t xs w)
  obtain r1 w1 where ins: "window_insert x t w = (r1, w1)" by force
  obtain r2 w2 where run: "window_run xs w1 = (r2, w2)" by force
  from "2.prems"(2) ins run have out: "out = r1 @ r2" by auto
  from "2.prems"(3) ins have ot: "cutoff w < sort_key_of x" "on_time xs w1" by auto
  note cut = window_insert_cut [OF "2.prems"(1) ins]
  have IH: "sorted_wrt (<) (map sort_key_of r2) \<and> (\<forall>m \<in> set r2. cutoff w1 < sort_key_of m)"
    using "2.IH" [OF ins [symmetric] refl window_insert_ok [OF "2.prems"(1) ins] run ot(2) cut(2)] .
  have r1: "\<forall>m \<in> set r1. cutoff w < sort_key_of m"
    by (rule window_insert_above [OF "2.prems"(1) ins "2.prems"(4) ot(1)])
  have mono: "cutoff w \<le> cutoff w1"
    by (simp add: cutoff_def window_insert_effect(3,4) [OF "2.prems"(1) ins]
        i64_saturating_sub_def)
  have "sorted_wrt (<) (map sort_key_of (r1 @ r2))"
    using IH cut(1) window_insert_sorted [OF "2.prems"(1) ins]
    by (fastforce simp: sorted_wrt_append)
  then show ?case using IH r1 mono by (auto simp: out)
qed

lemma window_run_cut:
  assumes "window_ok w" and "window_run xs w = (out, w')"
    and "\<forall>m \<in># buffered w. cutoff w < sort_key_of m"
  shows "(\<forall>m \<in># buffered w'. cutoff w' < sort_key_of m) \<and> cutoff w \<le> cutoff w' \<and>
         (\<forall>m \<in> set out. sort_key_of m \<le> cutoff w')"
  using assms
proof (induction xs w arbitrary: out w' rule: window_run.induct)
  case (1 w)
  then show ?case by simp
next
  case (2 x t xs w)
  obtain r1 w1 where ins: "window_insert x t w = (r1, w1)" by force
  obtain r2 w2 where run: "window_run xs w1 = (r2, w2)" by force
  from "2.prems"(2) ins run have out: "out = r1 @ r2" "w' = w2" by auto
  note cut = window_insert_cut [OF "2.prems"(1) ins]
  have IH: "(\<forall>m \<in># buffered w2. cutoff w2 < sort_key_of m) \<and> cutoff w1 \<le> cutoff w2 \<and>
      (\<forall>m \<in> set r2. sort_key_of m \<le> cutoff w2)"
    using "2.IH" [OF ins [symmetric] refl window_insert_ok [OF "2.prems"(1) ins] run cut(2)] .
  have "cutoff w \<le> cutoff w1"
    by (simp add: cutoff_def window_insert_effect(3,4) [OF "2.prems"(1) ins] i64_saturating_sub_def)
  with IH cut(1) out show ?case by force
qed

lemma set_flush_all: "set (fst (flush_all w)) = set_mset (buffered w)"
  by (simp add: flush_all_def buffered_def)

section \<open>Properties\<close>

text \<open>
  C24. A window that receives messages with pairwise different sort keys loses none and
  duplicates none: what it released over the whole run together with what a final
  \<open>flush_all\<close> returns is exactly the collection of the messages received.
\<close>

theorem reorder_exactly_once:
  assumes "window_run xs (window_new ms) = (out, w)"
    and "distinct (map (sort_key_of \<circ> fst) xs)"
  shows "mset (out @ fst (flush_all w)) = mset (map fst xs)"
  using window_run_mset [OF window_new_ok assms]
  by (simp add: buffered_def flush_all_def window_new_def)

definition sample_key :: route_key where
  "sample_key = route_key_new (ChannelId ''wechat'') ''c1'' ''u1'' Direct"

definition sample_msg :: "string \<Rightarrow> int \<Rightarrow> message" where
  "sample_msg i ts = new_inbound i sample_key None ts (Text i)"

lemmas sample_simps = sample_msg_def new_inbound_def sort_key_of_def

theorem reorder_exactly_once_witness:
  "mset (fst (window_run [(sample_msg ''b'' 1300, 1310), (sample_msg ''a'' 1200, 1320)] (window_new 200)) @
         fst (flush_all (snd (window_run [(sample_msg ''b'' 1300, 1310), (sample_msg ''a'' 1200, 1320)]
           (window_new 200))))) =
   {# sample_msg ''b'' 1300, sample_msg ''a'' 1200 #}"
  using reorder_exactly_once
    [of "[(sample_msg ''b'' 1300, 1310), (sample_msg ''a'' 1200, 1320)]" 200, OF surjective_pairing]
  by (simp add: sample_simps add_mset_commute)

text \<open>
  C37. If every message arrives before the window has moved past its sort key, the
  sequence of everything released, batch after batch and then the final \<open>flush_all\<close>,
  is in strictly ascending sort-key order, however the arrivals were interleaved.
\<close>

theorem reorder_in_order:
  assumes "window_run xs (window_new ms) = (out, w)" and "on_time xs (window_new ms)"
  shows "sorted_wrt (<) (map sort_key_of (out @ fst (flush_all w)))"
proof -
  have empty: "\<forall>m \<in># buffered (window_new ms). cutoff (window_new ms) < sort_key_of m"
    by (simp add: buffered_def window_new_def)
  have "sorted_wrt (<) (map sort_key_of out)"
    using window_run_sorted [OF window_new_ok assms empty] by simp
  moreover have "sorted_wrt (<) (map sort_key_of (fst (flush_all w)))"
    by (rule flush_all_sorted) (rule window_run_ok [OF window_new_ok assms(1)])
  ultimately show ?thesis
    using window_run_cut [OF window_new_ok assms(1) empty]
    by (fastforce simp: sorted_wrt_append set_flush_all)
qed

theorem reorder_in_order_witness:
  "sorted_wrt (<) (map sort_key_of
     (fst (window_run [(sample_msg ''b'' 1300, 1310), (sample_msg ''a'' 1200, 1320), (sample_msg ''c'' 1400, 1500)]
        (window_new 200)) @
      fst (flush_all (snd (window_run [(sample_msg ''b'' 1300, 1310), (sample_msg ''a'' 1200, 1320),
        (sample_msg ''c'' 1400, 1500)] (window_new 200))))))"
  by (rule reorder_in_order [of "[(sample_msg ''b'' 1300, 1310), (sample_msg ''a'' 1200, 1320),
      (sample_msg ''c'' 1400, 1500)]" 200, OF surjective_pairing])
    (simp add: sample_simps cutoff_def window_new_def window_insert_def Let_def
      i64_saturating_sub_def i64_min_def i64_max_def bt_range_to_def bt_remove_def)

text \<open>
  One insertion into a well-formed window: the window stays well formed; the
  released batch ascends and lies at or below the new cutoff (latest arrival minus
  window, saturating); everything kept lies above it; and released and kept messages
  together are the new one and the old ones with a different sort key.
\<close>

theorem window_insert_spec:
  assumes "window_ok w" and "window_insert x t w = (ready, w')"
  shows "window_ok w' \<and> sorted_wrt (<) (map sort_key_of ready) \<and>
    (\<forall>m \<in> set ready. sort_key_of m \<le> cutoff w') \<and> (\<forall>m \<in># buffered w'. cutoff w' < sort_key_of m) \<and>
    mset ready + buffered w' =
      add_mset x (filter_mset (\<lambda>m. sort_key_of m \<noteq> sort_key_of x) (buffered w))"
  using window_insert_ok [OF assms] window_insert_sorted [OF assms] window_insert_cut [OF assms]
    window_insert_mset [OF assms]
  by blast

theorem window_insert_spec_witness:
  "window_ok (snd (window_insert (sample_msg ''a'' 1000) 1300 (window_new 200))) \<and>
   fst (window_insert (sample_msg ''a'' 1000) 1300 (window_new 200)) = [sample_msg ''a'' 1000]"
  using window_insert_spec [of "window_new 200" "sample_msg ''a'' 1000" 1300, OF window_new_ok surjective_pairing]
  by (simp add: window_insert_def Let_def sample_simps window_new_def bt_range_to_def
      i64_saturating_sub_def i64_min_def i64_max_def)

text \<open>
  Messages are filed by sort key alone: a second message with the sort key of one
  that is still buffered takes its place, and the first is neither released nor kept.
\<close>

theorem same_sort_key_overwrites:
  assumes "window_ok w" and "x \<in># buffered w" and "sort_key_of y = sort_key_of x" and "y \<noteq> x"
    and "window_insert y t w = (ready, w')"
  shows "x \<notin> set ready \<and> x \<notin># buffered w'"
proof -
  have "x \<notin># mset ready + buffered w'"
    unfolding window_insert_mset [OF assms(1,5)] using assms(3,4) by auto
  then show ?thesis by simp
qed

theorem same_sort_key_overwrites_witness:
  "(let w = snd (window_insert (sample_msg ''x'' 1000) 1010 (window_new 200));
        (ready, w') = window_insert (sample_msg ''y'' 1000) 1020 w
    in sample_msg ''x'' 1000 \<in># buffered w \<and>
       sample_msg ''x'' 1000 \<notin> set ready \<and> sample_msg ''x'' 1000 \<notin># buffered w')"
proof -
  let ?w = "snd (window_insert (sample_msg ''x'' 1000) 1010 (window_new 200))"
  have ok: "window_ok ?w" by (rule window_insert_ok [OF window_new_ok surjective_pairing])
  have buf: "sample_msg ''x'' 1000 \<in># buffered ?w"
    by (simp add: window_insert_def Let_def sample_simps window_new_def bt_range_to_def buffered_def
        i64_saturating_sub_def i64_min_def i64_max_def)
  show ?thesis
    using same_sort_key_overwrites [OF ok buf, of "sample_msg ''y'' 1000" 1020, OF _ _ surjective_pairing] buf
    by (simp add: sample_simps split_beta Let_def)
qed

end
