(* ===== verification/Storage.thy ===== *)
theory Storage
  imports Domain
begin

text \<open>
  The persisted records of \<open>src/infrastructure/storage\<close>: inbox, outbox and dead-letter
  entries with their status alphabets, and the retry policy.

  An outbox record carries its status either as the enum (an entry, in memory) or as the
  text stored in the table (a row); the record type has the status type as a parameter.
  Retry counters are 32-bit words, delays are \<open>u64\<close> naturals with explicit saturation.
  The product \<open>capped as f64 * jitter\<close>, truncated to \<open>u64\<close>, is IEEE arithmetic that the
  model does not rebuild: the configuration holds it as the function
  \<open>jitter_range_of\<close>, and nothing is assumed of it except where a lemma says so.
\<close>

section \<open>Inbox\<close>

datatype inbox_status = IPending | IProcessing | IProcessed

fun inbox_status_as_str :: "inbox_status \<Rightarrow> string" where
  "inbox_status_as_str IPending = ''pending''"
| "inbox_status_as_str IProcessing = ''processing''"
| "inbox_status_as_str IProcessed = ''processed''"

definition inbox_status_parse :: "string \<Rightarrow> inbox_status option" where
  "inbox_status_parse s =
     (if s = ''pending'' then Some IPending
      else if s = ''processing'' then Some IProcessing
      else if s = ''processed'' then Some IProcessed
      else None)"

record 'st inbox_rec =
  ib_id :: string
  ib_channel :: string
  ib_conversation_id :: string
  ib_payload :: string
  ib_status :: 'st
  ib_created_at :: int
  ib_updated_at :: int

type_synonym inbox_entry = "inbox_status inbox_rec"

type_synonym inbox_row = "string inbox_rec"

definition inbox_entry_new :: "string \<Rightarrow> string \<Rightarrow> string \<Rightarrow> string \<Rightarrow> int \<Rightarrow> inbox_entry" where
  "inbox_entry_new i channel conversation_id payload now =
     \<lparr> ib_id = i, ib_channel = channel, ib_conversation_id = conversation_id,
       ib_payload = payload, ib_status = IPending, ib_created_at = now, ib_updated_at = now \<rparr>"

section \<open>Outbox\<close>

datatype outbox_status = Pending | Sending | Sent | Retrying | DeadLetter

fun outbox_status_as_str :: "outbox_status \<Rightarrow> string" where
  "outbox_status_as_str Pending = ''pending''"
| "outbox_status_as_str Sending = ''sending''"
| "outbox_status_as_str Sent = ''sent''"
| "outbox_status_as_str Retrying = ''retrying''"
| "outbox_status_as_str DeadLetter = ''dead_letter''"

definition outbox_status_parse :: "string \<Rightarrow> outbox_status option" where
  "outbox_status_parse s =
     (if s = ''pending'' then Some Pending
      else if s = ''sending'' then Some Sending
      else if s = ''sent'' then Some Sent
      else if s = ''retrying'' then Some Retrying
      else if s = ''dead_letter'' then Some DeadLetter
      else None)"

record 'st outbox_rec =
  ob_id :: string
  ob_route_key :: string
  ob_payload :: string
  ob_status :: 'st
  ob_retry_count :: "32 word"
  ob_next_retry_at :: "int option"
  ob_last_error :: "string option"
  ob_created_at :: int
  ob_updated_at :: int

type_synonym outbox_entry = "outbox_status outbox_rec"

type_synonym outbox_row = "string outbox_rec"

definition outbox_entry_new :: "string \<Rightarrow> string \<Rightarrow> string \<Rightarrow> int \<Rightarrow> outbox_entry" where
  "outbox_entry_new i route_key payload now =
     \<lparr> ob_id = i, ob_route_key = route_key, ob_payload = payload, ob_status = Pending,
       ob_retry_count = 0, ob_next_retry_at = None, ob_last_error = None,
       ob_created_at = now, ob_updated_at = now \<rparr>"

section \<open>Dead letters\<close>

record dead_letter_entry =
  dl_id :: string
  dl_source :: string
  dl_payload :: string
  dl_reason :: string
  dl_created_at :: int

definition dead_letter_entry_new ::
  "string \<Rightarrow> string \<Rightarrow> string \<Rightarrow> string \<Rightarrow> int \<Rightarrow> dead_letter_entry" where
  "dead_letter_entry_new i source payload reason now =
     \<lparr> dl_id = i, dl_source = source, dl_payload = payload, dl_reason = reason,
       dl_created_at = now \<rparr>"

section \<open>Retry policy\<close>

record retry_config =
  max_retries :: "32 word"
  base_backoff_ms :: nat
  max_backoff_ms :: nat
  jitter_range_of :: "nat \<Rightarrow> nat"

definition retry_default :: "(nat \<Rightarrow> nat) \<Rightarrow> retry_config" where
  "retry_default jitter =
     \<lparr> max_retries = 5, base_backoff_ms = 1000, max_backoff_ms = 60000,
       jitter_range_of = jitter \<rparr>"

definition next_delay_ms :: "retry_config \<Rightarrow> 32 word \<Rightarrow> nat" where
  "next_delay_ms c retry_count =
     (let base = u64_saturating_mul (base_backoff_ms c) (u64_saturating_pow 2 (unat retry_count));
          capped = min base (max_backoff_ms c);
          jitter_range = jitter_range_of c capped;
          with_jitter = (if 0 < jitter_range
                         then u64_saturating_add capped (unat retry_count * 7 mod jitter_range)
                         else capped)
      in min with_jitter (max_backoff_ms c))"

section \<open>Lemmas\<close>

lemma inbox_status_roundtrip: "inbox_status_parse (inbox_status_as_str s) = Some s"
  by (cases s) (simp_all add: inbox_status_parse_def)

lemma outbox_status_roundtrip [simp]: "outbox_status_parse (outbox_status_as_str s) = Some s"
  by (cases s) (simp_all add: outbox_status_parse_def)

lemma outbox_status_as_str_inj [simp]:
  "outbox_status_as_str a = outbox_status_as_str b \<longleftrightarrow> a = b"
  by (metis option.inject outbox_status_roundtrip)

lemma outbox_status_parse_Some: "outbox_status_parse t = Some s \<Longrightarrow> t = outbox_status_as_str s"
  by (auto simp: outbox_status_parse_def split: if_splits)

text \<open>The delay before jitter.\<close>

definition capped_delay :: "retry_config \<Rightarrow> 32 word \<Rightarrow> nat" where
  "capped_delay c n =
     min (u64_saturating_mul (base_backoff_ms c) (u64_saturating_pow 2 (unat n))) (max_backoff_ms c)"

lemma capped_le_next_delay:
  "capped_delay c n \<le> next_delay_ms c n"
proof -
  have "capped_delay c n \<le> u64_max"
    by (simp add: capped_delay_def u64_saturating_mul_def)
  then show ?thesis
    by (auto simp: next_delay_ms_def Let_def u64_saturating_add_def capped_delay_def [symmetric])
      (simp_all add: capped_delay_def)
qed

lemma next_delay_le_twice:
  assumes "jitter_range_of c (capped_delay c n) \<le> capped_delay c n"
  shows "next_delay_ms c n \<le> 2 * capped_delay c n"
proof -
  let ?j = "jitter_range_of c (capped_delay c n)"
  have "unat n * 7 mod ?j \<le> capped_delay c n" if "0 < ?j"
    using mod_less_divisor [OF that, of "unat n * 7"] assms by linarith
  then show ?thesis
    by (auto simp: next_delay_ms_def Let_def u64_saturating_add_def capped_delay_def [symmetric]
        min_le_iff_disj)
qed

lemma next_delay_le_u64:
  assumes "max_backoff_ms c \<le> u64_max"
  shows "next_delay_ms c n \<le> u64_max"
  using assms by (auto simp: next_delay_ms_def Let_def)

lemma next_delay_le_max: "next_delay_ms c n \<le> max_backoff_ms c"
  by (simp add: next_delay_ms_def Let_def)

lemma unat_Suc_word: "n \<noteq> -1 \<Longrightarrow> unat (n + 1) = Suc (unat n)" for n :: "32 word"
  using unat_eq_0 [of "n + 1"] by (simp add: unatSuc eq_neg_iff_add_eq_0 add.commute)

lemma min_double:
  fixes a b u m :: nat
  assumes "min u (2 * a) \<le> b"
  shows "min (2 * min a m) (min u m) \<le> min b m"
  using assms by (auto simp: min_def split: if_splits)

lemma saturating_double:
  "min u (2 * min u (b * q)) \<le> min u (b * min u (2 * q))" for u b q :: nat
proof (cases "b = 0")
  case False
  then have "u \<le> b * u" by simp
  then show ?thesis by (auto simp: min_def)
qed simp

lemma capped_doubles:
  assumes "n \<noteq> -1"
  shows "min (2 * capped_delay c n) (min u64_max (max_backoff_ms c)) \<le> capped_delay c (n + 1)"
proof -
  let ?p = "2 ^ unat n :: nat"
  have "min u64_max (2 * min u64_max ?p) = min u64_max (2 * ?p)"
    by (simp add: min_def)
  then have "min u64_max (2 * min u64_max (base_backoff_ms c * min u64_max ?p))
      \<le> min u64_max (base_backoff_ms c * min u64_max (2 * ?p))"
    using saturating_double [of u64_max "base_backoff_ms c" "min u64_max ?p"] by simp
  from min_double [OF this, of "max_backoff_ms c"] show ?thesis
    by (simp add: capped_delay_def u64_saturating_mul_def u64_saturating_pow_def unat_Suc_word [OF assms])
qed

text \<open>Delays never shrink as long as the jitter is at most the delay it is added to.\<close>

lemma next_delay_mono:
  assumes "n \<noteq> -1" and "max_backoff_ms c \<le> u64_max"
    and "\<And>d. jitter_range_of c d \<le> d"
  shows "next_delay_ms c n \<le> next_delay_ms c (n + 1)"
proof -
  have "next_delay_ms c n \<le> min (2 * capped_delay c n) (min u64_max (max_backoff_ms c))"
    using next_delay_le_twice [OF assms(3)] next_delay_le_u64 [OF assms(2)] next_delay_le_max by simp
  also have "\<dots> \<le> capped_delay c (n + 1)" by (rule capped_doubles [OF assms(1)])
  also have "\<dots> \<le> next_delay_ms c (n + 1)" by (rule capped_le_next_delay)
  finally show ?thesis .
qed

section \<open>Properties\<close>

text \<open>
  The retry delay is at least the capped exponential delay and never above the
  configured maximum, whatever the jitter product is; and if the jitter range is at most
  the delay it is taken of, delays never shrink from one retry to the next.
\<close>

theorem retry_delay_bounds:
  shows "capped_delay c n \<le> next_delay_ms c n \<and> next_delay_ms c n \<le> max_backoff_ms c \<and>
    (n \<noteq> -1 \<and> max_backoff_ms c \<le> u64_max \<and> (\<forall>d. jitter_range_of c d \<le> d) \<longrightarrow>
       next_delay_ms c n \<le> next_delay_ms c (n + 1))"
  using capped_le_next_delay next_delay_le_max next_delay_mono by blast

theorem retry_delay_bounds_witness:
  "next_delay_ms (retry_default (\<lambda>d. d div 4)) 2 \<le> next_delay_ms (retry_default (\<lambda>d. d div 4)) 3 \<and>
   next_delay_ms (retry_default (\<lambda>d. d div 4)) 2 = 4014"
  using retry_delay_bounds [of "retry_default (\<lambda>d. d div 4)" 2]
  by (simp add: retry_default_def u64_max_def next_delay_ms_def Let_def u64_saturating_mul_def
      u64_saturating_pow_def u64_saturating_add_def)

end
