(* ===== verification/Audit_Chain.thy ===== *)
theory Audit_Chain
  imports Magiclaw_Prelude
begin

text \<open>
  \<open>src/domain/services/audit_chain.rs\<close>: the hash chain of the audit log.

  SHA-256 comes from the crate \<open>sha2\<close>; it is the parameter \<open>sha\<close>, a function on
  byte lists. What the chain relies on, that no two of the inputs in question collide,
  is a hypothesis of the theorems that need it. Everything else (hexadecimal encoding,
  the layout of the hashed bytes, the walk over the rows) is the source's own code.
\<close>

type_synonym bytes = "8 word list"

type_synonym digest = "bytes \<Rightarrow> bytes"

definition byte_of :: "char \<Rightarrow> 8 word" where
  "byte_of c = word_of_nat (of_char c)"

definition as_bytes :: "string \<Rightarrow> bytes" where
  "as_bytes s = map byte_of s"

text \<open>\<open>i64::to_be_bytes\<close>: eight bytes, most significant first.\<close>

definition to_be_bytes :: "64 word \<Rightarrow> bytes" where
  "to_be_bytes w = map (\<lambda>i. ucast (drop_bit (8 * i) w)) [7, 6, 5, 4, 3, 2, 1, 0]"

definition hex_digit :: "8 word \<Rightarrow> char" where
  "hex_digit b = ''0123456789abcdef'' ! unat b"

definition to_hex :: "bytes \<Rightarrow> string" where
  "to_hex bs = concat (map (\<lambda>b. [hex_digit (drop_bit 4 b), hex_digit (take_bit 4 b)]) bs)"

datatype chain_error =
    HeadMismatch int "string option" "string option"
  | HashMismatch int string string

record chain_row =
  cr_id :: int
  cr_prev_hash :: "string option"
  cr_entry_hash :: string
  cr_route_key :: "string option"
  cr_action :: string
  cr_result :: string
  cr_created_at :: int

text \<open>The bytes fed to the hasher, one \<open>update\<close> after the other.\<close>

definition hash_input :: "string \<Rightarrow> string \<Rightarrow> string \<Rightarrow> string \<Rightarrow> int \<Rightarrow> bytes" where
  "hash_input prev_hash route_key action result created_at =
     as_bytes prev_hash @ as_bytes ''|'' @ as_bytes route_key @ as_bytes ''|'' @
     as_bytes action @ as_bytes ''|'' @ as_bytes result @ as_bytes ''|'' @
     to_be_bytes (word_of_int created_at)"

definition compute_entry_hash ::
  "digest \<Rightarrow> string \<Rightarrow> string \<Rightarrow> string \<Rightarrow> string \<Rightarrow> int \<Rightarrow> string" where
  "compute_entry_hash sha prev_hash route_key action result created_at =
     to_hex (sha (hash_input prev_hash route_key action result created_at))"

definition or_empty :: "string option \<Rightarrow> string" where
  "or_empty s = (case s of Some x \<Rightarrow> x | None \<Rightarrow> '''')"

definition row_hash :: "digest \<Rightarrow> chain_row \<Rightarrow> string" where
  "row_hash sha row =
     compute_entry_hash sha (or_empty (cr_prev_hash row)) (or_empty (cr_route_key row))
       (cr_action row) (cr_result row) (cr_created_at row)"

text \<open>The loop of \<open>verify\<close>, with its two variables \<open>expected_prev\<close> and \<open>last_hash\<close>.\<close>

fun verify_loop ::
  "digest \<Rightarrow> string option \<Rightarrow> string option \<Rightarrow> chain_row list \<Rightarrow> chain_error + string option" where
  "verify_loop sha expected_prev last_hash [] = Ok last_hash"
| "verify_loop sha expected_prev last_hash (row # rows) =
     (if cr_prev_hash row \<noteq> expected_prev
      then Err (HeadMismatch (cr_id row) expected_prev (cr_prev_hash row))
      else let computed = row_hash sha row in
        if computed \<noteq> cr_entry_hash row
        then Err (HashMismatch (cr_id row) computed (cr_entry_hash row))
        else verify_loop sha (Some computed) (Some computed) rows)"

definition verify :: "digest \<Rightarrow> chain_row list \<Rightarrow> chain_error + string option" where
  "verify sha rows = verify_loop sha None None rows"

section \<open>The abstract chain\<close>

text \<open>What a well-formed chain from a given head is, and its last head.\<close>

fun chain_ok :: "digest \<Rightarrow> string option \<Rightarrow> chain_row list \<Rightarrow> bool" where
  "chain_ok sha h [] = True"
| "chain_ok sha h (r # rs) =
     (cr_prev_hash r = h \<and> cr_entry_hash r = row_hash sha r \<and> chain_ok sha (Some (cr_entry_hash r)) rs)"

fun chain_head :: "string option \<Rightarrow> chain_row list \<Rightarrow> string option" where
  "chain_head h [] = h"
| "chain_head h (r # rs) = chain_head (Some (cr_entry_hash r)) rs"

text \<open>The row content that is hashed.\<close>

definition row_input :: "chain_row \<Rightarrow> bytes" where
  "row_input r = hash_input (or_empty (cr_prev_hash r)) (or_empty (cr_route_key r))
                   (cr_action r) (cr_result r) (cr_created_at r)"

lemma row_hash_input: "row_hash sha r = to_hex (sha (row_input r))"
  by (simp add: row_hash_def row_input_def compute_entry_hash_def)

lemma chain_head_append [simp]: "chain_head h (xs @ ys) = chain_head (chain_head h xs) ys"
  by (induction xs arbitrary: h) auto

lemma chain_ok_append [simp]:
  "chain_ok sha h (xs @ ys) \<longleftrightarrow> chain_ok sha h xs \<and> chain_ok sha (chain_head h xs) ys"
  by (induction xs arbitrary: h) auto

lemma verify_loop_ok:
  "chain_ok sha h rows \<Longrightarrow> verify_loop sha h l rows = Ok (if rows = [] then l else chain_head h rows)"
  by (induction rows arbitrary: h l) (auto simp: Let_def)

lemma verify_loop_Ok_iff:
  "is_Ok (verify_loop sha h l rows) \<longleftrightarrow> chain_ok sha h rows"
  by (induction rows arbitrary: h l) (auto simp: Let_def is_Ok_def)

text \<open>The verifier accepts exactly the well-formed chains and returns their head.\<close>

lemma verify_Ok_iff: "verify sha rows = Ok h \<longleftrightarrow> chain_ok sha None rows \<and> h = chain_head None rows"
proof
  assume ok: "verify sha rows = Ok h"
  then have "is_Ok (verify_loop sha None None rows)" by (simp add: verify_def is_Ok_def)
  then have c: "chain_ok sha None rows" by (simp add: verify_loop_Ok_iff)
  with ok verify_loop_ok [OF c, of None] show "chain_ok sha None rows \<and> h = chain_head None rows"
    by (cases rows) (auto simp: verify_def)
next
  assume "chain_ok sha None rows \<and> h = chain_head None rows"
  then show "verify sha rows = Ok h"
    using verify_loop_ok [of sha None rows None] by (cases rows) (auto simp: verify_def)
qed

text \<open>The first row that does not fit decides the error.\<close>

lemma verify_loop_prefix:
  "chain_ok sha h xs \<Longrightarrow>
   verify_loop sha h l (xs @ ys) = verify_loop sha (chain_head h xs) (if xs = [] then l else chain_head h xs) ys"
  by (induction xs arbitrary: h l) (auto simp: Let_def)

section \<open>Encodings are injective\<close>

lemma as_bytes_append [simp]: "as_bytes (s @ t) = as_bytes s @ as_bytes t"
  by (simp add: as_bytes_def)

lemma length_as_bytes [simp]: "length (as_bytes s) = length s"
  by (simp add: as_bytes_def)

lemma unat_byte_of: "unat (byte_of c) = of_char c"
proof -
  have "(of_char c :: nat) < 256" by simp
  then show ?thesis by (simp add: byte_of_def unat_of_nat)
qed

lemma byte_of_inj [simp]: "byte_of c = byte_of d \<longleftrightarrow> c = d"
  by (metis unat_byte_of of_char_eq_iff)

lemma as_bytes_inj [simp]: "as_bytes s = as_bytes t \<longleftrightarrow> s = t"
  unfolding as_bytes_def by (rule inj_map_eq_map) (auto intro: injI)

lemma length_to_be_bytes [simp]: "length (to_be_bytes w) = 8"
  by (simp add: to_be_bytes_def)

lemma to_be_bytes_nth: "i < 8 \<Longrightarrow> to_be_bytes w ! (7 - i) = ucast (drop_bit (8 * i) w)"
proof -
  assume "i < 8"
  then have "i = 0 \<or> i = 1 \<or> i = 2 \<or> i = 3 \<or> i = 4 \<or> i = 5 \<or> i = 6 \<or> i = 7" by arith
  then show ?thesis by (auto simp: to_be_bytes_def)
qed

lemma to_be_bytes_inj [simp]: "to_be_bytes v = to_be_bytes w \<longleftrightarrow> v = w"
proof
  assume eq: "to_be_bytes v = to_be_bytes w"
  show "v = w"
  proof (rule bit_word_eqI)
    fix n
    assume n: "n < LENGTH(64)"
    then have i: "n div 8 < 8" by simp
    have "(ucast (drop_bit (8 * (n div 8)) v) :: 8 word) = ucast (drop_bit (8 * (n div 8)) w)"
      using eq to_be_bytes_nth [OF i, of v] to_be_bytes_nth [OF i, of w] by simp
    then have "bit (ucast (drop_bit (8 * (n div 8)) v) :: 8 word) (n mod 8) =
               bit (ucast (drop_bit (8 * (n div 8)) w) :: 8 word) (n mod 8)" by simp
    moreover have "8 * (n div 8) + n mod 8 = n" by simp
    ultimately show "bit v n = bit w n"
      by (simp add: bit_ucast_iff bit_drop_bit_eq)
  qed
qed simp

lemma word_of_int_i64_inj:
  "is_i64 a \<Longrightarrow> is_i64 b \<Longrightarrow> (word_of_int a :: 64 word) = word_of_int b \<longleftrightarrow> a = b"
proof -
  assume a: "is_i64 a" and b: "is_i64 b"
  have "sint (word_of_int c :: 64 word) = c" if "is_i64 c" for c
    using that
    by (simp add: is_i64_def i64_min_def i64_max_def signed_of_int signed_take_bit_int_eq_self)
  then show ?thesis using a b by metis
qed

lemma bar_split:
  "b \<notin> set xs \<Longrightarrow> b \<notin> set xs' \<Longrightarrow> xs @ b # ys = xs' @ b # ys' \<longleftrightarrow> xs = xs' \<and> ys = ys'"
proof (induction xs arbitrary: xs')
  case Nil
  then show ?case by (cases xs') auto
next
  case (Cons x xs)
  then show ?case by (cases xs') auto
qed

lemma bar_as_bytes [simp]:
  "byte_of c \<in> set (as_bytes s) \<longleftrightarrow> c \<in> set s"
  by (auto simp: as_bytes_def)

text \<open>
  The hashed bytes determine the row, provided the previous hash, the route key and the
  action are free of the separator. The result may contain it: it is the last
  variable-length field.
\<close>

lemma hash_input_inj:
  assumes "CHR ''|'' \<notin> set p" "CHR ''|'' \<notin> set k" "CHR ''|'' \<notin> set a"
    and "CHR ''|'' \<notin> set p'" "CHR ''|'' \<notin> set k'" "CHR ''|'' \<notin> set a'"
    and "is_i64 c" "is_i64 c'"
    and eq: "hash_input p k a r c = hash_input p' k' a' r' c'"
  shows "p = p' \<and> k = k' \<and> a = a' \<and> r = r' \<and> c = c'"
proof -
  let ?b = "byte_of (CHR ''|'')"
  have bar: "as_bytes ''|'' = [?b]" by (simp add: as_bytes_def)
  from eq have "p = p'" and rest: "as_bytes k @ ?b # as_bytes a @ ?b # as_bytes r @ ?b # to_be_bytes (word_of_int c) =
      as_bytes k' @ ?b # as_bytes a' @ ?b # as_bytes r' @ ?b # to_be_bytes (word_of_int c')"
    using assms by (simp_all add: hash_input_def bar bar_split)
  from rest have "k = k'" and "a = a'" and
    tail: "as_bytes r @ ?b # to_be_bytes (word_of_int c) = as_bytes r' @ ?b # to_be_bytes (word_of_int c')"
    using assms by (simp_all add: bar_split)
  from tail have "r = r' \<and> to_be_bytes (word_of_int c) = to_be_bytes (word_of_int c')"
    by (subst (asm) append_eq_append_conv) simp_all
  with \<open>p = p'\<close> \<open>k = k'\<close> \<open>a = a'\<close> show ?thesis
    using assms by (simp add: word_of_int_i64_inj)
qed

lemma hex_digit_inj:
  assumes "unat a < 16" "unat b < 16" "hex_digit a = hex_digit b"
  shows "a = b"
proof -
  have "distinct ''0123456789abcdef''" by simp
  with assms have "unat a = unat b"
    unfolding hex_digit_def by (subst (asm) nth_eq_iff_index_eq) auto
  then show ?thesis by (rule word_unat_eq_iff [THEN iffD2])
qed

lemma nibble_bounds: "unat (drop_bit 4 (b :: 8 word)) < 16" "unat (take_bit 4 (b :: 8 word)) < 16"
proof -
  have "unat b < 256" by (rule unsigned_less [where 'a = nat, of b, simplified])
  then have "unat b div 16 < 16" by simp
  then show "unat (drop_bit 4 b) < 16"
    by (simp add: drop_bit_eq_div unat_div_distrib)
  have "unat b mod 16 < 16" by simp
  then show "unat (take_bit 4 b) < 16"
    by (simp add: take_bit_eq_mod unat_mod_distrib)
qed

lemma nibbles_eq:
  assumes "drop_bit 4 (a :: 8 word) = drop_bit 4 b" "take_bit 4 a = take_bit 4 b"
  shows "a = b"
  by (metis assms bits_ident)

lemma to_hex_Cons:
  "to_hex (b # bs) = hex_digit (drop_bit 4 b) # hex_digit (take_bit 4 b) # to_hex bs"
  by (simp add: to_hex_def)

lemma to_hex_Nil [simp]: "to_hex [] = []"
  by (simp add: to_hex_def)

lemma to_hex_inj [simp]: "to_hex xs = to_hex ys \<longleftrightarrow> xs = ys"
proof
  assume "to_hex xs = to_hex ys"
  then show "xs = ys"
  proof (induction xs arbitrary: ys)
    case Nil
    then show ?case by (cases ys) (auto simp: to_hex_Cons)
  next
    case (Cons x xs)
    then obtain y ys' where ys: "ys = y # ys'" by (cases ys) (auto simp: to_hex_Cons)
    with Cons.prems have eqs: "to_hex xs = to_hex ys'"
      "hex_digit (drop_bit 4 x) = hex_digit (drop_bit 4 y)"
      "hex_digit (take_bit 4 x) = hex_digit (take_bit 4 y)"
      by (simp_all only: to_hex_Cons list.inject)
    have "x = y"
      by (rule nibbles_eq; rule hex_digit_inj) (rule nibble_bounds eqs)+
    with Cons.IH [OF eqs(1)] ys show ?case by simp
  qed
qed simp

lemma length_to_hex: "length (to_hex bs) = 2 * length bs"
  by (induction bs) (auto simp: to_hex_Cons)

lemma hex_digit_bar: "unat b < 16 \<Longrightarrow> hex_digit b \<noteq> CHR ''|''"
proof -
  assume "unat b < 16"
  then have "hex_digit b \<in> set ''0123456789abcdef''"
    unfolding hex_digit_def by (intro nth_mem) simp
  then show ?thesis by auto
qed

lemma to_hex_no_bar: "CHR ''|'' \<notin> set (to_hex bs)"
proof (induction bs)
  case Nil
  then show ?case by simp
next
  case (Cons b bs)
  with nibble_bounds [THEN hex_digit_bar, of b] show ?case by (simp add: to_hex_Cons not_sym)
qed

section \<open>Tamper evidence\<close>

text \<open>The contents of two rows differ only in fields that are not hashed.\<close>

definition same_content :: "chain_row \<Rightarrow> chain_row \<Rightarrow> bool" where
  "same_content r s \<longleftrightarrow>
     or_empty (cr_route_key r) = or_empty (cr_route_key s) \<and> cr_action r = cr_action s \<and>
     cr_result r = cr_result s \<and> cr_created_at r = cr_created_at s"

text \<open>Rows whose separator-delimited fields are free of the separator.\<close>

definition row_plain :: "chain_row \<Rightarrow> bool" where
  "row_plain r \<longleftrightarrow> CHR ''|'' \<notin> set (or_empty (cr_route_key r)) \<and>
     CHR ''|'' \<notin> set (cr_action r) \<and> is_i64 (cr_created_at r)"

text \<open>A SHA-256 digest has 32 bytes; no two inputs of a set collide.\<close>

definition sha256_length :: "digest \<Rightarrow> bool" where
  "sha256_length sha \<longleftrightarrow> (\<forall>x. length (sha x) = 32)"

definition collision_free :: "digest \<Rightarrow> bytes set \<Rightarrow> bool" where
  "collision_free sha X \<longleftrightarrow> inj_on sha X"

lemma same_hash_same_content:
  assumes "row_plain r" "row_plain s"
    and "CHR ''|'' \<notin> set (or_empty (cr_prev_hash r))" "CHR ''|'' \<notin> set (or_empty (cr_prev_hash s))"
    and "row_input r = row_input s"
  shows "same_content r s \<and> or_empty (cr_prev_hash r) = or_empty (cr_prev_hash s)"
  using hash_input_inj [of "or_empty (cr_prev_hash r)" "or_empty (cr_route_key r)" "cr_action r"
      "or_empty (cr_prev_hash s)" "or_empty (cr_route_key s)" "cr_action s"
      "cr_created_at r" "cr_created_at s" "cr_result r" "cr_result s"] assms
  by (auto simp: row_plain_def same_content_def row_input_def)

lemma chain_head_snoc: "chain_head h (xs @ [r]) = Some (cr_entry_hash r)"
  by simp

lemma chain_head_hex:
  "chain_ok sha None xs \<Longrightarrow> chain_head None xs = None \<or> (\<exists>bs. chain_head None xs = Some (to_hex bs))"
proof (induction xs rule: rev_induct)
  case (snoc r xs)
  then show ?case by (auto simp: row_hash_input)
qed simp

lemma chain_prev_no_bar:
  assumes "chain_ok sha None (xs @ [r])"
  shows "CHR ''|'' \<notin> set (or_empty (cr_prev_hash r))"
proof -
  from assms have "cr_prev_hash r = chain_head None xs" and "chain_ok sha None xs" by auto
  with chain_head_hex [of sha xs] to_hex_no_bar show ?thesis by (auto simp: or_empty_def)
qed

lemma chain_head_or_empty:
  assumes "chain_ok sha None xs" "sha256_length sha"
  shows "or_empty (chain_head None xs) = [] \<longleftrightarrow> chain_head None xs = None"
proof (cases xs rule: rev_cases)
  case Nil
  then show ?thesis by (simp add: or_empty_def)
next
  case (snoc ys r)
  with assms have "length (cr_entry_hash r) = 64"
    by (simp add: row_hash_input length_to_hex sha256_length_def)
  with snoc show ?thesis by (auto simp: or_empty_def)
qed

lemma or_empty_eq:
  "(or_empty a = [] \<longleftrightarrow> a = None) \<Longrightarrow> (or_empty b = [] \<longleftrightarrow> b = None) \<Longrightarrow>
   or_empty a = or_empty b \<longleftrightarrow> a = b"
  by (cases a; cases b) (auto simp: or_empty_def)

lemma prev_hash_eq:
  assumes "chain_ok sha None (xs @ [r])" "chain_ok sha None (ys @ [s])" "sha256_length sha"
    and "or_empty (cr_prev_hash r) = or_empty (cr_prev_hash s)"
  shows "chain_head None xs = chain_head None ys"
proof -
  have ok: "chain_ok sha None xs" "chain_ok sha None ys"
    and "cr_prev_hash r = chain_head None xs" "cr_prev_hash s = chain_head None ys"
    using assms(1,2) by auto
  then have "or_empty (chain_head None xs) = or_empty (chain_head None ys)" using assms(4) by simp
  then show ?thesis
    using or_empty_eq [OF chain_head_or_empty [OF ok(1) assms(3)]
        chain_head_or_empty [OF ok(2) assms(3)]] by simp
qed

lemma last_rows_equal:
  assumes "chain_ok sha None (xs @ [r])" "chain_ok sha None (ys @ [s])"
    and "cr_entry_hash r = cr_entry_hash s"
    and "collision_free sha (row_input ` (set (xs @ [r]) \<union> set (ys @ [s])))"
    and "row_plain r" "row_plain s"
  shows "same_content r s \<and> or_empty (cr_prev_hash r) = or_empty (cr_prev_hash s)"
proof (rule same_hash_same_content)
  show "CHR ''|'' \<notin> set (or_empty (cr_prev_hash r))" using assms(1) by (rule chain_prev_no_bar)
  show "CHR ''|'' \<notin> set (or_empty (cr_prev_hash s))" using assms(2) by (rule chain_prev_no_bar)
  have "row_hash sha r = row_hash sha s" using assms(1,2,3) by simp
  then have "sha (row_input r) = sha (row_input s)" by (simp add: row_hash_input)
  then show "row_input r = row_input s"
    by (rule inj_onD [OF assms(4) [unfolded collision_free_def]]) simp_all
qed (rule assms)+

text \<open>
  Two well-formed chains with the same head have the same length and, row by row, the
  same content: no rewriting of history can keep the head.
\<close>

lemma chains_same_head:
  assumes "chain_ok sha None xs" "chain_ok sha None ys"
    and "chain_head None xs = chain_head None ys"
    and "collision_free sha (row_input ` (set xs \<union> set ys))"
    and "sha256_length sha"
    and "\<forall>r \<in> set xs \<union> set ys. row_plain r"
  shows "list_all2 same_content xs ys"
  using assms
proof (induction xs arbitrary: ys rule: rev_induct)
  case Nil
  then show ?case by (cases ys rule: rev_cases) auto
next
  case (snoc r xs)
  from snoc.prems(3) obtain ys' s where ys: "ys = ys' @ [s]" by (cases ys rule: rev_cases) auto
  have ok: "chain_ok sha None (ys' @ [s])" using snoc.prems(2) by (simp only: ys)
  have last: "same_content r s \<and> or_empty (cr_prev_hash r) = or_empty (cr_prev_hash s)"
    using last_rows_equal [OF snoc.prems(1) ok] snoc.prems(3,4,6) by (simp add: ys)
  have heads: "chain_head None xs = chain_head None ys'"
    by (rule prev_hash_eq [OF snoc.prems(1) ok snoc.prems(5)]) (use last in simp)
  have "row_input ` (set xs \<union> set ys') \<subseteq> row_input ` (set (xs @ [r]) \<union> set ys)"
    by (auto simp: ys)
  then have free: "collision_free sha (row_input ` (set xs \<union> set ys'))"
    using snoc.prems(4) unfolding collision_free_def by (rule inj_on_subset [rotated])
  have "list_all2 same_content xs ys'"
    by (rule snoc.IH [OF _ _ heads free snoc.prems(5)]) (use snoc.prems ok ys in auto)
  then show ?case unfolding ys using last by (simp add: list_all2_appendI)
qed

text \<open>Appending a row with the right link extends a verified chain.\<close>

lemma verify_append:
  assumes "verify sha rows = Ok h" and "cr_prev_hash r = h" and "cr_entry_hash r = row_hash sha r"
  shows "verify sha (rows @ [r]) = Ok (Some (row_hash sha r))"
  using assms by (auto simp: verify_Ok_iff)

section \<open>Properties\<close>

text \<open>
  C23. Tamper evidence: two audit logs that both verify and end in the same head have the
  same number of rows and, row by row, the same route key, action, result and time. It
  holds for a digest of 32 bytes without a collision among the inputs at hand, and for
  rows whose route key and action do not contain the separator.
\<close>

theorem verify_tamper_evident:
  assumes "verify sha xs = Ok h" "verify sha ys = Ok h"
    and "sha256_length sha" and "collision_free sha (row_input ` (set xs \<union> set ys))"
    and "\<forall>r \<in> set xs \<union> set ys. row_plain r"
  shows "list_all2 same_content xs ys"
  using chains_same_head [OF _ _ _ assms(4,3,5)] assms(1,2) by (simp add: verify_Ok_iff)

text \<open>A digest for the examples: the last 32 bytes, last first, padded with zeros.\<close>

definition toy_sha :: digest where
  "toy_sha x = take 32 (rev x @ replicate 32 0)"

definition toy_row :: "string option \<Rightarrow> int \<Rightarrow> string \<Rightarrow> int \<Rightarrow> chain_row" where
  "toy_row h i a c =
     \<lparr> cr_id = i, cr_prev_hash = h, cr_entry_hash = compute_entry_hash toy_sha (or_empty h) ''k'' a ''ok'' c,
       cr_route_key = Some ''k'', cr_action = a, cr_result = ''ok'', cr_created_at = c \<rparr>"

lemma toy_sha_length: "sha256_length toy_sha"
  by (auto simp: sha256_length_def toy_sha_def)

lemma toy_row_ok: "verify toy_sha [toy_row None i a c] = Ok (Some (cr_entry_hash (toy_row None i a c)))"
  by (simp add: verify_Ok_iff toy_row_def row_hash_def or_empty_def)

theorem verify_tamper_evident_witness:
  "list_all2 same_content [toy_row None 1 ''send'' 7] [toy_row None 2 ''send'' 7]"
proof (rule verify_tamper_evident [of toy_sha _ "Some (cr_entry_hash (toy_row None 1 ''send'' 7))"])
  show "verify toy_sha [toy_row None 1 ''send'' 7] = Ok (Some (cr_entry_hash (toy_row None 1 ''send'' 7)))"
    by (rule toy_row_ok)
  show "verify toy_sha [toy_row None 2 ''send'' 7] = Ok (Some (cr_entry_hash (toy_row None 1 ''send'' 7)))"
    by (subst toy_row_ok) (simp add: toy_row_def)
  show "sha256_length toy_sha" by (rule toy_sha_length)
  show "collision_free toy_sha (row_input ` (set [toy_row None 1 ''send'' 7] \<union> set [toy_row None 2 ''send'' 7]))"
    by (simp add: collision_free_def toy_row_def row_input_def)
  show "\<forall>r\<in>set [toy_row None 1 ''send'' 7] \<union> set [toy_row None 2 ''send'' 7]. row_plain r"
    by (simp add: row_plain_def toy_row_def or_empty_def is_i64_def i64_min_def i64_max_def)
qed

text \<open>
  If one row of a verified log is changed in place so that its hashed bytes differ,
  with its two stored hashes left as they were, verification fails at exactly that
  row with \<open>HashMismatch\<close>, whatever rows follow it.
\<close>

theorem verify_reports_changed_row:
  assumes "verify sha (xs @ r # ys) = Ok h"
    and "cr_prev_hash r' = cr_prev_hash r" and "cr_entry_hash r' = cr_entry_hash r"
    and "row_input r' \<noteq> row_input r" and "collision_free sha {row_input r, row_input r'}"
  shows "verify sha (xs @ r' # ys') = Err (HashMismatch (cr_id r') (row_hash sha r') (cr_entry_hash r))"
proof -
  from assms(1) have ok: "chain_ok sha None xs" "cr_prev_hash r = chain_head None xs"
    "cr_entry_hash r = row_hash sha r" by (auto simp: verify_Ok_iff)
  have "row_hash sha r' \<noteq> row_hash sha r"
    using assms(4,5) by (auto simp: row_hash_input collision_free_def inj_on_def)
  with ok assms(2,3) show ?thesis
    by (simp add: verify_def verify_loop_prefix Let_def)
qed

theorem verify_reports_changed_row_witness:
  "verify toy_sha [(toy_row None 1 ''send'' 7)\<lparr>cr_action := ''sand''\<rparr>] =
     Err (HashMismatch 1 (compute_entry_hash toy_sha '''' ''k'' ''sand'' ''ok'' 7)
       (compute_entry_hash toy_sha '''' ''k'' ''send'' ''ok'' 7))"
proof -
  let ?r = "toy_row None 1 ''send'' 7"
  let ?s = "?r\<lparr>cr_action := ''sand''\<rparr>"
  have neq: "row_input ?s \<noteq> row_input ?r"
    by (simp add: row_input_def toy_row_def or_empty_def hash_input_def as_bytes_def)
  have "toy_sha (row_input ?s) \<noteq> toy_sha (row_input ?r)"
    by (simp add: row_input_def toy_row_def or_empty_def hash_input_def as_bytes_def to_be_bytes_def
        toy_sha_def numeral_eq_Suc)
  then have "collision_free toy_sha {row_input ?r, row_input ?s}"
    by (auto simp: collision_free_def)
  with neq verify_reports_changed_row [of toy_sha "[]" ?r "[]" _ ?s "[]", simplified, OF toy_row_ok]
  show ?thesis by (simp add: toy_row_def row_hash_def or_empty_def)
qed

text \<open>
  The fields are joined with an unescaped separator: text moved from the end of the
  route key to the front of the action gives the same entry hash, for every digest, and
  so does an absent route key in place of an empty one.
\<close>

theorem entry_hash_separator_collision:
  "compute_entry_hash sha p (k @ ''|'' @ x) a r c = compute_entry_hash sha p k (x @ ''|'' @ a) r c \<and>
   row_hash sha (row\<lparr>cr_route_key := None\<rparr>) = row_hash sha (row\<lparr>cr_route_key := Some ''''\<rparr>)"
  by (simp add: compute_entry_hash_def hash_input_def row_hash_def or_empty_def as_bytes_def)

end
