(* ===== verification/Database.thy ===== *)
theory Database
  imports Storage Audit_Chain
begin

text \<open>
  The SQLite database of \<open>src/infrastructure/db.rs\<close> as the adapters use it.

  \<^item> One record holds every table (the schema of \<open>init_db\<close>), each as the list of its
    rows in rowid order, and the count \<open>db_tick\<close> of environment interactions so far.
    The record is extensible, so a component may add its own state to the same world.
  \<^item> What the code cannot control is the record \<open>env\<close>: which statement fails and with
    what text, what the clocks show, and in which order rows with equal sort keys are
    returned. Each statement consumes one tick, so every pattern of faults, clock
    readings and orders is covered by quantifying over \<open>env\<close>.
  \<^item> A statement either fails and leaves the tables alone or has its SQL effect
    (SQLite executes a statement atomically; the adapters open no transactions, so a
    closure of several statements can stop half way).
  \<^item> \<open>DbPool\<close>: the check-out discipline of the connection pool is the step relation
    \<open>pool_step\<close>.
\<close>

section \<open>Rows\<close>

record conversation_state_row =
  st_route_key :: string
  st_state_json :: string
  st_updated_at :: int

record audit_row =
  al_id :: int
  al_route_key :: "string option"
  al_action :: string
  al_result :: string
  al_created_at :: int
  al_prev_hash :: "string option"
  al_entry_hash :: "string option"

record preference_row =
  pf_channel :: string
  pf_account_scope :: string
  pf_peer_id :: string
  pf_agent_name :: string
  pf_updated_at :: int

record sync_buf_row =
  sb_channel :: string
  sb_account :: string
  sb_buf :: bytes
  sb_updated_at :: int

record context_token_row =
  ct_account_id :: string
  ct_user_id :: string
  ct_token :: string
  ct_updated_at :: int

record api_client_row =
  ac_id :: string
  ac_project_id :: string
  ac_client_name :: string
  ac_token_hash :: string
  ac_scopes :: string
  ac_created_at :: int
  ac_expires_at :: int
  ac_revoked_at :: "int option"
  ac_rotated_from :: "string option"

record project_row =
  pj_key :: string
  pj_name :: string
  pj_created_at :: int
  pj_updated_at :: int

record delivery_target_row =
  dt_target_id :: string
  dt_channel :: string
  dt_peer_id :: string
  dt_conversation_id :: string
  dt_conversation_type :: string
  dt_account_scope :: string
  dt_status :: string
  dt_created_at :: int
  dt_updated_at :: int

record project_binding_row =
  pb_id :: string
  pb_project_key :: string
  pb_target_id :: string
  pb_bind_source :: string
  pb_status :: string
  pb_bound_at :: int
  pb_unbound_at :: "int option"
  pb_created_at :: int
  pb_updated_at :: int

record push_job_row =
  pu_job_id :: string
  pu_source_format :: string
  pu_source_path :: string
  pu_status :: string
  pu_total_items :: int
  pu_success_items :: int
  pu_failed_items :: int
  pu_created_at :: int
  pu_updated_at :: int

record push_item_row =
  pi_item_id :: string
  pi_job_id :: string
  pi_project_key :: string
  pi_message_text :: string
  pi_mode :: string
  pi_targets_json :: "string option"
  pi_status :: string
  pi_error :: "string option"
  pi_created_at :: int
  pi_updated_at :: int

section \<open>The database and its environment\<close>

record db =
  db_tick :: nat
  t_inbox :: "inbox_row list"
  t_outbox :: "outbox_row list"
  t_dead_letter :: "dead_letter_entry list"
  t_conversation_state :: "conversation_state_row list"
  t_audit_log :: "audit_row list"
  t_preferences :: "preference_row list"
  t_sync_buf :: "sync_buf_row list"
  t_context_tokens :: "context_token_row list"
  t_api_clients :: "api_client_row list"
  t_projects :: "project_row list"
  t_delivery_targets :: "delivery_target_row list"
  t_project_bindings :: "project_binding_row list"
  t_push_jobs :: "push_job_row list"
  t_push_job_items :: "push_item_row list"

definition empty_db :: db where
  "empty_db = \<lparr> db_tick = 0, t_inbox = [], t_outbox = [], t_dead_letter = [],
     t_conversation_state = [], t_audit_log = [], t_preferences = [], t_sync_buf = [],
     t_context_tokens = [], t_api_clients = [], t_projects = [], t_delivery_targets = [],
     t_project_bindings = [], t_push_jobs = [], t_push_job_items = [] \<rparr>"

record env =
  env_fault :: "nat \<Rightarrow> string option"
  env_now_ms :: "nat \<Rightarrow> int"
  env_rank :: "nat \<Rightarrow> string \<Rightarrow> nat"
  env_uuid :: "nat \<Rightarrow> string"

text \<open>A reading of the wall clock, in milliseconds, and in seconds.\<close>

definition clock_ms :: "env \<Rightarrow> 'w db_scheme \<Rightarrow> int \<times> 'w db_scheme" where
  "clock_ms e d = (env_now_ms e (db_tick d), d\<lparr>db_tick := Suc (db_tick d)\<rparr>)"

definition clock_s :: "env \<Rightarrow> 'w db_scheme \<Rightarrow> int \<times> 'w db_scheme" where
  "clock_s e d = (let (ms, d') = clock_ms e d in (ms div 1000, d'))"

text \<open>A fresh identifier from the crate \<open>uuid\<close>.\<close>

definition new_uuid :: "env \<Rightarrow> 'w db_scheme \<Rightarrow> string \<times> 'w db_scheme" where
  "new_uuid e d = (env_uuid e (db_tick d), d\<lparr>db_tick := Suc (db_tick d)\<rparr>)"

text \<open>
  One SQL statement. Its meaning gets the tick (for \<open>unixepoch()\<close> and the order of equal
  rows) and returns a value with the new tables, or a constraint error.
\<close>

definition sql ::
  "env \<Rightarrow> (nat \<Rightarrow> 'w db_scheme \<Rightarrow> string + 'a \<times> 'w db_scheme) \<Rightarrow> 'w db_scheme \<Rightarrow>
   (string + 'a) \<times> 'w db_scheme" where
  "sql e f d =
     (let n = db_tick d; d1 = d\<lparr>db_tick := Suc n\<rparr> in
      case env_fault e n of
        Some err \<Rightarrow> (Err err, d1)
      | None \<Rightarrow> (case f n d1 of Err err \<Rightarrow> (Err err, d1) | Ok (x, d2) \<Rightarrow> (Ok x, d2)))"

definition unixepoch :: "env \<Rightarrow> nat \<Rightarrow> int" where
  "unixepoch e n = env_now_ms e n div 1000"

text \<open>A statement that only writes, and one that only reads.\<close>

definition sql_write ::
  "env \<Rightarrow> (nat \<Rightarrow> 'w db_scheme \<Rightarrow> 'w db_scheme) \<Rightarrow> 'w db_scheme \<Rightarrow> (string + unit) \<times> 'w db_scheme" where
  "sql_write e f = sql e (\<lambda>n d. Ok ((), f n d))"

definition sql_read ::
  "env \<Rightarrow> (nat \<Rightarrow> 'w db_scheme \<Rightarrow> 'a) \<Rightarrow> 'w db_scheme \<Rightarrow> (string + 'a) \<times> 'w db_scheme" where
  "sql_read e f = sql e (\<lambda>n d. Ok (f n d, d))"

text \<open>An operation on the world outside the database.\<close>

definition on_more :: "('m \<Rightarrow> 'a \<times> 'm) \<Rightarrow> 'm db_scheme \<Rightarrow> 'a \<times> 'm db_scheme" where
  "on_more f d = (let (r, m) = f (db.more d) in (r, db.more_update (\<lambda>_. m) d))"

section \<open>The connection pool\<close>

record pool =
  pool_free :: "nat list"
  pool_held :: "(nat \<times> nat) list"
  pool_capacity :: nat

text \<open>\<open>init_db_pool\<close>: \<open>size.max(1)\<close> connections, numbered here, all free.\<close>

definition init_db_pool :: "nat \<Rightarrow> pool" where
  "init_db_pool sz =
     (let sz' = max sz 1
      in \<lparr> pool_free = [0..<sz'], pool_held = [], pool_capacity = sz' \<rparr>)"

text \<open>
  \<open>with_conn\<close> by thread \<open>t\<close>: it pops the front connection when there is one (otherwise
  it waits on the condition variable, so no step), runs the closure, and pushes the
  connection back whatever the closure returned.
\<close>

inductive pool_step :: "pool \<Rightarrow> pool \<Rightarrow> bool" where
  checkout: "pool_free p = c # cs \<Longrightarrow> t \<notin> fst ` set (pool_held p) \<Longrightarrow>
     pool_step p (p\<lparr>pool_free := cs, pool_held := (t, c) # pool_held p\<rparr>)"
| give_back: "pool_held p = xs @ (t, c) # ys \<Longrightarrow>
     pool_step p (p\<lparr>pool_free := pool_free p @ [c], pool_held := xs @ ys\<rparr>)"

inductive pool_reachable :: "nat \<Rightarrow> pool \<Rightarrow> bool" for sz where
  start: "pool_reachable sz (init_db_pool sz)"
| step: "pool_reachable sz p \<Longrightarrow> pool_step p q \<Longrightarrow> pool_reachable sz q"

section \<open>Lemmas on statements\<close>

lemma sql_cases:
  obtains (fault) err where "env_fault e (db_tick d) = Some err"
      "sql e f d = (Err err, d\<lparr>db_tick := Suc (db_tick d)\<rparr>)"
  | (constraint) err where "env_fault e (db_tick d) = None"
      "f (db_tick d) (d\<lparr>db_tick := Suc (db_tick d)\<rparr>) = Err err"
      "sql e f d = (Err err, d\<lparr>db_tick := Suc (db_tick d)\<rparr>)"
  | (effect) x d' where "env_fault e (db_tick d) = None"
      "f (db_tick d) (d\<lparr>db_tick := Suc (db_tick d)\<rparr>) = Ok (x, d')" "sql e f d = (Ok x, d')"
  by (cases "env_fault e (db_tick d)"; cases "f (db_tick d) (d\<lparr>db_tick := Suc (db_tick d)\<rparr>)")
    (auto simp: sql_def Let_def)

lemma sql_write_eq:
  "sql_write e f d =
     (case env_fault e (db_tick d) of
        Some err \<Rightarrow> (Err err, d\<lparr>db_tick := Suc (db_tick d)\<rparr>)
      | None \<Rightarrow> (Ok (), f (db_tick d) (d\<lparr>db_tick := Suc (db_tick d)\<rparr>)))"
  by (simp add: sql_write_def sql_def Let_def split: option.split)

lemma sql_read_eq:
  "sql_read e f d =
     ((case env_fault e (db_tick d) of
         Some err \<Rightarrow> Err err
       | None \<Rightarrow> Ok (f (db_tick d) (d\<lparr>db_tick := Suc (db_tick d)\<rparr>))),
      d\<lparr>db_tick := Suc (db_tick d)\<rparr>)"
  by (simp add: sql_read_def sql_def Let_def split: option.split)

text \<open>An environment in which no statement fails.\<close>

definition no_faults :: "env \<Rightarrow> bool" where
  "no_faults e \<longleftrightarrow> (\<forall>n. env_fault e n = None)"

lemma no_faultsD [simp]: "no_faults e \<Longrightarrow> env_fault e n = None"
  by (simp add: no_faults_def)

lemma on_more_simps [simp]:
  "fst (on_more f d) = fst (f (db.more d))" "db.more (snd (on_more f d)) = snd (f (db.more d))"
  "t_outbox (snd (on_more f d)) = t_outbox d" "db_tick (snd (on_more f d)) = db_tick d"
  "t_preferences (snd (on_more f d)) = t_preferences d"
  by (simp_all add: on_more_def split_beta Let_def)

section \<open>The pool invariant\<close>

definition pool_ok :: "pool \<Rightarrow> bool" where
  "pool_ok p \<longleftrightarrow> distinct (pool_free p @ map snd (pool_held p)) \<and> distinct (map fst (pool_held p)) \<and>
     length (pool_free p) + length (pool_held p) = pool_capacity p"

lemma pool_step_ok: "pool_step p q \<Longrightarrow> pool_ok p \<Longrightarrow> pool_ok q"
  by (induction rule: pool_step.induct) (auto simp: pool_ok_def)

lemma pool_step_capacity: "pool_step p q \<Longrightarrow> pool_capacity q = pool_capacity p"
  by (induction rule: pool_step.induct) auto

lemma pool_reachable_ok:
  "pool_reachable sz p \<Longrightarrow> pool_ok p \<and> pool_capacity p = max sz 1"
proof (induction rule: pool_reachable.induct)
  case start
  then show ?case by (auto simp: pool_ok_def init_db_pool_def Let_def)
next
  case (step p q)
  then show ?case using pool_step_ok pool_step_capacity by auto
qed

section \<open>Properties\<close>

text \<open>
  Along every interleaving of threads that check connections out of the pool and
  return them, no connection is held by two threads or held and free at once, no thread
  holds two, and none is lost: held and free connections together are the configured
  number (at least one).
\<close>

theorem pool_exclusive:
  assumes "pool_reachable sz p"
  shows "distinct (pool_free p @ map snd (pool_held p)) \<and> distinct (map fst (pool_held p)) \<and>
    length (pool_free p) + length (pool_held p) = max sz 1"
  using pool_reachable_ok [OF assms] by (simp add: pool_ok_def)

theorem pool_exclusive_witness:
  "pool_reachable 2 \<lparr> pool_free = [1], pool_held = [(7, 0)], pool_capacity = 2 \<rparr> \<and>
   distinct (pool_free \<lparr> pool_free = [1::nat], pool_held = [(7::nat, 0)], pool_capacity = 2 \<rparr> @ [0])"
proof -
  have "pool_step (init_db_pool 2) \<lparr> pool_free = [1], pool_held = [(7, 0)], pool_capacity = 2 \<rparr>"
    using pool_step.checkout [of "init_db_pool 2" 0 "[1]" 7]
    by (simp add: init_db_pool_def Let_def upt_rec numeral_2_eq_2)
  then have r: "pool_reachable 2 \<lparr> pool_free = [1], pool_held = [(7, 0)], pool_capacity = 2 \<rparr>"
    by (rule pool_reachable.step [OF pool_reachable.start])
  show ?thesis using pool_exclusive [OF r] r by simp
qed

end
