(* ===== verification/Audit_Store.thy ===== *)
theory Audit_Store
  imports Database
begin

text \<open>
  The audit log: \<open>src/adapters/sqlite_audit.rs\<close> (the chained sink and the walk over the
  stored chain), \<open>src/adapters/sqlite_audit_query.rs\<close>, the ports
  \<open>src/domain/ports/audit_sink.rs\<close> and \<open>audit_query.rs\<close>, and \<open>src/application/audit.rs\<close>.

  A sink is a function on the world; it has no result because the port has none. The
  statements of \<open>record\<close> are separate definitions: the code runs them one after the other
  on one connection without a transaction, so another connection's statements can come
  between them.
\<close>

type_synonym 'w audit_sink = "string option \<Rightarrow> string \<Rightarrow> string \<Rightarrow> 'w \<Rightarrow> 'w"

definition noop_audit_sink :: "'w audit_sink" where
  "noop_audit_sink route_key action result w = w"

section \<open>The chained sink\<close>

text \<open>\<open>SELECT entry_hash ... ORDER BY id DESC LIMIT 1\<close>; no row and a NULL are both \<open>None\<close>.\<close>

definition head_hash :: "audit_row list \<Rightarrow> string option" where
  "head_hash t = (case rev (sort_key al_id t) of [] \<Rightarrow> None | r # _ \<Rightarrow> al_entry_hash r)"

text \<open>\<open>AUTOINCREMENT\<close>; no statement of the program deletes from the table.\<close>

definition next_audit_id :: "audit_row list \<Rightarrow> int" where
  "next_audit_id t = 1 + fold max (map al_id t) 0"

definition record_head :: "env \<Rightarrow> 'w db_scheme \<Rightarrow> string option \<times> 'w db_scheme" where
  "record_head e d =
     (case sql_read e (\<lambda>n d. head_hash (t_audit_log d)) d of
        (Ok h, d') \<Rightarrow> (h, d')
      | (Err _, d') \<Rightarrow> (None, d'))"

definition record_now :: "env \<Rightarrow> 'w db_scheme \<Rightarrow> int \<times> 'w db_scheme" where
  "record_now e d =
     (case sql_read e (\<lambda>n d. unixepoch e n) d of
        (Ok t, d') \<Rightarrow> (t, d')
      | (Err _, d') \<Rightarrow> clock_s e d')"

definition record_insert ::
  "digest \<Rightarrow> env \<Rightarrow> string option \<Rightarrow> string \<Rightarrow> string \<Rightarrow> string option \<Rightarrow> int \<Rightarrow>
   'w db_scheme \<Rightarrow> (string + unit) \<times> 'w db_scheme" where
  "record_insert sha e route_key action result prev_hash now d =
     (let entry_hash = compute_entry_hash sha (or_empty prev_hash) (or_empty route_key) action result now
      in sql_write e (\<lambda>n d. d\<lparr>t_audit_log := t_audit_log d @
           [\<lparr> al_id = next_audit_id (t_audit_log d), al_route_key = route_key, al_action = action,
              al_result = result, al_created_at = now, al_prev_hash = prev_hash,
              al_entry_hash = Some entry_hash \<rparr>]\<rparr>) d)"

definition audit_record :: "digest \<Rightarrow> env \<Rightarrow> 'w db_scheme audit_sink" where
  "audit_record sha e route_key action result d =
     (let (prev_hash, d1) = record_head e d;
          (now, d2) = record_now e d1
      in snd (record_insert sha e route_key action result prev_hash now d2))"

section \<open>Unchained writes and queries\<close>

definition write_audit_via_sink :: "'w audit_sink \<Rightarrow> 'w audit_sink" where
  "write_audit_via_sink sink route_key action result w = sink route_key action result w"

text \<open>\<open>write_audit\<close> names neither hash column: both are NULL.\<close>

definition write_audit ::
  "env \<Rightarrow> string option \<Rightarrow> string \<Rightarrow> string \<Rightarrow> 'w db_scheme \<Rightarrow> (string + unit) \<times> 'w db_scheme" where
  "write_audit e route_key action result d =
     (let (r, d') = sql_write e (\<lambda>n d. d\<lparr>t_audit_log := t_audit_log d @
           [\<lparr> al_id = next_audit_id (t_audit_log d), al_route_key = route_key, al_action = action,
              al_result = result, al_created_at = unixepoch e n, al_prev_hash = None,
              al_entry_hash = None \<rparr>]\<rparr>) d
      in (map_err (\<lambda>m. ''audit write error: '' @ m) r, d'))"

record audit_record_view =
  av_id :: int
  av_route_key :: "string option"
  av_action :: string
  av_result :: string
  av_created_at :: int

definition audit_view_of :: "audit_row \<Rightarrow> audit_record_view" where
  "audit_view_of r = \<lparr> av_id = al_id r, av_route_key = al_route_key r, av_action = al_action r,
     av_result = al_result r, av_created_at = al_created_at r \<rparr>"

definition audit_query ::
  "env \<Rightarrow> (audit_row \<Rightarrow> bool) \<Rightarrow> 64 word \<Rightarrow> 'w db_scheme \<Rightarrow>
   (string + audit_record_view list) \<times> 'w db_scheme" where
  "audit_query e p limit d =
     (let (r, d') = sql_read e (\<lambda>n d. map audit_view_of (sql_limit limit
            (order_by_desc al_created_at (\<lambda>r. env_rank e n (show_int (al_id r)))
              (filter p (t_audit_log d))))) d
      in (map_err (\<lambda>m. ''audit query error: '' @ m) r, d'))"

definition query_by_route ::
  "env \<Rightarrow> string \<Rightarrow> 64 word \<Rightarrow> 'w db_scheme \<Rightarrow> (string + audit_record_view list) \<times> 'w db_scheme" where
  "query_by_route e key limit = audit_query e (\<lambda>r. al_route_key r = Some key) limit"

definition query_all ::
  "env \<Rightarrow> 64 word \<Rightarrow> 'w db_scheme \<Rightarrow> (string + audit_record_view list) \<times> 'w db_scheme" where
  "query_all e limit = audit_query e (\<lambda>r. True) limit"

definition query_audit_logs ::
  "env \<Rightarrow> string option \<Rightarrow> 64 word \<Rightarrow> 'w db_scheme \<Rightarrow> (string + audit_record_view list) \<times> 'w db_scheme" where
  "query_audit_logs e route_key limit d =
     (case route_key of Some k \<Rightarrow> query_by_route e k limit d | None \<Rightarrow> query_all e limit d)"

section \<open>Verification at startup\<close>

text \<open>
  Reading the rows: \<open>entry_hash\<close> is read as a \<open>String\<close>, so a NULL there is a conversion
  error that ends the query.
\<close>

fun chain_rows :: "audit_row list \<Rightarrow> string + chain_row list" where
  "chain_rows [] = Ok []"
| "chain_rows (r # rs) =
     (case al_entry_hash r of
        None \<Rightarrow> Err ''Invalid column type Null at index: 2, name: entry_hash''
      | Some h \<Rightarrow>
          (case chain_rows rs of
             Err m \<Rightarrow> Err m
           | Ok xs \<Rightarrow> Ok (\<lparr> cr_id = al_id r, cr_prev_hash = al_prev_hash r, cr_entry_hash = h,
                            cr_route_key = al_route_key r, cr_action = al_action r,
                            cr_result = al_result r, cr_created_at = al_created_at r \<rparr> # xs)))"

definition verify_chain ::
  "digest \<Rightarrow> env \<Rightarrow> 'w db_scheme \<Rightarrow> (chain_error + string option) \<times> 'w db_scheme" where
  "verify_chain sha e d =
     (let (r, d') = sql e (\<lambda>n d. map_sum id (\<lambda>rows. (rows, d)) (chain_rows (sort_key al_id (t_audit_log d)))) d
      in (case r of
            Err m \<Rightarrow> (Err (HeadMismatch 0 None (Some m)), d')
          | Ok rows \<Rightarrow> (verify sha rows, d')))"

section \<open>The invariant of the log\<close>

text \<open>Ids ascend in insertion order, and the stored chain verifies with head \<open>h\<close>.\<close>

definition log_ids_ok :: "audit_row list \<Rightarrow> bool" where
  "log_ids_ok t \<longleftrightarrow> sorted_wrt (<) (map al_id t)"

definition log_verified :: "digest \<Rightarrow> audit_row list \<Rightarrow> string option \<Rightarrow> bool" where
  "log_verified sha t h \<longleftrightarrow> log_ids_ok t \<and>
     (case chain_rows t of Ok rows \<Rightarrow> verify sha rows = Ok h | Err _ \<Rightarrow> False)"

lemma fold_max_ge: "a \<le> fold max xs a \<and> (\<forall>x \<in> set xs. x \<le> fold max xs a)" for a :: int
proof (induction xs arbitrary: a)
  case (Cons y xs)
  show ?case using Cons.IH [of "max y a"] by simp
qed simp

lemma next_audit_id_fresh: "r \<in> set t \<Longrightarrow> al_id r < next_audit_id t"
  using fold_max_ge [of 0 "map al_id t"] by (force simp: next_audit_id_def)

lemma log_ids_ok_append:
  "log_ids_ok t \<Longrightarrow> al_id r = next_audit_id t \<Longrightarrow> log_ids_ok (t @ [r])"
  by (auto simp: log_ids_ok_def sorted_wrt_append next_audit_id_fresh)

lemma log_sorted: "log_ids_ok t \<Longrightarrow> sort_key al_id t = t"
proof -
  assume "log_ids_ok t"
  then have "sorted (map al_id t)"
    unfolding log_ids_ok_def by (rule strict_sorted_imp_sorted)
  then show ?thesis by (rule sort_key_id_if_sorted)
qed

lemma head_hash_snoc: "log_ids_ok (t @ [r]) \<Longrightarrow> head_hash (t @ [r]) = al_entry_hash r"
  by (simp add: head_hash_def log_sorted)

lemma head_hash_Nil [simp]: "head_hash [] = None"
  by (simp add: head_hash_def)

lemma chain_rows_append:
  "chain_rows (t @ u) =
     (case chain_rows t of Err m \<Rightarrow> Err m
      | Ok xs \<Rightarrow> (case chain_rows u of Err m \<Rightarrow> Err m | Ok ys \<Rightarrow> Ok (xs @ ys)))"
  by (induction t) (auto split: option.split sum.split)

lemma chain_rows_Err:
  "chain_rows t = Err m \<Longrightarrow> m = ''Invalid column type Null at index: 2, name: entry_hash''"
  by (induction t) (auto split: option.splits sum.splits)

text \<open>The head the sink reads is the head of the verified chain.\<close>

lemma log_verified_head:
  assumes "log_verified sha t h"
  shows "head_hash t = h"
proof (cases t rule: rev_cases)
  case Nil
  with assms show ?thesis by (simp add: log_verified_def verify_Ok_iff)
next
  case (snoc u r)
  with assms show ?thesis
    by (auto simp: log_verified_def head_hash_snoc chain_rows_append verify_Ok_iff
        split: sum.splits option.splits)
qed

text \<open>A row that links to the head and carries its own hash extends a verified log.\<close>

lemma log_verified_append:
  assumes "log_verified sha t h" and "al_id r = next_audit_id t" and "al_prev_hash r = h"
    and "al_entry_hash r = Some (compute_entry_hash sha (or_empty h) (or_empty (al_route_key r))
           (al_action r) (al_result r) (al_created_at r))"
  shows "log_verified sha (t @ [r]) (al_entry_hash r)"
  using assms
  by (auto simp: log_verified_def log_ids_ok_append chain_rows_append verify_Ok_iff row_hash_def
      split: sum.splits)

text \<open>A row that links to anything else breaks it.\<close>

lemma chain_rows_wrong_link:
  assumes "log_verified sha t h" and "al_prev_hash r \<noteq> h" and "al_entry_hash r \<noteq> None"
  shows "\<exists>xs. chain_rows (t @ [r]) = Ok xs \<and> verify sha xs = Err (HeadMismatch (al_id r) h (al_prev_hash r))"
proof -
  from assms(1) obtain xs where xs: "chain_rows t = Ok xs" "verify sha xs = Ok h"
    by (auto simp: log_verified_def split: sum.splits)
  from xs(2) have ok: "chain_ok sha None xs" and h: "h = chain_head None xs"
    by (simp_all add: verify_Ok_iff)
  from assms(2,3) show ?thesis
    by (auto simp: chain_rows_append xs(1) verify_def verify_loop_prefix [OF ok] h)
qed

lemma verify_chain_rows:
  assumes "env_fault e (db_tick d) = None" and "log_ids_ok (t_audit_log d)"
  shows "fst (verify_chain sha e d) =
    (case chain_rows (t_audit_log d) of
       Err m \<Rightarrow> Err (HeadMismatch 0 None (Some m)) | Ok rows \<Rightarrow> verify sha rows)"
  using assms by (simp add: verify_chain_def sql_def Let_def log_sorted split: sum.split)

section \<open>The sink step by step\<close>

lemma record_head_frame [simp, frame_simps]: "t_audit_log (snd (record_head e d)) = t_audit_log d"
  by (simp add: record_head_def sql_read_eq split: option.split)

lemma record_now_frame [simp, frame_simps]: "t_audit_log (snd (record_now e d)) = t_audit_log d"
  by (simp add: record_now_def sql_read_eq clock_s_def clock_ms_def split: option.split)

lemma record_head_value:
  "fst (record_head e d) = (if env_fault e (db_tick d) = None then head_hash (t_audit_log d) else None)"
  by (simp add: record_head_def sql_read_eq split: option.split)

lemma record_insert_log:
  "t_audit_log (snd (record_insert sha e k a r h now d)) = t_audit_log d \<or>
   t_audit_log (snd (record_insert sha e k a r h now d)) = t_audit_log d @
     [\<lparr> al_id = next_audit_id (t_audit_log d), al_route_key = k, al_action = a, al_result = r,
        al_created_at = now, al_prev_hash = h,
        al_entry_hash = Some (compute_entry_hash sha (or_empty h) (or_empty k) a r now) \<rparr>]"
  by (simp add: record_insert_def sql_write_eq Let_def split: option.split)

lemma audit_record_eq:
  "audit_record sha e k a r d =
     snd (record_insert sha e k a r (fst (record_head e d)) (fst (record_now e (snd (record_head e d))))
       (snd (record_now e (snd (record_head e d)))))"
  by (simp add: audit_record_def split_beta)

text \<open>The sink touches only the audit table and the tick.\<close>

lemma audit_record_frame [simp, frame_simps]:
  "t_outbox (audit_record sha e k a r d) = t_outbox d"
  "t_dead_letter (audit_record sha e k a r d) = t_dead_letter d"
  "t_inbox (audit_record sha e k a r d) = t_inbox d"
  "t_preferences (audit_record sha e k a r d) = t_preferences d"
  "db.more (audit_record sha e k a r d) = db.more d"
  by (simp_all add: audit_record_def record_insert_def record_head_def record_now_def sql_write_eq
      sql_read_eq clock_s_def clock_ms_def Let_def split_beta split: option.split)

lemma audit_record_verified:
  assumes "log_verified sha (t_audit_log d) h" and "env_fault e (db_tick d) = None"
  shows "\<exists>h'. log_verified sha (t_audit_log (audit_record sha e k a r d)) h'"
proof -
  have head: "fst (record_head e d) = h"
    using assms log_verified_head by (simp add: record_head_value)
  let ?d = "snd (record_now e (snd (record_head e d)))"
  let ?now = "fst (record_now e (snd (record_head e d)))"
  let ?x = "\<lparr> al_id = next_audit_id (t_audit_log d), al_route_key = k, al_action = a, al_result = r,
    al_created_at = ?now, al_prev_hash = h,
    al_entry_hash = Some (compute_entry_hash sha (or_empty h) (or_empty k) a r ?now) \<rparr>"
  have "t_audit_log (audit_record sha e k a r d) = t_audit_log d \<or>
        t_audit_log (audit_record sha e k a r d) = t_audit_log d @ [?x]"
    using record_insert_log [of sha e k a r h ?now ?d] by (simp add: audit_record_eq head)
  moreover have "log_verified sha (t_audit_log d @ [?x]) (al_entry_hash ?x)"
    by (rule log_verified_append [OF assms(1)]) simp_all
  ultimately show ?thesis using assms(1) by metis
qed

section \<open>Properties\<close>

text \<open>
  C25. The sink keeps the log verifiable: from a log that verifies, when the read of the
  chain head succeeds, the log after \<open>record\<close> verifies again, whatever else fails, and
  it is either unchanged or longer by one row with the given route key, action and result.
\<close>

theorem audit_record_keeps_chain:
  fixes d :: "'w db_scheme"
  assumes "log_verified sha (t_audit_log d) h" and "env_fault e (db_tick d) = None"
    and t': "t' = t_audit_log (audit_record sha e k a r d)"
  shows "(\<exists>h'. log_verified sha t' h') \<and>
    (t' = t_audit_log d \<or>
     (\<exists>x. t' = t_audit_log d @ [x] \<and> al_route_key x = k \<and> al_action x = a \<and> al_result x = r))"
proof
  show "\<exists>h'. log_verified sha t' h'"
    unfolding t' using assms(1,2) by (rule audit_record_verified)
  let ?d = "snd (record_now e (snd (record_head e d)))"
  have "t_audit_log ?d = t_audit_log d" by simp
  with record_insert_log [of sha e k a r "fst (record_head e d)" _ ?d]
  show "t' = t_audit_log d \<or>
      (\<exists>x. t' = t_audit_log d @ [x] \<and> al_route_key x = k \<and> al_action x = a \<and> al_result x = r)"
    unfolding t' audit_record_eq by fastforce
qed

definition calm_env :: env where
  "calm_env = \<lparr> env_fault = \<lambda>n. None, env_now_ms = \<lambda>n. 1000 * int n, env_rank = \<lambda>n s. 0,
     env_uuid = \<lambda>n. show_nat n \<rparr>"

theorem audit_record_keeps_chain_witness:
  "\<exists>h. log_verified toy_sha (t_audit_log (audit_record toy_sha calm_env (Some ''k'') ''send'' ''sent'' empty_db)) h"
  using audit_record_keeps_chain [of toy_sha empty_db None calm_env _ "Some ''k''" "''send''" "''sent''", OF _ _ refl]
  by (simp add: empty_db_def log_verified_def log_ids_ok_def verify_def calm_env_def)

text \<open>
  A row written by \<open>write_audit\<close> makes the log unverifiable: after a successful write
  every later \<open>verify_chain\<close> whose query succeeds reports a corrupted chain, whatever the
  log held before.
\<close>

theorem write_audit_breaks_chain:
  assumes "log_ids_ok (t_audit_log d)" and "write_audit e k a r d = (Ok (), d')"
    and "env_fault e' (db_tick d') = None"
  shows "fst (verify_chain sha e' d') = Err (HeadMismatch 0 None
    (Some ''Invalid column type Null at index: 2, name: entry_hash''))"
proof -
  from assms(2) obtain x where t: "t_audit_log d' = t_audit_log d @ [x]"
    and x: "al_id x = next_audit_id (t_audit_log d)" "al_entry_hash x = None"
    by (auto simp: write_audit_def sql_write_eq map_err_def split: option.splits)
  have "chain_rows (t_audit_log d') = Err ''Invalid column type Null at index: 2, name: entry_hash''"
    unfolding t chain_rows_append using x(2) by (auto split: sum.split dest: chain_rows_Err)
  moreover have "log_ids_ok (t_audit_log d')"
    unfolding t using assms(1) x(1) by (rule log_ids_ok_append)
  ultimately show ?thesis using verify_chain_rows [OF assms(3)] by simp
qed

theorem write_audit_breaks_chain_witness:
  "fst (verify_chain toy_sha calm_env (snd (write_audit calm_env None ''push'' ''ok'' empty_db))) =
     Err (HeadMismatch 0 None (Some ''Invalid column type Null at index: 2, name: entry_hash''))"
proof (rule write_audit_breaks_chain)
  show "log_ids_ok (t_audit_log empty_db)" by (simp add: empty_db_def log_ids_ok_def)
  show "write_audit calm_env None ''push'' ''ok'' empty_db =
      (Ok (), snd (write_audit calm_env None ''push'' ''ok'' empty_db))"
    by (simp add: write_audit_def sql_write_eq calm_env_def map_err_def)
qed (simp add: calm_env_def)

text \<open>
  Two writers can fork the chain: if one writer has read the chain head and another
  connection completes a \<open>record\<close> before the first writer's insert, and both inserts
  succeed, then the log no longer verifies; the first writer's row is reported as the one
  with the wrong link.
\<close>

theorem concurrent_records_fork:
  assumes "log_verified sha (t_audit_log d) h"
    and "record_head e d = (prev, d1)" and "env_fault e (db_tick d) = None"
    and "d2 = audit_record sha e k2 a2 r2 d1" and "env_fault e (db_tick d1) = None"
    and "record_insert sha e k a r prev now d2 = (Ok (), d3)"
    and "head_hash (t_audit_log d2) \<noteq> prev"
    and "env_fault e' (db_tick d3) = None"
  shows "\<exists>h'. fst (verify_chain sha e' d3) = Err (HeadMismatch (next_audit_id (t_audit_log d2)) h' prev)"
proof -
  have d1: "t_audit_log d1 = t_audit_log d" using record_head_frame [of e d] assms(2) by simp
  obtain h' where v: "log_verified sha (t_audit_log d2) h'"
    using audit_record_verified [of sha d1 h e k2 a2 r2] assms(1,4,5) d1 by auto
  have "h' \<noteq> prev" using log_verified_head [OF v] assms(7) by simp
  from assms(6) obtain x where t: "t_audit_log d3 = t_audit_log d2 @ [x]"
    and x: "al_id x = next_audit_id (t_audit_log d2)" "al_prev_hash x = prev" "al_entry_hash x \<noteq> None"
    by (auto simp: record_insert_def sql_write_eq Let_def split: option.splits)
  have "log_ids_ok (t_audit_log d3)"
    unfolding t using v x(1) by (simp add: log_verified_def log_ids_ok_append)
  moreover obtain xs where "chain_rows (t_audit_log d3) = Ok xs"
    "verify sha xs = Err (HeadMismatch (al_id x) h' prev)"
    using chain_rows_wrong_link [OF v, of x] x \<open>h' \<noteq> prev\<close> unfolding t by metis
  ultimately show ?thesis using verify_chain_rows [OF assms(8)] x(1) by auto
qed

theorem concurrent_records_fork_witness:
  "\<exists>h'. fst (verify_chain toy_sha calm_env
      (snd (record_insert toy_sha calm_env None ''send'' ''late'' None 5
        (audit_record toy_sha calm_env None ''send'' ''first'' (snd (record_head calm_env empty_db)))))) =
    Err (HeadMismatch 2 h' None)"
proof -
  let ?d1 = "snd (record_head calm_env empty_db)"
  let ?d2 = "audit_record toy_sha calm_env None ''send'' ''first'' ?d1"
  let ?r = "record_insert toy_sha calm_env None ''send'' ''late'' None 5 ?d2"
  have log: "\<exists>x. t_audit_log ?d2 = [x] \<and> al_entry_hash x \<noteq> None \<and> al_id x = 1"
    by (simp add: audit_record_def record_head_def record_now_def record_insert_def sql_read_eq
        sql_write_eq calm_env_def empty_db_def Let_def next_audit_id_def)
  have ok: "?r = (Ok (), snd ?r)"
    by (simp add: record_insert_def sql_write_eq calm_env_def Let_def)
  have head: "record_head calm_env empty_db = (None, ?d1)"
    by (simp add: record_head_def sql_read_eq calm_env_def empty_db_def)
  have "\<exists>h'. fst (verify_chain toy_sha calm_env (snd ?r)) =
      Err (HeadMismatch (next_audit_id (t_audit_log ?d2)) h' None)"
    by (rule concurrent_records_fork [OF _ head _ refl _ ok])
      (use log in \<open>auto simp: calm_env_def empty_db_def log_verified_def log_ids_ok_def verify_def head_hash_def\<close>)
  then show ?thesis using log by (auto simp: next_audit_id_def)
qed

end
