(* ===== verification/Resilience.thy ===== *)
theory Resilience
  imports Domain
begin

text \<open>
  \<open>src/core/resilience\<close>: circuit breaker, bulkhead and the gate that combines them.

  \<^item> The breaker's mutexes and atomics are the fields of one record. \<open>allow_request\<close> and
    \<open>record_success\<close> hold the state mutex all along and are one atomic step each;
    \<open>record_failure\<close> counts before it takes the mutex and is three: count, note the time, trip.
    Counters are 32-bit words, an \<open>Instant\<close> is a reading of a monotonic millisecond clock,
    \<open>elapsed\<close> a truncated difference.
  \<^item> The bulkhead is a semaphore with its count of active guards; waiting callers are the
    absence of a step.
  \<^item> Interleavings of callers are covered by the step relations \<open>breaker_step\<close> and
    \<open>bulkhead_step\<close>; \<open>gate_execute\<close> is one call as its own task sees it.
\<close>

section \<open>Circuit breaker\<close>

datatype circuit_state = CClosed | COpen | CHalfOpen

record breaker_config =
  failure_threshold :: "32 word"
  timeout_ms :: nat
  half_open_max :: "32 word"

definition breaker_config_default :: breaker_config where
  "breaker_config_default =
     \<lparr> failure_threshold = 20, timeout_ms = 300000, half_open_max = 3 \<rparr>"

record breaker =
  br_state :: circuit_state
  br_failure_count :: "32 word"
  br_last_failure_time :: nat
  br_opened_at :: "nat option"
  br_config :: breaker_config

definition breaker_new :: "breaker_config \<Rightarrow> breaker" where
  "breaker_new c =
     \<lparr> br_state = CClosed, br_failure_count = 0, br_last_failure_time = 0,
       br_opened_at = None, br_config = c \<rparr>"

text \<open>Whether the timeout has elapsed since the breaker opened.\<close>

definition timed_out :: "nat \<Rightarrow> breaker \<Rightarrow> bool" where
  "timed_out now b =
     (case br_opened_at b of
        Some opened \<Rightarrow> timeout_ms (br_config b) \<le> now - opened
      | None \<Rightarrow> False)"

definition allow_request :: "nat \<Rightarrow> breaker \<Rightarrow> bool \<times> breaker" where
  "allow_request now b =
     (case br_state b of
        CClosed \<Rightarrow> (True, b)
      | COpen \<Rightarrow>
          (if timed_out now b then (True, b\<lparr>br_state := CHalfOpen, br_failure_count := 0\<rparr>)
           else (False, b))
      | CHalfOpen \<Rightarrow>
          (if half_open_max (br_config b) \<le> br_failure_count b
           then (False, if timed_out now b
                        then b\<lparr>br_state := COpen, br_opened_at := Some now, br_failure_count := 0\<rparr>
                        else b)
           else (True, b)))"

definition record_success :: "breaker \<Rightarrow> breaker" where
  "record_success b =
     (let b' = b\<lparr>br_failure_count := 0\<rparr>
      in if br_state b' = CHalfOpen then b'\<lparr>br_state := CClosed\<rparr> else b')"

text \<open>
  The atomic parts of \<open>record_failure\<close>. \<open>elapsed\<close> is the reading stored in \<open>last_failure_time\<close>: the
  age of an \<open>Instant\<close> created in the same expression.
\<close>

definition count_failure :: "breaker \<Rightarrow> 32 word \<times> breaker" where
  "count_failure b = (let n = br_failure_count b + 1 in (n, b\<lparr>br_failure_count := n\<rparr>))"

definition note_failure :: "nat \<Rightarrow> breaker \<Rightarrow> breaker" where
  "note_failure elapsed b = b\<lparr>br_last_failure_time := elapsed\<rparr>"

definition trip :: "nat \<Rightarrow> 32 word \<Rightarrow> breaker \<Rightarrow> breaker" where
  "trip now n b =
     (if failure_threshold (br_config b) \<le> n \<and> br_state b = CClosed
      then b\<lparr>br_state := COpen, br_opened_at := Some now\<rparr>
      else b)"

text \<open>\<open>record_failure\<close> of a caller that no other one interrupts.\<close>

definition record_failure :: "nat \<Rightarrow> nat \<Rightarrow> breaker \<Rightarrow> breaker" where
  "record_failure now elapsed b = (let (n, b1) = count_failure b in trip now n (note_failure elapsed b1))"

section \<open>Bulkhead\<close>

record bulkhead =
  bh_permits :: nat
  bh_max_concurrent :: nat
  bh_active_count :: nat

definition bulkhead_new :: "nat \<Rightarrow> bulkhead" where
  "bulkhead_new n = \<lparr> bh_permits = n, bh_max_concurrent = n, bh_active_count = 0 \<rparr>"

datatype bulkhead_error = Full | BClosed

text \<open>\<open>acquire\<close> proceeds when there is a permit and waits otherwise (\<open>None\<close>).\<close>

definition bh_acquire :: "bulkhead \<Rightarrow> bulkhead option" where
  "bh_acquire b =
     (if 0 < bh_permits b
      then Some (b\<lparr>bh_permits := bh_permits b - 1, bh_active_count := bh_active_count b + 1\<rparr>)
      else None)"

definition bh_try_acquire :: "bulkhead \<Rightarrow> bulkhead_error + bulkhead" where
  "bh_try_acquire b = (case bh_acquire b of Some b' \<Rightarrow> Ok b' | None \<Rightarrow> Err Full)"

text \<open>Dropping a guard: the counter goes down and the permit goes back.\<close>

definition bh_release :: "bulkhead \<Rightarrow> bulkhead" where
  "bh_release b = b\<lparr>bh_permits := bh_permits b + 1, bh_active_count := bh_active_count b - 1\<rparr>"

record bulkhead_pools =
  pool_ai :: bulkhead
  pool_send :: bulkhead

definition bulkhead_pools_default :: bulkhead_pools where
  "bulkhead_pools_default = \<lparr> pool_ai = bulkhead_new 5, pool_send = bulkhead_new 50 \<rparr>"

section \<open>The gate\<close>

record gate =
  g_breaker :: breaker
  g_bulkhead :: bulkhead

definition gate_new :: "breaker_config \<Rightarrow> nat \<Rightarrow> gate" where
  "gate_new c n = \<lparr> g_breaker = breaker_new c, g_bulkhead = bulkhead_new n \<rparr>"

definition gate_ai_default :: gate where
  "gate_ai_default = gate_new breaker_config_default 5"

definition gate_send_default :: gate where
  "gate_send_default = gate_new breaker_config_default 50"

text \<open>
  \<open>execute\<close>, seen by one task: \<open>None\<close> is waiting for a permit. The operation runs on the
  rest of the world \<open>'s\<close>; \<open>t0\<close> and \<open>t1\<close> are the clock at admission and completion,
  \<open>from_string\<close> is the error type's \<open>From<String>\<close>.
\<close>

definition gate_execute ::
  "(string \<Rightarrow> 'e) \<Rightarrow> nat \<Rightarrow> nat \<Rightarrow> ('s \<Rightarrow> ('e + 'a) \<times> 's) \<Rightarrow> gate \<Rightarrow> 's \<Rightarrow>
   (('e + 'a) \<times> gate \<times> 's) option" where
  "gate_execute from_string t0 t1 op g s =
     (let (allowed, br) = allow_request t0 (g_breaker g); g1 = g\<lparr>g_breaker := br\<rparr> in
      if \<not> allowed then Some (Err (from_string ''circuit breaker open''), g1, s)
      else (case bh_acquire (g_bulkhead g1) of
              None \<Rightarrow> None
            | Some bh \<Rightarrow>
                (let g2 = g1\<lparr>g_bulkhead := bh\<rparr>; (r, s') = op s;
                     br' = (case r of Ok _ \<Rightarrow> record_success (g_breaker g2)
                                    | Err _ \<Rightarrow> record_failure t1 0 (g_breaker g2))
                 in Some (r, g2\<lparr>g_breaker := br', g_bulkhead := bh_release bh\<rparr>, s'))))"

section \<open>Interleavings of callers\<close>

text \<open>
  One atomic step of some caller, at a time that never goes back. Beside the breaker stand the counts
  of the callers that have counted their failure and not yet looked whether it trips the breaker.
\<close>

type_synonym breaker_world = "nat \<times> breaker \<times> 32 word list"

inductive breaker_step :: "breaker_world \<Rightarrow> breaker_world \<Rightarrow> bool" where
  request: "t \<le> t' \<Longrightarrow> breaker_step (t, b, cs) (t', snd (allow_request t' b), cs)"
| success: "t \<le> t' \<Longrightarrow> breaker_step (t, b, cs) (t', record_success b, cs)"
| failure_counted: "t \<le> t' \<Longrightarrow> count_failure b = (n, b') \<Longrightarrow> breaker_step (t, b, cs) (t', b', n # cs)"
| failure_noted: "t \<le> t' \<Longrightarrow> cs \<noteq> [] \<Longrightarrow> breaker_step (t, b, cs) (t', note_failure el b, cs)"
| failure_done: "t \<le> t' \<Longrightarrow> n \<in> set cs \<Longrightarrow> breaker_step (t, b, cs) (t', trip t' n b, remove1 n cs)"

inductive breaker_reachable :: "breaker_config \<Rightarrow> breaker_world \<Rightarrow> bool" for c where
  start: "breaker_reachable c (t, breaker_new c, [])"
| step: "breaker_reachable c x \<Longrightarrow> breaker_step x y \<Longrightarrow> breaker_reachable c y"

text \<open>An undisturbed \<open>record_failure\<close> is three such steps.\<close>

lemma record_failure_steps: "t \<le> t' \<Longrightarrow> breaker_step\<^sup>*\<^sup>* (t, b, cs) (t', record_failure t' el b, cs)"
proof -
  assume t: "t \<le> t'"
  obtain n b1 where n: "count_failure b = (n, b1)" by force
  have "breaker_step (t, b, cs) (t', b1, n # cs)" using t n by (rule breaker_step.failure_counted)
  moreover have "breaker_step (t', b1, n # cs) (t', note_failure el b1, n # cs)"
    by (rule breaker_step.failure_noted) simp_all
  moreover have "breaker_step (t', note_failure el b1, n # cs) (t', trip t' n (note_failure el b1), remove1 n (n # cs))"
    by (rule breaker_step.failure_done) simp_all
  ultimately show ?thesis
    by (auto simp: record_failure_def n intro: converse_rtranclp_into_rtranclp)
qed

text \<open>Callers of a bulkhead: one gets a permit, or one drops its guard.\<close>

inductive bulkhead_step :: "bulkhead \<Rightarrow> bulkhead \<Rightarrow> bool" where
  acquire: "bh_acquire b = Some b' \<Longrightarrow> bulkhead_step b b'"
| release: "0 < bh_active_count b \<Longrightarrow> bulkhead_step b (bh_release b)"

inductive bulkhead_reachable :: "nat \<Rightarrow> bulkhead \<Rightarrow> bool" for n where
  start: "bulkhead_reachable n (bulkhead_new n)"
| step: "bulkhead_reachable n b \<Longrightarrow> bulkhead_step b b' \<Longrightarrow> bulkhead_reachable n b'"

section \<open>Breaker lemmas\<close>

lemmas failure_defs = record_failure_def count_failure_def note_failure_def trip_def

lemmas breaker_defs = allow_request_def record_success_def failure_defs Let_def

lemma config_frame [simp, frame_simps]:
  "br_config (snd (allow_request t b)) = br_config b"
  "br_config (record_success b) = br_config b"
  "br_config (record_failure t el b) = br_config b"
  "br_config (snd (count_failure b)) = br_config b"
  "br_config (note_failure el b) = br_config b"
  "br_config (trip t n b) = br_config b"
  by (auto simp: breaker_defs split: circuit_state.split)

text \<open>
  The invariant: an open breaker knows since when; a half-open one has been so for at
  least the timeout, so its reversion to open is always enabled. Nothing holds of the counter: a
  failure may be counted long before the breaker trips, and a success may reset it in between.
\<close>

definition breaker_ok :: "breaker_world \<Rightarrow> bool" where
  "breaker_ok x \<longleftrightarrow> (let (now, b, cs) = x in
     (br_state b = COpen \<longrightarrow> (\<exists>t. br_opened_at b = Some t \<and> t \<le> now)) \<and>
     (br_state b = CHalfOpen \<longrightarrow> timed_out now b))"

lemma timed_out_mono: "timed_out t b \<Longrightarrow> t \<le> t' \<Longrightarrow> timed_out t' b"
  by (auto simp: timed_out_def split: option.splits)

lemma timed_out_cong [simp]:
  "timed_out t (b\<lparr>br_state := s\<rparr>) = timed_out t b"
  "timed_out t (b\<lparr>br_failure_count := n\<rparr>) = timed_out t b"
  "timed_out t (b\<lparr>br_last_failure_time := m\<rparr>) = timed_out t b"
  by (simp_all add: timed_out_def split: option.split)

lemma breaker_step_ok: "breaker_step x y \<Longrightarrow> breaker_ok x \<Longrightarrow> breaker_ok y"
proof (induction rule: breaker_step.induct)
  case (request t t' b cs)
  then show ?case
    by (cases "br_state b") (auto simp: breaker_ok_def breaker_defs dest: timed_out_mono split: if_splits)
qed (auto simp: breaker_ok_def breaker_defs dest: timed_out_mono split: if_splits)

lemma breaker_step_config: "breaker_step x y \<Longrightarrow> br_config (fst (snd y)) = br_config (fst (snd x))"
proof (induction rule: breaker_step.induct)
  case (failure_counted t t' b n b' cs)
  then show ?case using config_frame(4) [of b] by simp
qed simp_all

lemma breaker_reachable_ok: "breaker_reachable c x \<Longrightarrow> breaker_ok x \<and> br_config (fst (snd x)) = c"
proof (induction rule: breaker_reachable.induct)
  case (start t)
  then show ?case by (simp add: breaker_ok_def breaker_new_def)
next
  case (step x y)
  then show ?case using breaker_step_ok breaker_step_config by auto
qed

text \<open>A failure that was counted before a success may still open the breaker after it.\<close>

lemma late_failure_opens:
  assumes "br_state b = CClosed" and "count_failure b = (n, b1)" and "failure_threshold (br_config b) \<le> n"
  shows "br_state (record_success b1) = CClosed" and "br_failure_count (record_success b1) = 0"
    and "br_state (trip t n (record_success b1)) = COpen"
  using assms by (auto simp: breaker_defs)

text \<open>A half-open breaker admits any number of requests as long as few of them have failed.\<close>

lemma half_open_unlimited:
  "br_state b = CHalfOpen \<Longrightarrow> br_failure_count b < half_open_max (br_config b) \<Longrightarrow> allow_request t b = (True, b)"
  by (simp add: allow_request_def)

text \<open>A run of failures of a closed breaker, at the given times.\<close>

definition record_failures :: "nat list \<Rightarrow> breaker \<Rightarrow> breaker" where
  "record_failures ts b = fold (\<lambda>t. record_failure t 0) ts b"

lemma record_failure_closed:
  assumes "br_state b = CClosed" and "br_failure_count b < failure_threshold (br_config b)"
  defines "n \<equiv> Suc (unat (br_failure_count b))"
  shows "br_state (record_failure t el b) =
           (if n < unat (failure_threshold (br_config b)) then CClosed else COpen)"
    and "unat (br_failure_count (record_failure t el b)) = n"
  using assms unat_plus_one [OF assms(2)]
  by (auto simp: failure_defs Let_def word_le_nat_alt)

lemma record_failures_count:
  assumes "br_state b = CClosed"
    and "unat (br_failure_count b) + length ts < unat (failure_threshold (br_config b))"
  shows "br_state (record_failures ts b) = CClosed \<and>
         unat (br_failure_count (record_failures ts b)) = unat (br_failure_count b) + length ts \<and>
         br_config (record_failures ts b) = br_config b"
  using assms
proof (induction ts arbitrary: b)
  case Nil
  then show ?case by (simp add: record_failures_def)
next
  case (Cons t ts)
  let ?b = "record_failure t 0 b"
  have "br_failure_count b < failure_threshold (br_config b)"
    using Cons.prems by (simp add: word_less_nat_alt)
  note step = record_failure_closed [OF Cons.prems(1) this, of t 0]
  have "br_state (record_failures ts ?b) = CClosed \<and>
        unat (br_failure_count (record_failures ts ?b)) = unat (br_failure_count ?b) + length ts \<and>
        br_config (record_failures ts ?b) = br_config ?b"
    by (rule Cons.IH) (use Cons.prems step in simp_all)
  then show ?case using step by (simp add: record_failures_def)
qed

section \<open>Bulkhead lemmas\<close>

definition bulkhead_ok :: "bulkhead \<Rightarrow> bool" where
  "bulkhead_ok b \<longleftrightarrow> bh_permits b + bh_active_count b = bh_max_concurrent b"

lemma bulkhead_step_ok: "bulkhead_step b b' \<Longrightarrow> bulkhead_ok b \<Longrightarrow> bulkhead_ok b'"
  by (induction rule: bulkhead_step.induct)
    (auto simp: bulkhead_ok_def bh_acquire_def bh_release_def split: if_splits)

lemma bulkhead_step_max: "bulkhead_step b b' \<Longrightarrow> bh_max_concurrent b' = bh_max_concurrent b"
  by (induction rule: bulkhead_step.induct)
    (auto simp: bh_acquire_def bh_release_def split: if_splits)

lemma bulkhead_reachable_ok:
  "bulkhead_reachable n b \<Longrightarrow> bulkhead_ok b \<and> bh_max_concurrent b = n"
proof (induction rule: bulkhead_reachable.induct)
  case start
  then show ?case by (simp add: bulkhead_ok_def bulkhead_new_def)
next
  case (step b b')
  then show ?case using bulkhead_step_ok bulkhead_step_max by auto
qed

lemma bh_acquire_release: "bh_acquire b = Some b' \<Longrightarrow> bh_release b' = b"
  by (auto simp: bh_acquire_def bh_release_def split: if_splits)

section \<open>Gate lemmas\<close>

lemma gate_execute_rejected:
  assumes "\<not> fst (allow_request t0 (g_breaker g))"
  shows "gate_execute fs t0 t1 op g s =
    Some (Err (fs ''circuit breaker open''), g\<lparr>g_breaker := snd (allow_request t0 (g_breaker g))\<rparr>, s)"
  using assms by (cases "allow_request t0 (g_breaker g)") (simp add: gate_execute_def)

lemma gate_execute_admitted:
  assumes "allow_request t0 (g_breaker g) = (True, br)" and "0 < bh_permits (g_bulkhead g)"
    and "op s = (r, s')"
  shows "gate_execute fs t0 t1 op g s =
    Some (r, g\<lparr>g_breaker := (case r of Ok _ \<Rightarrow> record_success br | Err _ \<Rightarrow> record_failure t1 0 br)\<rparr>, s')"
  using assms
  by (simp add: gate_execute_def bh_acquire_def bh_release_def Let_def split: sum.split)

text \<open>A call gives its permit back: the bulkhead is as before.\<close>

lemma gate_execute_bulkhead:
  assumes "gate_execute fs t0 t1 op g s = Some (r, g', s')"
  shows "g_bulkhead g' = g_bulkhead g"
  using assms bh_acquire_release
  by (auto simp: gate_execute_def Let_def split: prod.splits if_splits option.splits sum.splits)

section \<open>Properties\<close>

text \<open>
  The breaker opens at its threshold and not before: starting from a closed breaker
  below its threshold, fewer failures than are missing leave it closed and admitting
  requests, and exactly the missing number opens it, so that it rejects every request
  until the timeout has passed.
\<close>

theorem breaker_opens_at_threshold:
  assumes "br_state b = CClosed"
    and "unat (br_failure_count b) + length ts < unat (failure_threshold (br_config b))"
  shows "fst (allow_request now (record_failures ts b)) \<and>
    (Suc (unat (br_failure_count b) + length ts) = unat (failure_threshold (br_config b)) \<and>
     now - t < timeout_ms (br_config b) \<longrightarrow>
       \<not> fst (allow_request now (record_failures (ts @ [t]) b)))"
proof (intro conjI impI)
  note closed = record_failures_count [OF assms]
  then show "fst (allow_request now (record_failures ts b))" by (simp add: allow_request_def)
  assume last: "Suc (unat (br_failure_count b) + length ts) = unat (failure_threshold (br_config b)) \<and>
    now - t < timeout_ms (br_config b)"
  let ?b = "record_failures ts b"
  have "br_failure_count ?b < failure_threshold (br_config ?b)"
    using closed assms(2) by (simp add: word_less_nat_alt)
  from record_failure_closed [OF _ this, of t 0] closed last
  have "br_state (record_failure t 0 ?b) = COpen" by simp
  moreover from this closed have "br_opened_at (record_failure t 0 ?b) = Some t"
    by (auto simp: failure_defs Let_def split: if_splits)
  ultimately show "\<not> fst (allow_request now (record_failures (ts @ [t]) b))"
    using last closed by (simp add: record_failures_def allow_request_def timed_out_def)
qed

theorem breaker_opens_at_threshold_witness:
  "fst (allow_request 50 (record_failures [10, 20] (breaker_new \<lparr> failure_threshold = 3, timeout_ms = 100, half_open_max = 1 \<rparr>))) \<and>
   \<not> fst (allow_request 50 (record_failures ([10, 20] @ [30]) (breaker_new \<lparr> failure_threshold = 3, timeout_ms = 100, half_open_max = 1 \<rparr>)))"
  using breaker_opens_at_threshold [of "breaker_new \<lparr> failure_threshold = 3, timeout_ms = 100, half_open_max = 1 \<rparr>"
      "[10, 20]" 50 30]
  by (simp add: breaker_new_def)

text \<open>
  C38. The breaker never gets stuck: in every state it can reach, under any interleaving of the atomic
  steps of its callers and any clock that does not run back, a request is judged as follows. A closed
  breaker admits it. An open one refuses it until the timeout has passed since it opened, then it
  admits it, is half-open and its counter starts again. A half-open one admits it as long as fewer
  failures than \<open>half_open_max\<close> were counted, and otherwise refuses it and is open again from now
  on. So, when \<open>half_open_max\<close> is not zero, the next request a full timeout after any request is admitted.
\<close>

theorem breaker_recovers:
  assumes "breaker_reachable c (now, b, cs)"
  shows "(case br_state b of
      CClosed \<Rightarrow> allow_request now b = (True, b)
    | COpen \<Rightarrow> \<exists>t \<le> now. br_opened_at b = Some t \<and> allow_request now b =
        (if timeout_ms c \<le> now - t then (True, b\<lparr>br_state := CHalfOpen, br_failure_count := 0\<rparr>) else (False, b))
    | CHalfOpen \<Rightarrow> allow_request now b =
        (if br_failure_count b < half_open_max c then (True, b)
         else (False, b\<lparr>br_state := COpen, br_opened_at := Some now, br_failure_count := 0\<rparr>))) \<and>
    (0 < half_open_max c \<longrightarrow> (\<forall>t \<ge> now + timeout_ms c. fst (allow_request t (snd (allow_request now b)))))"
proof (cases "br_state b")
  case CClosed
  then show ?thesis by (simp add: allow_request_def)
next
  case COpen
  with breaker_reachable_ok [OF assms] obtain t where t: "t \<le> now" "br_opened_at b = Some t" "br_config b = c"
    by (auto simp: breaker_ok_def)
  with COpen have "allow_request now b =
      (if timeout_ms c \<le> now - t then (True, b\<lparr>br_state := CHalfOpen, br_failure_count := 0\<rparr>) else (False, b))"
    by (simp add: allow_request_def timed_out_def)
  moreover from this t COpen have "fst (allow_request u (snd (allow_request now b)))"
    if "0 < half_open_max c" "now + timeout_ms c \<le> u" for u
    using that by (auto simp: allow_request_def timed_out_def)
  ultimately show ?thesis using COpen t by auto
next
  case CHalfOpen
  with breaker_reachable_ok [OF assms] have "timed_out now b" "br_config b = c" by (simp_all add: breaker_ok_def)
  with CHalfOpen have "allow_request now b =
      (if br_failure_count b < half_open_max c then (True, b)
       else (False, b\<lparr>br_state := COpen, br_opened_at := Some now, br_failure_count := 0\<rparr>))"
    by (simp add: allow_request_def not_le [symmetric])
  moreover from this CHalfOpen \<open>br_config b = c\<close> have "fst (allow_request u (snd (allow_request now b)))"
    if "now + timeout_ms c \<le> u" for u
    using that by (auto simp: allow_request_def timed_out_def)
  ultimately show ?thesis using CHalfOpen by auto
qed

text \<open>A probe fails, the next request is refused, and one timeout later the breaker admits again.\<close>

theorem breaker_recovers_witness:
  "let c = \<lparr> failure_threshold = 1, timeout_ms = 100, half_open_max = 1 \<rparr>;
       b1 = record_failure 5 0 (breaker_new c);
       b2 = record_failure 120 0 (snd (allow_request 105 b1))
   in \<not> fst (allow_request 5 b1) \<and> br_state (snd (allow_request 120 b2)) = COpen \<and>
      fst (allow_request 220 (snd (allow_request 120 b2)))"
proof -
  let ?c = "\<lparr> failure_threshold = 1, timeout_ms = 100, half_open_max = 1 \<rparr> :: breaker_config"
  let ?b1 = "record_failure 5 0 (breaker_new ?c)"
  let ?b2 = "record_failure 120 0 (snd (allow_request 105 ?b1))"
  have run: "breaker_step\<^sup>*\<^sup>* x y \<Longrightarrow> breaker_reachable ?c x \<Longrightarrow> breaker_reachable ?c y" for x y
    by (induction rule: rtranclp_induct) (auto intro: breaker_reachable.step)
  have r1: "breaker_reachable ?c (5, ?b1, [])"
    by (rule run [OF record_failure_steps breaker_reachable.start [of _ 5]]) simp
  have "breaker_reachable ?c (105, snd (allow_request 105 ?b1), [])"
    by (rule breaker_reachable.step [OF r1 breaker_step.request]) simp
  then have r2: "breaker_reachable ?c (120, ?b2, [])" by (rule run [OF record_failure_steps, rotated]) simp
  have "br_state ?b1 = COpen" "br_opened_at ?b1 = Some 5" "br_state ?b2 = CHalfOpen" "br_failure_count ?b2 = 1"
    by (simp_all add: breaker_defs breaker_new_def timed_out_def)
  note facts = this breaker_recovers [OF r1] breaker_recovers [OF r2]
  have "\<not> fst (allow_request 5 ?b1)" "br_state (snd (allow_request 120 ?b2)) = COpen"
    using facts by simp_all
  moreover have "fst (allow_request 220 (snd (allow_request 120 ?b2)))"
    using facts(6) [THEN conjunct2] by simp
  ultimately show ?thesis by (simp add: Let_def)
qed

text \<open>
  The gate: a rejected call returns the breaker's error without running the
  operation or touching the bulkhead; an admitted call that gets a permit runs it exactly
  once, returns its result, reports it to the breaker and gives the permit back; only an
  admitted call without a free permit waits.
\<close>

theorem gate_contract:
  "gate_execute fs t0 t1 op g s =
     (let (allowed, br) = allow_request t0 (g_breaker g); (r, s') = op s in
      if \<not> allowed then Some (Err (fs ''circuit breaker open''), g\<lparr>g_breaker := br\<rparr>, s)
      else if bh_permits (g_bulkhead g) = 0 then None
      else Some (r, g\<lparr>g_breaker := if is_Ok r then record_success br else record_failure t1 0 br\<rparr>, s'))"
  by (auto simp: gate_execute_def bh_acquire_def bh_release_def Let_def is_Ok_def
      split: prod.split sum.split)

text \<open>
  Whatever the interleaving of callers, a bulkhead never has more active guards than
  its limit, and active guards and free permits always add up to the limit.
\<close>

theorem bulkhead_bounded:
  assumes "bulkhead_reachable n b"
  shows "bh_active_count b \<le> n \<and> bh_permits b + bh_active_count b = n \<and>
    (is_Ok (bh_try_acquire b) \<longleftrightarrow> bh_active_count b < n)"
  using bulkhead_reachable_ok [OF assms]
  by (auto simp: bulkhead_ok_def bh_try_acquire_def bh_acquire_def is_Ok_def)

theorem bulkhead_bounded_witness:
  "\<not> is_Ok (bh_try_acquire \<lparr> bh_permits = 0, bh_max_concurrent = 1, bh_active_count = 1 \<rparr>)"
proof -
  have "bulkhead_step (bulkhead_new 1) \<lparr> bh_permits = 0, bh_max_concurrent = 1, bh_active_count = 1 \<rparr>"
    by (rule bulkhead_step.acquire) (simp add: bulkhead_new_def bh_acquire_def)
  from bulkhead_bounded [OF bulkhead_reachable.step [OF bulkhead_reachable.start this]]
  show ?thesis by simp
qed

end
