(* ===== verification/Outbox_Store.thy ===== *)
theory Outbox_Store
  imports Database
begin

text \<open>
  The outbox, dead-letter and inbox ports of \<open>src/domain/ports\<close> and their SQLite adapters
  \<open>src/adapters/sqlite_outbox.rs\<close>, \<open>sqlite_dead_letter.rs\<close> and \<open>sqlite_inbox.rs\<close>.

  A trait object is a record of its methods over a world type \<open>'w\<close>; an adapter is a value
  of that record, built from an environment. The locale \<open>outbox_store\<close> states what a
  client of \<open>OutboxRepo\<close> may rely on in terms of the abstract view of the store, a map
  from ids to entries; the SQLite adapter is an interpretation of it, faults included.
\<close>

section \<open>Ports\<close>

record 'w outbox_repo =
  or_insert :: "outbox_entry \<Rightarrow> 'w \<Rightarrow> (repo_error + unit) \<times> 'w"
  or_mark_status :: "string \<Rightarrow> outbox_status \<Rightarrow> string option \<Rightarrow> 'w \<Rightarrow> (repo_error + unit) \<times> 'w"
  or_mark_retrying :: "string \<Rightarrow> 32 word \<Rightarrow> int \<Rightarrow> string \<Rightarrow> 'w \<Rightarrow> (repo_error + unit) \<times> 'w"
  or_fetch_pending :: "64 word \<Rightarrow> 'w \<Rightarrow> (repo_error + outbox_entry list) \<times> 'w"
  or_fetch_retryable :: "int \<Rightarrow> 64 word \<Rightarrow> 'w \<Rightarrow> (repo_error + outbox_entry list) \<times> 'w"
  or_recover_after_crash :: "'w \<Rightarrow> (repo_error + outbox_entry list) \<times> 'w"

record 'w dead_letter_repo =
  dlr_insert :: "dead_letter_entry \<Rightarrow> 'w \<Rightarrow> (repo_error + unit) \<times> 'w"
  dlr_list :: "64 word \<Rightarrow> 'w \<Rightarrow> (repo_error + dead_letter_entry list) \<times> 'w"
  dlr_replay :: "string \<Rightarrow> 'w \<Rightarrow> (repo_error + outbox_entry) \<times> 'w"

record 'w inbox_repo =
  ir_insert :: "inbox_entry \<Rightarrow> 'w \<Rightarrow> (repo_error + unit) \<times> 'w"
  ir_mark_status :: "string \<Rightarrow> inbox_status \<Rightarrow> 'w \<Rightarrow> (repo_error + unit) \<times> 'w"
  ir_exists :: "string \<Rightarrow> 'w \<Rightarrow> (repo_error + bool) \<times> 'w"

section \<open>SQLite outbox\<close>

definition row_to_entry :: "outbox_row \<Rightarrow> outbox_entry" where
  "row_to_entry r =
     \<lparr> ob_id = ob_id r, ob_route_key = ob_route_key r, ob_payload = ob_payload r,
       ob_status = (case outbox_status_parse (ob_status r) of Some s \<Rightarrow> s | None \<Rightarrow> Pending),
       ob_retry_count = ob_retry_count r, ob_next_retry_at = ob_next_retry_at r,
       ob_last_error = ob_last_error r, ob_created_at = ob_created_at r,
       ob_updated_at = ob_updated_at r \<rparr>"

definition entry_to_row :: "outbox_entry \<Rightarrow> outbox_row" where
  "entry_to_row x =
     \<lparr> ob_id = ob_id x, ob_route_key = ob_route_key x, ob_payload = ob_payload x,
       ob_status = outbox_status_as_str (ob_status x),
       ob_retry_count = ob_retry_count x, ob_next_retry_at = ob_next_retry_at x,
       ob_last_error = ob_last_error x, ob_created_at = ob_created_at x,
       ob_updated_at = ob_updated_at x \<rparr>"

text \<open>A repository call: the database error is wrapped in \<open>RepoError::Db\<close>.\<close>

definition repo :: "(string + 'a) \<times> 'w \<Rightarrow> (repo_error + 'a) \<times> 'w" where
  "repo p = (map_err RepoDb (fst p), snd p)"

definition outbox_insert ::
  "env \<Rightarrow> outbox_entry \<Rightarrow> 'w db_scheme \<Rightarrow> (repo_error + unit) \<times> 'w db_scheme" where
  "outbox_insert e x d =
     repo (sql_write e (\<lambda>n d. d\<lparr>t_outbox := tbl_insert_ignore ob_id (entry_to_row x) (t_outbox d)\<rparr>) d)"

definition outbox_mark_status ::
  "env \<Rightarrow> string \<Rightarrow> outbox_status \<Rightarrow> string option \<Rightarrow> 'w db_scheme \<Rightarrow>
   (repo_error + unit) \<times> 'w db_scheme" where
  "outbox_mark_status e i st er d =
     repo (sql_write e (\<lambda>n d. d\<lparr>t_outbox := tbl_update (\<lambda>r. ob_id r = i)
       (\<lambda>r. r\<lparr>ob_status := outbox_status_as_str st, ob_last_error := er,
              ob_updated_at := unixepoch e n\<rparr>) (t_outbox d)\<rparr>) d)"

definition outbox_mark_retrying ::
  "env \<Rightarrow> string \<Rightarrow> 32 word \<Rightarrow> int \<Rightarrow> string \<Rightarrow> 'w db_scheme \<Rightarrow>
   (repo_error + unit) \<times> 'w db_scheme" where
  "outbox_mark_retrying e i cnt next_at er d =
     repo (sql_write e (\<lambda>n d. d\<lparr>t_outbox := tbl_update (\<lambda>r. ob_id r = i)
       (\<lambda>r. r\<lparr>ob_status := ''retrying'', ob_retry_count := cnt,
              ob_next_retry_at := Some next_at, ob_last_error := Some er,
              ob_updated_at := unixepoch e n\<rparr>) (t_outbox d)\<rparr>) d)"

definition outbox_fetch_pending ::
  "env \<Rightarrow> 64 word \<Rightarrow> 'w db_scheme \<Rightarrow> (repo_error + outbox_entry list) \<times> 'w db_scheme" where
  "outbox_fetch_pending e limit d =
     repo (sql_read e (\<lambda>n d. map row_to_entry (sql_limit limit
       (order_by ob_created_at (\<lambda>r. env_rank e n (ob_id r))
         (filter (\<lambda>r. ob_status r = ''pending'') (t_outbox d))))) d)"

text \<open>\<open>next_retry_at <= ?1\<close> is not true of a NULL.\<close>

definition due :: "int \<Rightarrow> int option \<Rightarrow> bool" where
  "due now t = (case t of Some u \<Rightarrow> u \<le> now | None \<Rightarrow> False)"

definition retry_time :: "outbox_row \<Rightarrow> int" where
  "retry_time r = (case ob_next_retry_at r of Some u \<Rightarrow> u | None \<Rightarrow> 0)"

definition outbox_fetch_retryable ::
  "env \<Rightarrow> int \<Rightarrow> 64 word \<Rightarrow> 'w db_scheme \<Rightarrow> (repo_error + outbox_entry list) \<times> 'w db_scheme" where
  "outbox_fetch_retryable e now limit d =
     repo (sql_read e (\<lambda>n d. map row_to_entry (sql_limit limit
       (order_by retry_time (\<lambda>r. env_rank e n (ob_id r))
         (filter (\<lambda>r. ob_status r = ''retrying'' \<and> due now (ob_next_retry_at r)) (t_outbox d))))) d)"

definition outbox_recover_after_crash ::
  "env \<Rightarrow> 'w db_scheme \<Rightarrow> (repo_error + outbox_entry list) \<times> 'w db_scheme" where
  "outbox_recover_after_crash e d =
     repo (sql_read e (\<lambda>n d. map row_to_entry
       (order_by ob_created_at (\<lambda>r. env_rank e n (ob_id r))
         (filter (\<lambda>r. ob_status r = ''sending'' \<or> ob_status r = ''retrying'') (t_outbox d)))) d)"

definition sqlite_outbox :: "env \<Rightarrow> 'w db_scheme outbox_repo" where
  "sqlite_outbox e =
     \<lparr> or_insert = outbox_insert e, or_mark_status = outbox_mark_status e,
       or_mark_retrying = outbox_mark_retrying e, or_fetch_pending = outbox_fetch_pending e,
       or_fetch_retryable = outbox_fetch_retryable e,
       or_recover_after_crash = outbox_recover_after_crash e \<rparr>"

section \<open>SQLite dead letters\<close>

definition dead_letter_insert ::
  "env \<Rightarrow> dead_letter_entry \<Rightarrow> 'w db_scheme \<Rightarrow> (repo_error + unit) \<times> 'w db_scheme" where
  "dead_letter_insert e x d =
     repo (sql e (\<lambda>n d. case tbl_insert dl_id ''UNIQUE constraint failed: dead_letter.id'' x (t_dead_letter d) of
        Err err \<Rightarrow> Err err | Ok t \<Rightarrow> Ok ((), d\<lparr>t_dead_letter := t\<rparr>)) d)"

definition dead_letter_list ::
  "env \<Rightarrow> 64 word \<Rightarrow> 'w db_scheme \<Rightarrow> (repo_error + dead_letter_entry list) \<times> 'w db_scheme" where
  "dead_letter_list e limit d =
     repo (sql_read e (\<lambda>n d. sql_limit limit
       (order_by_desc dl_created_at (\<lambda>r. env_rank e n (dl_id r)) (t_dead_letter d))) d)"

text \<open>
  The statements of \<open>replay\<close>, in their order: read the entry (no row is an error), delete
  it, look for the outbox row, then reset that row or insert a new one. A failing
  statement ends the closure with what was done so far.
\<close>

definition replay_finish ::
  "env \<Rightarrow> string \<Rightarrow> dead_letter_entry \<Rightarrow> int \<Rightarrow> string option \<Rightarrow> 'w db_scheme \<Rightarrow>
   (string + outbox_entry) \<times> 'w db_scheme" where
  "replay_finish e i dl now existing d =
     (let (r, d') =
        (case existing of
           Some _ \<Rightarrow> sql_write e (\<lambda>n d. d\<lparr>t_outbox := tbl_update (\<lambda>r. ob_id r = i)
             (\<lambda>r. r\<lparr>ob_status := ''pending'', ob_retry_count := 0, ob_next_retry_at := None,
                    ob_last_error := None, ob_payload := dl_payload dl, ob_updated_at := now\<rparr>)
             (t_outbox d)\<rparr>) d
         | None \<Rightarrow> sql e (\<lambda>n d.
             case tbl_insert ob_id ''UNIQUE constraint failed: outbox.id''
               (entry_to_row (outbox_entry_new i ''replayed'' (dl_payload dl) now)) (t_outbox d) of
               Err err \<Rightarrow> Err err | Ok t \<Rightarrow> Ok ((), d\<lparr>t_outbox := t\<rparr>)) d)
      in (case r of
            Err err \<Rightarrow> (Err err, d')
          | Ok _ \<Rightarrow> (Ok (outbox_entry_new i
                (case existing of Some k \<Rightarrow> k | None \<Rightarrow> ''replayed'') (dl_payload dl) now), d')))"

definition dead_letter_replay ::
  "env \<Rightarrow> string \<Rightarrow> 'w db_scheme \<Rightarrow> (repo_error + outbox_entry) \<times> 'w db_scheme" where
  "dead_letter_replay e i d = repo
     (case sql_read e (\<lambda>n d. tbl_find dl_id i (t_dead_letter d)) d of
        (Err err, d1) \<Rightarrow> (Err err, d1)
      | (Ok None, d1) \<Rightarrow> (Err ''Query returned no rows'', d1)
      | (Ok (Some dl), d1) \<Rightarrow>
          (case sql_write e (\<lambda>n d. d\<lparr>t_dead_letter := tbl_delete (\<lambda>r. dl_id r = i) (t_dead_letter d)\<rparr>) d1 of
             (Err err, d2) \<Rightarrow> (Err err, d2)
           | (Ok _, d2) \<Rightarrow>
               (let (now, d3) = clock_s e d2 in
                case sql_read e (\<lambda>n d. map_option ob_route_key (tbl_find ob_id i (t_outbox d))) d3 of
                  (Err err, d4) \<Rightarrow> (Err err, d4)
                | (Ok existing, d4) \<Rightarrow> replay_finish e i dl now existing d4)))"

definition sqlite_dead_letter :: "env \<Rightarrow> 'w db_scheme dead_letter_repo" where
  "sqlite_dead_letter e =
     \<lparr> dlr_insert = dead_letter_insert e, dlr_list = dead_letter_list e,
       dlr_replay = dead_letter_replay e \<rparr>"

section \<open>SQLite inbox\<close>

definition inbox_entry_to_row :: "inbox_entry \<Rightarrow> inbox_row" where
  "inbox_entry_to_row x =
     \<lparr> ib_id = ib_id x, ib_channel = ib_channel x, ib_conversation_id = ib_conversation_id x,
       ib_payload = ib_payload x, ib_status = inbox_status_as_str (ib_status x),
       ib_created_at = ib_created_at x, ib_updated_at = ib_updated_at x \<rparr>"

definition inbox_insert ::
  "env \<Rightarrow> inbox_entry \<Rightarrow> 'w db_scheme \<Rightarrow> (repo_error + unit) \<times> 'w db_scheme" where
  "inbox_insert e x d =
     repo (sql_write e (\<lambda>n d. d\<lparr>t_inbox := tbl_insert_ignore ib_id (inbox_entry_to_row x) (t_inbox d)\<rparr>) d)"

definition inbox_mark_status ::
  "env \<Rightarrow> string \<Rightarrow> inbox_status \<Rightarrow> 'w db_scheme \<Rightarrow> (repo_error + unit) \<times> 'w db_scheme" where
  "inbox_mark_status e i st d =
     repo (sql_write e (\<lambda>n d. d\<lparr>t_inbox := tbl_update (\<lambda>r. ib_id r = i)
       (\<lambda>r. r\<lparr>ib_status := inbox_status_as_str st, ib_updated_at := unixepoch e n\<rparr>) (t_inbox d)\<rparr>) d)"

definition inbox_exists ::
  "env \<Rightarrow> string \<Rightarrow> 'w db_scheme \<Rightarrow> (repo_error + bool) \<times> 'w db_scheme" where
  "inbox_exists e i d =
     repo (sql_read e (\<lambda>n d. 0 < length (filter (\<lambda>r. ib_id r = i) (t_inbox d))) d)"

definition sqlite_inbox :: "env \<Rightarrow> 'w db_scheme inbox_repo" where
  "sqlite_inbox e =
     \<lparr> ir_insert = inbox_insert e, ir_mark_status = inbox_mark_status e, ir_exists = inbox_exists e \<rparr>"

section \<open>The contract of an outbox repository\<close>

text \<open>How the two update statements change an entry.\<close>

definition with_status :: "outbox_status \<Rightarrow> string option \<Rightarrow> int \<Rightarrow> outbox_entry \<Rightarrow> outbox_entry" where
  "with_status st er now x = x\<lparr>ob_status := st, ob_last_error := er, ob_updated_at := now\<rparr>"

definition with_retry :: "32 word \<Rightarrow> int \<Rightarrow> string \<Rightarrow> int \<Rightarrow> outbox_entry \<Rightarrow> outbox_entry" where
  "with_retry n next_at er now x =
     x\<lparr>ob_status := Retrying, ob_retry_count := n, ob_next_retry_at := Some next_at,
       ob_last_error := Some er, ob_updated_at := now\<rparr>"

locale outbox_store =
  fixes rp :: "'w outbox_repo"
    and view :: "'w \<Rightarrow> string \<Rightarrow> outbox_entry option"
    and invar :: "'w \<Rightarrow> bool"
  assumes view_id: "view w i = Some x \<Longrightarrow> ob_id x = i"
    and mark_status_law: "invar w \<Longrightarrow> or_mark_status rp i st er w = (r, w') \<Longrightarrow>
      invar w' \<and> (case r of
        Ok _ \<Rightarrow> (\<exists>now. view w' = (view w)(i := map_option (with_status st er now) (view w i)))
      | Err _ \<Rightarrow> view w' = view w)"
    and mark_retrying_law: "invar w \<Longrightarrow> or_mark_retrying rp i n t em w = (r, w') \<Longrightarrow>
      invar w' \<and> (case r of
        Ok _ \<Rightarrow> (\<exists>now. view w' = (view w)(i := map_option (with_retry n t em now) (view w i)))
      | Err _ \<Rightarrow> view w' = view w)"
    and fetch_pending_law: "invar w \<Longrightarrow> or_fetch_pending rp l w = (rs, w') \<Longrightarrow>
      invar w' \<and> view w' = view w \<and> (case rs of
        Ok xs \<Rightarrow> distinct (map ob_id xs) \<and>
                 (\<forall>x \<in> set xs. view w (ob_id x) = Some x \<and> ob_status x = Pending)
      | Err _ \<Rightarrow> True)"
    and fetch_retryable_law: "invar w \<Longrightarrow> or_fetch_retryable rp now l w = (rs, w') \<Longrightarrow>
      invar w' \<and> view w' = view w \<and> (case rs of
        Ok xs \<Rightarrow> distinct (map ob_id xs) \<and>
                 (\<forall>x \<in> set xs. view w (ob_id x) = Some x \<and> ob_status x = Retrying \<and>
                               due now (ob_next_retry_at x))
      | Err _ \<Rightarrow> True)"
    and recover_law: "invar w \<Longrightarrow> or_recover_after_crash rp w = (rs, w') \<Longrightarrow>
      invar w' \<and> view w' = view w \<and> (case rs of
        Ok xs \<Rightarrow> distinct (map ob_id xs) \<and>
                 (\<forall>x. x \<in> set xs \<longleftrightarrow> view w (ob_id x) = Some x \<and> ob_status x \<in> {Sending, Retrying})
      | Err _ \<Rightarrow> True)"

section \<open>The SQLite adapter satisfies the contract\<close>

definition outbox_view :: "'w db_scheme \<Rightarrow> string \<Rightarrow> outbox_entry option" where
  "outbox_view d i = map_option row_to_entry (tbl_find ob_id i (t_outbox d))"

text \<open>Unique ids (the primary key) and no status text outside the alphabet.\<close>

definition outbox_ok :: "'w db_scheme \<Rightarrow> bool" where
  "outbox_ok d \<longleftrightarrow> distinct (map ob_id (t_outbox d)) \<and>
     (\<forall>r \<in> set (t_outbox d). outbox_status_parse (ob_status r) \<noteq> None)"

lemma repo_simps [simp]:
  "repo (Ok x, d) = (Ok x, d)" "repo (Err err, d) = (Err (RepoDb err), d)"
  by (simp_all add: repo_def map_err_def)

lemma row_to_entry_id [simp]: "ob_id (row_to_entry r) = ob_id r"
  by (simp add: row_to_entry_def)

lemma row_entry_roundtrip [simp]: "row_to_entry (entry_to_row x) = x"
  by (simp add: row_to_entry_def entry_to_row_def)

lemma row_to_entry_status:
  "row_to_entry (r\<lparr>ob_status := outbox_status_as_str st, ob_last_error := er, ob_updated_at := now\<rparr>) =
   with_status st er now (row_to_entry r)"
  by (simp add: row_to_entry_def with_status_def)

lemma row_to_entry_retry:
  "row_to_entry (r\<lparr>ob_status := ''retrying'', ob_retry_count := n, ob_next_retry_at := Some t,
                   ob_last_error := Some er, ob_updated_at := now\<rparr>) =
   with_retry n t er now (row_to_entry r)"
  by (simp add: row_to_entry_def with_retry_def outbox_status_parse_def)

lemma outbox_view_tick [simp]: "outbox_view (d\<lparr>db_tick := n\<rparr>) = outbox_view d"
  by (simp add: outbox_view_def fun_eq_iff)

lemma outbox_ok_tick [simp]: "outbox_ok (d\<lparr>db_tick := n\<rparr>) = outbox_ok d"
  by (simp add: outbox_ok_def)

lemma outbox_view_update:
  assumes "t_outbox d' = tbl_update (\<lambda>r. ob_id r = i) f (t_outbox d)"
    and "\<And>r. ob_id (f r) = ob_id r" and "\<And>r. row_to_entry (f r) = g (row_to_entry r)"
  shows "outbox_view d' = (outbox_view d)(i := map_option g (outbox_view d i))"
  using assms
  by (auto simp: outbox_view_def fun_eq_iff tbl_find_update option.map_comp comp_def)

lemma outbox_ok_update:
  assumes "outbox_ok d" "t_outbox d' = tbl_update p f (t_outbox d)"
    and "\<And>r. ob_id (f r) = ob_id r" "\<And>r. outbox_status_parse (ob_status (f r)) \<noteq> None"
  shows "outbox_ok d'"
  using assms by (auto simp: outbox_ok_def tbl_update_def comp_def if_distrib cong: if_cong)

lemma outbox_view_row:
  "outbox_ok d \<Longrightarrow> r \<in> set (t_outbox d) \<Longrightarrow> outbox_view d (ob_id r) = Some (row_to_entry r)"
  by (simp add: outbox_view_def outbox_ok_def tbl_find_distinct)

lemma row_status_text:
  "outbox_ok d \<Longrightarrow> r \<in> set (t_outbox d) \<Longrightarrow>
   ob_status r = outbox_status_as_str st \<longleftrightarrow> ob_status (row_to_entry r) = st"
  by (force simp: outbox_ok_def row_to_entry_def dest: outbox_status_parse_Some)

lemma row_to_entry_ids [simp]: "map ob_id (map row_to_entry rs) = map ob_id rs"
  by (simp add: comp_def)

lemma fetched_distinct:
  "outbox_ok d \<Longrightarrow>
   distinct (map ob_id (map row_to_entry (sql_limit l (order_by k rank (filter p (t_outbox d))))))"
  unfolding row_to_entry_ids
  by (rule distinct_sql_limit) (simp add: outbox_ok_def distinct_map_filter)

lemma fetched_rows:
  assumes "x \<in> set (map row_to_entry (sql_limit l (order_by k rank (filter p (t_outbox d)))))"
  obtains r where "r \<in> set (t_outbox d)" "p r" "x = row_to_entry r"
  using assms set_sql_limit by fastforce

lemma sqlite_mark_status:
  assumes "outbox_ok d" "outbox_mark_status e i st er d = (r, d')"
  shows "outbox_ok d' \<and> (case r of
    Ok _ \<Rightarrow> (\<exists>now. outbox_view d' = (outbox_view d)(i := map_option (with_status st er now) (outbox_view d i)))
  | Err _ \<Rightarrow> outbox_view d' = outbox_view d)"
proof (cases "env_fault e (db_tick d)")
  case None
  let ?f = "\<lambda>r :: outbox_row. r\<lparr>ob_status := outbox_status_as_str st, ob_last_error := er, ob_updated_at := unixepoch e (db_tick d)\<rparr>"
  from None assms have r: "r = Ok ()"
    and t: "t_outbox d' = tbl_update (\<lambda>r. ob_id r = i) ?f (t_outbox d)"
    by (auto simp: outbox_mark_status_def sql_write_eq)
  have "outbox_ok d'" by (rule outbox_ok_update [OF assms(1) t]) (simp_all)
  moreover have "outbox_view d' = (outbox_view d)
      (i := map_option (with_status st er (unixepoch e (db_tick d))) (outbox_view d i))"
    by (rule outbox_view_update [OF t]) (simp_all add: row_to_entry_status)
  ultimately show ?thesis using r by auto
qed (use assms in \<open>auto simp: outbox_mark_status_def sql_write_eq\<close>)

lemma sqlite_mark_retrying:
  assumes "outbox_ok d" "outbox_mark_retrying e i n t em d = (r, d')"
  shows "outbox_ok d' \<and> (case r of
    Ok _ \<Rightarrow> (\<exists>now. outbox_view d' = (outbox_view d)(i := map_option (with_retry n t em now) (outbox_view d i)))
  | Err _ \<Rightarrow> outbox_view d' = outbox_view d)"
proof (cases "env_fault e (db_tick d)")
  case None
  let ?f = "\<lambda>r :: outbox_row. r\<lparr>ob_status := ''retrying'', ob_retry_count := n, ob_next_retry_at := Some t,
      ob_last_error := Some em, ob_updated_at := unixepoch e (db_tick d)\<rparr>"
  from None assms have r: "r = Ok ()"
    and t: "t_outbox d' = tbl_update (\<lambda>r. ob_id r = i) ?f (t_outbox d)"
    by (auto simp: outbox_mark_retrying_def sql_write_eq)
  have "outbox_ok d'" by (rule outbox_ok_update [OF assms(1) t]) (simp_all add: outbox_status_parse_def)
  moreover have "outbox_view d' = (outbox_view d)
      (i := map_option (with_retry n t em (unixepoch e (db_tick d))) (outbox_view d i))"
    by (rule outbox_view_update [OF t]) (simp_all add: row_to_entry_retry)
  ultimately show ?thesis using r by auto
qed (use assms in \<open>auto simp: outbox_mark_retrying_def sql_write_eq\<close>)

lemma sqlite_fetch_pending:
  assumes "outbox_ok d" "outbox_fetch_pending e l d = (r, d')"
  shows "outbox_ok d' \<and> outbox_view d' = outbox_view d \<and> (case r of
    Ok xs \<Rightarrow> distinct (map ob_id xs) \<and>
             (\<forall>x \<in> set xs. outbox_view d (ob_id x) = Some x \<and> ob_status x = Pending)
  | Err _ \<Rightarrow> True)"
proof (cases "env_fault e (db_tick d)")
  case None
  with assms obtain xs where xs: "r = Ok xs" "d' = d\<lparr>db_tick := Suc (db_tick d)\<rparr>"
    "xs = map row_to_entry (sql_limit l (order_by ob_created_at (\<lambda>r. env_rank e (db_tick d) (ob_id r))
       (filter (\<lambda>r. ob_status r = ''pending'') (t_outbox d))))"
    by (auto simp: outbox_fetch_pending_def sql_read_eq)
  have "outbox_view d (ob_id x) = Some x \<and> ob_status x = Pending" if "x \<in> set xs" for x
    using that [unfolded xs(3)]
  proof (rule fetched_rows)
    fix q assume q: "q \<in> set (t_outbox d)" "ob_status q = ''pending''" "x = row_to_entry q"
    then show ?thesis
      using outbox_view_row [OF assms(1)] row_status_text [OF assms(1), of q Pending] by simp
  qed
  then show ?thesis using xs(1,2) assms(1) fetched_distinct [OF assms(1)] by (simp add: xs(3))
qed (use assms in \<open>auto simp: outbox_fetch_pending_def sql_read_eq\<close>)

lemma sqlite_fetch_retryable:
  assumes "outbox_ok d" "outbox_fetch_retryable e now l d = (r, d')"
  shows "outbox_ok d' \<and> outbox_view d' = outbox_view d \<and> (case r of
    Ok xs \<Rightarrow> distinct (map ob_id xs) \<and>
             (\<forall>x \<in> set xs. outbox_view d (ob_id x) = Some x \<and> ob_status x = Retrying \<and>
                           due now (ob_next_retry_at x))
  | Err _ \<Rightarrow> True)"
proof (cases "env_fault e (db_tick d)")
  case None
  with assms obtain xs where xs: "r = Ok xs" "d' = d\<lparr>db_tick := Suc (db_tick d)\<rparr>"
    "xs = map row_to_entry (sql_limit l (order_by retry_time (\<lambda>r. env_rank e (db_tick d) (ob_id r))
       (filter (\<lambda>r. ob_status r = ''retrying'' \<and> due now (ob_next_retry_at r)) (t_outbox d))))"
    by (auto simp: outbox_fetch_retryable_def sql_read_eq)
  have "outbox_view d (ob_id x) = Some x \<and> ob_status x = Retrying \<and> due now (ob_next_retry_at x)"
    if "x \<in> set xs" for x
    using that [unfolded xs(3)]
  proof (rule fetched_rows)
    fix q assume q: "q \<in> set (t_outbox d)"
      "ob_status q = ''retrying'' \<and> due now (ob_next_retry_at q)" "x = row_to_entry q"
    then show ?thesis
      using outbox_view_row [OF assms(1)] row_status_text [OF assms(1), of q Retrying]
      by (simp add: row_to_entry_def)
  qed
  then show ?thesis using xs(1,2) assms(1) fetched_distinct [OF assms(1)] by (simp add: xs(3))
qed (use assms in \<open>auto simp: outbox_fetch_retryable_def sql_read_eq\<close>)

lemma outbox_view_Some:
  "outbox_view d i = Some x \<Longrightarrow> \<exists>q \<in> set (t_outbox d). ob_id q = i \<and> x = row_to_entry q"
  by (auto simp: outbox_view_def dest: tbl_find_Some_key)

lemma in_flight_rows:
  assumes "outbox_ok d"
  shows "x \<in> row_to_entry ` {q \<in> set (t_outbox d). ob_status q = ''sending'' \<or> ob_status q = ''retrying''}
     \<longleftrightarrow> outbox_view d (ob_id x) = Some x \<and> ob_status x \<in> {Sending, Retrying}"
  using row_status_text [OF assms, of _ Sending] row_status_text [OF assms, of _ Retrying]
  by (auto simp: outbox_view_row [OF assms] dest!: outbox_view_Some)

lemma sqlite_recover:
  assumes "outbox_ok d" "outbox_recover_after_crash e d = (r, d')"
  shows "outbox_ok d' \<and> outbox_view d' = outbox_view d \<and> (case r of
    Ok xs \<Rightarrow> distinct (map ob_id xs) \<and>
             (\<forall>x. x \<in> set xs \<longleftrightarrow> outbox_view d (ob_id x) = Some x \<and> ob_status x \<in> {Sending, Retrying})
  | Err _ \<Rightarrow> True)"
proof (cases "env_fault e (db_tick d)")
  case None
  let ?p = "\<lambda>r. ob_status r = ''sending'' \<or> ob_status r = ''retrying''"
  from None assms obtain xs where xs: "r = Ok xs" "d' = d\<lparr>db_tick := Suc (db_tick d)\<rparr>"
    "xs = map row_to_entry (order_by ob_created_at (\<lambda>r. env_rank e (db_tick d) (ob_id r))
       (filter ?p (t_outbox d)))"
    by (auto simp: outbox_recover_after_crash_def sql_read_eq)
  have "distinct (map ob_id xs)"
    unfolding xs(3) row_to_entry_ids using assms(1) by (simp add: outbox_ok_def distinct_map_filter)
  moreover have "set xs = row_to_entry ` {q \<in> set (t_outbox d). ?p q}"
    by (simp add: xs(3))
  ultimately show ?thesis
    using xs(1,2) assms(1) in_flight_rows [OF assms(1)] by simp
qed (use assms in \<open>auto simp: outbox_recover_after_crash_def sql_read_eq\<close>)

interpretation sq: outbox_store "sqlite_outbox e" outbox_view outbox_ok for e
proof unfold_locales
  fix w :: "'w db_scheme" and i x
  show "ob_id x = i" if "outbox_view w i = Some x"
    using outbox_view_Some [OF that] by auto
next
  fix w w' :: "'w db_scheme" and i st er and r :: "repo_error + unit"
  assume "outbox_ok w" "or_mark_status (sqlite_outbox e) i st er w = (r, w')"
  then show "outbox_ok w' \<and> (case r of
      Err _ \<Rightarrow> outbox_view w' = outbox_view w
    | Ok _ \<Rightarrow> \<exists>now. outbox_view w' = (outbox_view w)(i := map_option (with_status st er now) (outbox_view w i)))"
    using sqlite_mark_status by (simp add: sqlite_outbox_def)
next
  fix w w' :: "'w db_scheme" and i n t em and r :: "repo_error + unit"
  assume "outbox_ok w" "or_mark_retrying (sqlite_outbox e) i n t em w = (r, w')"
  then show "outbox_ok w' \<and> (case r of
      Err _ \<Rightarrow> outbox_view w' = outbox_view w
    | Ok _ \<Rightarrow> \<exists>now. outbox_view w' = (outbox_view w)(i := map_option (with_retry n t em now) (outbox_view w i)))"
    using sqlite_mark_retrying by (simp add: sqlite_outbox_def)
qed (use sqlite_fetch_pending sqlite_fetch_retryable sqlite_recover in
      \<open>simp_all add: sqlite_outbox_def\<close>)

end
