(* ===== verification/Outbox_Worker.thy ===== *)
theory Outbox_Worker
  imports Outbox_Store Audit_Store Resilience
begin

text \<open>
  \<open>src/application/outbox_worker.rs\<close>, \<open>crash_recovery.rs\<close>, \<open>dlq_manager.rs\<close> and
  \<open>resilient_sender.rs\<close>.

  The trait objects a worker gets are one record over the world \<open>'w\<close>: the repositories,
  the retry policy, the sender, the audit sink and the two readings of the wall clock.
  The locale \<open>outbox_worker\<close> extends the contract of the repository by the frame
  conditions the worker relies on: sending, auditing, reading the clock and inserting
  dead letters leave the outbox alone. Its lemmas hold for every pattern of failures;
  they are interpreted on the SQLite adapters with an arbitrary sender that acts on
  the world outside the database.
\<close>

section \<open>The worker\<close>

type_synonym 'w message_sender = "outbox_entry \<Rightarrow> 'w \<Rightarrow> (string + unit) \<times> 'w"

record 'w worker_deps =
  wd_outbox :: "'w outbox_repo"
  wd_dlq :: "'w dead_letter_repo"
  wd_retry :: retry_config
  wd_sender :: "'w message_sender"
  wd_audit :: "'w audit_sink"
  wd_now_ms :: "'w \<Rightarrow> int \<times> 'w"
  wd_now_s :: "'w \<Rightarrow> int \<times> 'w"

text \<open>\<open>format!("{} ({}): {}", ...)\<close>, shared by the two messages.\<close>

definition attempt_text :: "string \<Rightarrow> 32 word \<Rightarrow> string \<Rightarrow> string" where
  "attempt_text what n err = what @ '' ('' @ show_nat (unat n) @ ''): '' @ err"

text \<open>\<open>now + delay as i64\<close>, in 64-bit arithmetic.\<close>

definition retry_at :: "int \<Rightarrow> nat \<Rightarrow> int" where
  "retry_at now delay = sint (word_of_int now + word_of_nat delay :: 64 word)"

text \<open>The \<open>Err\<close> branch of a delivery.\<close>

definition bury :: "'w worker_deps \<Rightarrow> outbox_entry \<Rightarrow> 32 word \<Rightarrow> string \<Rightarrow> 'w \<Rightarrow> 'w" where
  "bury dp entry new_count err w =
     (let w1 = snd (or_mark_status (wd_outbox dp) (ob_id entry) DeadLetter (Some err) w);
          (now, w2) = wd_now_s dp w1;
          dl = dead_letter_entry_new (ob_id entry) ''outbox'' (ob_payload entry)
                 (attempt_text ''max retries'' new_count err) now;
          w3 = snd (dlr_insert (wd_dlq dp) dl w2)
      in wd_audit dp (Some (ob_route_key entry)) ''dead_letter'' (attempt_text ''max retries'' new_count err) w3)"

definition reschedule :: "'w worker_deps \<Rightarrow> outbox_entry \<Rightarrow> 32 word \<Rightarrow> string \<Rightarrow> 'w \<Rightarrow> 'w" where
  "reschedule dp entry new_count err w =
     (let (now, w1) = wd_now_ms dp w;
          next_at = retry_at now (next_delay_ms (wd_retry dp) new_count);
          w2 = snd (or_mark_retrying (wd_outbox dp) (ob_id entry) new_count next_at err w1)
      in wd_audit dp (Some (ob_route_key entry)) ''send'' (attempt_text ''retrying'' new_count err) w2)"

definition send_failed :: "'w worker_deps \<Rightarrow> outbox_entry \<Rightarrow> string \<Rightarrow> 'w \<Rightarrow> 'w" where
  "send_failed dp entry err w =
     (let new_count = ob_retry_count entry + 1
      in if max_retries (wd_retry dp) \<le> new_count then bury dp entry new_count err w
         else reschedule dp entry new_count err w)"

text \<open>The body of the loops of \<open>process_pending\<close> and \<open>process_retries\<close>.\<close>

definition deliver :: "'w worker_deps \<Rightarrow> outbox_entry \<Rightarrow> 'w \<Rightarrow> 'w" where
  "deliver dp entry w =
     (case or_mark_status (wd_outbox dp) (ob_id entry) Sending None w of
        (Err _, w1) \<Rightarrow> w1
      | (Ok _, w1) \<Rightarrow>
          (case wd_sender dp entry w1 of
             (Ok _, w2) \<Rightarrow>
               wd_audit dp (Some (ob_route_key entry)) ''send'' ''sent''
                 (snd (or_mark_status (wd_outbox dp) (ob_id entry) Sent None w2))
           | (Err err, w2) \<Rightarrow> send_failed dp entry err w2))"

definition process_pending :: "'w worker_deps \<Rightarrow> 64 word \<Rightarrow> 'w \<Rightarrow> 'w" where
  "process_pending dp batch_size w =
     (case or_fetch_pending (wd_outbox dp) batch_size w of
        (Err _, w1) \<Rightarrow> w1
      | (Ok entries, w1) \<Rightarrow> fold (deliver dp) entries w1)"

definition process_retries :: "'w worker_deps \<Rightarrow> 64 word \<Rightarrow> 'w \<Rightarrow> 'w" where
  "process_retries dp batch_size w =
     (let (now_ts, w0) = wd_now_ms dp w in
      case or_fetch_retryable (wd_outbox dp) now_ts batch_size w0 of
        (Err _, w1) \<Rightarrow> w1
      | (Ok entries, w1) \<Rightarrow> fold (deliver dp) entries w1)"

text \<open>The loop of \<open>outbox_worker_loop\<close>, cut after \<open>n\<close> ticks.\<close>

fun worker_rounds :: "'w worker_deps \<Rightarrow> 64 word \<Rightarrow> nat \<Rightarrow> 'w \<Rightarrow> 'w" where
  "worker_rounds dp batch_size 0 w = w"
| "worker_rounds dp batch_size (Suc n) w =
     worker_rounds dp batch_size n (process_retries dp batch_size (process_pending dp batch_size w))"

section \<open>Crash recovery and dead-letter management\<close>

fun reset_all :: "'w outbox_repo \<Rightarrow> outbox_entry list \<Rightarrow> 'w \<Rightarrow> (string + unit) \<times> 'w" where
  "reset_all rp [] w = (Ok (), w)"
| "reset_all rp (x # xs) w =
     (case or_mark_status rp (ob_id x) Pending None w of
        (Err er, w1) \<Rightarrow> (Err (repo_error_display er), w1)
      | (Ok _, w1) \<Rightarrow> reset_all rp xs w1)"

definition recover_after_crash :: "'w outbox_repo \<Rightarrow> 'w \<Rightarrow> (string + nat) \<times> 'w" where
  "recover_after_crash rp w =
     (case or_recover_after_crash rp w of
        (Err er, w1) \<Rightarrow> (Err (repo_error_display er), w1)
      | (Ok entries, w1) \<Rightarrow>
          (case reset_all rp entries w1 of
             (Err m, w2) \<Rightarrow> (Err m, w2)
           | (Ok _, w2) \<Rightarrow> (Ok (length entries), w2)))"

definition list_dead_letters ::
  "'w dead_letter_repo \<Rightarrow> 64 word \<Rightarrow> 'w \<Rightarrow> (string + dead_letter_entry list) \<times> 'w" where
  "list_dead_letters dq limit w =
     (let (r, w') = dlr_list dq limit w in (map_err repo_error_display r, w'))"

definition replay_dead_letter :: "'w dead_letter_repo \<Rightarrow> string \<Rightarrow> 'w \<Rightarrow> (string + unit) \<times> 'w" where
  "replay_dead_letter dq i w =
     (let (r, w') = dlr_replay dq i w
      in (case r of Err er \<Rightarrow> Err (repo_error_display er) | Ok _ \<Rightarrow> Ok (), w'))"

section \<open>The life cycle of an outbox entry\<close>

text \<open>
  The state machine the worker and the recovery are meant to follow: what one of their
  statements may do to one entry.
\<close>

inductive entry_step :: "32 word \<Rightarrow> outbox_entry \<Rightarrow> outbox_entry \<Rightarrow> bool" for mx where
  start: "ob_status x \<in> {Pending, Retrying} \<Longrightarrow> entry_step mx x (with_status Sending None now x)"
| sent: "ob_status x = Sending \<Longrightarrow> entry_step mx x (with_status Sent None now x)"
| retry: "ob_status x = Sending \<Longrightarrow> ob_retry_count x + 1 < mx \<Longrightarrow>
    entry_step mx x (with_retry (ob_retry_count x + 1) t er now x)"
| dead: "ob_status x = Sending \<Longrightarrow> mx \<le> ob_retry_count x + 1 \<Longrightarrow>
    entry_step mx x (with_status DeadLetter (Some er) now x)"
| recover: "ob_status x \<in> {Sending, Retrying} \<Longrightarrow> entry_step mx x (with_status Pending None now x)"

inductive_cases entry_stepE: "entry_step mx x y"

text \<open>What no step changes.\<close>

definition same_letter :: "outbox_entry \<Rightarrow> outbox_entry \<Rightarrow> bool" where
  "same_letter x y \<longleftrightarrow> ob_id x = ob_id y \<and> ob_route_key x = ob_route_key y \<and>
     ob_payload x = ob_payload y \<and> ob_created_at x = ob_created_at y"

lemma entry_step_letter: "entry_step mx x y \<Longrightarrow> same_letter x y"
  by (induction rule: entry_step.induct) (auto simp: same_letter_def with_status_def with_retry_def)

lemma entry_steps_letter: "(entry_step mx)\<^sup>*\<^sup>* x y \<Longrightarrow> same_letter x y"
  by (induction rule: rtranclp_induct) (auto simp: same_letter_def dest: entry_step_letter)

text \<open>The final states: nothing leaves them.\<close>

lemma entry_step_final: "ob_status x \<in> {Sent, DeadLetter} \<Longrightarrow> \<not> entry_step mx x y"
  by (auto elim: entry_stepE)

lemma entry_steps_final: "(entry_step mx)\<^sup>*\<^sup>* x y \<Longrightarrow> ob_status x \<in> {Sent, DeadLetter} \<Longrightarrow> y = x"
  by (erule converse_rtranclpE) (use entry_step_final in blast)+

text \<open>The retry counter stays below its bound and never goes down.\<close>

lemma entry_step_count:
  assumes "entry_step mx x y" and "ob_retry_count x < mx"
  shows "ob_retry_count y < mx \<and> ob_retry_count x \<le> ob_retry_count y"
  using assms
proof (induction rule: entry_step.induct)
  case (retry x t er now)
  then show ?case
    using unat_plus_one [OF retry.prems] by (simp add: with_retry_def word_le_nat_alt)
qed (simp_all add: with_status_def)

lemma entry_steps_count:
  "(entry_step mx)\<^sup>*\<^sup>* x y \<Longrightarrow> ob_retry_count x < mx \<Longrightarrow>
   ob_retry_count y < mx \<and> ob_retry_count x \<le> ob_retry_count y"
proof (induction rule: rtranclp_induct)
  case (step y z)
  then show ?case using entry_step_count [OF step(2)] by auto
qed simp

lemma with_status_simps [simp]:
  "ob_id (with_status st er now x) = ob_id x"
  "ob_status (with_status st er now x) = st"
  "ob_retry_count (with_status st er now x) = ob_retry_count x"
  "ob_route_key (with_status st er now x) = ob_route_key x"
  "ob_payload (with_status st er now x) = ob_payload x"
  by (simp_all add: with_status_def)

lemma with_retry_simps [simp]:
  "ob_id (with_retry n t er now x) = ob_id x"
  "ob_status (with_retry n t er now x) = Retrying"
  "ob_retry_count (with_retry n t er now x) = n"
  by (simp_all add: with_retry_def)

text \<open>Every entry of a store moved along the machine, and none appeared or vanished.\<close>

definition evolves ::
  "32 word \<Rightarrow> (string \<Rightarrow> outbox_entry option) \<Rightarrow> (string \<Rightarrow> outbox_entry option) \<Rightarrow> bool" where
  "evolves mx v v' \<longleftrightarrow> (\<forall>i. rel_option ((entry_step mx)\<^sup>*\<^sup>*) (v i) (v' i))"

lemma evolves_refl [simp]: "evolves mx v v"
  unfolding evolves_def by (simp add: option.rel_refl)

lemma rel_option_trans:
  "rel_option r\<^sup>*\<^sup>* a b \<Longrightarrow> rel_option r\<^sup>*\<^sup>* b c \<Longrightarrow> rel_option r\<^sup>*\<^sup>* a c"
  by (cases a; cases b; cases c) auto

lemma evolves_trans: "evolves mx u v \<Longrightarrow> evolves mx v w \<Longrightarrow> evolves mx u w"
  unfolding evolves_def using rel_option_trans by metis

lemma evolves_upd:
  "v i = Some x \<Longrightarrow> (entry_step mx)\<^sup>*\<^sup>* x z \<Longrightarrow> evolves mx v (v(i \<mapsto> z))"
  unfolding evolves_def by (simp add: option.rel_refl)

section \<open>The worker over any repository that keeps its contract\<close>

locale outbox_worker = outbox_store "wd_outbox dp" view invar
  for dp :: "'w worker_deps" and view invar +
  assumes sender_frame: "invar w \<Longrightarrow> invar (snd (wd_sender dp x w)) \<and> view (snd (wd_sender dp x w)) = view w"
    and audit_frame: "invar w \<Longrightarrow> invar (wd_audit dp k a m w) \<and> view (wd_audit dp k a m w) = view w"
    and now_ms_frame: "invar w \<Longrightarrow> invar (snd (wd_now_ms dp w)) \<and> view (snd (wd_now_ms dp w)) = view w"
    and now_s_frame: "invar w \<Longrightarrow> invar (snd (wd_now_s dp w)) \<and> view (snd (wd_now_s dp w)) = view w"
    and dlq_frame: "invar w \<Longrightarrow>
      invar (snd (dlr_insert (wd_dlq dp) dl w)) \<and> view (snd (dlr_insert (wd_dlq dp) dl w)) = view w"
begin

abbreviation mx :: "32 word" where "mx \<equiv> max_retries (wd_retry dp)"

text \<open>Marking a status, with its two outcomes.\<close>

lemma mark_status_cases:
  assumes "invar w" and "view w i = Some x"
  shows "invar (snd (or_mark_status (wd_outbox dp) i st er w)) \<and>
    (\<exists>z. view (snd (or_mark_status (wd_outbox dp) i st er w)) = (view w)(i \<mapsto> z) \<and>
         (if is_Ok (fst (or_mark_status (wd_outbox dp) i st er w)) then \<exists>now. z = with_status st er now x else z = x))"
proof -
  obtain r w' where "or_mark_status (wd_outbox dp) i st er w = (r, w')" by force
  with mark_status_law [OF assms(1) this] assms(2) show ?thesis
    by (cases r) (auto simp: is_Ok_def fun_upd_idem)
qed

lemma mark_retrying_cases:
  assumes "invar w" and "view w i = Some x"
  shows "invar (snd (or_mark_retrying (wd_outbox dp) i n t em w)) \<and>
    (\<exists>z. view (snd (or_mark_retrying (wd_outbox dp) i n t em w)) = (view w)(i \<mapsto> z) \<and>
         (if is_Ok (fst (or_mark_retrying (wd_outbox dp) i n t em w)) then \<exists>now. z = with_retry n t em now x else z = x))"
proof -
  obtain r w' where "or_mark_retrying (wd_outbox dp) i n t em w = (r, w')" by force
  with mark_retrying_law [OF assms(1) this] assms(2) show ?thesis
    by (cases r) (auto simp: is_Ok_def fun_upd_idem)
qed

text \<open>
  The view after a step, up to one entry: either nothing happened to it or it moved one
  step of the machine.
\<close>

lemma bury_view:
  assumes "invar w" and "view w (ob_id x) = Some y" and "ob_status y = Sending"
    and "mx \<le> ob_retry_count y + 1"
  shows "invar (bury dp x n err w) \<and>
    (\<exists>z. view (bury dp x n err w) = (view w)(ob_id x \<mapsto> z) \<and> (z = y \<or> entry_step mx y z) \<and> ob_status z \<notin> {Sent, Pending})"
proof -
  let ?w1 = "snd (or_mark_status (wd_outbox dp) (ob_id x) DeadLetter (Some err) w)"
  have m: "invar ?w1 \<and> (\<exists>z. view ?w1 = (view w)(ob_id x \<mapsto> z) \<and> (z = y \<or> entry_step mx y z) \<and> ob_status z \<notin> {Sent, Pending})"
    using mark_status_cases [OF assms(1,2), of DeadLetter "Some err"] assms(2)
      entry_step.dead [OF assms(3,4)] assms(3)
    by (fastforce split: if_splits)
  show ?thesis
    unfolding bury_def Let_def split_beta
    using m now_s_frame dlq_frame audit_frame by simp
qed

lemma reschedule_view:
  assumes "invar w" and "view w (ob_id x) = Some y" and "ob_status y = Sending"
    and "ob_retry_count y + 1 < mx" and "n = ob_retry_count y + 1"
  shows "invar (reschedule dp x n err w) \<and>
    (\<exists>z. view (reschedule dp x n err w) = (view w)(ob_id x \<mapsto> z) \<and> (z = y \<or> entry_step mx y z) \<and> ob_status z \<notin> {Sent, Pending})"
proof -
  let ?w0 = "snd (wd_now_ms dp w)"
  let ?t = "retry_at (fst (wd_now_ms dp w)) (next_delay_ms (wd_retry dp) n)"
  let ?w1 = "snd (or_mark_retrying (wd_outbox dp) (ob_id x) n ?t err ?w0)"
  have w0: "invar ?w0" "view ?w0 = view w" using now_ms_frame [OF assms(1)] by auto
  have m: "invar ?w1 \<and> (\<exists>z. view ?w1 = (view w)(ob_id x \<mapsto> z) \<and> (z = y \<or> entry_step mx y z) \<and> ob_status z \<notin> {Sent, Pending})"
    using mark_retrying_cases [OF w0(1), of "ob_id x" y n ?t err] assms(2) w0(2)
      entry_step.retry [OF assms(3,4)] assms(3,5)
    by (fastforce split: if_splits)
  show ?thesis
    unfolding reschedule_def Let_def split_beta
    using m audit_frame by simp
qed

lemma send_failed_view:
  assumes "invar w" and "view w (ob_id x) = Some y" and "ob_status y = Sending"
    and "ob_retry_count y = ob_retry_count x"
  shows "invar (send_failed dp x err w) \<and>
    (\<exists>z. view (send_failed dp x err w) = (view w)(ob_id x \<mapsto> z) \<and> (z = y \<or> entry_step mx y z) \<and> ob_status z \<notin> {Sent, Pending})"
proof (cases "mx \<le> ob_retry_count x + 1")
  case True
  then have eq: "send_failed dp x err w = bury dp x (ob_retry_count x + 1) err w"
    by (simp only: send_failed_def Let_def if_True)
  have "mx \<le> ob_retry_count y + 1" unfolding assms(4) by (rule True)
  then show ?thesis unfolding eq by (rule bury_view [OF assms(1-3)])
next
  case False
  then have eq: "send_failed dp x err w = reschedule dp x (ob_retry_count x + 1) err w"
    by (simp only: send_failed_def Let_def if_False)
  have "ob_retry_count y + 1 < mx" unfolding assms(4) using False by (simp only: not_le)
  then show ?thesis unfolding eq by (rule reschedule_view [OF assms(1-3)]) (simp only: assms(4))
qed

lemma mark_sent_view:
  assumes "invar w" and "view w i = Some y" and "ob_status y = Sending"
  defines "w' \<equiv> snd (or_mark_status (wd_outbox dp) i Sent None w)"
  shows "invar (wd_audit dp k a m w') \<and>
    (\<exists>z. view (wd_audit dp k a m w') = (view w)(i \<mapsto> z) \<and> (z = y \<or> entry_step mx y z) \<and> ob_status z \<noteq> Pending)"
proof -
  have "invar w' \<and> (\<exists>z. view w' = (view w)(i \<mapsto> z) \<and> (z = y \<or> entry_step mx y z) \<and> ob_status z \<noteq> Pending)"
    using mark_status_cases [OF assms(1,2), of Sent None] entry_step.sent [OF assms(3)] assms(3)
    unfolding w'_def by (fastforce split: if_splits)
  then show ?thesis using audit_frame by simp
qed

text \<open>
  A delivery, seen through the view: the first mark failed and nothing else was done, or
  the entry is marked sending and the sender was called once, with the outcome its answer
  and the second mark give.
\<close>

lemma deliver_cases:
  assumes "invar w" and "view w (ob_id x) = Some x"
  obtains (skipped) "invar (deliver dp x w)" "view (deliver dp x w) = view w"
      "\<not> is_Ok (fst (or_mark_status (wd_outbox dp) (ob_id x) Sending None w))"
  | (called) now w1 w2 sr z where
      "or_mark_status (wd_outbox dp) (ob_id x) Sending None w = (Ok (), w1)"
      "wd_sender dp x w1 = (sr, w2)" "invar (deliver dp x w)"
      "view (deliver dp x w) = (view w)(ob_id x \<mapsto> z)"
      "z = with_status Sending None now x \<or> entry_step mx (with_status Sending None now x) z"
      "ob_status z = Sent \<Longrightarrow> is_Ok sr" "ob_status z \<noteq> Pending"
proof -
  obtain r w1 where m: "or_mark_status (wd_outbox dp) (ob_id x) Sending None w = (r, w1)" by force
  note mc = mark_status_cases [OF assms, of Sending None, unfolded m, simplified]
  obtain sr w2 where snd: "wd_sender dp x w1 = (sr, w2)" by force
  show thesis
  proof (cases r)
    case (Inl er)
    with mc assms(2) show thesis by (intro skipped) (auto simp: deliver_def m is_Ok_def)
  next
    case (Inr u)
    with mc obtain now where w1: "invar w1"
      "view w1 = (view w)(ob_id x \<mapsto> with_status Sending None now x)"
      by (auto simp: is_Ok_def)
    have w2: "invar w2" "view w2 = view w1" using sender_frame [OF w1(1), of x] snd by auto
    then have y: "view w2 (ob_id x) = Some (with_status Sending None now x)" using w1(2) by simp
    have "invar (deliver dp x w) \<and> (\<exists>z. view (deliver dp x w) = (view w2)(ob_id x \<mapsto> z) \<and>
        (z = with_status Sending None now x \<or> entry_step mx (with_status Sending None now x) z) \<and>
        (ob_status z = Sent \<longrightarrow> is_Ok sr) \<and> ob_status z \<noteq> Pending)"
    proof (cases sr)
      case (Inl err)
      then show ?thesis
        using send_failed_view [OF w2(1) y, of err] \<open>r = Inr u\<close> by (auto simp: deliver_def m snd)
    next
      case (Inr v)
      then show ?thesis
        using mark_sent_view [OF w2(1) y, of "Some (ob_route_key x)" "''send''" "''sent''"] \<open>r = Inr u\<close>
        by (simp add: deliver_def m snd is_Ok_def)
    qed
    then obtain z where z: "invar (deliver dp x w)" "view (deliver dp x w) = (view w2)(ob_id x \<mapsto> z)"
      "z = with_status Sending None now x \<or> entry_step mx (with_status Sending None now x) z"
      "ob_status z = Sent \<longrightarrow> is_Ok sr" "ob_status z \<noteq> Pending" by blast
    have "view (deliver dp x w) = (view w)(ob_id x \<mapsto> z)" using z(2) w1(2) w2(2) by simp
    with z m snd \<open>r = Inr u\<close> show thesis using called [of w1 sr w2 z now] by simp
  qed
qed

lemma deliver_view:
  assumes "invar w" and "view w (ob_id x) = Some x" and "ob_status x \<in> {Pending, Retrying}"
  shows "invar (deliver dp x w) \<and>
    (\<exists>z. view (deliver dp x w) = (view w)(ob_id x \<mapsto> z) \<and> (entry_step mx)\<^sup>*\<^sup>* x z)"
  using assms(1,2)
proof (cases rule: deliver_cases)
  case skipped
  then show ?thesis using assms(2) by (metis fun_upd_triv rtranclp.rtrancl_refl)
next
  case (called now w1 w2 sr z)
  have "entry_step mx x (with_status Sending None now x)" using assms(3) by (rule entry_step.start)
  with called show ?thesis by (metis converse_rtranclp_into_rtranclp r_into_rtranclp rtranclp.rtrancl_refl)
qed

lemma deliver_sent_only_if_accepted:
  assumes "invar w" and "view w (ob_id x) = Some x" and "ob_status x \<in> {Pending, Retrying}"
    and "map_option ob_status (view (deliver dp x w) (ob_id x)) = Some Sent"
  shows "is_Ok (fst (wd_sender dp x (snd (or_mark_status (wd_outbox dp) (ob_id x) Sending None w))))"
  using assms(1,2)
proof (cases rule: deliver_cases)
  case skipped
  then show ?thesis using assms(2-4) by auto
next
  case (called now w1 w2 sr z)
  then show ?thesis using assms(4) by simp
qed

text \<open>Batches: entries outside the batch are untouched, those inside move along the machine.\<close>

definition fetched :: "outbox_entry list \<Rightarrow> 'w \<Rightarrow> bool" where
  "fetched xs w \<longleftrightarrow> invar w \<and> distinct (map ob_id xs) \<and>
     (\<forall>x \<in> set xs. view w (ob_id x) = Some x \<and> ob_status x \<in> {Pending, Retrying})"

lemma deliver_batch:
  assumes "fetched xs w"
  shows "invar (fold (deliver dp) xs w) \<and> evolves mx (view w) (view (fold (deliver dp) xs w)) \<and>
    (\<forall>i. i \<notin> ob_id ` set xs \<longrightarrow> view (fold (deliver dp) xs w) i = view w i)"
  using assms
proof (induction xs arbitrary: w)
  case Nil
  then show ?case by (simp add: fetched_def)
next
  case (Cons x xs)
  let ?w = "deliver dp x w"
  have x: "invar w" "view w (ob_id x) = Some x" "ob_status x \<in> {Pending, Retrying}"
    using Cons.prems by (auto simp: fetched_def)
  obtain z where z: "invar ?w" "view ?w = (view w)(ob_id x \<mapsto> z)" "(entry_step mx)\<^sup>*\<^sup>* x z"
    using deliver_view [OF x] by blast
  have "fetched xs ?w" using Cons.prems z(1,2) by (force simp: fetched_def image_iff)
  note IH = Cons.IH [OF this]
  have "evolves mx (view w) (view ?w)" unfolding z(2) using x(2) z(3) by (rule evolves_upd)
  then have "evolves mx (view w) (view (fold (deliver dp) (x # xs) w))"
    using IH by (auto intro: evolves_trans)
  with IH show ?case using z(2) by simp
qed

lemma process_pending_evolves:
  assumes "invar w"
  shows "invar (process_pending dp n w) \<and> evolves mx (view w) (view (process_pending dp n w)) \<and>
    (\<forall>i x. view w i = Some x \<and> ob_status x \<noteq> Pending \<longrightarrow> view (process_pending dp n w) i = Some x)"
proof -
  obtain r w1 where f: "or_fetch_pending (wd_outbox dp) n w = (r, w1)" by force
  note law = fetch_pending_law [OF assms f]
  show ?thesis
  proof (cases r)
    case (Inl er)
    with law show ?thesis by (simp add: process_pending_def f)
  next
    case (Inr xs)
    with law have "fetched xs w1" by (auto simp: fetched_def)
    note batch = deliver_batch [OF this]
    have "i \<notin> ob_id ` set xs" if "view w i = Some x" "ob_status x \<noteq> Pending" for i x
      using that law Inr by auto
    with batch law Inr show ?thesis by (auto simp: process_pending_def f)
  qed
qed

lemma process_retries_evolves:
  assumes "invar w"
  shows "invar (process_retries dp n w) \<and> evolves mx (view w) (view (process_retries dp n w)) \<and>
    (\<forall>i x. view w i = Some x \<and> \<not> (ob_status x = Retrying \<and> due (fst (wd_now_ms dp w)) (ob_next_retry_at x)) \<longrightarrow>
       view (process_retries dp n w) i = Some x)"
proof -
  obtain now w0 where t: "wd_now_ms dp w = (now, w0)" by force
  with now_ms_frame [OF assms] have w0: "invar w0" "view w0 = view w" by auto
  obtain r w1 where f: "or_fetch_retryable (wd_outbox dp) now n w0 = (r, w1)" by force
  note law = fetch_retryable_law [OF w0(1) f, unfolded w0(2)]
  show ?thesis
  proof (cases r)
    case (Inl er)
    with law show ?thesis by (simp add: process_retries_def f t)
  next
    case (Inr xs)
    with law have "fetched xs w1" by (auto simp: fetched_def)
    note batch = deliver_batch [OF this]
    have "i \<notin> ob_id ` set xs"
      if "view w i = Some x" "\<not> (ob_status x = Retrying \<and> due now (ob_next_retry_at x))" for i x
      using that law Inr by auto
    with batch law Inr show ?thesis by (auto simp: process_retries_def f t)
  qed
qed

lemma worker_rounds_evolve:
  "invar w \<Longrightarrow> invar (worker_rounds dp n k w) \<and> evolves mx (view w) (view (worker_rounds dp n k w))"
proof (induction k arbitrary: w)
  case (Suc k)
  have "invar (process_pending dp n w)" "evolves mx (view w) (view (process_pending dp n w))"
    using process_pending_evolves [OF Suc.prems] by auto
  moreover have "invar (process_retries dp n (process_pending dp n w))"
    "evolves mx (view (process_pending dp n w)) (view (process_retries dp n (process_pending dp n w)))"
    using process_retries_evolves [OF \<open>invar (process_pending dp n w)\<close>] by auto
  ultimately show ?case using Suc.IH by (auto intro: evolves_trans)
qed simp

end

section \<open>Crash recovery over any repository\<close>

context outbox_store
begin

lemma reset_all_view:
  assumes "invar w" and "distinct (map ob_id xs)"
    and "\<forall>x \<in> set xs. view w (ob_id x) = Some x" and "reset_all rp xs w = (r, w')"
  shows "invar w' \<and> (\<forall>i. i \<notin> ob_id ` set xs \<longrightarrow> view w' i = view w i) \<and>
    (\<forall>x \<in> set xs. \<exists>y now. view w' (ob_id x) = Some y \<and>
       (y = with_status Pending None now x \<or> y = x \<and> \<not> is_Ok r))"
  using assms
proof (induction xs arbitrary: w)
  case Nil
  then show ?case by simp
next
  case (Cons x xs)
  obtain q w1 where m: "or_mark_status rp (ob_id x) Pending None w = (q, w1)" by force
  note law = mark_status_law [OF Cons.prems(1) m]
  show ?case
  proof (cases q)
    case (Inl er)
    with Cons.prems(3,4) law m show ?thesis by (auto simp: is_Ok_def)
  next
    case (Inr u)
    with law Cons.prems(3) obtain now where w1: "invar w1"
      "view w1 = (view w)(ob_id x \<mapsto> with_status Pending None now x)" by auto
    have xs: "\<forall>y \<in> set xs. view w1 (ob_id y) = Some y"
      using Cons.prems(2,3) w1(2) by (force simp: image_iff)
    have run: "reset_all rp xs w1 = (r, w')" using Cons.prems(4) m Inr by simp
    have d: "distinct (map ob_id xs)" "ob_id x \<notin> ob_id ` set xs" using Cons.prems(2) by auto
    note IH = Cons.IH [OF w1(1) d(1) xs run]
    then have "view w' (ob_id x) = Some (with_status Pending None now x)"
      using d(2) w1(2) by simp
    with IH w1(2) show ?thesis by auto
  qed
qed

lemma recover_after_crash_view:
  assumes "invar w" and "recover_after_crash rp w = (r, w')"
  shows "invar w' \<and>
    (\<forall>i. view w i = None \<longrightarrow> view w' i = None) \<and>
    (\<forall>i x. view w i = Some x \<longrightarrow> (\<exists>y now. view w' i = Some y \<and>
       (if ob_status x \<in> {Sending, Retrying} then y = with_status Pending None now x \<or> y = x \<and> \<not> is_Ok r
        else y = x)))"
proof -
  obtain q w1 where f: "or_recover_after_crash rp w = (q, w1)" by force
  note law = recover_law [OF assms(1) f]
  show ?thesis
  proof (cases q)
    case (Inl er)
    with assms(2) law f show ?thesis by (auto simp: recover_after_crash_def is_Ok_def)
  next
    case (Inr xs)
    with law have xs: "invar w1" "view w1 = view w" "distinct (map ob_id xs)"
      "\<And>x. x \<in> set xs \<longleftrightarrow> view w (ob_id x) = Some x \<and> ob_status x \<in> {Sending, Retrying}" by auto
    obtain q' where run: "reset_all rp xs w1 = (q', w')" "is_Ok r = is_Ok q'"
      using assms(2) f Inr by (auto simp: recover_after_crash_def is_Ok_def split: prod.splits sum.splits)
    have "\<forall>x \<in> set xs. view w1 (ob_id x) = Some x" using xs(2,4) by simp
    note reset = reset_all_view [OF xs(1,3) this run(1)]
    have out: "i \<notin> ob_id ` set xs" if "view w i = None \<or> (\<exists>x. view w i = Some x \<and> ob_status x \<notin> {Sending, Retrying})" for i
      using that xs(4) by force
    have member: "x \<in> set xs" "ob_id x = i" if "view w i = Some x" "ob_status x \<in> {Sending, Retrying}" for i x
      using that xs(4) view_id by auto
    show ?thesis
    proof (intro conjI allI impI)
      show "invar w'" using reset by simp
      show "view w' i = None" if "view w i = None" for i using reset out that xs(2) by simp
      fix i x assume x: "view w i = Some x"
      show "\<exists>y now. view w' i = Some y \<and>
         (if ob_status x \<in> {Sending, Retrying} then y = with_status Pending None now x \<or> y = x \<and> \<not> is_Ok r
          else y = x)"
      proof (cases "ob_status x \<in> {Sending, Retrying}")
        case True
        note m = member [OF x True]
        from reset m(1) obtain y now where "view w' (ob_id x) = Some y"
          "y = with_status Pending None now x \<or> y = x \<and> \<not> is_Ok q'" by blast
        with True m(2) run(2) show ?thesis by auto
      next
        case False
        with x out [of i] have "i \<notin> ob_id ` set xs" by blast
        with reset xs(2) x have "view w' i = Some x" by simp
        with False show ?thesis by simp
      qed
    qed
  qed
qed

end

section \<open>A repository that does not fail\<close>

text \<open>What a delivery of \<open>x\<close> makes of it, given the sender's answer.\<close>

definition delivered_as ::
  "32 word \<Rightarrow> outbox_entry \<Rightarrow> string + unit \<Rightarrow> outbox_entry \<Rightarrow> bool" where
  "delivered_as mx x r z \<longleftrightarrow> same_letter x z \<and>
     (case r of
        Ok _ \<Rightarrow> ob_status z = Sent \<and> ob_retry_count z = ob_retry_count x
      | Err err \<Rightarrow> ob_last_error z = Some err \<and>
          (if mx \<le> ob_retry_count x + 1 then ob_status z = DeadLetter
           else ob_status z = Retrying \<and> ob_retry_count z = ob_retry_count x + 1 \<and> ob_next_retry_at z \<noteq> None))"

locale reliable_worker = outbox_worker dp view invar
  for dp :: "'w worker_deps" and view invar +
  assumes mark_status_ok: "invar w \<Longrightarrow> is_Ok (fst (or_mark_status (wd_outbox dp) i st er w))"
    and mark_retrying_ok: "invar w \<Longrightarrow> is_Ok (fst (or_mark_retrying (wd_outbox dp) i n t em w))"
    and fetch_pending_ok: "invar w \<Longrightarrow> or_fetch_pending (wd_outbox dp) l w = (rs, w') \<Longrightarrow>
      \<exists>xs. rs = Ok xs \<and> ((\<forall>i x. view w i = Some x \<and> ob_status x = Pending \<longrightarrow> x \<in> set xs) \<or>
                          0 \<le> sint l \<and> length xs = nat (sint l))"
begin

lemma mark_status_eq:
  assumes "invar w" and "view w i = Some x"
  obtains now w' where "or_mark_status (wd_outbox dp) i st er w = (Ok (), w')" "invar w'"
    "view w' = (view w)(i \<mapsto> with_status st er now x)"
  using mark_status_cases [OF assms, of st er] mark_status_ok [OF assms(1), of i st er]
  by (cases "or_mark_status (wd_outbox dp) i st er w") (auto simp: is_Ok_def split: sum.splits)

lemma mark_retrying_eq:
  assumes "invar w" and "view w i = Some x"
  obtains now w' where "or_mark_retrying (wd_outbox dp) i n t em w = (Ok (), w')" "invar w'"
    "view w' = (view w)(i \<mapsto> with_retry n t em now x)"
  using mark_retrying_cases [OF assms, of n t em] mark_retrying_ok [OF assms(1), of i n t em]
  by (cases "or_mark_retrying (wd_outbox dp) i n t em w") (auto simp: is_Ok_def split: sum.splits)

lemma send_failed_outcome:
  assumes "invar w" and "view w (ob_id x) = Some y" and "same_letter x y"
    and "ob_retry_count y = ob_retry_count x"
  shows "\<exists>z. view (send_failed dp x err w) = (view w)(ob_id x \<mapsto> z) \<and> delivered_as mx x (Err err) z"
proof (cases "mx \<le> ob_retry_count x + 1")
  case True
  obtain now w1 where m: "or_mark_status (wd_outbox dp) (ob_id x) DeadLetter (Some err) w = (Ok (), w1)"
    "invar w1" "view w1 = (view w)(ob_id x \<mapsto> with_status DeadLetter (Some err) now y)"
    using mark_status_eq [OF assms(1,2)] by blast
  have "view (send_failed dp x err w) = view w1"
    using True m now_s_frame dlq_frame audit_frame
    by (simp add: send_failed_def Let_def bury_def split_beta)
  moreover have "delivered_as mx x (Err err) (with_status DeadLetter (Some err) now y)"
    using True assms(3) by (simp add: delivered_as_def same_letter_def with_status_def)
  ultimately show ?thesis using m(3) by metis
next
  case False
  let ?w0 = "snd (wd_now_ms dp w)"
  let ?n = "ob_retry_count x + 1"
  let ?t = "retry_at (fst (wd_now_ms dp w)) (next_delay_ms (wd_retry dp) ?n)"
  have w0: "invar ?w0" "view ?w0 = view w" using now_ms_frame [OF assms(1)] by auto
  with assms(2) have y: "view ?w0 (ob_id x) = Some y" by simp
  obtain now w1 where m: "or_mark_retrying (wd_outbox dp) (ob_id x) ?n ?t err ?w0 = (Ok (), w1)"
    "invar w1" "view w1 = (view w)(ob_id x \<mapsto> with_retry ?n ?t err now y)"
    using mark_retrying_eq [OF w0(1) y] w0(2) by metis
  have "view (send_failed dp x err w) = view w1"
    using False m audit_frame by (simp add: send_failed_def Let_def reschedule_def split_beta)
  moreover have "delivered_as mx x (Err err) (with_retry ?n ?t err now y)"
    using False assms(3) by (simp add: delivered_as_def same_letter_def with_retry_def)
  ultimately show ?thesis using m(3) by metis
qed

lemma deliver_outcome:
  assumes "invar w" and "view w (ob_id x) = Some x"
  defines "r \<equiv> fst (wd_sender dp x (snd (or_mark_status (wd_outbox dp) (ob_id x) Sending None w)))"
  shows "\<exists>z. view (deliver dp x w) = (view w)(ob_id x \<mapsto> z) \<and> delivered_as mx x r z"
proof -
  obtain now w1 where m: "or_mark_status (wd_outbox dp) (ob_id x) Sending None w = (Ok (), w1)"
    "invar w1" "view w1 = (view w)(ob_id x \<mapsto> with_status Sending None now x)"
    using mark_status_eq [OF assms(1,2)] by blast
  define w2 where "w2 = snd (wd_sender dp x w1)"
  have snd: "wd_sender dp x w1 = (r, w2)" by (simp add: r_def w2_def m(1))
  have w2: "invar w2" "view w2 = view w1" using sender_frame [OF m(2), of x] snd by auto
  let ?y = "with_status Sending None now x"
  have y: "view w2 (ob_id x) = Some ?y" using w2(2) m(3) by simp
  have letter: "same_letter x ?y" by (simp add: same_letter_def with_status_def)
  have upd: "(view w2)(ob_id x \<mapsto> z) = (view w)(ob_id x \<mapsto> z)" for z using w2(2) m(3) by simp
  show ?thesis
  proof (cases r)
    case (Inl err)
    have "deliver dp x w = send_failed dp x err w2" by (simp add: deliver_def m(1) snd Inl)
    with send_failed_outcome [OF w2(1) y letter, of err] upd Inl show ?thesis by simp
  next
    case (Inr u)
    obtain now' w3 where s: "or_mark_status (wd_outbox dp) (ob_id x) Sent None w2 = (Ok (), w3)"
      "invar w3" "view w3 = (view w2)(ob_id x \<mapsto> with_status Sent None now' ?y)"
      using mark_status_eq [OF w2(1) y] by blast
    have "view (deliver dp x w) = (view w)(ob_id x \<mapsto> with_status Sent None now' ?y)"
      using audit_frame [OF s(2)] s upd by (simp add: deliver_def m(1) snd Inr)
    moreover have "delivered_as mx x r (with_status Sent None now' ?y)"
      by (simp add: Inr delivered_as_def same_letter_def with_status_def)
    ultimately show ?thesis by blast
  qed
qed

lemma deliver_batch_outcome:
  assumes "fetched xs w" and "x \<in> set xs"
  shows "\<exists>z r. view (fold (deliver dp) xs w) (ob_id x) = Some z \<and> delivered_as mx x r z"
  using assms
proof (induction xs arbitrary: w)
  case (Cons a xs)
  let ?w = "deliver dp a w"
  have a: "invar w" "view w (ob_id a) = Some a" "ob_status a \<in> {Pending, Retrying}"
    using Cons.prems(1) by (auto simp: fetched_def)
  obtain z r where z: "view ?w = (view w)(ob_id a \<mapsto> z)" "delivered_as mx a r z"
    using deliver_outcome [OF a(1,2)] by blast
  have fetched: "fetched xs ?w"
    using Cons.prems(1) z(1) deliver_view [OF a] by (force simp: fetched_def image_iff)
  show ?case
  proof (cases "x = a")
    case True
    then have "ob_id x \<notin> ob_id ` set xs" using Cons.prems(1) by (auto simp: fetched_def)
    with deliver_batch [OF fetched] z True show ?thesis by auto
  next
    case False
    with Cons.IH [OF fetched] Cons.prems(2) show ?thesis by simp
  qed
qed simp

lemma delivered_not_pending: "delivered_as mx x r z \<Longrightarrow> ob_status z \<noteq> Pending"
  by (auto simp: delivered_as_def split: sum.splits if_splits)

text \<open>A round leaves no pending entry unless it filled its batch.\<close>

lemma process_pending_drains:
  assumes "invar w" and "or_fetch_pending (wd_outbox dp) n w = (rs, w1)"
  shows "\<exists>xs. rs = Ok xs \<and>
    ((\<forall>i z. view (process_pending dp n w) i = Some z \<longrightarrow> ob_status z \<noteq> Pending) \<or>
     0 \<le> sint n \<and> length xs = nat (sint n))"
proof -
  from fetch_pending_ok [OF assms] obtain xs where xs: "rs = Ok xs"
    and full: "(\<forall>i x. view w i = Some x \<and> ob_status x = Pending \<longrightarrow> x \<in> set xs) \<or>
      0 \<le> sint n \<and> length xs = nat (sint n)" by blast
  have law: "invar w1" "view w1 = view w" "fetched xs w1"
    using fetch_pending_law [OF assms] xs by (auto simp: fetched_def)
  have run: "process_pending dp n w = fold (deliver dp) xs w1"
    by (simp add: process_pending_def assms(2) xs)
  have "ob_status z \<noteq> Pending"
    if all: "\<forall>i x. view w i = Some x \<and> ob_status x = Pending \<longrightarrow> x \<in> set xs"
      and z: "view (process_pending dp n w) i = Some z" for i z
  proof (cases "i \<in> ob_id ` set xs")
    case True
    then show ?thesis
      using deliver_batch_outcome [OF law(3)] z run delivered_not_pending by fastforce
  next
    case False
    with deliver_batch [OF law(3)] z run law(2) have v: "view w i = Some z" by simp
    with False all view_id [OF v] show ?thesis by blast
  qed
  then show ?thesis using xs full by blast
qed

end

section \<open>The worker on SQLite\<close>

text \<open>
  A sender acts on the world outside the database, the extension of the database record.
\<close>

definition outside :: "(outbox_entry \<Rightarrow> 'x \<Rightarrow> (string + unit) \<times> 'x) \<Rightarrow> 'x db_scheme message_sender" where
  "outside s x = on_more (s x)"

definition sqlite_worker ::
  "digest \<Rightarrow> env \<Rightarrow> retry_config \<Rightarrow> (outbox_entry \<Rightarrow> 'x \<Rightarrow> (string + unit) \<times> 'x) \<Rightarrow>
   'x db_scheme worker_deps" where
  "sqlite_worker sha e c s =
     \<lparr> wd_outbox = sqlite_outbox e, wd_dlq = sqlite_dead_letter e, wd_retry = c,
       wd_sender = outside s, wd_audit = audit_record sha e,
       wd_now_ms = clock_ms e, wd_now_s = clock_s e \<rparr>"

lemma outbox_frame [simp, frame_simps]:
  "t_outbox (snd (outside s x d)) = t_outbox d"
  "t_outbox (snd (clock_ms e d)) = t_outbox d"
  "t_outbox (snd (clock_s e d)) = t_outbox d"
  by (simp_all add: outside_def on_more_def clock_ms_def clock_s_def Let_def split_beta)

lemma dead_letter_insert_frame [simp, frame_simps]: "t_outbox (snd (dead_letter_insert e dl d)) = t_outbox d"
  by (simp add: dead_letter_insert_def sql_def repo_def tbl_insert_def Let_def split: option.split)

lemma same_outbox:
  "outbox_ok d \<Longrightarrow> t_outbox d' = t_outbox d \<Longrightarrow> outbox_ok d' \<and> outbox_view d' = outbox_view d"
  by (simp add: outbox_view_def outbox_ok_def fun_eq_iff)

lemma sqlite_worker_sel [simp]:
  "wd_outbox (sqlite_worker sha e c s) = sqlite_outbox e"
  "wd_dlq (sqlite_worker sha e c s) = sqlite_dead_letter e"
  "wd_retry (sqlite_worker sha e c s) = c"
  "wd_sender (sqlite_worker sha e c s) = outside s"
  "wd_audit (sqlite_worker sha e c s) = audit_record sha e"
  "wd_now_ms (sqlite_worker sha e c s) = clock_ms e"
  "wd_now_s (sqlite_worker sha e c s) = clock_s e"
  by (simp_all add: sqlite_worker_def)

interpretation ow: outbox_worker "sqlite_worker sha e c s" outbox_view outbox_ok for sha e c s
proof (intro outbox_worker.intro outbox_worker_axioms.intro)
  show "outbox_store (wd_outbox (sqlite_worker sha e c s)) outbox_view outbox_ok"
    unfolding sqlite_worker_sel by (rule sq.outbox_store_axioms)
qed (erule same_outbox, simp add: sqlite_dead_letter_def)+

definition faultless :: "env \<Rightarrow> env" where
  "faultless e = e\<lparr>env_fault := \<lambda>_. None\<rparr>"

lemma faultless_id: "no_faults e \<Longrightarrow> faultless e = e"
  by (simp add: faultless_def no_faults_def fun_eq_iff)

lemma faultless_fault [simp]: "env_fault (faultless e) n = None"
  by (simp add: faultless_def)

lemma in_limit:
  "x \<in> set t \<Longrightarrow> x \<in> set (sql_limit n t) \<or> 0 \<le> sint n \<and> length (sql_limit n t) = nat (sint n)"
  by (auto simp: sql_limit_def min_def not_less)

lemma sqlite_fetch_pending_ok:
  assumes "outbox_ok d" and "outbox_fetch_pending (faultless e) l d = (rs, d')"
  shows "\<exists>xs. rs = Ok xs \<and> ((\<forall>i x. outbox_view d i = Some x \<and> ob_status x = Pending \<longrightarrow> x \<in> set xs) \<or>
    0 \<le> sint l \<and> length xs = nat (sint l))"
proof -
  let ?t = "order_by ob_created_at (\<lambda>r. env_rank (faultless e) (db_tick d) (ob_id r))
      (filter (\<lambda>r. ob_status r = ''pending'') (t_outbox d))"
  have rs: "rs = Ok (map row_to_entry (sql_limit l ?t))"
    using assms(2) by (auto simp: outbox_fetch_pending_def sql_read_eq)
  have "x \<in> row_to_entry ` set ?t" if "outbox_view d i = Some x" "ob_status x = Pending" for i x
    using outbox_view_Some [OF that(1)] that(2) row_status_text [OF assms(1), of _ Pending] by auto
  then have "x \<in> set (map row_to_entry (sql_limit l ?t)) \<or> 0 \<le> sint l \<and> length (sql_limit l ?t) = nat (sint l)"
    if "outbox_view d i = Some x" "ob_status x = Pending" for i x
    using that in_limit [of _ ?t l] by force
  then show ?thesis using rs by auto
qed

interpretation rw: reliable_worker "sqlite_worker sha (faultless e) c s" outbox_view outbox_ok for sha e c s
proof (intro reliable_worker.intro reliable_worker_axioms.intro)
  show "outbox_worker (sqlite_worker sha (faultless e) c s) outbox_view outbox_ok"
    by (rule ow.outbox_worker_axioms)
qed (use sqlite_fetch_pending_ok in
      \<open>simp_all add: sqlite_outbox_def outbox_mark_status_def outbox_mark_retrying_def sql_write_eq is_Ok_def\<close>)

section \<open>The sender behind the gate\<close>

text \<open>
  \<open>ResilientOutboxSender\<close>: its state is the gate beside the inner sender's world; \<open>t0\<close> and
  \<open>t1\<close> are the clock before and after. \<open>None\<close> is waiting for a permit.
\<close>

definition resilient_send ::
  "(outbox_entry \<Rightarrow> 'x \<Rightarrow> (string + unit) \<times> 'x) \<Rightarrow> nat \<Rightarrow> nat \<Rightarrow> outbox_entry \<Rightarrow> gate \<times> 'x \<Rightarrow>
   ((string + unit) \<times> gate \<times> 'x) option" where
  "resilient_send inner t0 t1 entry gx =
     gate_execute id t0 t1 (inner entry) (fst gx) (snd gx)"

text \<open>
  The same as the sender of a worker that waits for its turn: the clock is read before and after the
  inner call. In the daemon the outbox worker is the only user of its gate and sends one entry after the other, so
  it always finds a permit (lemma \<open>behind_gate_permits\<close>); a wait that would never end leaves all as it is.
\<close>

definition behind_gate ::
  "('x \<Rightarrow> nat) \<Rightarrow> (outbox_entry \<Rightarrow> 'x \<Rightarrow> (string + unit) \<times> 'x) \<Rightarrow> outbox_entry \<Rightarrow> gate \<times> 'x \<Rightarrow>
   (string + unit) \<times> gate \<times> 'x" where
  "behind_gate clock inner entry gx =
     (case resilient_send inner (clock (snd gx)) (clock (snd (inner entry (snd gx)))) entry gx of
        Some r \<Rightarrow> r
      | None \<Rightarrow> (Err ''waiting for a permit'', gx))"

text \<open>A call with a permit, spelled out, and that it leaves the permits as they were.\<close>

lemma behind_gate_eq:
  assumes "0 < bh_permits (g_bulkhead g)"
  shows "behind_gate clock inner x (g, m) =
    (let (allowed, br) = allow_request (clock m) (g_breaker g); (r, m') = inner x m in
     if \<not> allowed then (Err ''circuit breaker open'', g\<lparr>g_breaker := br\<rparr>, m)
     else (r, g\<lparr>g_breaker := if is_Ok r then record_success br else record_failure (clock m') 0 br\<rparr>, m'))"
  using assms
  by (auto simp: behind_gate_def resilient_send_def gate_execute_def bh_acquire_def bh_release_def Let_def is_Ok_def
      split: prod.split sum.split)

lemma behind_gate_permits: "g_bulkhead (fst (snd (behind_gate clock inner x (g, m)))) = g_bulkhead g"
  by (auto simp: behind_gate_def resilient_send_def dest: gate_execute_bulkhead split: option.split)

section \<open>Lemmas for the properties\<close>

lemma mark_status_frame [simp, frame_simps]:
  "db.more (snd (or_mark_status (sqlite_outbox e) i st er d)) = db.more d"
  "t_dead_letter (snd (or_mark_status (sqlite_outbox e) i st er d)) = t_dead_letter d"
  by (simp_all add: sqlite_outbox_def outbox_mark_status_def sql_write_eq split: option.split)

lemma mark_retrying_frame [simp, frame_simps]:
  "db.more (snd (or_mark_retrying (sqlite_outbox e) i n t em d)) = db.more d"
  by (simp_all add: sqlite_outbox_def outbox_mark_retrying_def sql_write_eq split: option.split)

lemma more_frame [simp, frame_simps]:
  "db.more (snd (clock_ms e d)) = db.more d" "db.more (snd (clock_s e d)) = db.more d"
  "db.more (snd (dead_letter_insert e dl d)) = db.more d"
  "t_dead_letter (snd (clock_s e d)) = t_dead_letter d"
  "t_dead_letter (snd (outside s x d)) = t_dead_letter d"
  by (simp_all add: clock_ms_def clock_s_def dead_letter_insert_def sql_def repo_def tbl_insert_def
      outside_def on_more_def Let_def split_beta split: option.split)

lemma outside_result:
  "fst (outside s x d) = fst (s x (db.more d))"
  "db.more (snd (outside s x d)) = snd (s x (db.more d))"
  by (simp_all add: outside_def on_more_def Let_def split_beta)

lemma send_failed_more [simp, frame_simps]:
  "db.more (send_failed (sqlite_worker sha e c s) x err d) = db.more d"
  by (simp add: send_failed_def bury_def reschedule_def Let_def split_beta sqlite_dead_letter_def)

text \<open>Where the sender sees the world, and what it leaves, when marking works.\<close>

lemma deliver_more:
  assumes "is_Ok (fst (or_mark_status (sqlite_outbox e) (ob_id x) Sending None d))"
  shows "db.more (deliver (sqlite_worker sha e c s) x d) = snd (s x (db.more d))"
proof -
  let ?m = "or_mark_status (sqlite_outbox e) (ob_id x) Sending None d"
  from assms obtain d1 where m: "?m = (Ok (), d1)"
    by (cases ?m) (auto simp: is_Ok_def split: sum.splits)
  then have "db.more d1 = db.more d" using mark_status_frame(1) [of e "ob_id x" Sending None d] by simp
  moreover obtain r d2 where o2: "outside s x d1 = (r, d2)" by force
  ultimately have "db.more d2 = snd (s x (db.more d))" using outside_result(2) [of s x d1] by simp
  then show ?thesis by (simp add: deliver_def m o2 split: sum.split)
qed

lemma dead_letter_insert_row:
  assumes "env_fault e (db_tick d) = None"
  shows "dl_id dl \<in> dl_id ` set (t_dead_letter (snd (dead_letter_insert e dl d)))"
  using assms
  by (auto simp: dead_letter_insert_def sql_def Let_def tbl_insert_def repo_def split: if_splits)

text \<open>One delivery without faults: one call of the sender, its answer recorded.\<close>

lemma calm_delivery:
  assumes "no_faults e" and "outbox_ok d" and "outbox_view d (ob_id x) = Some x"
    and d'_def: "d' = deliver (sqlite_worker sha e c s) x d"
  shows "db.more d' = snd (s x (db.more d)) \<and>
    (\<exists>z. outbox_view d' = (outbox_view d)(ob_id x \<mapsto> z) \<and>
         delivered_as (max_retries c) x (fst (s x (db.more d))) z)"
proof -
  have e: "faultless e = e" using assms(1) by (rule faultless_id)
  have "is_Ok (fst (or_mark_status (sqlite_outbox e) (ob_id x) Sending None d))"
    using rw.mark_status_ok [OF assms(2), where e = e] by (simp add: e)
  then have "db.more d' = snd (s x (db.more d))" unfolding d'_def by (rule deliver_more)
  with rw.deliver_outcome [OF assms(2,3), where sha = sha and e = e and c = c and s = s]
  show ?thesis by (simp add: e d'_def outside_result)
qed

text \<open>A database with one pending entry, for the examples.\<close>

definition sample_entry :: outbox_entry where
  "sample_entry = outbox_entry_new ''m1'' ''rk'' ''hi'' 1"

definition sample_db :: "outbox_entry \<Rightarrow> db" where
  "sample_db x = empty_db\<lparr>t_outbox := [entry_to_row x]\<rparr>"

definition accept :: "outbox_entry \<Rightarrow> 'x \<Rightarrow> (string + unit) \<times> 'x" where
  "accept x m = (Ok (), m)"

definition refuse :: "outbox_entry \<Rightarrow> 'x \<Rightarrow> (string + unit) \<times> 'x" where
  "refuse x m = (Err ''down'', m)"

lemma sample_db_ok: "outbox_ok (sample_db x)"
  by (simp add: outbox_ok_def sample_db_def entry_to_row_def)

lemma sample_db_view: "outbox_view (sample_db x) i = (if i = ob_id x then Some x else None)"
  by (simp add: outbox_view_def sample_db_def entry_to_row_def row_to_entry_def)

lemma calm_env_calm: "no_faults calm_env"
  by (simp add: no_faults_def calm_env_def)

lemma sample_entry_sel [simp]:
  "ob_id sample_entry = ''m1''" "ob_status sample_entry = Pending" "ob_retry_count sample_entry = 0"
  by (simp_all add: sample_entry_def outbox_entry_new_def)

section \<open>Properties\<close>

text \<open>
  C1. However statements fail, whatever the sender does and however many rounds the
  worker runs, every outbox entry moves along the life cycle pending or retrying,
  sending, then sent, retrying or dead letter; none appears or vanishes; id, route key,
  payload and creation time never change; sent and dead-lettered entries are never
  touched again; and the retry counter never reaches the limit nor goes down.
\<close>

theorem worker_follows_lifecycle:
  assumes "outbox_ok d" and d'_def: "d' = worker_rounds (sqlite_worker sha e c s) batch k d"
  shows "outbox_ok d' \<and> dom (outbox_view d') = dom (outbox_view d) \<and>
    (\<forall>i x. outbox_view d i = Some x \<longrightarrow>
      (\<exists>y. outbox_view d' i = Some y \<and> (entry_step (max_retries c))\<^sup>*\<^sup>* x y \<and> same_letter x y \<and>
        (ob_status x \<in> {Sent, DeadLetter} \<longrightarrow> y = x) \<and>
        (ob_retry_count x < max_retries c \<longrightarrow>
           ob_retry_count y < max_retries c \<and> ob_retry_count x \<le> ob_retry_count y)))"
proof -
  have ok: "outbox_ok d'" and ev: "evolves (max_retries c) (outbox_view d) (outbox_view d')"
    using ow.worker_rounds_evolve [OF assms(1), where n = batch and k = k and sha = sha and e = e and c = c and s = s]
    by (simp_all add: d'_def)
  have rel: "rel_option ((entry_step (max_retries c))\<^sup>*\<^sup>*) (outbox_view d i) (outbox_view d' i)" for i
    using ev by (simp add: evolves_def)
  have "outbox_view d i = None \<longleftrightarrow> outbox_view d' i = None" for i
    using rel [of i] by (cases "outbox_view d i"; cases "outbox_view d' i") auto
  then have dom: "dom (outbox_view d') = dom (outbox_view d)" by (simp add: dom_def)
  have "\<exists>y. outbox_view d' i = Some y \<and> (entry_step (max_retries c))\<^sup>*\<^sup>* x y \<and> same_letter x y \<and>
        (ob_status x \<in> {Sent, DeadLetter} \<longrightarrow> y = x) \<and>
        (ob_retry_count x < max_retries c \<longrightarrow>
           ob_retry_count y < max_retries c \<and> ob_retry_count x \<le> ob_retry_count y)"
    if x: "outbox_view d i = Some x" for i x
  proof -
    from rel [of i] x obtain y where y: "outbox_view d' i = Some y" "(entry_step (max_retries c))\<^sup>*\<^sup>* x y"
      by (auto simp: option_rel_Some1)
    then show ?thesis
      using entry_steps_letter [OF y(2)] entry_steps_final [OF y(2)] entry_steps_count [OF y(2)] by simp
  qed
  with ok dom show ?thesis by simp
qed

theorem worker_follows_lifecycle_witness:
  "\<exists>y. outbox_view (worker_rounds (sqlite_worker toy_sha calm_env (retry_default id) refuse) 10 3
         (sample_db sample_entry)) ''m1'' = Some y \<and> same_letter sample_entry y \<and> ob_retry_count y < 5"
proof -
  have "outbox_view (sample_db sample_entry) ''m1'' = Some sample_entry" by (simp add: sample_db_view)
  from worker_follows_lifecycle [OF sample_db_ok [of sample_entry] refl, THEN conjunct2, THEN conjunct2,
      rule_format, OF this, where sha = toy_sha and e = calm_env and c = "retry_default id" and s = refuse and
      batch = 10 and k = 3]
  show ?thesis by (auto simp: retry_default_def)
qed

text \<open>
  C27. Without database faults, delivering a stored entry calls the sender exactly once
  and records its answer: sent if it accepted; otherwise the error text with either the
  counter increased and a retry time, or, at the limit, the state dead letter. All other
  entries stay as they are.
\<close>

theorem delivery_outcome:
  assumes "no_faults e" and "outbox_ok d" and "outbox_view d (ob_id x) = Some x"
    and d'_def: "d' = deliver (sqlite_worker sha e c s) x d"
  shows "db.more d' = snd (s x (db.more d)) \<and>
    (\<exists>z. outbox_view d' = (outbox_view d)(ob_id x \<mapsto> z) \<and>
         delivered_as (max_retries c) x (fst (s x (db.more d))) z)"
  using assms by (rule calm_delivery)

theorem delivery_outcome_witness:
  "\<exists>z. outbox_view (deliver (sqlite_worker toy_sha calm_env (retry_default id) accept) sample_entry
         (sample_db sample_entry)) ''m1'' = Some z \<and> ob_status z = Sent"
  using delivery_outcome [OF calm_env_calm sample_db_ok [of sample_entry], of sample_entry,
      OF _ refl, of toy_sha "retry_default id" accept]
  by (auto simp: sample_db_view accept_def delivered_as_def)

text \<open>
  C28. Crash recovery, under any faults: an entry that was sending or retrying becomes
  pending with its counter, route key and payload kept, or stays as it was if a statement
  failed; every other entry is untouched; when recovery reports success none is left
  sending or retrying.
\<close>

theorem crash_recovery_resets:
  assumes "outbox_ok d" and "recover_after_crash (sqlite_outbox e) d = (r, d')"
  shows "outbox_ok d' \<and> dom (outbox_view d') = dom (outbox_view d) \<and>
    (\<forall>i x. outbox_view d i = Some x \<longrightarrow> (\<exists>y now. outbox_view d' i = Some y \<and>
       (if ob_status x \<in> {Sending, Retrying} then y = with_status Pending None now x \<or> y = x \<and> \<not> is_Ok r
        else y = x))) \<and>
    (is_Ok r \<longrightarrow> (\<forall>i y. outbox_view d' i = Some y \<longrightarrow> ob_status y \<notin> {Sending, Retrying}))"
proof -
  note rc = sq.recover_after_crash_view [OF assms]
  have "dom (outbox_view d') = dom (outbox_view d)" using rc by (fastforce simp: dom_def)
  moreover have "ob_status y \<notin> {Sending, Retrying}" if ok: "is_Ok r" and y: "outbox_view d' i = Some y" for i y
  proof -
    obtain x where "outbox_view d i = Some x" using rc y by (cases "outbox_view d i") auto
    with rc ok y show ?thesis by (fastforce split: if_splits)
  qed
  ultimately show ?thesis using rc by blast
qed

theorem crash_recovery_resets_witness:
  "\<exists>y. outbox_view (snd (recover_after_crash (sqlite_outbox calm_env)
      (sample_db (sample_entry\<lparr>ob_status := Sending\<rparr>)))) ''m1'' = Some y \<and> ob_status y = Pending"
proof -
  let ?d = "sample_db (sample_entry\<lparr>ob_status := Sending\<rparr>)"
  have "is_Ok (fst (recover_after_crash (sqlite_outbox calm_env) ?d))"
    by (simp add: recover_after_crash_def sqlite_outbox_def outbox_recover_after_crash_def sql_read_eq
        calm_env_def sample_db_def entry_to_row_def order_by_def outbox_mark_status_def sql_write_eq is_Ok_def)
  moreover have "outbox_view ?d ''m1'' = Some (sample_entry\<lparr>ob_status := Sending\<rparr>)" by (simp add: sample_db_view)
  ultimately show ?thesis
    using crash_recovery_resets [OF sample_db_ok [of "sample_entry\<lparr>ob_status := Sending\<rparr>"] surjective_pairing,
        THEN conjunct2, THEN conjunct2, THEN conjunct1, rule_format, where e = calm_env] by fastforce
qed

text \<open>
  Without database faults a run of \<open>process_pending\<close> leaves no pending entry behind
  unless the number of fetched entries reached the batch size.
\<close>

theorem round_drains_pending:
  assumes "no_faults e" and "outbox_ok d" and "outbox_fetch_pending e n d = (rs, d1)"
  shows "\<exists>xs. rs = Ok xs \<and>
    ((\<forall>i z. outbox_view (process_pending (sqlite_worker sha e c s) n d) i = Some z \<longrightarrow> ob_status z \<noteq> Pending) \<or>
     0 \<le> sint n \<and> length xs = nat (sint n))"
proof -
  have e: "faultless e = e" using assms(1) by (rule faultless_id)
  have f: "or_fetch_pending (wd_outbox (sqlite_worker sha (faultless e) c s)) n d = (rs, d1)"
    using assms(3) by (simp add: e sqlite_outbox_def)
  show ?thesis using rw.process_pending_drains [OF assms(2) f] by (simp add: e)
qed

theorem round_drains_pending_witness:
  "\<exists>xs. fst (outbox_fetch_pending calm_env 10 (sample_db sample_entry)) = Ok xs \<and>
    ((\<forall>i z. outbox_view (process_pending (sqlite_worker toy_sha calm_env (retry_default id) accept) 10
        (sample_db sample_entry)) i = Some z \<longrightarrow> ob_status z \<noteq> Pending) \<or> length xs = 10)"
  using round_drains_pending [OF calm_env_calm sample_db_ok [of sample_entry] surjective_pairing,
      where n = 10 and sha = toy_sha and c = "retry_default id" and s = accept]
  by auto

text \<open>
  Under any faults, an entry that a delivery leaves in state sent was accepted by the
  sender in that very delivery: nothing is ever reported sent that was not.
\<close>

theorem sent_only_if_accepted:
  assumes "outbox_ok d" and "outbox_view d (ob_id x) = Some x" and "ob_status x \<in> {Pending, Retrying}"
    and "outbox_view (deliver (sqlite_worker sha e c s) x d) (ob_id x) = Some z" and "ob_status z = Sent"
  shows "is_Ok (fst (s x (db.more d)))"
  using ow.deliver_sent_only_if_accepted [OF assms(1-3), where sha = sha and e = e and c = c and s = s] assms(4,5)
  by (simp add: outside_result)

theorem sent_only_if_accepted_witness:
  "is_Ok (fst (accept sample_entry (db.more (sample_db sample_entry))))"
proof -
  have "\<exists>z. outbox_view (deliver (sqlite_worker toy_sha (faultless calm_env) (retry_default id) accept) sample_entry
      (sample_db sample_entry)) (ob_id sample_entry) = Some z \<and> ob_status z = Sent"
    using rw.deliver_outcome [OF sample_db_ok [of sample_entry], of sample_entry toy_sha calm_env "retry_default id" accept]
    by (auto simp: sample_db_view outside_result accept_def delivered_as_def)
  then show ?thesis
    using sent_only_if_accepted [OF sample_db_ok [of sample_entry], of sample_entry]
    by (auto simp: sample_db_view)
qed

text \<open>
  Without database faults, an entry whose delivery ends in state dead letter has a row
  with its id among the dead letters.
\<close>

theorem buried_entry_has_dead_letter:
  assumes "no_faults e" and "outbox_ok d" and "outbox_view d (ob_id x) = Some x"
    and "s x (db.more d) = (Err err, m)" and "max_retries c \<le> ob_retry_count x + 1"
  shows "ob_id x \<in> dl_id ` set (t_dead_letter (deliver (sqlite_worker sha e c s) x d))"
proof -
  let ?m = "or_mark_status (sqlite_outbox e) (ob_id x) Sending None d"
  have "is_Ok (fst ?m)"
    using rw.mark_status_ok [OF assms(2), where e = e] faultless_id [OF assms(1)] by simp
  then obtain d1 where m1: "?m = (Ok (), d1)" by (cases ?m) (auto simp: is_Ok_def split: sum.splits)
  then have "db.more d1 = db.more d" using mark_status_frame(1) [of e "ob_id x" Sending None d] by simp
  then obtain d2 where d2: "outside s x d1 = (Err err, d2)"
    using assms(4) by (simp add: outside_def on_more_def)
  let ?d3 = "snd (or_mark_status (sqlite_outbox e) (ob_id x) DeadLetter (Some err) d2)"
  let ?dl = "dead_letter_entry_new (ob_id x) ''outbox'' (ob_payload x)
    (attempt_text ''max retries'' (ob_retry_count x + 1) err) (fst (clock_s e ?d3))"
  have "deliver (sqlite_worker sha e c s) x d =
      audit_record sha e (Some (ob_route_key x)) ''dead_letter''
        (attempt_text ''max retries'' (ob_retry_count x + 1) err)
        (snd (dead_letter_insert e ?dl (snd (clock_s e ?d3))))"
    using assms(5) by (simp add: deliver_def m1 d2 send_failed_def bury_def Let_def split_beta
        sqlite_dead_letter_def)
  moreover have "dl_id ?dl = ob_id x" by (simp add: dead_letter_entry_new_def)
  ultimately show ?thesis
    using dead_letter_insert_row [of e "snd (clock_s e ?d3)" ?dl] assms(1) by simp
qed

theorem buried_entry_has_dead_letter_witness:
  "''m1'' \<in> dl_id ` set (t_dead_letter (deliver (sqlite_worker toy_sha calm_env
     (\<lparr> max_retries = 1, base_backoff_ms = 1, max_backoff_ms = 1, jitter_range_of = id \<rparr>) refuse)
     sample_entry (sample_db sample_entry)))"
  using buried_entry_has_dead_letter [OF calm_env_calm sample_db_ok [of sample_entry], of sample_entry refuse "''down''" _
      "\<lparr> max_retries = 1, base_backoff_ms = 1, max_backoff_ms = 1, jitter_range_of = id \<rparr>" toy_sha]
  by (simp add: sample_db_view refuse_def)

text \<open>
  Replaying a dead letter without database faults removes it from the dead letters
  and makes the outbox entry with its id pending again, with the dead letter's payload, a
  zero counter and the route key it had; other entries and dead letters stay.
\<close>

theorem replay_makes_pending:
  assumes "no_faults e" and "tbl_find dl_id i (t_dead_letter d) = Some dl"
    and "outbox_view d i = Some x" and "dead_letter_replay e i d = (r, d')"
  shows "\<exists>now. r = Ok (outbox_entry_new i (ob_route_key x) (dl_payload dl) now) \<and>
    outbox_view d' = (outbox_view d)(i \<mapsto> x\<lparr>ob_status := Pending, ob_retry_count := 0,
       ob_next_retry_at := None, ob_last_error := None, ob_payload := dl_payload dl, ob_updated_at := now\<rparr>) \<and>
    t_dead_letter d' = tbl_delete (\<lambda>q. dl_id q = i) (t_dead_letter d)"
proof -
  from assms(3) obtain q where q: "tbl_find ob_id i (t_outbox d) = Some q" "x = row_to_entry q"
    by (auto simp: outbox_view_def)
  define now where "now = env_now_ms e (Suc (Suc (db_tick d))) div 1000"
  let ?f = "\<lambda>r :: outbox_row. r\<lparr>ob_status := ''pending'', ob_retry_count := 0, ob_next_retry_at := None,
      ob_last_error := None, ob_payload := dl_payload dl, ob_updated_at := now\<rparr>"
  let ?g = "\<lambda>x. x\<lparr>ob_status := Pending, ob_retry_count := 0, ob_next_retry_at := None,
      ob_last_error := None, ob_payload := dl_payload dl, ob_updated_at := now\<rparr>"
  have r: "r = Ok (outbox_entry_new i (ob_route_key x) (dl_payload dl) now)"
    and t: "t_outbox d' = tbl_update (\<lambda>r. ob_id r = i) ?f (t_outbox d)"
    and dl: "t_dead_letter d' = tbl_delete (\<lambda>q. dl_id q = i) (t_dead_letter d)"
    using assms(1,2,4) q
    by (auto simp: dead_letter_replay_def replay_finish_def sql_read_eq sql_write_eq clock_s_def
        clock_ms_def Let_def now_def row_to_entry_def)
  have "outbox_view d' = (outbox_view d)(i := map_option ?g (outbox_view d i))"
    by (rule outbox_view_update [OF t]) (simp_all add: row_to_entry_def outbox_status_parse_def)
  with r dl assms(3) show ?thesis by (intro exI [of _ now]) simp
qed

theorem replay_makes_pending_witness:
  "let d = (sample_db (sample_entry\<lparr>ob_status := DeadLetter\<rparr>))\<lparr>t_dead_letter :=
       [dead_letter_entry_new ''m1'' ''outbox'' ''hi'' ''down'' 3]\<rparr>
   in \<exists>y. outbox_view (snd (dead_letter_replay calm_env ''m1'' d)) ''m1'' = Some y \<and>
        ob_status y = Pending \<and> ob_payload y = ''hi''"
proof -
  let ?d = "(sample_db (sample_entry\<lparr>ob_status := DeadLetter\<rparr>))\<lparr>t_dead_letter :=
       [dead_letter_entry_new ''m1'' ''outbox'' ''hi'' ''down'' 3]\<rparr>"
  have v: "outbox_view ?d ''m1'' = Some (sample_entry\<lparr>ob_status := DeadLetter\<rparr>)"
    using sample_db_view [of "sample_entry\<lparr>ob_status := DeadLetter\<rparr>"] by (simp add: outbox_view_def)
  have f: "tbl_find dl_id ''m1'' (t_dead_letter ?d) = Some (dead_letter_entry_new ''m1'' ''outbox'' ''hi'' ''down'' 3)"
    by (simp add: dead_letter_entry_new_def)
  show ?thesis
    using replay_makes_pending [OF calm_env_calm f v surjective_pairing]
    by (auto simp: dead_letter_entry_new_def)
qed

text \<open>
  Replay is not atomic: if the statement that looks the outbox row up fails after the
  dead letter was deleted, the call fails, the dead letter is gone and the outbox entry is
  still what it was, so nothing will deliver or replay it again.
\<close>

theorem replay_fault_loses_letter:
  assumes "tbl_find dl_id i (t_dead_letter d) = Some dl"
    and "env_fault e (db_tick d) = None" and "env_fault e (Suc (db_tick d)) = None"
    and "env_fault e (Suc (Suc (Suc (db_tick d)))) = Some err"
  shows "fst (dead_letter_replay e i d) = Err (RepoDb err) \<and>
    tbl_find dl_id i (t_dead_letter (snd (dead_letter_replay e i d))) = None \<and>
    t_outbox (snd (dead_letter_replay e i d)) = t_outbox d"
  using assms
  by (auto simp: dead_letter_replay_def sql_read_eq sql_write_eq clock_s_def clock_ms_def tbl_find_delete_key)

theorem replay_fault_loses_letter_witness:
  "let e = calm_env\<lparr>env_fault := \<lambda>n. if n = 3 then Some ''busy'' else None\<rparr>;
       d = empty_db\<lparr>t_dead_letter := [dead_letter_entry_new ''m1'' ''outbox'' ''hi'' ''down'' 3]\<rparr>
   in fst (dead_letter_replay e ''m1'' d) = Err (RepoDb ''busy'') \<and>
      tbl_find dl_id ''m1'' (t_dead_letter (snd (dead_letter_replay e ''m1'' d))) = None"
  using replay_fault_loses_letter [of "''m1''" "empty_db\<lparr>t_dead_letter :=
      [dead_letter_entry_new ''m1'' ''outbox'' ''hi'' ''down'' 3]\<rparr>" _
      "calm_env\<lparr>env_fault := \<lambda>n. if n = 3 then Some ''busy'' else None\<rparr>" "''busy''"]
  by (simp add: dead_letter_entry_new_def empty_db_def)

end
