(* ===== verification/Outbox_Burial.thy ===== *)
theory Outbox_Burial
  imports Outbox_Worker
begin

text \<open>
  What becomes of an entry that cannot be delivered: how often the rounds of the worker call the
  sender for it, and that it ends among the dead letters. The rounds are those of \<open>Outbox_Worker\<close> on
  SQLite; the calls are counted by a sender that keeps the ids it was called with.
\<close>

section \<open>Counting calls\<close>

definition counted ::
  "(outbox_entry \<Rightarrow> 'x \<Rightarrow> (string + unit) \<times> 'x) \<Rightarrow> outbox_entry \<Rightarrow> string list \<times> 'x \<Rightarrow> (string + unit) \<times> string list \<times> 'x" where
  "counted s x lm = (let (r, m) = s x (snd lm) in (r, ob_id x # fst lm, m))"

definition calls_for :: "string \<Rightarrow> (string list \<times> 'x) db_scheme \<Rightarrow> nat" where
  "calls_for i d = count_list (fst (db.more d)) i"

text \<open>The attempts an entry that waits to be sent has left.\<close>

definition attempts_left :: "32 word \<Rightarrow> outbox_entry \<Rightarrow> nat" where
  "attempts_left mx x = (if ob_status x \<in> {Pending, Retrying} then unat mx - unat (ob_retry_count x) else 0)"

definition counters_below :: "32 word \<Rightarrow> 'w db_scheme \<Rightarrow> bool" where
  "counters_below mx d \<longleftrightarrow> (\<forall>i x. outbox_view d i = Some x \<longrightarrow> ob_retry_count x < mx)"

lemma counted_result [simp]: "fst (counted s x lm) = fst (s x (snd lm))" "fst (snd (counted s x lm)) = ob_id x # fst lm"
  by (simp_all add: counted_def split_beta Let_def)

lemma calls_for_tick [simp]: "calls_for i (d\<lparr>db_tick := n\<rparr>) = calls_for i d"
  by (simp add: calls_for_def)

lemma counters_below_tick [simp]: "counters_below mx (d\<lparr>db_tick := n\<rparr>) = counters_below mx d"
  by (simp add: counters_below_def)

lemma deliver_calls:
  "calls_for i (deliver (sqlite_worker sha e c (counted s)) x d) =
     calls_for i d + (if ob_id x = i \<and> is_Ok (fst (or_mark_status (sqlite_outbox e) (ob_id x) Sending None d)) then 1 else 0)"
proof (cases "is_Ok (fst (or_mark_status (sqlite_outbox e) (ob_id x) Sending None d))")
  case True
  then show ?thesis by (simp add: calls_for_def deliver_more)
next
  case False
  then obtain er where "or_mark_status (sqlite_outbox e) (ob_id x) Sending None d =
      (Err er, snd (or_mark_status (sqlite_outbox e) (ob_id x) Sending None d))"
    by (cases "fst (or_mark_status (sqlite_outbox e) (ob_id x) Sending None d)") (auto simp: is_Ok_def prod_eq_iff)
  then have "deliver (sqlite_worker sha e c (counted s)) x d = snd (or_mark_status (sqlite_outbox e) (ob_id x) Sending None d)"
    by (auto simp: deliver_def split: prod.splits sum.splits)
  with False show ?thesis by (simp add: calls_for_def)
qed

text \<open>One delivery, however statements fail: a call uses up an attempt.\<close>

lemma deliver_uses_attempt:
  assumes "outbox_ok d" and "outbox_view d (ob_id x) = Some x" and "ob_status x \<in> {Pending, Retrying}"
    and "ob_retry_count x < max_retries c" and d': "d' = deliver (sqlite_worker sha e c s) x d"
  shows "outbox_ok d' \<and> (\<exists>z. outbox_view d' = (outbox_view d)(ob_id x \<mapsto> z) \<and> ob_retry_count z < max_retries c \<and>
    attempts_left (max_retries c) z +
      (if is_Ok (fst (or_mark_status (sqlite_outbox e) (ob_id x) Sending None d)) then 1 else 0) \<le>
      attempts_left (max_retries c) x)"
  using assms(1,2)
proof (cases rule: ow.deliver_cases [where sha = sha and e = e and c = c and s = s])
  case skipped
  then show ?thesis using assms by (intro conjI exI [of _ x]) (auto simp: fun_upd_triv)
next
  case (called now w1 w2 sr z)
  let ?y = "with_status Sending None now x"
  have "ob_retry_count z < max_retries c \<and> Suc (attempts_left (max_retries c) z) \<le> attempts_left (max_retries c) x"
  proof (cases "z = ?y")
    case True
    then show ?thesis using assms(3,4) by (auto simp: attempts_left_def word_less_nat_alt with_status_def)
  next
    case False
    with called(5) have step: "entry_step (max_retries c) ?y z" by simp
    then show ?thesis using called(7) assms(3,4) unat_plus_one [OF assms(4)]
      by (cases rule: entry_stepE) (auto simp: attempts_left_def word_less_nat_alt with_retry_def with_status_def)
  qed
  then show ?thesis using called d' by (intro conjI exI [of _ z]) auto
qed

section \<open>The attempts left in the whole outbox\<close>

definition all_attempts :: "32 word \<Rightarrow> 'w db_scheme \<Rightarrow> nat" where
  "all_attempts mx d = (\<Sum>i \<in> dom (outbox_view d). attempts_left mx (the (outbox_view d i)))"

lemma finite_dom_view [simp]: "finite (dom (outbox_view d))"
  by (rule finite_subset [of _ "ob_id ` set (t_outbox d)"]) (auto dest: outbox_view_Some)

lemma all_attempts_tick [simp]: "all_attempts mx (d\<lparr>db_tick := n\<rparr>) = all_attempts mx d"
  by (simp add: all_attempts_def)

lemma all_attempts_upd:
  assumes "outbox_view d i = Some x" and "outbox_view d' = (outbox_view d)(i \<mapsto> z)"
  shows "all_attempts mx d' + attempts_left mx x = all_attempts mx d + attempts_left mx z"
proof -
  have dom: "dom (outbox_view d') = dom (outbox_view d)" "i \<in> dom (outbox_view d)" using assms by auto
  have "(\<Sum>j \<in> dom (outbox_view d) - {i}. attempts_left mx (the (outbox_view d' j))) =
      (\<Sum>j \<in> dom (outbox_view d) - {i}. attempts_left mx (the (outbox_view d j)))"
    by (rule sum.cong) (simp_all add: assms(2))
  then show ?thesis
    using sum.remove [OF finite_dom_view dom(2), of "\<lambda>j. attempts_left mx (the (outbox_view d' j))"]
      sum.remove [OF finite_dom_view dom(2), of "\<lambda>j. attempts_left mx (the (outbox_view d j))"] assms
    by (simp add: all_attempts_def insert_absorb domI)
qed

text \<open>A delivery that reaches the sender lowers it, and keeps the counters below the limit.\<close>

lemma deliver_lowers:
  assumes "no_faults e" and "outbox_ok d" and "counters_below (max_retries c) d"
    and "outbox_view d (ob_id x) = Some x" and "ob_status x \<in> {Pending, Retrying}"
    and d': "d' = deliver (sqlite_worker sha e c s) x d"
  shows "outbox_ok d' \<and> counters_below (max_retries c) d' \<and>
    Suc (all_attempts (max_retries c) d') \<le> all_attempts (max_retries c) d"
proof -
  have cnt: "ob_retry_count x < max_retries c" using assms(3,4) by (simp add: counters_below_def)
  have ok: "is_Ok (fst (or_mark_status (sqlite_outbox e) (ob_id x) Sending None d))"
    using rw.mark_status_ok [OF assms(2), where e = e] faultless_id [OF assms(1)] by simp
  obtain z where z: "outbox_ok d'" "outbox_view d' = (outbox_view d)(ob_id x \<mapsto> z)"
    "ob_retry_count z < max_retries c" "Suc (attempts_left (max_retries c) z) \<le> attempts_left (max_retries c) x"
    using deliver_uses_attempt [OF assms(2,4,5) cnt d'] ok by auto
  then have "counters_below (max_retries c) d'" using assms(3) by (simp add: counters_below_def)
  with z show ?thesis using all_attempts_upd [OF assms(4) z(2), of "max_retries c"] by simp
qed

section \<open>An entry whose sender always fails\<close>

definition burial :: "string \<Rightarrow> string \<Rightarrow> 32 word \<Rightarrow> string \<Rightarrow> 'w db_scheme \<Rightarrow> bool" where
  "burial i payload mx err d \<longleftrightarrow> (\<exists>now. tbl_find dl_id i (t_dead_letter d) =
     Some (dead_letter_entry_new i ''outbox'' payload (attempt_text ''max retries'' mx err) now))"

text \<open>
  The invariant of such an entry: it waits and its attempts plus the calls made for it are \<open>k\<close>, or it is dead
  after \<open>k\<close> calls and its row is among the dead letters.
\<close>

definition waiting :: "outbox_entry \<Rightarrow> bool" where
  "waiting x \<longleftrightarrow> ob_status x = Pending \<or> ob_status x = Retrying \<and> ob_next_retry_at x \<noteq> None"

definition always_fails :: "(outbox_entry \<Rightarrow> 'x \<Rightarrow> (string + unit) \<times> 'x) \<Rightarrow> string \<Rightarrow> bool" where
  "always_fails s i \<longleftrightarrow> (\<forall>x m. ob_id x = i \<longrightarrow> \<not> is_Ok (fst (s x m)))"

definition doomed :: "32 word \<Rightarrow> outbox_entry \<Rightarrow> nat \<Rightarrow> (string list \<times> 'x) db_scheme \<Rightarrow> bool" where
  "doomed mx x k d \<longleftrightarrow> outbox_ok d \<and> counters_below mx d \<and>
     (\<exists>y. outbox_view d (ob_id x) = Some y \<and> same_letter x y \<and> calls_for (ob_id x) d + attempts_left mx y = k \<and>
        (if ob_status y = DeadLetter
         then \<exists>err. ob_last_error y = Some err \<and> burial (ob_id x) (ob_payload x) mx err d
         else waiting y \<and> tbl_find dl_id (ob_id x) (t_dead_letter d) = None))"

lemma doomed_tick [simp]: "doomed mx x k (d\<lparr>db_tick := n\<rparr>) = doomed mx x k d"
  by (simp add: doomed_def burial_def)

lemma dead_letter_find_insert:
  assumes "tbl_find dl_id i (t_dead_letter d) = None \<or> dl_id dl \<noteq> i"
  shows "tbl_find dl_id i (t_dead_letter (snd (dead_letter_insert e dl d))) =
    (if dl_id dl = i \<and> env_fault e (db_tick d) = None then Some dl else tbl_find dl_id i (t_dead_letter d))"
  using assms
  by (auto simp: dead_letter_insert_def sql_def Let_def tbl_insert_def repo_def tbl_find_None split: option.split if_splits)

lemma retry_dead_letters [simp, frame_simps]:
  "t_dead_letter (snd (or_mark_retrying (sqlite_outbox e) i n t em d)) = t_dead_letter d"
  "t_dead_letter (snd (clock_ms e d)) = t_dead_letter d"
  by (simp_all add: sqlite_outbox_def outbox_mark_retrying_def sql_write_eq clock_ms_def split: option.split)

lemma failed_dead_letters:
  assumes "no_faults e"
  shows "tbl_find dl_id i (t_dead_letter d) = None \<and> max_retries c \<le> ob_retry_count x + 1 \<and> ob_id x = i \<Longrightarrow>
      burial i (ob_payload x) (ob_retry_count x + 1) err (send_failed (sqlite_worker sha e c s) x err d)"
    and "ob_id x \<noteq> i \<or> ob_retry_count x + 1 < max_retries c \<Longrightarrow>
      tbl_find dl_id i (t_dead_letter (send_failed (sqlite_worker sha e c s) x err d)) = tbl_find dl_id i (t_dead_letter d)"
proof -
  show "tbl_find dl_id i (t_dead_letter d) = None \<and> max_retries c \<le> ob_retry_count x + 1 \<and> ob_id x = i \<Longrightarrow>
      burial i (ob_payload x) (ob_retry_count x + 1) err (send_failed (sqlite_worker sha e c s) x err d)"
    using assms
    by (auto simp: send_failed_def bury_def sqlite_dead_letter_def Let_def split_beta burial_def dead_letter_find_insert
        dead_letter_entry_new_def)
  show "ob_id x \<noteq> i \<or> ob_retry_count x + 1 < max_retries c \<Longrightarrow>
      tbl_find dl_id i (t_dead_letter (send_failed (sqlite_worker sha e c s) x err d)) = tbl_find dl_id i (t_dead_letter d)"
    by (auto simp: send_failed_def bury_def reschedule_def sqlite_dead_letter_def Let_def split_beta
        dead_letter_find_insert dead_letter_entry_new_def)
qed

lemma deliver_dead_letters:
  assumes "no_faults e" and "outbox_ok d"
  shows "ob_id x \<noteq> i \<Longrightarrow>
      tbl_find dl_id i (t_dead_letter (deliver (sqlite_worker sha e c s) x d)) = tbl_find dl_id i (t_dead_letter d)"
    and "ob_id x = i \<Longrightarrow> fst (s x (db.more d)) = Err err \<Longrightarrow> tbl_find dl_id i (t_dead_letter d) = None \<Longrightarrow>
      if max_retries c \<le> ob_retry_count x + 1
      then burial i (ob_payload x) (ob_retry_count x + 1) err (deliver (sqlite_worker sha e c s) x d)
      else tbl_find dl_id i (t_dead_letter (deliver (sqlite_worker sha e c s) x d)) = None"
proof -
  let ?m = "or_mark_status (sqlite_outbox e) (ob_id x) Sending None d"
  have "is_Ok (fst ?m)" using rw.mark_status_ok [OF assms(2), where e = e] faultless_id [OF assms(1)] by simp
  then obtain d1 where m1: "?m = (Ok (), d1)" by (cases ?m) (auto simp: is_Ok_def split: sum.splits)
  then have d1: "db.more d1 = db.more d" "t_dead_letter d1 = t_dead_letter d"
    using mark_status_frame [of e "ob_id x" Sending None d] by simp_all
  obtain r d2 where o: "outside s x d1 = (r, d2)" by force
  then have d2: "t_dead_letter d2 = t_dead_letter d" "r = fst (s x (db.more d))"
    using more_frame(5) [of s x d1] outside_result(1) [of s x d1] d1 by simp_all
  show "ob_id x \<noteq> i \<Longrightarrow>
      tbl_find dl_id i (t_dead_letter (deliver (sqlite_worker sha e c s) x d)) = tbl_find dl_id i (t_dead_letter d)"
    by (simp add: deliver_def m1 o d2(1) failed_dead_letters(2) [OF assms(1)] split: sum.split)
  show "if max_retries c \<le> ob_retry_count x + 1
      then burial i (ob_payload x) (ob_retry_count x + 1) err (deliver (sqlite_worker sha e c s) x d)
      else tbl_find dl_id i (t_dead_letter (deliver (sqlite_worker sha e c s) x d)) = None"
    if "ob_id x = i" "fst (s x (db.more d)) = Err err" "tbl_find dl_id i (t_dead_letter d) = None"
  proof -
    have eq: "deliver (sqlite_worker sha e c s) x d = send_failed (sqlite_worker sha e c s) x err d2"
      using d2(2) that(2) by (simp add: deliver_def m1 o)
    show ?thesis unfolding eq
      using failed_dead_letters [OF assms(1), where i = i and x = x and c = c and d = d2 and err = err] d2(1) that(1,3)
      by (simp add: not_le)
  qed
qed

lemma last_attempt: "n < mx \<Longrightarrow> mx \<le> n + 1 \<Longrightarrow> n + 1 = (mx :: 32 word)"
  using unat_plus_one [of n mx] by (simp add: word_le_nat_alt word_less_nat_alt word_unat_eq_iff)

lemma deliver_doomed:
  assumes "no_faults e" and "always_fails s (ob_id x0)"
    and "doomed (max_retries c) x0 k d" and "outbox_view d (ob_id x) = Some x" and "ob_status x \<in> {Pending, Retrying}"
  shows "doomed (max_retries c) x0 k (deliver (sqlite_worker sha e c (counted s)) x d)"
proof -
  let ?d = "deliver (sqlite_worker sha e c (counted s)) x d" and ?mx = "max_retries c"
  from assms(3) obtain y where d: "outbox_ok d" "counters_below ?mx d" "outbox_view d (ob_id x0) = Some y" "same_letter x0 y"
    "calls_for (ob_id x0) d + attempts_left ?mx y = k"
    "if ob_status y = DeadLetter then \<exists>err. ob_last_error y = Some err \<and> burial (ob_id x0) (ob_payload x0) ?mx err d
     else waiting y \<and> tbl_find dl_id (ob_id x0) (t_dead_letter d) = None" by (auto simp: doomed_def)
  have ok: "outbox_ok ?d" "counters_below ?mx ?d"
    using deliver_lowers [OF assms(1) d(1,2) assms(4,5) refl, of sha "counted s"] by auto
  have mark: "is_Ok (fst (or_mark_status (sqlite_outbox e) (ob_id x) Sending None d))"
    using rw.mark_status_ok [OF d(1), where e = e] faultless_id [OF assms(1)] by simp
  obtain z where z: "outbox_view ?d = (outbox_view d)(ob_id x \<mapsto> z)"
      "delivered_as ?mx x (fst (s x (snd (db.more d)))) z"
    using calm_delivery [OF assms(1) d(1) assms(4) refl, of sha c "counted s"] by auto
  show ?thesis
  proof (cases "ob_id x = ob_id x0")
    case False
    then have "outbox_view ?d (ob_id x0) = Some y" "calls_for (ob_id x0) ?d = calls_for (ob_id x0) d"
      using z(1) d(3) deliver_calls [of "ob_id x0" sha e c s x d] by simp_all
    then show ?thesis
      using ok d deliver_dead_letters(1) [OF assms(1) d(1) False, of sha c "counted s"]
      by (auto simp: doomed_def burial_def split: if_splits)
  next
    case True
    with assms(4) d(3) have y: "y = x" by simp
    obtain err where err: "fst (s x (snd (db.more d))) = Err err"
      using assms(2) True unfolding always_fails_def by (metis is_Ok_def sum.case_eq_if sum.collapse(1))
    have dl: "tbl_find dl_id (ob_id x0) (t_dead_letter d) = None" using d(6) assms(5) y by (auto split: if_splits)
    note row = deliver_dead_letters(2) [OF assms(1) d(1) True _ dl, of "counted s" err c sha, simplified, OF err]
    have calls: "calls_for (ob_id x0) ?d = Suc (calls_for (ob_id x0) d)"
      using deliver_calls [of "ob_id x0" sha e c s x d] mark True by simp
    have cnt: "ob_retry_count x < ?mx" using d(2) assms(4) by (simp add: counters_below_def)
    have left: "Suc (attempts_left ?mx z) = attempts_left ?mx x"
      using z(2) err cnt assms(5) unat_plus_one [OF cnt] last_attempt [OF cnt]
      by (cases "?mx \<le> ob_retry_count x + 1")
        (auto simp: delivered_as_def attempts_left_def word_less_nat_alt not_le)
    have letter: "same_letter x0 z" "ob_payload x = ob_payload x0"
      using d(4) z(2) by (simp_all add: y delivered_as_def same_letter_def)
    have "outbox_view ?d (ob_id x0) = Some z" using z(1) True by simp
    moreover have "calls_for (ob_id x0) ?d + attempts_left ?mx z = k" using calls left d(5) y by simp
    moreover have "if ob_status z = DeadLetter
        then \<exists>err. ob_last_error z = Some err \<and> burial (ob_id x0) (ob_payload x0) ?mx err ?d
        else waiting z \<and> tbl_find dl_id (ob_id x0) (t_dead_letter ?d) = None"
      using z(2) err row last_attempt [OF cnt] letter(2)
      by (cases "?mx \<le> ob_retry_count x + 1") (auto simp: delivered_as_def waiting_def)
    ultimately show ?thesis using ok letter(1) by (simp add: doomed_def)
  qed
qed

section \<open>Rounds\<close>

text \<open>What a batch of fetched entries keeps and how far it lowers the attempts left.\<close>

lemma batch_progress:
  assumes "no_faults e" and "always_fails s (ob_id x0)"
    and "doomed (max_retries c) x0 k d" and "distinct (map ob_id xs)"
    and "\<forall>x \<in> set xs. outbox_view d (ob_id x) = Some x \<and> ob_status x \<in> {Pending, Retrying}"
  shows "doomed (max_retries c) x0 k (fold (deliver (sqlite_worker sha e c (counted s))) xs d) \<and>
    all_attempts (max_retries c) (fold (deliver (sqlite_worker sha e c (counted s))) xs d) + length xs \<le>
      all_attempts (max_retries c) d"
  using assms(3-5)
proof (induction xs arbitrary: d)
  case (Cons x xs)
  let ?d = "deliver (sqlite_worker sha e c (counted s)) x d"
  have x: "outbox_view d (ob_id x) = Some x" "ob_status x \<in> {Pending, Retrying}" using Cons.prems(3) by auto
  have ok: "outbox_ok d" "counters_below (max_retries c) d" using Cons.prems(1) by (auto simp: doomed_def)
  have doomed: "doomed (max_retries c) x0 k ?d" by (rule deliver_doomed [OF assms(1,2) Cons.prems(1) x])
  have less: "Suc (all_attempts (max_retries c) ?d) \<le> all_attempts (max_retries c) d"
    using deliver_lowers [OF assms(1) ok x refl, of sha "counted s"] by simp
  obtain z where z: "outbox_view ?d = (outbox_view d)(ob_id x \<mapsto> z)"
    using calm_delivery [OF assms(1) ok(1) x(1) refl, of sha c "counted s"] by blast
  have rest: "\<forall>y \<in> set xs. outbox_view ?d (ob_id y) = Some y \<and> ob_status y \<in> {Pending, Retrying}"
    using Cons.prems(2,3) z by (force simp: image_iff)
  have "distinct (map ob_id xs)" using Cons.prems(2) by simp
  from Cons.IH [OF doomed this rest] less show ?case by simp
qed simp

text \<open>A phase of a round: the entries it fetched at \<open>d\<close> and the state it leaves.\<close>

definition progress :: "32 word \<Rightarrow> 'w db_scheme \<Rightarrow> 'w db_scheme \<Rightarrow> nat \<Rightarrow> bool" where
  "progress mx d d' n \<longleftrightarrow> all_attempts mx d' < all_attempts mx d \<or> d' = d\<lparr>db_tick := db_tick d + n\<rparr>"

lemma progress_trans: "progress mx d d' n \<Longrightarrow> progress mx d' d'' m \<Longrightarrow> progress mx d d'' (n + m)"
  by (auto simp: progress_def add.assoc)

lemma pending_progress:
  assumes "no_faults e" and "always_fails s (ob_id x0)" and "doomed (max_retries c) x0 k d"
    and d'_def: "d' = process_pending (sqlite_worker sha e c (counted s)) n d"
  shows "doomed (max_retries c) x0 k d' \<and> progress (max_retries c) d d' 1 \<and>
    (sint n \<noteq> 0 \<and> (\<exists>i y. outbox_view d i = Some y \<and> ob_status y = Pending) \<longrightarrow>
       all_attempts (max_retries c) d' < all_attempts (max_retries c) d)"
proof -
  have ok: "outbox_ok d" using assms(3) by (simp add: doomed_def)
  obtain xs where f: "outbox_fetch_pending e n d = (Ok xs, d\<lparr>db_tick := Suc (db_tick d)\<rparr>)"
    using assms(1) by (simp add: outbox_fetch_pending_def sql_read_eq)
  note law = sqlite_fetch_pending [OF ok f, simplified]
  have d': "d' = fold (deliver (sqlite_worker sha e c (counted s))) xs (d\<lparr>db_tick := Suc (db_tick d)\<rparr>)"
    unfolding d'_def using f by (simp add: process_pending_def sqlite_worker_def sqlite_outbox_def)
  have fetched: "\<forall>x \<in> set xs. outbox_view (d\<lparr>db_tick := Suc (db_tick d)\<rparr>) (ob_id x) = Some x \<and>
      ob_status x \<in> {Pending, Retrying}" using law by simp
  have "doomed (max_retries c) x0 k (d\<lparr>db_tick := Suc (db_tick d)\<rparr>)" using assms(3) by simp
  from batch_progress [OF assms(1,2) this _ fetched, where sha = sha] law
  have p: "doomed (max_retries c) x0 k d'" "all_attempts (max_retries c) d' + length xs \<le> all_attempts (max_retries c) d"
    by (simp_all add: d')
  have "progress (max_retries c) d d' 1" using p(2) by (cases xs) (simp_all add: progress_def d')
  moreover have "xs \<noteq> []" if "sint n \<noteq> 0" "\<exists>i y. outbox_view d i = Some y \<and> ob_status y = Pending"
    using sqlite_fetch_pending_ok [OF ok, of e n] faultless_id [OF assms(1)] f that by fastforce
  ultimately show ?thesis using p by (cases xs) auto
qed

lemma retry_progress:
  assumes "no_faults e" and "always_fails s (ob_id x0)" and "doomed (max_retries c) x0 k d"
    and d'_def: "d' = process_retries (sqlite_worker sha e c (counted s)) n d"
  shows "doomed (max_retries c) x0 k d' \<and> progress (max_retries c) d d' 2 \<and>
    (sint n \<noteq> 0 \<and> (\<exists>i y. outbox_view d i = Some y \<and> ob_status y = Retrying \<and>
         due (env_now_ms e (db_tick d)) (ob_next_retry_at y)) \<longrightarrow>
       all_attempts (max_retries c) d' < all_attempts (max_retries c) d)"
proof -
  let ?now = "env_now_ms e (db_tick d)" and ?d = "d\<lparr>db_tick := Suc (Suc (db_tick d))\<rparr>"
  let ?t = "order_by retry_time (\<lambda>r. env_rank e (Suc (db_tick d)) (ob_id r))
       (filter (\<lambda>r. ob_status r = ''retrying'' \<and> due ?now (ob_next_retry_at r)) (t_outbox d))"
  have ok: "outbox_ok d" "outbox_ok (d\<lparr>db_tick := Suc (db_tick d)\<rparr>)" using assms(3) by (simp_all add: doomed_def)
  define xs where "xs = map row_to_entry (sql_limit n ?t)"
  have f: "outbox_fetch_retryable e ?now n (d\<lparr>db_tick := Suc (db_tick d)\<rparr>) = (Ok xs, ?d)"
    using assms(1) by (simp add: outbox_fetch_retryable_def sql_read_eq xs_def)
  note law = sqlite_fetch_retryable [OF ok(2) f, simplified]
  have d': "d' = fold (deliver (sqlite_worker sha e c (counted s))) xs ?d"
    unfolding d'_def using f by (simp add: process_retries_def sqlite_worker_def sqlite_outbox_def clock_ms_def)
  have fetched: "\<forall>x \<in> set xs. outbox_view ?d (ob_id x) = Some x \<and> ob_status x \<in> {Pending, Retrying}" using law by simp
  have "doomed (max_retries c) x0 k ?d" using assms(3) by simp
  from batch_progress [OF assms(1,2) this _ fetched, where sha = sha] law
  have p: "doomed (max_retries c) x0 k d'" "all_attempts (max_retries c) d' + length xs \<le> all_attempts (max_retries c) d"
    by (simp_all add: d')
  have "progress (max_retries c) d d' 2" using p(2) by (cases xs) (simp_all add: progress_def d')
  moreover have "xs \<noteq> []"
    if n: "sint n \<noteq> 0" and y: "outbox_view d i = Some y" "ob_status y = Retrying" "due ?now (ob_next_retry_at y)" for i y
  proof -
    obtain q where q: "q \<in> set (t_outbox d)" "y = row_to_entry q" using outbox_view_Some [OF y(1)] by auto
    then have "q \<in> set ?t" using y(2,3) row_status_text [OF ok(1) q(1), of Retrying] by (simp add: row_to_entry_def)
    then have "sql_limit n ?t \<noteq> []" using in_limit [of q ?t n] n by fastforce
    then show ?thesis by (simp add: xs_def)
  qed
  ultimately show ?thesis using p by (cases xs) auto
qed

lemma worker_rounds_add:
  "worker_rounds dp n (a + b) w = worker_rounds dp n b (worker_rounds dp n a w)"
  by (induction a arbitrary: w) simp_all

lemma round_progress:
  assumes "no_faults e" and "always_fails s (ob_id x0)" and "doomed (max_retries c) x0 k d"
    and d': "d' = worker_rounds (sqlite_worker sha e c (counted s)) n 1 d"
  shows "doomed (max_retries c) x0 k d' \<and> progress (max_retries c) d d' 3"
    and "sint n \<noteq> 0 \<Longrightarrow> outbox_view d i = Some y \<Longrightarrow>
      ob_status y = Pending \<or> ob_status y = Retrying \<and> due (env_now_ms e (Suc (db_tick d))) (ob_next_retry_at y) \<Longrightarrow>
      all_attempts (max_retries c) d' < all_attempts (max_retries c) d"
proof -
  let ?p = "process_pending (sqlite_worker sha e c (counted s)) n d"
  note p = pending_progress [OF assms(1-3) refl, where sha = sha and n = n]
  note r = retry_progress [OF assms(1,2) p [THEN conjunct1] refl, where sha = sha and n = n]
  have d'_eq: "d' = process_retries (sqlite_worker sha e c (counted s)) n ?p" by (simp add: d')
  show both: "doomed (max_retries c) x0 k d' \<and> progress (max_retries c) d d' 3"
    using r progress_trans [of _ d ?p 1 d' 2] p by (simp add: d'_eq numeral_3_eq_3)
  assume n: "sint n \<noteq> 0" and y: "outbox_view d i = Some y"
    and st: "ob_status y = Pending \<or> ob_status y = Retrying \<and> due (env_now_ms e (Suc (db_tick d))) (ob_next_retry_at y)"
  have le: "all_attempts (max_retries c) d' \<le> all_attempts (max_retries c) ?p"
    using r unfolding d'_eq by (auto simp: progress_def)
  show "all_attempts (max_retries c) d' < all_attempts (max_retries c) d"
  proof (cases "all_attempts (max_retries c) ?p < all_attempts (max_retries c) d")
    case False
    then have idle: "?p = d\<lparr>db_tick := Suc (db_tick d)\<rparr>" using p by (auto simp: progress_def)
    have "ob_status y \<noteq> Pending" using p n y False by blast
    with st have "ob_status y = Retrying" "due (env_now_ms e (db_tick ?p)) (ob_next_retry_at y)" by (simp_all add: idle)
    moreover have "outbox_view ?p i = Some y" using y by (simp add: idle)
    ultimately have "all_attempts (max_retries c) d' < all_attempts (max_retries c) ?p"
      using r n unfolding d'_eq by blast
    then show ?thesis by (simp add: idle)
  qed (use le in simp)
qed

lemma rounds_doomed:
  assumes "no_faults e" and "always_fails s (ob_id x0)" and "doomed (max_retries c) x0 k d"
  shows "doomed (max_retries c) x0 k (worker_rounds (sqlite_worker sha e c (counted s)) n j d)"
proof (induction j)
  case (Suc j)
  then show ?case
    using round_progress(1) [OF assms(1,2) Suc.IH refl, where sha = sha and n = n] worker_rounds_add [of _ n j 1 d] by simp
qed (simp add: assms(3))

text \<open>While the entry waits, some later round delivers something: the clock passes its time.\<close>

lemma rounds_lower:
  assumes "no_faults e" and "always_fails s (ob_id x0)" and "doomed (max_retries c) x0 k d"
    and "sint n \<noteq> 0" and "\<And>t. \<exists>l. \<forall>j \<ge> l. t \<le> env_now_ms e j"
    and y: "outbox_view d (ob_id x0) = Some y" "waiting y"
  shows "\<exists>j. all_attempts (max_retries c) (worker_rounds (sqlite_worker sha e c (counted s)) n j d) < all_attempts (max_retries c) d"
proof (rule ccontr)
  let ?run = "\<lambda>j. worker_rounds (sqlite_worker sha e c (counted s)) n j d"
  assume "\<not> ?thesis"
  then have never: "\<not> all_attempts (max_retries c) (?run j) < all_attempts (max_retries c) d" for j by blast
  have turn: "?run (Suc j) = worker_rounds (sqlite_worker sha e c (counted s)) n 1 (?run j)" for j
    using worker_rounds_add [of _ n j 1 d] by simp
  note doomed = rounds_doomed [OF assms(1-3), where sha = sha and n = n]
  have idle: "?run j = d\<lparr>db_tick := db_tick d + 3 * j\<rparr>" for j
  proof (induction j)
    case (Suc j)
    have "progress (max_retries c) (?run j) (?run (Suc j)) 3"
      using round_progress(1) [OF assms(1,2) doomed turn] by simp
    then show ?case using never [of "Suc j"] Suc by (auto simp: progress_def)
  qed simp
  from y(2) consider "ob_status y = Pending" | t where "ob_status y = Retrying" "ob_next_retry_at y = Some t"
    by (auto simp: waiting_def)
  then obtain j where j: "ob_status y = Pending \<or> ob_status y = Retrying \<and>
      due (env_now_ms e (Suc (db_tick d + 3 * j))) (ob_next_retry_at y)"
  proof cases
    case 2
    obtain l where "\<forall>j \<ge> l. t \<le> env_now_ms e j" using assms(5) by blast
    then have "t \<le> env_now_ms e (Suc (db_tick d + 3 * l))" by simp
    with 2 show thesis by (intro that [of l]) (simp add: due_def)
  qed (use that in blast)
  have "outbox_view (?run j) (ob_id x0) = Some y" using y(1) by (simp add: idle)
  from round_progress(2) [OF assms(1,2) doomed turn assms(4) this] j never [of "Suc j"] show False by (simp add: idle)
qed

lemma rounds_bury:
  assumes "no_faults e" and "always_fails s (ob_id x0)" and "sint n \<noteq> 0"
    and "\<And>t. \<exists>l. \<forall>j \<ge> l. t \<le> env_now_ms e j" and "doomed (max_retries c) x0 k d"
  shows "\<exists>j y. outbox_view (worker_rounds (sqlite_worker sha e c (counted s)) n j d) (ob_id x0) = Some y \<and>
    ob_status y = DeadLetter"
  using assms(5)
proof (induction "all_attempts (max_retries c) d" arbitrary: d rule: less_induct)
  case less
  then obtain y where y: "outbox_view d (ob_id x0) = Some y" "ob_status y = DeadLetter \<or> waiting y"
    by (auto simp: doomed_def split: if_splits)
  show ?case
  proof (cases "ob_status y = DeadLetter")
    case True
    with y(1) show ?thesis by (intro exI [of _ 0] exI [of _ y]) simp
  next
    case False
    with y obtain j where j: "all_attempts (max_retries c) (worker_rounds (sqlite_worker sha e c (counted s)) n j d) <
        all_attempts (max_retries c) d"
      using rounds_lower [OF assms(1,2) less.prems assms(3,4), where sha = sha] by blast
    from less.hyps [OF j rounds_doomed [OF assms(1,2) less.prems]] worker_rounds_add [of _ n j] show ?thesis by metis
  qed
qed

section \<open>The calls made for an entry, under any faults\<close>

definition spent :: "32 word \<Rightarrow> string \<Rightarrow> nat \<Rightarrow> (string list \<times> 'x) db_scheme \<Rightarrow> bool" where
  "spent mx i k d \<longleftrightarrow> outbox_ok d \<and> counters_below mx d \<and>
     (\<exists>y. outbox_view d i = Some y \<and> calls_for i d + attempts_left mx y \<le> k)"

lemma spent_tick [simp]: "spent mx i k (d\<lparr>db_tick := n\<rparr>) = spent mx i k d"
  by (simp add: spent_def)

lemma deliver_spent:
  assumes "spent (max_retries c) i k d" and "outbox_view d (ob_id x) = Some x" and "ob_status x \<in> {Pending, Retrying}"
    and d'_def: "d' = deliver (sqlite_worker sha e c (counted s)) x d"
  shows "spent (max_retries c) i k d' \<and> (\<exists>z. outbox_view d' = (outbox_view d)(ob_id x \<mapsto> z))"
proof -
  have ok: "outbox_ok d" "counters_below (max_retries c) d" using assms(1) by (auto simp: spent_def)
  then have cnt: "ob_retry_count x < max_retries c" using assms(2) by (simp add: counters_below_def)
  obtain z where z: "outbox_ok d'" "outbox_view d' = (outbox_view d)(ob_id x \<mapsto> z)" "ob_retry_count z < max_retries c"
    "attempts_left (max_retries c) z +
      (if is_Ok (fst (or_mark_status (sqlite_outbox e) (ob_id x) Sending None d)) then 1 else 0) \<le>
      attempts_left (max_retries c) x"
    using deliver_uses_attempt [OF ok(1) assms(2,3) cnt, of d' sha e "counted s"] by (auto simp: d'_def)
  have "counters_below (max_retries c) d'" using ok(2) z(2,3) by (simp add: counters_below_def)
  with z assms(1,2) deliver_calls [of i sha e c s x d] show ?thesis
    by (cases "ob_id x = i") (auto simp: spent_def d'_def split: if_splits)
qed

lemma batch_spent:
  assumes "spent (max_retries c) i k d" and "distinct (map ob_id xs)"
    and "\<forall>x \<in> set xs. outbox_view d (ob_id x) = Some x \<and> ob_status x \<in> {Pending, Retrying}"
  shows "spent (max_retries c) i k (fold (deliver (sqlite_worker sha e c (counted s))) xs d)"
  using assms
proof (induction xs arbitrary: d)
  case (Cons x xs)
  note d' = deliver_spent [OF Cons.prems(1), of x _ sha e s, OF _ _ refl]
  have "\<forall>y \<in> set xs. outbox_view (deliver (sqlite_worker sha e c (counted s)) x d) (ob_id y) = Some y \<and>
      ob_status y \<in> {Pending, Retrying}"
    using Cons.prems(2,3) d' by (force simp: image_iff)
  with Cons.IH [of "deliver (sqlite_worker sha e c (counted s)) x d"] Cons.prems d' show ?case by simp
qed simp

lemma round_spent:
  assumes "spent (max_retries c) i k d"
  shows "spent (max_retries c) i k (process_pending (sqlite_worker sha e c (counted s)) n d)"
    and "spent (max_retries c) i k (process_retries (sqlite_worker sha e c (counted s)) n d)"
proof -
  have ok: "outbox_ok d" using assms by (simp add: spent_def)
  obtain q d1 where f: "outbox_fetch_pending e n d = (q, d1)" by force
  then have d1: "d1 = d\<lparr>db_tick := Suc (db_tick d)\<rparr>" by (auto simp: outbox_fetch_pending_def sql_read_eq split: option.splits)
  from sqlite_fetch_pending [OF ok f] batch_spent [of c i k d1 _ sha e s] assms d1 f
  show "spent (max_retries c) i k (process_pending (sqlite_worker sha e c (counted s)) n d)"
    by (cases q) (simp_all add: process_pending_def sqlite_worker_def sqlite_outbox_def)
  let ?d = "d\<lparr>db_tick := Suc (db_tick d)\<rparr>" and ?now = "env_now_ms e (db_tick d)"
  obtain q d1 where f: "outbox_fetch_retryable e ?now n ?d = (q, d1)" by force
  then have d1: "d1 = d\<lparr>db_tick := Suc (Suc (db_tick d))\<rparr>"
    by (auto simp: outbox_fetch_retryable_def sql_read_eq split: option.splits)
  have "outbox_ok ?d" using ok by simp
  from sqlite_fetch_retryable [OF this f] batch_spent [of c i k d1 _ sha e s] assms d1 f
  show "spent (max_retries c) i k (process_retries (sqlite_worker sha e c (counted s)) n d)"
    by (cases q) (simp_all add: process_retries_def sqlite_worker_def sqlite_outbox_def clock_ms_def)
qed

lemma rounds_spent:
  "spent (max_retries c) i k d \<Longrightarrow> spent (max_retries c) i k (worker_rounds (sqlite_worker sha e c (counted s)) n j d)"
  by (induction j arbitrary: d) (simp_all add: round_spent)

text \<open>A database with one pending entry and no calls yet, and a clock that goes on.\<close>

definition one_entry :: "(string list \<times> unit) db_scheme" where
  "one_entry = db.extend (sample_db sample_entry) ([], ())"

definition passing_env :: env where
  "passing_env = calm_env\<lparr>env_now_ms := \<lambda>n. 1000 * int n\<rparr>"

lemma one_entry_view: "outbox_view one_entry i = (if i = ''m1'' then Some sample_entry else None)"
  using sample_db_view [of sample_entry i] by (auto simp: outbox_view_def one_entry_def db.defs)

lemma one_entry_ok: "outbox_ok one_entry"
  using sample_db_ok [of sample_entry] by (simp add: outbox_ok_def one_entry_def db.defs)

lemma one_entry_calls: "calls_for i one_entry = 0"
  by (simp add: calls_for_def one_entry_def db.defs)

lemma retry_limit: "max_retries (retry_default f) = 5"
  by (simp add: retry_default_def)

section \<open>Properties\<close>

text \<open>
  Whatever statements fail, the rounds of the worker between two starts call the sender for an entry at most
  as often as its counter is below the limit.
\<close>

theorem calls_within_limit:
  assumes "outbox_ok d" and "counters_below (max_retries c) d" and "outbox_view d i = Some x"
  shows "calls_for i (worker_rounds (sqlite_worker sha e c (counted s)) batch k d) \<le>
    calls_for i d + (unat (max_retries c) - unat (ob_retry_count x))"
proof -
  have "spent (max_retries c) i (calls_for i d + attempts_left (max_retries c) x) d"
    using assms by (simp add: spent_def)
  from rounds_spent [OF this, of sha e s batch k] show ?thesis
    by (auto simp: spent_def attempts_left_def split: if_splits)
qed

theorem calls_within_limit_witness:
  "calls_for ''m1'' (worker_rounds (sqlite_worker toy_sha calm_env (retry_default id) (counted refuse)) 10 k one_entry) \<le> 5"
proof -
  have "counters_below (max_retries (retry_default id)) one_entry" by (simp add: counters_below_def one_entry_view retry_default_def)
  moreover have "outbox_view one_entry ''m1'' = Some sample_entry" by (simp add: one_entry_view)
  ultimately show ?thesis
    using calls_within_limit [OF one_entry_ok, of "retry_default id" "''m1''" sample_entry toy_sha calm_env refuse 10 k]
    by (simp add: one_entry_calls retry_limit)
qed

text \<open>
  C26. A message whose sends always fail is given up, after as many calls as its limit allows: without
  database faults, with a clock that goes on, an entry that is pending, or waits for its retry time, ends as a
  dead letter after finitely many rounds of the worker and stays one; by then the sender was called for it
  exactly as often as its counter was below the limit; the table of dead letters holds its payload under
  its id with the last error. The other entries may be anything, below the limit.
\<close>

theorem failing_sender_is_buried:
  assumes "no_faults e" and "outbox_ok d" and "counters_below (max_retries c) d" and "sint batch \<noteq> 0"
    and "\<forall>t. \<exists>l. \<forall>j \<ge> l. t \<le> env_now_ms e j"
    and "outbox_view d i = Some x" and "waiting x" and "i \<notin> dl_id ` set (t_dead_letter d)"
    and "always_fails s i"
  shows "\<exists>n. \<forall>k \<ge> n. let d' = worker_rounds (sqlite_worker sha e c (counted s)) batch k d in
    calls_for i d' = calls_for i d + (unat (max_retries c) - unat (ob_retry_count x)) \<and>
    (\<exists>y err now. outbox_view d' i = Some y \<and> ob_status y = DeadLetter \<and> ob_last_error y = Some err \<and>
       tbl_find dl_id i (t_dead_letter d') = Some (dead_letter_entry_new i ''outbox'' (ob_payload x)
         (attempt_text ''max retries'' (max_retries c) err) now))"
proof -
  let ?run = "\<lambda>k. worker_rounds (sqlite_worker sha e c (counted s)) batch k d"
  let ?k = "calls_for i d + (unat (max_retries c) - unat (ob_retry_count x))"
  have x: "ob_id x = i" using outbox_view_Some [OF assms(6)] by auto
  have fails: "always_fails s (ob_id x)" using assms(9) x by simp
  have start: "doomed (max_retries c) x ?k d"
    using assms(2,3,6-8) by (auto simp: doomed_def x same_letter_def attempts_left_def waiting_def)
  note doomed = rounds_doomed [OF assms(1) fails start, where sha = sha and n = batch]
  obtain n y where n: "outbox_view (?run n) i = Some y" "ob_status y = DeadLetter"
    using rounds_bury [OF assms(1) fails assms(4) _ start, where sha = sha] assms(5) x by auto
  show ?thesis
  proof (intro exI [of _ n] allI impI)
    fix k assume "n \<le> k"
    then have run: "?run k = worker_rounds (sqlite_worker sha e c (counted s)) batch (k - n) (?run n)"
      using worker_rounds_add [of _ batch n "k - n" d] by simp
    have "outbox_ok (?run n)" using doomed [of n] by (simp add: doomed_def)
    from ow.worker_rounds_evolve [OF this] have "outbox_view (?run k) i = Some y"
      using n entry_steps_final [of _ y] unfolding run evolves_def by (force simp: option_rel_Some1 dest: spec [of _ i])
    with doomed [of k] n(2) show "let d' = ?run k in calls_for i d' = ?k \<and>
      (\<exists>y err now. outbox_view d' i = Some y \<and> ob_status y = DeadLetter \<and> ob_last_error y = Some err \<and>
         tbl_find dl_id i (t_dead_letter d') = Some (dead_letter_entry_new i ''outbox'' (ob_payload x)
           (attempt_text ''max retries'' (max_retries c) err) now))"
      by (auto simp: doomed_def x burial_def attempts_left_def)
  qed
qed

theorem failing_sender_is_buried_witness:
  "\<exists>k y. let d' = worker_rounds (sqlite_worker toy_sha passing_env (retry_default id) (counted refuse)) 10 k one_entry
     in calls_for ''m1'' d' = 5 \<and> outbox_view d' ''m1'' = Some y \<and> ob_status y = DeadLetter"
proof -
  have "\<exists>l. \<forall>j \<ge> l. t \<le> env_now_ms passing_env j" for t
    by (intro exI [of _ "nat t"] allI impI) (simp add: passing_env_def nat_le_iff)
  moreover have "no_faults passing_env" using calm_env_calm by (simp add: no_faults_def passing_env_def)
  moreover have "counters_below (max_retries (retry_default id)) one_entry"
    by (simp add: counters_below_def one_entry_view retry_default_def)
  moreover have "waiting sample_entry" "always_fails refuse ''m1''"
    by (simp_all add: waiting_def always_fails_def refuse_def is_Ok_def)
  moreover have "''m1'' \<notin> dl_id ` set (t_dead_letter one_entry)" "outbox_view one_entry ''m1'' = Some sample_entry"
    by (simp_all add: one_entry_view) (simp add: one_entry_def sample_db_def empty_db_def db.defs)
  ultimately obtain n where "\<forall>k \<ge> n. let d' = worker_rounds (sqlite_worker toy_sha passing_env (retry_default id)
        (counted refuse)) 10 k one_entry in
      calls_for ''m1'' d' = calls_for ''m1'' one_entry + (unat (max_retries (retry_default id)) - unat (ob_retry_count sample_entry)) \<and>
      (\<exists>y err now. outbox_view d' ''m1'' = Some y \<and> ob_status y = DeadLetter \<and> ob_last_error y = Some err \<and>
         tbl_find dl_id ''m1'' (t_dead_letter d') = Some (dead_letter_entry_new ''m1'' ''outbox'' (ob_payload sample_entry)
           (attempt_text ''max retries'' (max_retries (retry_default id)) err) now))"
    using failing_sender_is_buried [OF _ one_entry_ok, of passing_env "retry_default id" 10 "''m1''" sample_entry refuse toy_sha]
    by force
  from this [rule_format, of n] show ?thesis
    unfolding Let_def by (intro exI [of _ n]) (auto simp: one_entry_calls retry_limit)
qed

end
