(* ===== verification/Key_Stores.thy ===== *)
theory Key_Stores
  imports Database
begin

text \<open>
  The keyed stores: user agent preferences (\<open>src/domain/ports/user_preference_store.rs\<close> with
  its in-memory store, \<open>src/adapters/sqlite_user_preference_store.rs\<close>,
  \<open>src/application/agent_preferences.rs\<close>), sync buffers (\<open>sqlite_sync_buf.rs\<close>), context
  tokens (\<open>sqlite_context_tokens.rs\<close>) and conversation states
  (\<open>sqlite_conversation_state.rs\<close>).

  The locale \<open>kv_store\<close> is the contract of a store with \<open>get\<close> and \<open>set\<close>; \<open>exact_kv_store\<close> adds
  that a successful \<open>get\<close> misses nothing (the SQLite preference store maps every failing
  query to \<open>None\<close>), and \<open>reliable_kv_store\<close> that nothing fails. Two reliable stores are
  indistinguishable.
\<close>

section \<open>User agent preferences\<close>

record user_agent_preferences =
  up_channel :: string
  up_account_scope :: string
  up_peer_id :: string
  up_agent_name :: string

type_synonym pref_key = "string \<times> string \<times> string"

definition up_key :: "user_agent_preferences \<Rightarrow> pref_key" where
  "up_key p = (up_channel p, up_account_scope p, up_peer_id p)"

record 'w preference_store =
  ps_get :: "pref_key \<Rightarrow> 'w \<Rightarrow> (string + string option) \<times> 'w"
  ps_set :: "pref_key \<Rightarrow> string \<Rightarrow> 'w \<Rightarrow> (string + unit) \<times> 'w"
  ps_list :: "string option \<Rightarrow> 'w \<Rightarrow> (string + user_agent_preferences list) \<times> 'w"

subsection \<open>In memory\<close>

definition mem_get ::
  "pref_key \<Rightarrow> user_agent_preferences list \<Rightarrow> (string + string option) \<times> user_agent_preferences list" where
  "mem_get k ps = (Ok (map_option up_agent_name (find (\<lambda>p. up_key p = k) ps)), ps)"

text \<open>The first match is overwritten; without one the preference is pushed.\<close>

fun mem_put :: "pref_key \<Rightarrow> string \<Rightarrow> user_agent_preferences list \<Rightarrow> user_agent_preferences list" where
  "mem_put (c, a, p) name [] =
     [\<lparr> up_channel = c, up_account_scope = a, up_peer_id = p, up_agent_name = name \<rparr>]"
| "mem_put k name (x # xs) =
     (if up_key x = k then x\<lparr>up_agent_name := name\<rparr> # xs else x # mem_put k name xs)"

definition mem_set ::
  "pref_key \<Rightarrow> string \<Rightarrow> user_agent_preferences list \<Rightarrow> (string + unit) \<times> user_agent_preferences list" where
  "mem_set k name ps = (Ok (), mem_put k name ps)"

definition mem_list ::
  "string option \<Rightarrow> user_agent_preferences list \<Rightarrow>
   (string + user_agent_preferences list) \<times> user_agent_preferences list" where
  "mem_list channel ps =
     (Ok (filter (\<lambda>p. case channel of None \<Rightarrow> True | Some c \<Rightarrow> up_channel p = c) ps), ps)"

definition in_memory_preferences :: "user_agent_preferences list preference_store" where
  "in_memory_preferences = \<lparr> ps_get = mem_get, ps_set = mem_set, ps_list = mem_list \<rparr>"

subsection \<open>SQLite\<close>

definition pf_key :: "preference_row \<Rightarrow> pref_key" where
  "pf_key r = (pf_channel r, pf_account_scope r, pf_peer_id r)"

definition row_to_preference :: "preference_row \<Rightarrow> user_agent_preferences" where
  "row_to_preference r =
     \<lparr> up_channel = pf_channel r, up_account_scope = pf_account_scope r,
       up_peer_id = pf_peer_id r, up_agent_name = pf_agent_name r \<rparr>"

text \<open>Preparing the statement may fail and is reported; a failing query is \<open>None\<close> (\<open>.ok()\<close>).\<close>

definition pref_get :: "env \<Rightarrow> pref_key \<Rightarrow> 'w db_scheme \<Rightarrow> (string + string option) \<times> 'w db_scheme" where
  "pref_get e k d =
     (case sql_read e (\<lambda>n d. ()) d of
        (Err m, d1) \<Rightarrow> (Err m, d1)
      | (Ok _, d1) \<Rightarrow>
          (case sql_read e (\<lambda>n d. map_option pf_agent_name (tbl_find pf_key k (t_preferences d))) d1 of
             (Err _, d2) \<Rightarrow> (Ok None, d2)
           | (Ok v, d2) \<Rightarrow> (Ok v, d2)))"

text \<open>\<open>duration_since(UNIX_EPOCH)\<close> fails on a clock before the epoch.\<close>

definition since_epoch :: "env \<Rightarrow> 'w db_scheme \<Rightarrow> (string + int) \<times> 'w db_scheme" where
  "since_epoch e d =
     (let (s, d') = clock_s e d
      in (if s < 0 then Err ''second time provided was later than self'' else Ok s, d'))"

definition pref_set :: "env \<Rightarrow> pref_key \<Rightarrow> string \<Rightarrow> 'w db_scheme \<Rightarrow> (string + unit) \<times> 'w db_scheme" where
  "pref_set e k name d =
     (case since_epoch e d of
        (Err m, d1) \<Rightarrow> (Err m, d1)
      | (Ok now, d1) \<Rightarrow> sql_write e (\<lambda>n d. d\<lparr>t_preferences := tbl_insert_replace pf_key
          \<lparr> pf_channel = fst k, pf_account_scope = fst (snd k), pf_peer_id = snd (snd k),
            pf_agent_name = name, pf_updated_at = now \<rparr> (t_preferences d)\<rparr>) d1)"

definition pref_list ::
  "env \<Rightarrow> string option \<Rightarrow> 'w db_scheme \<Rightarrow> (string + user_agent_preferences list) \<times> 'w db_scheme" where
  "pref_list e channel d =
     sql_read e (\<lambda>n d. map row_to_preference
       (order_by_desc pf_updated_at (\<lambda>r. env_rank e n (pf_peer_id r))
         (filter (\<lambda>r. case channel of None \<Rightarrow> True | Some c \<Rightarrow> pf_channel r = c) (t_preferences d)))) d"

definition sqlite_preferences :: "env \<Rightarrow> 'w db_scheme preference_store" where
  "sqlite_preferences e = \<lparr> ps_get = pref_get e, ps_set = pref_set e, ps_list = pref_list e \<rparr>"

subsection \<open>Application functions\<close>

definition get_user_agent_via_port ::
  "'w preference_store \<Rightarrow> string \<Rightarrow> string \<Rightarrow> string \<Rightarrow> 'w \<Rightarrow> (string + string option) \<times> 'w" where
  "get_user_agent_via_port store channel account_scope peer_id =
     ps_get store (channel, account_scope, peer_id)"

definition set_user_agent_via_port ::
  "'w preference_store \<Rightarrow> string \<Rightarrow> string \<Rightarrow> string \<Rightarrow> string \<Rightarrow> 'w \<Rightarrow> (string + unit) \<times> 'w" where
  "set_user_agent_via_port store channel account_scope peer_id name =
     ps_set store (channel, account_scope, peer_id) name"

definition list_user_agents_via_port ::
  "'w preference_store \<Rightarrow> string option \<Rightarrow> 'w \<Rightarrow> (string + user_agent_preferences list) \<times> 'w" where
  "list_user_agents_via_port store channel = ps_list store channel"

text \<open>The functions on a pool: \<open>optional()?\<close> reports a failing query.\<close>

definition get_user_agent ::
  "env \<Rightarrow> string \<Rightarrow> string \<Rightarrow> string \<Rightarrow> 'w db_scheme \<Rightarrow> (string + string option) \<times> 'w db_scheme" where
  "get_user_agent e channel account_scope peer_id d =
     (case sql_read e (\<lambda>n d. ()) d of
        (Err m, d1) \<Rightarrow> (Err m, d1)
      | (Ok _, d1) \<Rightarrow> sql_read e (\<lambda>n d. map_option pf_agent_name
          (tbl_find pf_key (channel, account_scope, peer_id) (t_preferences d))) d1)"

definition set_user_agent ::
  "env \<Rightarrow> string \<Rightarrow> string \<Rightarrow> string \<Rightarrow> string \<Rightarrow> 'w db_scheme \<Rightarrow> (string + unit) \<times> 'w db_scheme" where
  "set_user_agent e channel account_scope peer_id name d =
     pref_set e (channel, account_scope, peer_id) name d"

definition list_user_agents ::
  "env \<Rightarrow> string option \<Rightarrow> 'w db_scheme \<Rightarrow> (string + user_agent_preferences list) \<times> 'w db_scheme" where
  "list_user_agents e channel d = pref_list e channel d"

section \<open>Sync buffers and context tokens\<close>

datatype store_error = StoreIo string | StoreDb string

definition store :: "(string + 'a) \<times> 'w \<Rightarrow> (store_error + 'a) \<times> 'w" where
  "store p = (map_err StoreDb (fst p), snd p)"

definition sync_buf_save ::
  "env \<Rightarrow> string \<Rightarrow> string \<Rightarrow> bytes \<Rightarrow> 'w db_scheme \<Rightarrow> (store_error + unit) \<times> 'w db_scheme" where
  "sync_buf_save e channel account buf d =
     store (sql_write e (\<lambda>n d. d\<lparr>t_sync_buf := tbl_insert_replace (\<lambda>r. (sb_channel r, sb_account r))
       \<lparr> sb_channel = channel, sb_account = account, sb_buf = buf, sb_updated_at = unixepoch e n \<rparr>
       (t_sync_buf d)\<rparr>) d)"

definition sync_buf_load ::
  "env \<Rightarrow> string \<Rightarrow> string \<Rightarrow> 'w db_scheme \<Rightarrow> (store_error + bytes) \<times> 'w db_scheme" where
  "sync_buf_load e channel account d =
     store (sql_read e (\<lambda>n d.
       case tbl_find (\<lambda>r. (sb_channel r, sb_account r)) (channel, account) (t_sync_buf d) of
         Some r \<Rightarrow> sb_buf r | None \<Rightarrow> []) d)"

definition ct_key :: "context_token_row \<Rightarrow> string \<times> string" where
  "ct_key r = (ct_account_id r, ct_user_id r)"

definition token_set ::
  "env \<Rightarrow> string \<times> string \<Rightarrow> string \<Rightarrow> 'w db_scheme \<Rightarrow> (store_error + unit) \<times> 'w db_scheme" where
  "token_set e k token d =
     store (sql_write e (\<lambda>n d. d\<lparr>t_context_tokens := tbl_insert_replace ct_key
       \<lparr> ct_account_id = fst k, ct_user_id = snd k, ct_token = token, ct_updated_at = unixepoch e n \<rparr>
       (t_context_tokens d)\<rparr>) d)"

definition token_get ::
  "env \<Rightarrow> string \<times> string \<Rightarrow> 'w db_scheme \<Rightarrow> (store_error + string option) \<times> 'w db_scheme" where
  "token_get e k d =
     store (sql_read e (\<lambda>n d. map_option ct_token (tbl_find ct_key k (t_context_tokens d))) d)"

definition token_get_all ::
  "env \<Rightarrow> string \<Rightarrow> 'w db_scheme \<Rightarrow> (store_error + (string \<rightharpoonup> string)) \<times> 'w db_scheme" where
  "token_get_all e account d =
     store (sql_read e (\<lambda>n d. fold (\<lambda>r m. m(ct_user_id r \<mapsto> ct_token r))
       (filter (\<lambda>r. ct_account_id r = account) (t_context_tokens d)) Map.empty) d)"

definition token_delete_all ::
  "env \<Rightarrow> string \<Rightarrow> 'w db_scheme \<Rightarrow> (store_error + unit) \<times> 'w db_scheme" where
  "token_delete_all e account d =
     store (sql_write e (\<lambda>n d. d\<lparr>t_context_tokens :=
       tbl_delete (\<lambda>r. ct_account_id r = account) (t_context_tokens d)\<rparr>) d)"

definition token_delete ::
  "env \<Rightarrow> string \<times> string \<Rightarrow> 'w db_scheme \<Rightarrow> (store_error + unit) \<times> 'w db_scheme" where
  "token_delete e k d =
     store (sql_write e (\<lambda>n d. d\<lparr>t_context_tokens :=
       tbl_delete (\<lambda>r. ct_key r = k) (t_context_tokens d)\<rparr>) d)"

section \<open>Conversation states\<close>

definition state_upsert ::
  "env \<Rightarrow> string \<Rightarrow> string \<Rightarrow> int \<Rightarrow> 'w db_scheme \<Rightarrow> (repo_error + unit) \<times> 'w db_scheme" where
  "state_upsert e route_key state_json updated_at d =
     (let (r, d') = sql_write e (\<lambda>n d. d\<lparr>t_conversation_state := tbl_upsert st_route_key
            (\<lambda>q. q\<lparr>st_state_json := state_json, st_updated_at := updated_at\<rparr>)
            \<lparr> st_route_key = route_key, st_state_json = state_json, st_updated_at = updated_at \<rparr>
            (t_conversation_state d)\<rparr>) d
      in (map_err RepoDb r, d'))"

definition state_load_all ::
  "env \<Rightarrow> 'w db_scheme \<Rightarrow> (repo_error + conversation_state_row list) \<times> 'w db_scheme" where
  "state_load_all e d =
     (let (r, d') = sql_read e (\<lambda>n d. order_by_desc st_updated_at
            (\<lambda>r. env_rank e n (st_route_key r)) (t_conversation_state d)) d
      in (map_err RepoDb r, d'))"

section \<open>The contract of a keyed store\<close>

datatype ('k, 'v) kv_op = Put 'k 'v | Get 'k

text \<open>The answers of a sequence of operations: for \<open>Get\<close> the value, for \<open>Put\<close> none.\<close>

fun kv_run ::
  "('k \<Rightarrow> 'w \<Rightarrow> ('e + 'v option) \<times> 'w) \<Rightarrow> ('k \<Rightarrow> 'v \<Rightarrow> 'w \<Rightarrow> ('e + unit) \<times> 'w) \<Rightarrow>
   ('k, 'v) kv_op list \<Rightarrow> 'w \<Rightarrow> 'v option option list" where
  "kv_run g s [] w = []"
| "kv_run g s (Put k v # ops) w =
     (let (r, w') = s k v w in (if is_Ok r then Some None else None) # kv_run g s ops w')"
| "kv_run g s (Get k # ops) w =
     (let (r, w') = g k w in (case r of Ok v \<Rightarrow> Some v | Err _ \<Rightarrow> None) # kv_run g s ops w')"

text \<open>The same for the abstract map.\<close>

fun kv_spec :: "('k, 'v) kv_op list \<Rightarrow> ('k \<rightharpoonup> 'v) \<Rightarrow> 'v option option list" where
  "kv_spec [] m = []"
| "kv_spec (Put k v # ops) m = Some None # kv_spec ops (m(k \<mapsto> v))"
| "kv_spec (Get k # ops) m = Some (m k) # kv_spec ops m"

locale kv_store =
  fixes g :: "'k \<Rightarrow> 'w \<Rightarrow> ('e + 'v option) \<times> 'w"
    and s :: "'k \<Rightarrow> 'v \<Rightarrow> 'w \<Rightarrow> ('e + unit) \<times> 'w"
    and view :: "'w \<Rightarrow> 'k \<rightharpoonup> 'v"
  assumes get_law: "g k w = (rv, w') \<Longrightarrow>
      view w' = view w \<and> (case rv of Ok v \<Rightarrow> v = view w k \<or> v = None | Err _ \<Rightarrow> True)"
    and set_law: "s k v w = (ru, w') \<Longrightarrow>
      view w' = (case ru of Ok _ \<Rightarrow> (view w)(k \<mapsto> v) | Err _ \<Rightarrow> view w)"
begin

text \<open>What is read after a write: the written value, or what the other key had.\<close>

lemma get_after_set:
  assumes "s k v w = (Ok (), w1)" and "g k' w1 = (Ok (Some u), w2)"
  shows "u = v \<and> k' = k \<or> k' \<noteq> k \<and> view w k' = Some u"
  using get_law [OF assms(2)] set_law [OF assms(1)] by (auto split: if_splits)

end

locale exact_kv_store = kv_store +
  assumes get_exact: "g k w = (Ok v, w') \<Longrightarrow> v = view w k"
begin

lemma get_after_set_exact:
  assumes "s k v w = (Ok (), w1)" and "g k' w1 = (Ok u, w2)"
  shows "u = (if k' = k then Some v else view w k')"
  using get_exact [OF assms(2)] set_law [OF assms(1)] by simp

end

locale reliable_kv_store = exact_kv_store +
  assumes get_ok: "is_Ok (fst (g k w))" and set_ok: "is_Ok (fst (s k v w))"
begin

lemma run_is_spec: "kv_run g s ops w = kv_spec ops (view w)"
proof (induction ops arbitrary: w)
  case (Cons x ops)
  show ?case
  proof (cases x)
    case (Put k v)
    obtain r w' where sv: "s k v w = (r, w')" by force
    with set_ok [of k v w] have "is_Ok r" by simp
    with set_law [OF sv] show ?thesis
      using Cons.IH [of w'] Put sv by (auto simp: is_Ok_def split: sum.splits)
  next
    case (Get k)
    obtain r w' where gv: "g k w = (r, w')" by force
    with get_ok [of k w] obtain v where "r = Ok v" by (auto simp: is_Ok_def split: sum.splits)
    with get_law [OF gv] get_exact [of k w v w'] gv show ?thesis
      using Cons.IH [of w'] Get by simp
  qed
qed simp

end

section \<open>The stores keep the contract\<close>

definition mem_view :: "user_agent_preferences list \<Rightarrow> pref_key \<rightharpoonup> string" where
  "mem_view ps k = map_option up_agent_name (find (\<lambda>p. up_key p = k) ps)"

lemma mem_view_Nil: "mem_view [] = Map.empty"
  by (simp add: mem_view_def fun_eq_iff)

lemma mem_view_Cons: "mem_view (x # xs) = (mem_view xs)(up_key x \<mapsto> up_agent_name x)"
  by (simp add: mem_view_def fun_eq_iff)

lemma up_key_name [simp]: "up_key (x\<lparr>up_agent_name := n\<rparr>) = up_key x"
  by (simp add: up_key_def)

lemma mem_put_view: "mem_view (mem_put k v ps) = (mem_view ps)(k \<mapsto> v)"
proof (induction k v ps rule: mem_put.induct)
  case (1 c a p name)
  then show ?case by (simp add: mem_view_Nil mem_view_Cons up_key_def)
next
  case (2 k name x xs)
  then show ?case by (auto simp: mem_view_Cons fun_upd_twist)
qed

interpretation mem: reliable_kv_store mem_get mem_set mem_view
  by unfold_locales (auto simp: mem_get_def mem_set_def mem_put_view is_Ok_def mem_view_def)

definition pref_view :: "'w db_scheme \<Rightarrow> pref_key \<rightharpoonup> string" where
  "pref_view d k = map_option pf_agent_name (tbl_find pf_key k (t_preferences d))"

lemma pref_set_view:
  assumes "pref_set e k v d = (r, d')"
  shows "pref_view d' = (case r of Ok _ \<Rightarrow> (pref_view d)(k \<mapsto> v) | Err _ \<Rightarrow> pref_view d)"
  using assms
  by (auto simp: pref_set_def since_epoch_def clock_s_def clock_ms_def sql_write_eq pref_view_def
      fun_eq_iff tbl_find_insert_replace pf_key_def Let_def split: if_splits option.splits)

interpretation sp: kv_store "pref_get e" "pref_set e" pref_view for e
proof unfold_locales
  fix k v and w w' :: "'a db_scheme" and rv ru
  show "pref_get e k w = (rv, w') \<Longrightarrow> pref_view w' = pref_view w \<and>
      (case rv of Err _ \<Rightarrow> True | Ok v \<Rightarrow> v = pref_view w k \<or> v = None)"
    by (auto simp: pref_get_def sql_read_eq pref_view_def fun_eq_iff split: option.splits)
  show "pref_set e k v w = (ru, w') \<Longrightarrow> pref_view w' =
      (case ru of Err _ \<Rightarrow> pref_view w | Ok _ \<Rightarrow> (pref_view w)(k \<mapsto> v))"
    by (rule pref_set_view)
qed

text \<open>An environment without faults and with a clock after the epoch.\<close>

definition calm :: "env \<Rightarrow> env" where
  "calm e = e\<lparr>env_fault := \<lambda>_. None, env_now_ms := \<lambda>n. max 0 (env_now_ms e n)\<rparr>"

lemma calm_id: "no_faults e \<Longrightarrow> (\<And>n. 0 \<le> env_now_ms e n) \<Longrightarrow> calm e = e"
  by (simp add: calm_def no_faults_def fun_eq_iff max_absorb2)

interpretation rp: reliable_kv_store "pref_get (calm e)" "pref_set (calm e)" pref_view for e
  by unfold_locales
    (auto simp: pref_get_def sql_read_eq calm_def pref_view_def is_Ok_def pref_set_def since_epoch_def
      clock_s_def clock_ms_def sql_write_eq Let_def)

definition token_view :: "'w db_scheme \<Rightarrow> string \<times> string \<rightharpoonup> string" where
  "token_view d k = map_option ct_token (tbl_find ct_key k (t_context_tokens d))"

lemma store_simps [simp]: "store (Ok x, d) = (Ok x, d)" "store (Err m, d) = (Err (StoreDb m), d)"
  by (simp_all add: store_def map_err_def)

interpretation tk: exact_kv_store "token_get e" "token_set e" token_view for e
proof unfold_locales
  fix k v and w w' :: "'a db_scheme" and rv ru
  show "token_get e k w = (rv, w') \<Longrightarrow> token_view w' = token_view w \<and>
      (case rv of Err _ \<Rightarrow> True | Ok v \<Rightarrow> v = token_view w k \<or> v = None)"
    by (auto simp: token_get_def sql_read_eq token_view_def fun_eq_iff split: option.splits)
  show "token_set e k v w = (ru, w') \<Longrightarrow> token_view w' =
      (case ru of Err _ \<Rightarrow> token_view w | Ok _ \<Rightarrow> (token_view w)(k \<mapsto> v))"
    by (auto simp: token_set_def sql_write_eq token_view_def fun_eq_iff tbl_find_insert_replace ct_key_def
        split: option.splits)
  show "token_get e k w = (Ok u, w') \<Longrightarrow> u = token_view w k" for u
    by (auto simp: token_get_def sql_read_eq token_view_def split: option.splits)
qed

lemma token_delete_view: "token_delete e k d = (Ok (), d') \<Longrightarrow> token_view d' = (token_view d)(k := None)"
  by (auto simp: token_delete_def sql_write_eq token_view_def fun_eq_iff tbl_find_delete_key split: option.splits)

lemma token_delete_all_view:
  "token_delete_all e a d = (Ok (), d') \<Longrightarrow> token_view d' = (\<lambda>k. if fst k = a then None else token_view d k)"
proof -
  have account: "ct_account_id r = fst (ct_key r)" for r by (simp add: ct_key_def)
  have "tbl_find ct_key k (tbl_delete (\<lambda>r. ct_account_id r = a) t) = (if fst k = a then None else tbl_find ct_key k t)" for k t
    by (induction t) (auto simp: tbl_delete_def account)
  then show "token_delete_all e a d = (Ok (), d') \<Longrightarrow> ?thesis"
    by (auto simp: token_delete_all_def sql_write_eq token_view_def fun_eq_iff split: option.splits)
qed

section \<open>The two preference stores side by side\<close>

text \<open>What a client of \<open>UserPreferenceStore\<close> calls and sees. A listing counts as the preferences in it.\<close>

datatype pref_op = SetPreference pref_key string | GetPreference pref_key | ListPreferences "string option"

datatype pref_answer = PrefStored | PrefValue "string option" | PrefListing "user_agent_preferences multiset" | PrefFailed string

fun pref_call :: "'w preference_store \<Rightarrow> pref_op \<Rightarrow> 'w \<Rightarrow> pref_answer \<times> 'w" where
  "pref_call st (SetPreference k name) w =
     (let (r, w1) = ps_set st k name w in (case r of Ok _ \<Rightarrow> PrefStored | Err m \<Rightarrow> PrefFailed m, w1))"
| "pref_call st (GetPreference k) w =
     (let (r, w1) = ps_get st k w in (case r of Ok v \<Rightarrow> PrefValue v | Err m \<Rightarrow> PrefFailed m, w1))"
| "pref_call st (ListPreferences channel) w =
     (let (r, w1) = ps_list st channel w in (case r of Ok ps \<Rightarrow> PrefListing (mset ps) | Err m \<Rightarrow> PrefFailed m, w1))"

fun pref_calls :: "'w preference_store \<Rightarrow> pref_op list \<Rightarrow> 'w \<Rightarrow> pref_answer list" where
  "pref_calls st [] w = []"
| "pref_calls st (x # ops) w = (let (a, w1) = pref_call st x w in a # pref_calls st ops w1)"

text \<open>The stores hold the same preferences, one for each user at most.\<close>

definition same_preferences :: "'w db_scheme \<Rightarrow> user_agent_preferences list \<Rightarrow> bool" where
  "same_preferences d ps \<longleftrightarrow> distinct (map up_key ps) \<and> mset (map row_to_preference (t_preferences d)) = mset ps"

lemma up_key_row [simp]: "up_key (row_to_preference r) = pf_key r"
  by (simp add: up_key_def pf_key_def row_to_preference_def)

lemma mem_view_map_of: "mem_view ps = map_of (map (\<lambda>p. (up_key p, up_agent_name p)) ps)"
  by (induction ps) (simp_all add: mem_view_Nil mem_view_Cons)

lemma mem_view_mset:
  assumes "distinct (map up_key xs)" and "mset xs = mset ys"
  shows "mem_view xs = mem_view ys"
proof -
  from assms(2) have "mset (map up_key xs) = mset (map up_key ys)" by simp
  with assms(1) have "distinct (map up_key ys)" by (metis mset_eq_imp_distinct_iff)
  with assms show ?thesis
    by (simp add: mem_view_map_of map_of_inject_set comp_def flip: set_mset_mset)
qed

lemma pref_view_mem_view: "pref_view d = mem_view (map row_to_preference (t_preferences d))"
proof -
  have "map_option pf_agent_name (tbl_find pf_key k t) =
      map_option up_agent_name (find (\<lambda>p. up_key p = k) (map row_to_preference t))" for k t
    by (induction t) (auto simp: row_to_preference_def up_key_def pf_key_def)
  then show ?thesis by (simp add: pref_view_def mem_view_def fun_eq_iff)
qed

lemma same_preferences_view: "same_preferences d ps \<Longrightarrow> pref_view d = mem_view ps"
  unfolding pref_view_mem_view same_preferences_def by (metis mem_view_mset)

lemma mem_put_mset:
  "distinct (map up_key ps) \<Longrightarrow> mset (mem_put (c, a, p) name ps) =
     add_mset \<lparr> up_channel = c, up_account_scope = a, up_peer_id = p, up_agent_name = name \<rparr>
       (filter_mset (\<lambda>x. up_key x \<noteq> (c, a, p)) (mset ps))"
proof (induction ps)
  case (Cons x xs)
  show ?case
  proof (cases "up_key x = (c, a, p)")
    case True
    then have "filter_mset (\<lambda>x. up_key x \<noteq> (c, a, p)) (mset xs) = mset xs"
      using Cons.prems by (auto simp: filter_mset_eq_conv image_iff)
    moreover from True have "x\<lparr>up_agent_name := name\<rparr> =
        \<lparr> up_channel = c, up_account_scope = a, up_peer_id = p, up_agent_name = name \<rparr>"
      by (cases x) (simp add: up_key_def)
    ultimately show ?thesis using True by simp
  qed (use Cons in simp)
qed simp

lemma mem_put_keys: "set (map up_key (mem_put k name ps)) = insert k (set (map up_key ps))"
  by (induction k name ps rule: mem_put.induct) (auto simp: up_key_def)

lemma mem_put_distinct: "distinct (map up_key ps) \<Longrightarrow> distinct (map up_key (mem_put k name ps))"
proof (induction k name ps rule: mem_put.induct)
  case (2 k name x xs)
  then show ?case using mem_put_keys [of k name xs] by auto
qed simp

lemma same_preferences_put:
  assumes "same_preferences d ps" and "t_preferences d' = tbl_insert_replace pf_key
    \<lparr> pf_channel = fst k, pf_account_scope = fst (snd k), pf_peer_id = snd (snd k), pf_agent_name = name, pf_updated_at = now \<rparr>
    (t_preferences d)"
  shows "same_preferences d' (mem_put k name ps)"
proof -
  obtain c a p where k: "k = (c, a, p)" by (cases k)
  have "mset (map row_to_preference (filter (\<lambda>r. pf_key r \<noteq> k) t)) =
      filter_mset (\<lambda>x. up_key x \<noteq> k) (mset (map row_to_preference t))" for t
    by (induction t) simp_all
  with assms k show ?thesis
    by (auto simp: same_preferences_def mem_put_distinct mem_put_mset tbl_insert_replace_def pf_key_def row_to_preference_def)
qed

lemma mset_order_by_desc [simp]: "mset (order_by_desc k rank t) = mset t"
  by (simp add: order_by_desc_def order_by_def)

lemma pref_call_agrees:
  assumes "no_faults e" and "\<And>n. 0 \<le> env_now_ms e n" and "same_preferences d ps"
    and "pref_call (sqlite_preferences e) x d = (a, d')" and "pref_call in_memory_preferences x ps = (b, ps')"
  shows "a = b \<and> same_preferences d' ps'"
proof (cases x)
  case (SetPreference k name)
  have set: "pref_set e k name d = (Ok (), snd (pref_set e k name d))"
      "t_preferences (snd (pref_set e k name d)) = tbl_insert_replace pf_key
        \<lparr> pf_channel = fst k, pf_account_scope = fst (snd k), pf_peer_id = snd (snd k), pf_agent_name = name,
          pf_updated_at = env_now_ms e (db_tick d) div 1000 \<rparr> (t_preferences d)"
    using assms(1) div_int_pos_iff [of "env_now_ms e (db_tick d)" 1000] assms(2) [of "db_tick d"]
    by (simp_all add: pref_set_def since_epoch_def clock_s_def clock_ms_def sql_write_eq Let_def not_less)
  with same_preferences_put [OF assms(3) set(2)] assms(4,5) SetPreference show ?thesis
    by (auto simp: sqlite_preferences_def in_memory_preferences_def mem_set_def Let_def split: prod.splits)
next
  case (GetPreference k)
  have "map_option pf_agent_name (tbl_find pf_key k (t_preferences d)) = map_option up_agent_name (find (\<lambda>p. up_key p = k) ps)"
    using same_preferences_view [OF assms(3), THEN fun_cong, of k] by (simp add: pref_view_def mem_view_def)
  with assms GetPreference show ?thesis
    by (auto simp: sqlite_preferences_def in_memory_preferences_def mem_get_def pref_get_def sql_read_eq same_preferences_def)
next
  case (ListPreferences channel)
  have "mset (map row_to_preference (filter (\<lambda>r. case channel of None \<Rightarrow> True | Some c \<Rightarrow> pf_channel r = c) t)) =
      filter_mset (\<lambda>p. case channel of None \<Rightarrow> True | Some c \<Rightarrow> up_channel p = c) (mset (map row_to_preference t))" for t
    by (induction t) (auto simp: row_to_preference_def split: option.split)
  with assms ListPreferences show ?thesis
    by (auto simp: sqlite_preferences_def in_memory_preferences_def mem_list_def pref_list_def sql_read_eq same_preferences_def)
qed

section \<open>Properties\<close>

text \<open>
  C39. The two preference stores are interchangeable: from stores that hold the same preferences, every
  sequence of writes, reads and listings gets the same answers from the in-memory store and from the
  SQLite store in an environment without faults and with a clock after the epoch. The
  listings have the same preferences; their order differs, for SQLite lists the latest change
  first and the memory the oldest user.
\<close>

theorem preference_stores_agree:
  assumes "no_faults e" and "\<And>n. 0 \<le> env_now_ms e n" and "same_preferences d ps"
  shows "pref_calls (sqlite_preferences e) ops d = pref_calls in_memory_preferences ops ps"
  using assms(3)
proof (induction ops arbitrary: d ps)
  case (Cons x ops)
  obtain a d' b ps' where calls: "pref_call (sqlite_preferences e) x d = (a, d')" "pref_call in_memory_preferences x ps = (b, ps')"
    by (metis prod.exhaust)
  from pref_call_agrees [OF assms(1,2) Cons.prems calls] Cons.IH [of d' ps'] calls show ?case by simp
qed simp

theorem preference_stores_agree_witness:
  "let e = \<lparr> env_fault = \<lambda>n. None, env_now_ms = int, env_rank = \<lambda>n s. 0, env_uuid = show_nat \<rparr>;
       k = (''wechat'', ''a'', ''u'')
   in pref_calls (sqlite_preferences e) [SetPreference k ''codex'', GetPreference k, ListPreferences (Some ''feishu'')] empty_db =
     [PrefStored, PrefValue (Some ''codex''), PrefListing {#}]"
proof -
  let ?e = "\<lparr> env_fault = \<lambda>n. None, env_now_ms = int, env_rank = \<lambda>n s. 0, env_uuid = show_nat \<rparr>"
  have "same_preferences empty_db []" by (simp add: same_preferences_def empty_db_def)
  then have "pref_calls (sqlite_preferences ?e) ops empty_db = pref_calls in_memory_preferences ops []" for ops
    by (intro preference_stores_agree) (simp_all add: no_faults_def)
  moreover have "pref_calls in_memory_preferences [SetPreference (''wechat'', ''a'', ''u'') ''codex'',
      GetPreference (''wechat'', ''a'', ''u''), ListPreferences (Some ''feishu'')] [] =
    [PrefStored, PrefValue (Some ''codex''), PrefListing {#}]"
    by (simp add: in_memory_preferences_def mem_set_def mem_get_def mem_list_def up_key_def)
  ultimately show ?thesis by (simp only: Let_def)
qed

text \<open>
  Under any faults, a preference read back after a successful write is the written
  one for the same channel, account and peer and an older one of their own for all others:
  preferences never leak between users, accounts or channels.
\<close>

theorem preferences_isolated:
  assumes "pref_set e k v d = (Ok (), d1)" and "pref_get e' k' d1 = (Ok (Some u), d2)"
  shows "u = v \<and> k' = k \<or> k' \<noteq> k \<and> pref_view d k' = Some u"
proof -
  have "pref_view d1 = (pref_view d)(k \<mapsto> v)" using sp.set_law [OF assms(1)] by simp
  with sp.get_law [OF assms(2)] show ?thesis by (auto split: if_splits)
qed

theorem preferences_isolated_witness:
  "let e = \<lparr> env_fault = \<lambda>n. None, env_now_ms = int, env_rank = \<lambda>n s. 0, env_uuid = show_nat \<rparr>;
       d1 = snd (pref_set e (''wechat'', ''a'', ''u1'') ''codex'' empty_db)
   in fst (pref_get e (''wechat'', ''a'', ''u1'') d1) = Ok (Some ''codex'') \<and> ''codex'' = ''codex''"
proof -
  let ?e = "\<lparr> env_fault = \<lambda>n. None, env_now_ms = int, env_rank = \<lambda>n s. 0, env_uuid = show_nat \<rparr>"
  have s: "pref_set ?e (''wechat'', ''a'', ''u1'') ''codex'' empty_db =
      (Ok (), snd (pref_set ?e (''wechat'', ''a'', ''u1'') ''codex'' empty_db))"
    by (simp add: pref_set_def since_epoch_def clock_s_def clock_ms_def sql_write_eq empty_db_def)
  have "\<exists>u d2. pref_get ?e (''wechat'', ''a'', ''u1'') (snd (pref_set ?e (''wechat'', ''a'', ''u1'') ''codex'' empty_db))
      = (Ok (Some u), d2)"
    by (simp add: pref_get_def sql_read_eq pref_set_def since_epoch_def clock_s_def clock_ms_def sql_write_eq
        empty_db_def tbl_find_insert_replace pf_key_def)
  then obtain u d2 where "pref_get ?e (''wechat'', ''a'', ''u1'')
      (snd (pref_set ?e (''wechat'', ''a'', ''u1'') ''codex'' empty_db)) = (Ok (Some u), d2)" by blast
  with preferences_isolated [OF s this] show ?thesis by simp
qed

text \<open>
  Context tokens: what \<open>get\<close> returns after a successful \<open>set\<close>, \<open>delete\<close> or \<open>delete_all\<close> is
  the token stored last for that account and user, and nothing once it was deleted; other
  accounts and users are unaffected. A sync buffer that was saved is loaded unchanged.
\<close>

theorem context_tokens_and_buffers:
  "(\<forall>d1 d2 u. token_set e k v d = (Ok (), d1) \<and> token_get e' k' d1 = (Ok u, d2) \<longrightarrow>
      u = (if k' = k then Some v else token_view d k')) \<and>
   (\<forall>d1. token_delete e k d = (Ok (), d1) \<longrightarrow> token_view d1 = (token_view d)(k := None)) \<and>
   (\<forall>d1. token_delete_all e a d = (Ok (), d1) \<longrightarrow>
      token_view d1 = (\<lambda>k. if fst k = a then None else token_view d k)) \<and>
   (\<forall>d1 d2 b'. sync_buf_save e c a b d = (Ok (), d1) \<and> sync_buf_load e' c a d1 = (Ok b', d2) \<longrightarrow> b' = b)"
proof (intro conjI allI impI)
  show "u = (if k' = k then Some v else token_view d k')"
    if "token_set e k v d = (Ok (), d1) \<and> token_get e' k' d1 = (Ok u, d2)" for d1 d2 u
    using that tk.set_law [of e k v d "Ok ()" d1] tk.get_exact [of e' k' d1 u d2] by simp
  show "token_view d1 = (token_view d)(k := None)" if "token_delete e k d = (Ok (), d1)" for d1
    using that by (rule token_delete_view)
  show "token_view d1 = (\<lambda>k. if fst k = a then None else token_view d k)"
    if "token_delete_all e a d = (Ok (), d1)" for d1
    using that by (rule token_delete_all_view)
  show "b' = b" if "sync_buf_save e c a b d = (Ok (), d1) \<and> sync_buf_load e' c a d1 = (Ok b', d2)" for d1 d2 b'
    using that
    by (auto simp: sync_buf_save_def sync_buf_load_def sql_write_eq sql_read_eq tbl_find_insert_replace
        split: option.splits)
qed

theorem context_tokens_and_buffers_witness:
  "let e = \<lparr> env_fault = \<lambda>n. None, env_now_ms = int, env_rank = \<lambda>n s. 0, env_uuid = show_nat \<rparr>;
       d1 = snd (token_set e (''acc'', ''u'') ''t'' empty_db);
       d2 = snd (token_delete_all e ''acc'' d1)
   in token_view d1 (''acc'', ''u'') = Some ''t'' \<and> token_view d2 (''acc'', ''u'') = None"
proof -
  let ?e = "\<lparr> env_fault = \<lambda>n. None, env_now_ms = int, env_rank = \<lambda>n s. 0, env_uuid = show_nat \<rparr>"
  let ?d1 = "snd (token_set ?e (''acc'', ''u'') ''t'' empty_db)"
  have "token_delete_all ?e ''acc'' ?d1 = (Ok (), snd (token_delete_all ?e ''acc'' ?d1))"
    by (simp add: token_delete_all_def sql_write_eq)
  with context_tokens_and_buffers [of ?e _ _ ?d1 _ _ "''acc''"]
  have "token_view (snd (token_delete_all ?e ''acc'' ?d1)) =
      (\<lambda>k. if fst k = ''acc'' then None else token_view ?d1 k)" by blast
  moreover have "token_view ?d1 (''acc'', ''u'') = Some ''t''"
    by (simp add: token_set_def sql_write_eq token_view_def tbl_find_insert_replace ct_key_def)
  ultimately show ?thesis unfolding Let_def by simp
qed

end
