(* ===== verification/Conversation_Store.thy ===== *)
theory Conversation_Store
  imports Reorder Key_Stores
begin

text \<open>
  \<open>src/adapters/conversation_store.rs\<close>, its ports \<open>src/domain/ports/conversation_queue.rs\<close>
  and \<open>src/application/gc_janitor.rs\<close>.

  The store maps route keys to handles; a handle is the sending half of a bounded channel
  whose receiving half belongs to a worker task. Tasks and channels are numbered; a
  worker that is in the list is running, its channel is \<open>wk_queue\<close>. What one task does
  between two awaits is one definition: enqueueing, receiving a message, the flush timer,
  the exit when the last sender is gone, and the scan of the garbage collector. The step
  relation \<open>store_step\<close> interleaves them.

  The pipeline run and the state repository are parameters acting on the rest of the
  world \<open>'w\<close>; serialisation to JSON is a parameter.
\<close>

section \<open>State\<close>

datatype enqueue_error = QueueFull string

record handle =
  hd_tx :: nat
  hd_last_active :: nat

record worker =
  wk_key :: route_key
  wk_queue :: "message list"
  wk_conv :: conversation

record conv_store =
  cs_per_route_buffer :: nat
  cs_reorder_window_ms :: "64 word"
  cs_routes :: "(route_key \<times> handle) list"
  cs_workers :: "(nat \<times> worker) list"
  cs_next :: nat

definition conv_store_new :: "nat \<Rightarrow> 64 word \<Rightarrow> conv_store" where
  "conv_store_new bufsz window =
     \<lparr> cs_per_route_buffer = bufsz, cs_reorder_window_ms = window,
       cs_routes = [], cs_workers = [], cs_next = 0 \<rparr>"

record 'w cs_deps =
  cd_upsert :: "(string \<Rightarrow> string \<Rightarrow> int \<Rightarrow> 'w \<Rightarrow> (repo_error + unit) \<times> 'w) option"
  cd_key_json :: "route_key \<Rightarrow> string + string"
  cd_state_json :: "conversation_state \<Rightarrow> string + string"
  cd_now_s :: "'w \<Rightarrow> int \<times> 'w"
  cd_pipeline :: "(message \<Rightarrow> conversation_snapshot \<Rightarrow> 'w \<Rightarrow> 'w) option"

section \<open>Operations\<close>

definition persist_state :: "'w cs_deps \<Rightarrow> route_key \<Rightarrow> conversation_state \<Rightarrow> 'w \<Rightarrow> 'w" where
  "persist_state dp key st w =
     (case cd_upsert dp of
        None \<Rightarrow> w
      | Some upsert \<Rightarrow>
          (case (cd_key_json dp key, cd_state_json dp st) of
             (Ok k, Ok j) \<Rightarrow> (let (now, w1) = cd_now_s dp w in snd (upsert k j now w1))
           | _ \<Rightarrow> w))"

text \<open>Maps with unique keys, as association lists.\<close>

definition put :: "'k \<Rightarrow> 'v \<Rightarrow> ('k \<times> 'v) list \<Rightarrow> ('k \<times> 'v) list" where
  "put k v t = (k, v) # filter (\<lambda>p. fst p \<noteq> k) t"

definition alter :: "'k \<Rightarrow> ('v \<Rightarrow> 'v) \<Rightarrow> ('k \<times> 'v) list \<Rightarrow> ('k \<times> 'v) list" where
  "alter k f t = map (\<lambda>(k', v). (k', if k' = k then f v else v)) t"

definition spawn_worker :: "nat \<Rightarrow> route_key \<Rightarrow> conv_store \<Rightarrow> nat \<times> conv_store" where
  "spawn_worker now key s =
     (cs_next s,
      s\<lparr>cs_workers := (cs_next s, \<lparr> wk_key = key, wk_queue = [],
            wk_conv = conversation_new key (cs_reorder_window_ms s) now \<rparr>) # cs_workers s,
        cs_next := Suc (cs_next s)\<rparr>)"

definition insert_handle :: "nat \<Rightarrow> route_key \<Rightarrow> nat \<Rightarrow> conv_store \<Rightarrow> conv_store" where
  "insert_handle now key tx s =
     s\<lparr>cs_routes := put key \<lparr> hd_tx = tx, hd_last_active = now \<rparr> (cs_routes s)\<rparr>"

definition get_or_create_tx ::
  "'w cs_deps \<Rightarrow> nat \<Rightarrow> route_key \<Rightarrow> conv_store \<times> 'w \<Rightarrow> nat \<times> conv_store \<times> 'w" where
  "get_or_create_tx dp now key sw =
     (let (s, w) = sw in
      case map_of (cs_routes s) key of
        Some h \<Rightarrow> (hd_tx h, s, w)
      | None \<Rightarrow>
          (let (tx, s1) = spawn_worker now key s
           in (tx, insert_handle now key tx s1, persist_state dp key Active w)))"

datatype try_send_result = Delivered conv_store | ChannelFull | ChannelClosed

definition try_send :: "nat \<Rightarrow> message \<Rightarrow> conv_store \<Rightarrow> try_send_result" where
  "try_send tx msg s =
     (case map_of (cs_workers s) tx of
        None \<Rightarrow> ChannelClosed
      | Some wk \<Rightarrow>
          if length (wk_queue wk) < cs_per_route_buffer s
          then Delivered (s\<lparr>cs_workers := alter tx (\<lambda>wk. wk\<lparr>wk_queue := wk_queue wk @ [msg]\<rparr>) (cs_workers s)\<rparr>)
          else ChannelFull)"

text \<open>\<open>enqueue\<close>; the answer of the second \<open>try_send\<close> is discarded.\<close>

definition enqueue ::
  "'w cs_deps \<Rightarrow> nat \<Rightarrow> route_key \<Rightarrow> message \<Rightarrow> conv_store \<times> 'w \<Rightarrow>
   (enqueue_error + unit) \<times> conv_store \<times> 'w" where
  "enqueue dp now key msg sw =
     (let (tx, s1, w1) = get_or_create_tx dp now key sw in
      case try_send tx msg s1 of
        Delivered s2 \<Rightarrow> (Ok (), s2, w1)
      | ChannelFull \<Rightarrow> (Err (QueueFull (m_id msg)), s1, w1)
      | ChannelClosed \<Rightarrow>
          (let (tx', s2) = spawn_worker now key s1;
               s3 = insert_handle now key tx' s2;
               w3 = persist_state dp key Active w1
           in (Ok (), (case try_send tx' msg s3 of Delivered s4 \<Rightarrow> s4 | _ \<Rightarrow> s3), w3)))"

definition active_conversations :: "conv_store \<Rightarrow> nat" where
  "active_conversations s = length (cs_routes s)"

text \<open>Each released message runs through the pipeline, one after the other.\<close>

definition run_pipeline :: "'w cs_deps \<Rightarrow> nat \<Rightarrow> conversation \<Rightarrow> message list \<Rightarrow> 'w \<Rightarrow> 'w" where
  "run_pipeline dp now c ms w =
     (case cd_pipeline dp of
        None \<Rightarrow> w
      | Some run \<Rightarrow> fold (\<lambda>m. run m (from_conversation now c 0)) ms w)"

text \<open>
  The worker's \<open>rx.recv()\<close> branch on a message: \<open>None\<close> if there is nothing to receive.
  The result names the messages that were processed.
\<close>

definition worker_recv ::
  "'w cs_deps \<Rightarrow> nat \<Rightarrow> int \<Rightarrow> nat \<Rightarrow> conv_store \<times> 'w \<Rightarrow> (message list \<times> conv_store \<times> 'w) option" where
  "worker_recv dp now now_ms tx sw =
     (let (s, w) = sw in
      case map_of (cs_workers s) tx of
        None \<Rightarrow> None
      | Some wk \<Rightarrow>
          (case wk_queue wk of
             [] \<Rightarrow> None
           | msg # rest \<Rightarrow>
               (let (ordered, c) = ingest now now_ms msg (touch now (wk_conv wk));
                    w1 = run_pipeline dp now c ordered w;
                    s1 = s\<lparr>cs_workers := alter tx (\<lambda>wk. wk\<lparr>wk_queue := rest, wk_conv := c\<rparr>) (cs_workers s),
                           cs_routes := alter (wk_key wk) (\<lambda>h. h\<lparr>hd_last_active := now\<rparr>) (cs_routes s)\<rparr>
                in Some (ordered, s1, w1))))"

text \<open>The flush timer.\<close>

definition worker_timer ::
  "'w cs_deps \<Rightarrow> nat \<Rightarrow> nat \<Rightarrow> conv_store \<times> 'w \<Rightarrow> (message list \<times> conv_store \<times> 'w) option" where
  "worker_timer dp now tx sw =
     (let (s, w) = sw in
      case map_of (cs_workers s) tx of
        None \<Rightarrow> None
      | Some wk \<Rightarrow>
          (let (pending, c) = drain (wk_conv wk)
           in Some (pending, s\<lparr>cs_workers := alter tx (\<lambda>wk. wk\<lparr>wk_conv := c\<rparr>) (cs_workers s)\<rparr>,
                    run_pipeline dp now c pending w)))"

text \<open>
  The \<open>None\<close> branch: the channel is empty and no handle holds its sender. The drained
  messages are logged, not processed; the result names them.
\<close>

definition worker_exit :: "nat \<Rightarrow> conv_store \<Rightarrow> (message list \<times> conv_store) option" where
  "worker_exit tx s =
     (case map_of (cs_workers s) tx of
        None \<Rightarrow> None
      | Some wk \<Rightarrow>
          if wk_queue wk = [] \<and> tx \<notin> (hd_tx \<circ> snd) ` set (cs_routes s)
          then Some (fst (drain (wk_conv wk)), s\<lparr>cs_workers := filter (\<lambda>p. fst p \<noteq> tx) (cs_workers s)\<rparr>)
          else None)"

text \<open>\<open>collect_idle\<close>: \<open>Duration::from_secs\<close> against the age of the handle in milliseconds.\<close>

definition collect_idle ::
  "'w cs_deps \<Rightarrow> nat \<Rightarrow> nat \<Rightarrow> conv_store \<times> 'w \<Rightarrow> nat \<times> conv_store \<times> 'w" where
  "collect_idle dp now idle_timeout_secs sw =
     (let (s, w) = sw;
          idle = (\<lambda>p. idle_timeout_secs * 1000 < now - hd_last_active (snd p));
          reclaimed = map fst (filter idle (cs_routes s));
          s1 = s\<lparr>cs_routes := filter (\<lambda>p. \<not> idle p) (cs_routes s)\<rparr>;
          w1 = fold (\<lambda>key. persist_state dp key Closed) reclaimed w
      in (length reclaimed, s1, w1))"

section \<open>Interleavings\<close>

text \<open>What a step did: accepted a message, processed some, or dropped some at an exit.\<close>

datatype store_event = Accepted message | Rejected message | Processed "message list" | Exited "message list" | Collected

inductive store_step :: "'w cs_deps \<Rightarrow> conv_store \<times> 'w \<Rightarrow> store_event \<Rightarrow> conv_store \<times> 'w \<Rightarrow> bool" for dp where
  accept: "enqueue dp now (m_route_key m) m sw = (Ok (), sw') \<Longrightarrow> store_step dp sw (Accepted m) sw'"
| reject: "enqueue dp now (m_route_key m) m sw = (Err er, sw') \<Longrightarrow> store_step dp sw (Rejected m) sw'"
| recv: "worker_recv dp now now_ms tx sw = Some (ms, sw') \<Longrightarrow> store_step dp sw (Processed ms) sw'"
| timer: "worker_timer dp now tx sw = Some (ms, sw') \<Longrightarrow> store_step dp sw (Processed ms) sw'"
| exit: "worker_exit tx s = Some (ms, s') \<Longrightarrow> store_step dp (s, w) (Exited ms) (s', w)"
| gc: "collect_idle dp now secs sw = (n, sw') \<Longrightarrow> store_step dp sw Collected sw'"

inductive store_run :: "'w cs_deps \<Rightarrow> conv_store \<times> 'w \<Rightarrow> store_event list \<Rightarrow> conv_store \<times> 'w \<Rightarrow> bool" for dp where
  nil: "store_run dp sw [] sw"
| snoc: "store_run dp sw evs sw1 \<Longrightarrow> store_step dp sw1 ev sw2 \<Longrightarrow> store_run dp sw (evs @ [ev]) sw2"

inductive_cases store_stepE: "store_step dp sw ev sw'"

section \<open>Invariant\<close>

definition worker_msgs :: "worker \<Rightarrow> message multiset" where
  "worker_msgs wk = mset (wk_queue wk) + buffered (cv_window (wk_conv wk))"

text \<open>The messages accepted and not yet processed.\<close>

definition held :: "conv_store \<Rightarrow> message multiset" where
  "held s = sum_list (map (worker_msgs \<circ> snd) (cs_workers s))"

definition worker_ok :: "nat \<Rightarrow> worker \<Rightarrow> bool" where
  "worker_ok bufsz wk \<longleftrightarrow> length (wk_queue wk) \<le> bufsz \<and> window_ok (cv_window (wk_conv wk)) \<and>
     (\<forall>m \<in># worker_msgs wk. m_route_key m = wk_key wk)"

definition store_ok :: "conv_store \<Rightarrow> bool" where
  "store_ok s \<longleftrightarrow> 0 < cs_per_route_buffer s \<and>
     distinct (map fst (cs_workers s)) \<and> distinct (map fst (cs_routes s)) \<and>
     (\<forall>(i, wk) \<in> set (cs_workers s). i < cs_next s \<and> worker_ok (cs_per_route_buffer s) wk) \<and>
     (\<forall>(k, h) \<in> set (cs_routes s). \<exists>wk. map_of (cs_workers s) (hd_tx h) = Some wk \<and> wk_key wk = k)"

lemma store_okD:
  assumes "store_ok s"
  shows "0 < cs_per_route_buffer s" "distinct (map fst (cs_workers s))" "distinct (map fst (cs_routes s))"
    and "\<And>i wk. map_of (cs_workers s) i = Some wk \<Longrightarrow> i < cs_next s \<and> worker_ok (cs_per_route_buffer s) wk"
    and "\<And>k h. map_of (cs_routes s) k = Some h \<Longrightarrow> \<exists>wk. map_of (cs_workers s) (hd_tx h) = Some wk \<and> wk_key wk = k"
  using assms unfolding store_ok_def by (auto dest!: map_of_SomeD)

lemma map_of_alter: "map_of (alter k f t) i = (if i = k then map_option f (map_of t i) else map_of t i)"
  by (induction t) (auto simp: alter_def)

lemma alter_keys [simp]: "map fst (alter k f t) = map fst t"
  by (induction t) (auto simp: alter_def)

lemma distinct_put: "distinct (map fst t) \<Longrightarrow> distinct (map fst (put k v t))"
  by (auto simp: put_def distinct_map_filter)

lemma map_of_drop: "map_of (filter (\<lambda>p. fst p \<noteq> k) t) i = (if i = k then None else map_of t i)"
  by (induction t) auto

lemma alter_absent: "k \<notin> fst ` set t \<Longrightarrow> alter k f t = t"
  by (induction t) (auto simp: alter_def)

lemma sum_alter:
  fixes F :: "'v \<Rightarrow> 'm :: comm_monoid_add"
  assumes "distinct (map fst t)" and "map_of t k = Some v"
  shows "sum_list (map (F \<circ> snd) (alter k f t)) + F v = sum_list (map (F \<circ> snd) t) + F (f v)"
  using assms
proof (induction t)
  case (Cons p t)
  obtain i u where p: "p = (i, u)" by force
  show ?case
  proof (cases "i = k")
    case True
    then have "k \<notin> fst ` set t" using Cons.prems(1) p by auto
    then have "alter k f (p # t) = (i, f u) # t"
      using alter_absent [of k t f] True p by (simp add: alter_def)
    with True p Cons.prems(2) show ?thesis by (simp add: ac_simps)
  next
    case False
    then have "alter k f (p # t) = p # alter k f t" by (simp add: alter_def p)
    with Cons False p show ?thesis by (simp add: ac_simps)
  qed
qed simp

lemma sum_drop:
  fixes F :: "'v \<Rightarrow> 'm :: comm_monoid_add"
  assumes "distinct (map fst t)" and "map_of t k = Some v"
  shows "sum_list (map (F \<circ> snd) (filter (\<lambda>p. fst p \<noteq> k) t)) + F v = sum_list (map (F \<circ> snd) t)"
  using assms
proof (induction t)
  case (Cons p t)
  show ?case
  proof (cases "fst p = k")
    case True
    then have "filter (\<lambda>p. fst p \<noteq> k) t = t" using Cons.prems(1) by (auto simp: filter_id_conv image_iff)
    with True Cons.prems(2) show ?thesis by (cases p) (simp add: ac_simps)
  next
    case False
    with Cons show ?thesis by (cases p) (simp add: ac_simps)
  qed
qed simp

text \<open>Changing one worker: the invariant and the held messages.\<close>

lemma alter_worker_ok:
  assumes "store_ok s" and "map_of (cs_workers s) tx = Some wk"
    and "worker_ok (cs_per_route_buffer s) (f wk)" and "wk_key (f wk) = wk_key wk"
  shows "store_ok (s\<lparr>cs_workers := alter tx f (cs_workers s)\<rparr>)"
proof -
  note ok = store_okD [OF assms(1)]
  have "i < cs_next s \<and> worker_ok (cs_per_route_buffer s) u"
    if "(i, u) \<in> set (alter tx f (cs_workers s))" for i u
  proof -
    have "map_of (alter tx f (cs_workers s)) i = Some u" using that ok(2) by (intro map_of_is_SomeI) simp_all
    then show ?thesis using ok(4) assms(2,3) by (auto simp: map_of_alter split: if_splits)
  qed
  moreover have "\<exists>u. map_of (alter tx f (cs_workers s)) (hd_tx h) = Some u \<and> wk_key u = k"
    if "(k, h) \<in> set (cs_routes s)" for k h
    using ok(5) [OF map_of_is_SomeI [OF ok(3) that]] assms(2,4) by (auto simp: map_of_alter)
  ultimately show ?thesis using ok(1-3) by (auto simp: store_ok_def)
qed

lemma alter_worker_held:
  assumes "store_ok s" and "map_of (cs_workers s) tx = Some wk"
  shows "held (s\<lparr>cs_workers := alter tx f (cs_workers s)\<rparr>) + worker_msgs wk = held s + worker_msgs (f wk)"
  using sum_alter [OF store_okD(2) [OF assms(1)] assms(2), of worker_msgs f] by (simp add: held_def)

lemma routes_held [simp]: "held (s\<lparr>cs_routes := r\<rparr>) = held s"
  by (simp add: held_def)

lemma alter_routes_ok:
  assumes "store_ok s" and "\<And>h. hd_tx (f h) = hd_tx h"
  shows "store_ok (s\<lparr>cs_routes := alter k f (cs_routes s)\<rparr>)"
  using assms unfolding store_ok_def alter_def by (force simp: comp_def split_beta)

lemma filter_routes_ok: "store_ok s \<Longrightarrow> store_ok (s\<lparr>cs_routes := filter p (cs_routes s)\<rparr>)"
  unfolding store_ok_def by (auto simp: distinct_map_filter)

section \<open>Enqueueing\<close>

lemma spawn_worker_ok:
  assumes "store_ok s" and "spawn_worker now key s = (tx, s1)"
  shows "store_ok s1 \<and> held s1 = held s \<and> cs_routes s1 = cs_routes s \<and>
    (\<exists>wk. map_of (cs_workers s1) tx = Some wk \<and> wk_key wk = key \<and> wk_queue wk = [])"
proof -
  let ?wk = "\<lparr> wk_key = key, wk_queue = [], wk_conv = conversation_new key (cs_reorder_window_ms s) now \<rparr>"
  have s1: "tx = cs_next s" "s1 = s\<lparr>cs_workers := (tx, ?wk) # cs_workers s, cs_next := Suc tx\<rparr>"
    using assms(2) by (auto simp: spawn_worker_def)
  have fresh: "map_of (cs_workers s) tx = None"
    using store_okD(4) [OF assms(1), of tx] s1(1) by (cases "map_of (cs_workers s) tx") auto
  have empty: "worker_msgs ?wk = {#}"
    by (simp add: worker_msgs_def conversation_new_def buffered_def window_new_def)
  have "worker_ok (cs_per_route_buffer s) ?wk"
    unfolding worker_ok_def empty by (simp add: conversation_new_def)
  moreover have "tx \<notin> fst ` set (cs_workers s)" using fresh by (simp add: map_of_eq_None_iff)
  ultimately have "store_ok s1"
    using assms(1) s1 fresh unfolding store_ok_def by fastforce
  with s1 empty show ?thesis by (simp add: held_def)
qed

lemma insert_handle_ok:
  assumes "store_ok s" and "map_of (cs_workers s) tx = Some wk" and "wk_key wk = key"
  shows "store_ok (insert_handle now key tx s) \<and> held (insert_handle now key tx s) = held s \<and>
    cs_workers (insert_handle now key tx s) = cs_workers s"
  using assms distinct_put [of "cs_routes s" key]
  unfolding store_ok_def insert_handle_def by (auto simp: put_def)

lemma get_or_create_ok:
  assumes "store_ok s" and "get_or_create_tx dp now key (s, w) = (tx, s1, w1)"
  shows "store_ok s1 \<and> held s1 = held s \<and> (\<exists>wk. map_of (cs_workers s1) tx = Some wk \<and> wk_key wk = key)"
proof (cases "map_of (cs_routes s) key")
  case (Some h)
  with assms(2) store_okD(5) [OF assms(1) Some] assms(1) show ?thesis by (auto simp: get_or_create_tx_def)
next
  case None
  obtain i s0 where sp: "spawn_worker now key s = (i, s0)" by force
  with None assms(2) have eq: "tx = i" "s1 = insert_handle now key i s0"
    by (auto simp: get_or_create_tx_def)
  note ok = spawn_worker_ok [OF assms(1) sp]
  then obtain wk where wk: "map_of (cs_workers s0) i = Some wk" "wk_key wk = key" by blast
  have "store_ok s0" using ok by simp
  from insert_handle_ok [OF this wk, of now] ok wk eq show ?thesis by simp
qed

lemma try_send_delivered:
  assumes "store_ok s" and "map_of (cs_workers s) tx = Some wk" and "wk_key wk = m_route_key m"
    and "try_send tx m s = Delivered s1"
  shows "store_ok s1 \<and> held s1 = add_mset m (held s)"
proof -
  let ?f = "\<lambda>wk. wk\<lparr>wk_queue := wk_queue wk @ [m]\<rparr>"
  from assms(2,4) have lt: "length (wk_queue wk) < cs_per_route_buffer s"
    and s1: "s1 = s\<lparr>cs_workers := alter tx ?f (cs_workers s)\<rparr>"
    by (auto simp: try_send_def split: if_splits)
  have msgs: "worker_msgs (?f wk) = add_mset m (worker_msgs wk)" by (simp add: worker_msgs_def)
  have "worker_ok (cs_per_route_buffer s) (?f wk)"
    using store_okD(4) [OF assms(1,2)] lt assms(3) unfolding worker_ok_def msgs by auto
  then have "store_ok s1" unfolding s1 by (intro alter_worker_ok [OF assms(1,2)]) simp_all
  moreover have "held s1 + worker_msgs wk = held s + worker_msgs (?f wk)"
    unfolding s1 by (rule alter_worker_held [OF assms(1,2)])
  ultimately show ?thesis unfolding msgs by simp
qed

text \<open>
  Enqueueing under the message's own key: accepted means held, rejected means that
  nothing changed but a worker that may have been started.
\<close>

lemma enqueue_effect:
  assumes "store_ok s" and "enqueue dp now (m_route_key m) m (s, w) = (r, s', w')"
  shows "store_ok s' \<and> (case r of Ok _ \<Rightarrow> held s' = add_mset m (held s)
    | Err er \<Rightarrow> er = QueueFull (m_id m) \<and> held s' = held s)"
proof -
  obtain tx s1 w1 where g: "get_or_create_tx dp now (m_route_key m) (s, w) = (tx, s1, w1)"
    using prod_cases3 by blast
  note gc = get_or_create_ok [OF assms(1) g]
  then obtain wk where wk: "store_ok s1" "map_of (cs_workers s1) tx = Some wk" "wk_key wk = m_route_key m" by blast
  show ?thesis
  proof (cases "try_send tx m s1")
    case (Delivered s2)
    with try_send_delivered [OF wk Delivered] gc assms(2) g show ?thesis by (auto simp: enqueue_def)
  next
    case ChannelFull
    with gc assms(2) g show ?thesis by (auto simp: enqueue_def)
  next
    case ChannelClosed
    with wk(2) have False by (auto simp: try_send_def split: if_splits)
    then show ?thesis ..
  qed
qed

section \<open>Workers\<close>

lemma ingest_window:
  assumes "ingest now now_ms m c = (ready, c')"
  shows "window_insert m now_ms (cv_window c) = (ready, cv_window c')"
  using assms by (auto simp: ingest_def touch_def Let_def split: prod.splits if_splits)

lemma touch_window [simp]: "cv_window (touch now c) = cv_window c"
  by (simp add: touch_def Let_def)

lemma subset_filter: "add_mset x (filter_mset P M) \<subseteq># add_mset x M"
  by simp

text \<open>A worker's turn on a received message.\<close>

lemma worker_recv_effect:
  assumes "store_ok s" and "worker_recv dp now now_ms tx (s, w) = Some (ms, s', w')"
  shows "store_ok s' \<and> mset ms + held s' \<subseteq># held s \<and> sorted_wrt (<) (map sort_key_of ms) \<and>
    (\<exists>k. \<forall>m \<in> set ms. m_route_key m = k)"
proof -
  from assms(2) obtain wk m rest c where wk: "map_of (cs_workers s) tx = Some wk" "wk_queue wk = m # rest"
    and ing: "ingest now now_ms m (touch now (wk_conv wk)) = (ms, c)"
    and s': "s' = s\<lparr>cs_workers := alter tx (\<lambda>wk. wk\<lparr>wk_queue := rest, wk_conv := c\<rparr>) (cs_workers s),
                    cs_routes := alter (wk_key wk) (\<lambda>h. h\<lparr>hd_last_active := now\<rparr>) (cs_routes s)\<rparr>"
    by (auto simp: worker_recv_def Let_def split: option.splits list.splits prod.splits)
  let ?f = "\<lambda>wk. wk\<lparr>wk_queue := rest, wk_conv := c\<rparr>"
  have ok: "worker_ok (cs_per_route_buffer s) wk" using store_okD(4) [OF assms(1) wk(1)] by simp
  then have win: "window_ok (cv_window (wk_conv wk))" by (simp add: worker_ok_def)
  have ins: "window_insert m now_ms (cv_window (wk_conv wk)) = (ms, cv_window c)"
    using ingest_window [OF ing] by simp
  have sub: "mset ms + worker_msgs (?f wk) \<subseteq># worker_msgs wk"
    using window_insert_mset [OF win ins] wk(2)
    by (simp add: worker_msgs_def add.assoc [symmetric] union_mset_add_mset_right)
  then have "set_mset (worker_msgs (?f wk)) \<subseteq> set_mset (worker_msgs wk)"
    and ms: "set ms \<subseteq> set_mset (worker_msgs wk)"
    by (metis mset_subset_eq_add_right set_mset_mono subset_mset.order_trans)
      (metis mset_subset_eq_add_left set_mset_mono set_mset_mset subset_mset.order_trans sub)
  with ok window_insert_ok [OF win ins] wk(2) have "worker_ok (cs_per_route_buffer s) (?f wk)"
    by (auto simp: worker_ok_def)
  then have "store_ok (s\<lparr>cs_workers := alter tx ?f (cs_workers s)\<rparr>)"
    by (intro alter_worker_ok [OF assms(1) wk(1)]) simp_all
  then have "store_ok s'"
    using alter_routes_ok [of "s\<lparr>cs_workers := alter tx ?f (cs_workers s)\<rparr>" "\<lambda>h. h\<lparr>hd_last_active := now\<rparr>" "wk_key wk"]
    by (simp add: s')
  moreover have "mset ms + held s' \<subseteq># held s"
  proof -
    have "held s' + worker_msgs wk = held s + worker_msgs (?f wk)"
      using alter_worker_held [OF assms(1) wk(1), of ?f] by (simp add: s')
    then have "mset ms + held s' + worker_msgs wk = held s + (mset ms + worker_msgs (?f wk))"
      by (simp add: ac_simps)
    also have "\<dots> \<subseteq># held s + worker_msgs wk" using sub by simp
    finally show ?thesis by simp
  qed
  moreover have "\<forall>m \<in> set ms. m_route_key m = wk_key wk" using ms ok by (auto simp: worker_ok_def)
  ultimately show ?thesis using window_insert_sorted [OF win ins] by blast
qed

text \<open>Draining a worker's window, by the timer or at the exit.\<close>

lemma drain_effect:
  assumes "drain c = (ms, c')"
  shows "mset ms = buffered (cv_window c)" "buffered (cv_window c') = {#}"
    and "window_ok (cv_window c) \<Longrightarrow> window_ok (cv_window c') \<and> sorted_wrt (<) (map sort_key_of ms)"
  using assms flush_all_sorted [of "cv_window c"] flush_all_ok [of "cv_window c"]
  by (auto simp: drain_def flush_all_def buffered_def split: prod.splits)

lemma worker_timer_effect:
  assumes "store_ok s" and "worker_timer dp now tx (s, w) = Some (ms, s', w')"
  shows "store_ok s' \<and> mset ms + held s' = held s \<and> sorted_wrt (<) (map sort_key_of ms) \<and>
    (\<exists>k. \<forall>m \<in> set ms. m_route_key m = k)"
proof -
  from assms(2) obtain wk c where wk: "map_of (cs_workers s) tx = Some wk"
    and dr: "drain (wk_conv wk) = (ms, c)"
    and s': "s' = s\<lparr>cs_workers := alter tx (\<lambda>wk. wk\<lparr>wk_conv := c\<rparr>) (cs_workers s)\<rparr>"
    by (auto simp: worker_timer_def Let_def split: option.splits prod.splits)
  let ?f = "\<lambda>wk. wk\<lparr>wk_conv := c\<rparr>"
  have ok: "worker_ok (cs_per_route_buffer s) wk" using store_okD(4) [OF assms(1) wk] by simp
  then have win: "window_ok (cv_window (wk_conv wk))" by (simp add: worker_ok_def)
  have msgs: "worker_msgs wk = mset ms + worker_msgs (?f wk)"
    using drain_effect(1,2) [OF dr] by (simp add: worker_msgs_def)
  have "worker_ok (cs_per_route_buffer s) (?f wk)"
    using ok drain_effect(3) [OF dr win] unfolding worker_ok_def msgs by simp
  then have "store_ok s'" unfolding s' by (intro alter_worker_ok [OF assms(1) wk]) simp_all
  moreover have "held s' + worker_msgs wk = held s + worker_msgs (?f wk)"
    unfolding s' by (rule alter_worker_held [OF assms(1) wk])
  then have "mset ms + held s' = held s" unfolding msgs by (simp add: ac_simps)
  moreover have "\<forall>m \<in> set ms. m_route_key m = wk_key wk" using ok unfolding worker_ok_def msgs by auto
  ultimately show ?thesis using drain_effect(3) [OF dr win] by blast
qed

lemma worker_exit_effect:
  assumes "store_ok s" and "worker_exit tx s = Some (ms, s')"
  shows "store_ok s' \<and> mset ms + held s' = held s"
proof -
  from assms(2) obtain wk where wk: "map_of (cs_workers s) tx = Some wk" "wk_queue wk = []"
    and tx: "tx \<notin> (hd_tx \<circ> snd) ` set (cs_routes s)"
    and ms: "ms = fst (drain (wk_conv wk))"
    and s': "s' = s\<lparr>cs_workers := filter (\<lambda>p. fst p \<noteq> tx) (cs_workers s)\<rparr>"
    by (auto simp: worker_exit_def split: option.splits if_splits)
  have "mset ms = worker_msgs wk"
    using drain_effect(1) [OF surjective_pairing, of "wk_conv wk"] wk(2) ms by (simp add: worker_msgs_def)
  moreover have "held s' + worker_msgs wk = held s"
    using sum_drop [OF store_okD(2) [OF assms(1)] wk(1), of worker_msgs] by (simp add: held_def s')
  moreover have "\<exists>u. map_of (filter (\<lambda>p. fst p \<noteq> tx) (cs_workers s)) (hd_tx h) = Some u \<and> wk_key u = k"
    if "(k, h) \<in> set (cs_routes s)" for k h
  proof -
    have "hd_tx h \<noteq> tx" using tx that by force
    then show ?thesis
      using store_okD(5) [OF assms(1) map_of_is_SomeI [OF store_okD(3) [OF assms(1)] that]]
      by (simp add: map_of_drop)
  qed
  then have "store_ok s'"
    using assms(1) unfolding store_ok_def s' by (auto simp: distinct_map_filter)
  ultimately show ?thesis by (simp add: ac_simps)
qed

lemma collect_idle_effect:
  assumes "store_ok s" and "collect_idle dp now secs (s, w) = (n, s', w')"
  shows "store_ok s' \<and> held s' = held s"
  using assms filter_routes_ok [OF assms(1)] by (auto simp: collect_idle_def Let_def)

section \<open>Runs\<close>

fun accepted :: "store_event list \<Rightarrow> message multiset" where
  "accepted [] = {#}"
| "accepted (Accepted m # evs) = add_mset m (accepted evs)"
| "accepted (_ # evs) = accepted evs"

fun processed :: "store_event list \<Rightarrow> message multiset" where
  "processed [] = {#}"
| "processed (Processed ms # evs) = mset ms + processed evs"
| "processed (_ # evs) = processed evs"

fun exited :: "store_event list \<Rightarrow> message multiset" where
  "exited [] = {#}"
| "exited (Exited ms # evs) = mset ms + exited evs"
| "exited (_ # evs) = exited evs"

lemma event_append [simp]:
  "accepted (xs @ ys) = accepted xs + accepted ys"
  "processed (xs @ ys) = processed xs + processed ys"
  "exited (xs @ ys) = exited xs + exited ys"
  by (induction xs rule: accepted.induct; simp)+

lemma store_step_effect:
  assumes "store_step dp sw ev sw'" and "store_ok (fst sw)"
  shows "store_ok (fst sw') \<and>
    processed [ev] + exited [ev] + held (fst sw') \<subseteq># accepted [ev] + held (fst sw)"
  using assms
proof (induction rule: store_step.induct)
  case (accept now m sw sw')
  obtain s w s' w' where sw: "sw = (s, w)" "sw' = (s', w')" by (cases sw; cases sw') blast
  from enqueue_effect [of s dp now m w] accept sw show ?case by auto
next
  case (reject now m sw er sw')
  obtain s w s' w' where sw: "sw = (s, w)" "sw' = (s', w')" by (cases sw; cases sw') blast
  from enqueue_effect [of s dp now m w] reject sw show ?case by auto
next
  case (recv now now_ms tx sw ms sw')
  obtain s w s' w' where sw: "sw = (s, w)" "sw' = (s', w')" by (cases sw; cases sw') blast
  from worker_recv_effect [of s dp now now_ms tx w ms s' w'] recv sw show ?case by simp
next
  case (timer now tx sw ms sw')
  obtain s w s' w' where sw: "sw = (s, w)" "sw' = (s', w')" by (cases sw; cases sw') blast
  from worker_timer_effect [of s dp now tx w ms s' w'] timer sw show ?case by simp
next
  case (exit tx s ms s' w)
  from worker_exit_effect [of s tx ms s'] exit show ?case by simp
next
  case (gc now secs sw n sw')
  obtain s w s' w' where sw: "sw = (s, w)" "sw' = (s', w')" by (cases sw; cases sw') blast
  from collect_idle_effect [of s dp now secs w n s' w'] gc sw show ?case by simp
qed

lemma store_run_effect:
  assumes "store_run dp sw evs sw'" and "store_ok (fst sw)"
  shows "store_ok (fst sw') \<and>
    processed evs + exited evs + held (fst sw') \<subseteq># accepted evs + held (fst sw)"
  using assms
proof (induction rule: store_run.induct)
  case (snoc sw evs sw1 ev sw2)
  then have ok: "store_ok (fst sw1)"
    and IH: "processed evs + exited evs + held (fst sw1) \<subseteq># accepted evs + held (fst sw)" by auto
  note step = store_step_effect [OF snoc.hyps(2) ok]
  have "(processed evs + exited evs) + (processed [ev] + exited [ev] + held (fst sw2))
      \<subseteq># (processed evs + exited evs) + (accepted [ev] + held (fst sw1))"
    using step by (intro subset_mset.add_left_mono) simp
  also have "\<dots> = accepted [ev] + (processed evs + exited evs + held (fst sw1))" by (simp add: ac_simps)
  also have "\<dots> \<subseteq># accepted [ev] + (accepted evs + held (fst sw))" using IH by simp
  finally show ?case using step by (simp add: ac_simps)
qed simp

section \<open>The queue port\<close>

text \<open>What a client of \<open>ConversationQueue::enqueue\<close> may rely on.\<close>

locale conversation_queue =
  fixes enq :: "route_key \<Rightarrow> message \<Rightarrow> 'w \<Rightarrow> (enqueue_error + unit) \<times> 'w"
    and pending :: "'w \<Rightarrow> message multiset"
    and invar :: "'w \<Rightarrow> bool"
  assumes enq_law: "invar w \<Longrightarrow> enq (m_route_key m) m w = (r, w') \<Longrightarrow>
    invar w' \<and> (case r of Ok _ \<Rightarrow> pending w' = add_mset m (pending w)
      | Err er \<Rightarrow> er = QueueFull (m_id m) \<and> pending w' = pending w)"

interpretation cq: conversation_queue "enqueue dp now" "held \<circ> fst" "store_ok \<circ> fst" for dp now
proof unfold_locales
  fix w w' :: "conv_store \<times> 'a" and m r
  assume ok: "(store_ok \<circ> fst) w" and e: "enqueue dp now (m_route_key m) m w = (r, w')"
  obtain s x s' x' where w: "w = (s, x)" "w' = (s', x')" by (cases w; cases w') blast
  show "(store_ok \<circ> fst) w' \<and> (case r of Err er \<Rightarrow> er = QueueFull (m_id m) \<and> (held \<circ> fst) w' = (held \<circ> fst) w
      | Ok _ \<Rightarrow> (held \<circ> fst) w' = add_mset m ((held \<circ> fst) w))"
    using enqueue_effect [of s dp now m x r s' x'] ok e w by (auto split: sum.splits)
qed

section \<open>Properties\<close>

lemma conv_store_new_ok: "0 < b \<Longrightarrow> store_ok (conv_store_new b ms)"
  by (simp add: conv_store_new_def store_ok_def)

lemma conv_store_new_held [simp]: "held (conv_store_new b ms) = {#}"
  by (simp add: conv_store_new_def held_def)

text \<open>
  C5. Along every interleaving of enqueueing, workers, timers, exits and garbage
  collection, the messages processed, dropped at a worker's exit and still held are among
  the messages accepted, each as often as it was accepted: nothing is processed twice and
  nothing is invented. No channel exceeds its capacity, and every message a worker holds
  belongs to the worker's own conversation.
\<close>

theorem store_processes_at_most_once:
  assumes "store_run dp (conv_store_new b ms, w) evs (s, w')" and "0 < b"
  shows "processed evs + exited evs + held s \<subseteq># accepted evs \<and>
    (\<forall>(i, wk) \<in> set (cs_workers s). length (wk_queue wk) \<le> cs_per_route_buffer s \<and>
       (\<forall>m \<in># worker_msgs wk. m_route_key m = wk_key wk))"
proof -
  note run = store_run_effect [OF assms(1)]
  have "store_ok s" and "processed evs + exited evs + held s \<subseteq># accepted evs"
    using run conv_store_new_ok [OF assms(2)] by simp_all
  then show ?thesis by (auto simp: store_ok_def worker_ok_def)
qed

definition no_deps :: "unit cs_deps" where
  "no_deps = \<lparr> cd_upsert = None, cd_key_json = \<lambda>_. Err '''', cd_state_json = \<lambda>_. Err '''',
     cd_now_s = \<lambda>w. (0, w), cd_pipeline = None \<rparr>"

theorem store_processes_at_most_once_witness:
  "\<exists>s. store_run no_deps (conv_store_new 2 200, ()) [Accepted (sample_msg ''a'' 1000)] (s, ()) \<and>
       held s \<subseteq># {# sample_msg ''a'' 1000 #}"
proof -
  let ?m = "sample_msg ''a'' 1000"
  let ?e = "enqueue no_deps 5 (m_route_key ?m) ?m (conv_store_new 2 200, ())"
  have e: "?e = (Ok (), fst (snd ?e), ())"
    by (simp add: enqueue_def get_or_create_tx_def conv_store_new_def spawn_worker_def
        insert_handle_def try_send_def put_def Let_def persist_state_def no_deps_def)
  then have "store_step no_deps (conv_store_new 2 200, ()) (Accepted ?m) (fst (snd ?e), ())"
    by (rule store_step.accept)
  from store_run.snoc [OF store_run.nil this]
  have run: "store_run no_deps (conv_store_new 2 200, ()) [Accepted ?m] (fst (snd ?e), ())" by simp
  from store_processes_at_most_once [OF run] have "held (fst (snd ?e)) \<subseteq># {# ?m #}" by simp
  with run show ?thesis by blast
qed

text \<open>
  A worker's turn hands the pipeline messages of one conversation only, in strictly
  ascending sort-key order, and takes each of them out of what it holds.
\<close>

theorem worker_turn_in_order:
  assumes "store_ok s" and "worker_recv dp now now_ms tx (s, w) = Some (ms, s', w') \<or>
    worker_timer dp now tx (s, w) = Some (ms, s', w')"
  shows "store_ok s' \<and> sorted_wrt (<) (map sort_key_of ms) \<and> (\<exists>k. \<forall>m \<in> set ms. m_route_key m = k) \<and>
    mset ms + held s' \<subseteq># held s"
  using assms(2)
proof
  assume "worker_recv dp now now_ms tx (s, w) = Some (ms, s', w')"
  from worker_recv_effect [OF assms(1) this] show ?thesis by blast
next
  assume "worker_timer dp now tx (s, w) = Some (ms, s', w')"
  from worker_timer_effect [OF assms(1) this] show ?thesis by simp
qed

text \<open>A conversation that has been idle since time 0, with its worker waiting.\<close>

definition idle_store :: "route_key \<Rightarrow> conv_store" where
  "idle_store k = insert_handle 0 k 0 (snd (spawn_worker 0 k (conv_store_new 4 200)))"

lemma idle_store_ok: "store_ok (idle_store k)"
proof -
  let ?s = "snd (spawn_worker 0 k (conv_store_new 4 200))"
  have sp: "spawn_worker 0 k (conv_store_new 4 200) = (0, ?s)"
    by (simp add: spawn_worker_def conv_store_new_def)
  have "store_ok (conv_store_new 4 200)" by (rule conv_store_new_ok) simp
  note ok = spawn_worker_ok [OF this sp]
  then obtain wk where "map_of (cs_workers ?s) 0 = Some wk" "wk_key wk = k" by blast
  from insert_handle_ok [OF conjunct1 [OF ok] this] show ?thesis by (simp add: idle_store_def)
qed

theorem worker_turn_in_order_witness:
  "store_ok (fst (snd (the (worker_timer no_deps 9 0 (idle_store sample_key, ())))))"
proof -
  have "worker_timer no_deps 9 0 (idle_store sample_key, ()) =
      Some (fst (the (worker_timer no_deps 9 0 (idle_store sample_key, ()))),
        fst (snd (the (worker_timer no_deps 9 0 (idle_store sample_key, ())))), ())"
    by (simp add: worker_timer_def idle_store_def insert_handle_def spawn_worker_def conv_store_new_def split_beta Let_def)
  from worker_turn_in_order [OF idle_store_ok disjI2 [OF this]] show ?thesis by simp
qed

text \<open>
  Accepting a message does not refresh the conversation's activity, and an exiting
  worker only logs what its window holds. So for a conversation idle for longer than the
  timeout there is an interleaving in which a new message is accepted, the conversation
  is collected, and the worker exits with the message unprocessed.
\<close>

theorem idle_collection_loses_message:
  assumes "m_route_key m = k" and "sort_key_of m = 2000000"
  shows "\<exists>s1 s2 s3 s4 n.
    enqueue no_deps 2000000 k m (idle_store k, ()) = (Ok (), s1, ()) \<and>
    collect_idle no_deps 2000000 1800 (s1, ()) = (n, s2, ()) \<and> n = 1 \<and>
    worker_recv no_deps 2000000 2000000 0 (s2, ()) = Some ([], s3, ()) \<and>
    worker_exit 0 s3 = Some ([m], s4)"
  using assms
  by (simp add: idle_store_def insert_handle_def spawn_worker_def conv_store_new_def put_def enqueue_def
      get_or_create_tx_def try_send_def alter_def collect_idle_def Let_def worker_recv_def ingest_def
      touch_def conversation_new_def window_insert_def window_new_def bt_range_to_def
      i64_saturating_sub_def i64_min_def i64_max_def run_pipeline_def no_deps_def persist_state_def
      worker_exit_def drain_def flush_all_def)

theorem idle_collection_loses_message_witness:
  "\<exists>s3. worker_exit 0 s3 \<noteq> None \<and> fst (the (worker_exit 0 s3)) = [sample_msg ''late'' 2000000]"
proof -
  have "m_route_key (sample_msg ''late'' 2000000) = sample_key" "sort_key_of (sample_msg ''late'' 2000000) = 2000000"
    by (simp_all add: sample_simps)
  from idle_collection_loses_message [OF this] show ?thesis by force
qed

end
