(* ===== verification/Inbound.thy ===== *)
theory Inbound
  imports Conversation_Store Outbox_Store
begin

text \<open>
  The inbound path and the use cases that submit messages:
  \<open>src/application/inbox_processor.rs\<close>, \<open>deduplicate.rs\<close>, \<open>route_message.rs\<close>,
  \<open>send_message.rs\<close>, \<open>src/adapters/moka_dedup.rs\<close> and the loop \<open>inbound_router\<close> of
  \<open>src/infrastructure/runtime.rs\<close>.

  The crate \<open>moka\<close> is a parameter: \<open>get_with\<close> tells whether the closure that initialises an
  entry was run. JSON texts come from the parameter functions; \<open>to_string\<close> of these plain
  data types is total in the code's use (\<open>unwrap_or_default\<close> or an error branch).
\<close>

section \<open>Inbox\<close>

datatype inbox_result = InboxProcessed | InboxDuplicate

definition process_inbound ::
  "'w inbox_repo \<Rightarrow> ('w \<Rightarrow> int \<times> 'w) \<Rightarrow> (message \<Rightarrow> string) \<Rightarrow> message \<Rightarrow> 'w \<Rightarrow>
   (repo_error + inbox_result) \<times> 'w" where
  "process_inbound inbox now_s json msg w =
     (case ir_exists inbox (m_id msg) w of
        (Err er, w1) \<Rightarrow> (Err er, w1)
      | (Ok True, w1) \<Rightarrow> (Ok InboxDuplicate, w1)
      | (Ok False, w1) \<Rightarrow>
          (let (now, w2) = now_s w1;
               entry = inbox_entry_new (m_id msg) (as_str (rk_channel (m_route_key msg)))
                         (rk_conversation_id (m_route_key msg)) (json msg) now in
           case ir_insert inbox entry w2 of
             (Err er, w3) \<Rightarrow> (Err er, w3)
           | (Ok _, w3) \<Rightarrow>
               (case ir_mark_status inbox (m_id msg) IProcessing w3 of
                  (Err er, w4) \<Rightarrow> (Err er, w4)
                | (Ok _, w4) \<Rightarrow>
                    (case ir_mark_status inbox (m_id msg) IProcessed w4 of
                       (Err er, w5) \<Rightarrow> (Err er, w5)
                     | (Ok _, w5) \<Rightarrow> (Ok InboxProcessed, w5)))))"

section \<open>Deduplication and routing\<close>

type_synonym 'w dedup_cache = "string \<Rightarrow> string \<Rightarrow> 'w \<Rightarrow> bool \<times> 'w"

definition dedup_key :: "string \<Rightarrow> string \<Rightarrow> string" where
  "dedup_key channel msg_id = channel @ '':'' @ msg_id"

definition moka_check_and_set :: "(string \<Rightarrow> 'w \<Rightarrow> bool \<times> 'w) \<Rightarrow> 'w dedup_cache" where
  "moka_check_and_set get_with channel msg_id w = get_with (dedup_key channel msg_id) w"

definition deduplicate :: "'w dedup_cache \<Rightarrow> string \<Rightarrow> string \<Rightarrow> 'w \<Rightarrow> bool \<times> 'w" where
  "deduplicate cache channel msg_id w = cache channel msg_id w"

datatype route_outcome = Enqueued | RouteDuplicate | Dropped string

definition route_message ::
  "'w dedup_cache \<Rightarrow> (route_key \<Rightarrow> message \<Rightarrow> 'w \<Rightarrow> (enqueue_error + unit) \<times> 'w) \<Rightarrow> message \<Rightarrow> 'w \<Rightarrow>
   route_outcome \<times> 'w" where
  "route_message dedup enq msg w =
     (let (is_new, w1) = dedup (as_str (rk_channel (m_route_key msg))) (m_id msg) w in
      if \<not> is_new then (RouteDuplicate, w1)
      else (case enq (m_route_key msg) msg w1 of
              (Ok _, w2) \<Rightarrow> (Enqueued, w2)
            | (Err (QueueFull i), w2) \<Rightarrow> (Dropped i, w2)))"

text \<open>One turn of \<open>inbound_router\<close>: \<open>None\<close> when the message was not routed.\<close>

definition inbound_turn ::
  "'w inbox_repo \<Rightarrow> ('w \<Rightarrow> int \<times> 'w) \<Rightarrow> (message \<Rightarrow> string) \<Rightarrow> 'w dedup_cache \<Rightarrow>
   (route_key \<Rightarrow> message \<Rightarrow> 'w \<Rightarrow> (enqueue_error + unit) \<times> 'w) \<Rightarrow> message \<Rightarrow> 'w \<Rightarrow>
   route_outcome option \<times> 'w" where
  "inbound_turn inbox now_s json dedup enq msg w =
     (case process_inbound inbox now_s json msg w of
        (Ok InboxDuplicate, w1) \<Rightarrow> (None, w1)
      | (Err _, w1) \<Rightarrow> (None, w1)
      | (Ok InboxProcessed, w1) \<Rightarrow> (let (r, w2) = route_message dedup enq msg w1 in (Some r, w2)))"

section \<open>Submitting messages\<close>

datatype send_error = SendQueueFull string string | Persist string | Serialization string

definition send_text ::
  "(route_key \<Rightarrow> message \<Rightarrow> 'w \<Rightarrow> (enqueue_error + unit) \<times> 'w) \<Rightarrow> ('w \<Rightarrow> string \<times> 'w) \<Rightarrow> ('w \<Rightarrow> int \<times> 'w) \<Rightarrow>
   string \<Rightarrow> string \<Rightarrow> string \<Rightarrow> conversation_type \<Rightarrow> string \<Rightarrow> 'w \<Rightarrow> (send_error + unit) \<times> 'w" where
  "send_text enq uuid now_ms channel conversation_id peer_id ty content w =
     (let rk = route_key_new (ChannelId channel) conversation_id peer_id ty;
          (i, w1) = uuid w; (now, w2) = now_ms w1;
          msg = \<lparr> m_id = i, m_route_key = rk, m_sequence = None, m_timestamp_ms = now,
                  m_direction = Outbound, m_content = Text content, m_audit_mark = None \<rparr>
      in (case enq rk msg w2 of
            (Ok _, w3) \<Rightarrow> (Ok (), w3)
          | (Err (QueueFull i), w3) \<Rightarrow> (Err (SendQueueFull i conversation_id), w3)))"

definition submit_outbound_for_delivery ::
  "'w outbox_repo \<Rightarrow> ('w \<Rightarrow> string \<times> 'w) \<Rightarrow> ('w \<Rightarrow> int \<times> 'w) \<Rightarrow> (route_key \<Rightarrow> string + string) \<Rightarrow>
   (message_content \<Rightarrow> string + string) \<Rightarrow> string \<Rightarrow> string \<Rightarrow> string \<Rightarrow> conversation_type \<Rightarrow>
   message_content \<Rightarrow> 'w \<Rightarrow> (send_error + string) \<times> 'w" where
  "submit_outbound_for_delivery outbox uuid now_s key_json content_json channel conversation_id peer_id ty content w =
     (let rk = route_key_new (ChannelId channel) conversation_id peer_id ty;
          (i, w1) = uuid w in
      case key_json rk of
        Err m \<Rightarrow> (Err (Serialization m), w1)
      | Ok k \<Rightarrow>
          (case content_json content of
             Err m \<Rightarrow> (Err (Serialization m), w1)
           | Ok p \<Rightarrow>
               (let (now, w2) = now_s w1 in
                case or_insert outbox (outbox_entry_new i k p now) w2 of
                  (Err er, w3) \<Rightarrow> (Err (Persist (repo_error_display er)), w3)
                | (Ok _, w3) \<Rightarrow> (Ok i, w3))))"

definition submit_text_for_delivery ::
  "'w outbox_repo \<Rightarrow> ('w \<Rightarrow> string \<times> 'w) \<Rightarrow> ('w \<Rightarrow> int \<times> 'w) \<Rightarrow> (route_key \<Rightarrow> string + string) \<Rightarrow>
   (message_content \<Rightarrow> string + string) \<Rightarrow> string \<Rightarrow> string \<Rightarrow> string \<Rightarrow> conversation_type \<Rightarrow>
   string \<Rightarrow> 'w \<Rightarrow> (send_error + string) \<times> 'w" where
  "submit_text_for_delivery outbox uuid now_s key_json content_json channel conversation_id peer_id ty content w =
     submit_outbound_for_delivery outbox uuid now_s key_json content_json channel conversation_id peer_id ty
       (Text content) w"

section \<open>Clients of the queue\<close>

context conversation_queue
begin

text \<open>
  Routing, for a deduplication cache that leaves the queue alone: an enqueued message is
  pending, in every other case the queue is as before and a drop names the message.
\<close>

lemma route_message_law:
  assumes "invar w" and "route_message dedup enq msg w = (r, w')"
    and "\<And>c i w. invar w \<Longrightarrow> invar (snd (dedup c i w)) \<and> pending (snd (dedup c i w)) = pending w"
  shows "invar w' \<and> (case r of Enqueued \<Rightarrow> pending w' = add_mset msg (pending w)
    | RouteDuplicate \<Rightarrow> pending w' = pending w
    | Dropped i \<Rightarrow> i = m_id msg \<and> pending w' = pending w)"
proof -
  obtain b w1 where d: "dedup (as_str (rk_channel (m_route_key msg))) (m_id msg) w = (b, w1)" by force
  with assms(3) [OF assms(1)] have w1: "invar w1" "pending w1 = pending w" by (metis snd_conv)+
  show ?thesis
  proof (cases b)
    case False
    with assms(2) d w1 show ?thesis by (auto simp: route_message_def)
  next
    case True
    obtain q w2 where e: "enq (m_route_key msg) msg w1 = (q, w2)" by force
    note law = enq_law [OF w1(1) e]
    show ?thesis
    proof (cases q)
      case (Inl er)
      with law assms(2) d e True w1 show ?thesis by (auto simp: route_message_def)
    next
      case (Inr u)
      with law assms(2) d e True w1 show ?thesis by (auto simp: route_message_def)
    qed
  qed
qed

lemma send_text_law:
  assumes "invar w" and "send_text enq uuid now_ms c cid p ty content w = (r, w')"
    and "\<And>w. invar w \<Longrightarrow> invar (snd (uuid w)) \<and> pending (snd (uuid w)) = pending w"
    and "\<And>w. invar w \<Longrightarrow> invar (snd (now_ms w)) \<and> pending (snd (now_ms w)) = pending w"
  shows "invar w' \<and> (case r of
      Ok _ \<Rightarrow> (\<exists>msg. pending w' = add_mset msg (pending w) \<and> m_content msg = Text content \<and>
                m_route_key msg = route_key_new (ChannelId c) cid p ty \<and> m_direction msg = Outbound)
    | Err _ \<Rightarrow> pending w' = pending w)"
proof -
  obtain i w1 where u: "uuid w = (i, w1)" by force
  obtain now w2 where t: "now_ms w1 = (now, w2)" by force
  have w1: "invar w1" "pending w1 = pending w" using assms(3) [OF assms(1)] u by auto
  have w2: "invar w2" "pending w2 = pending w" using assms(4) [OF w1(1)] t w1(2) by auto
  let ?msg = "\<lparr> m_id = i, m_route_key = route_key_new (ChannelId c) cid p ty, m_sequence = None,
    m_timestamp_ms = now, m_direction = Outbound, m_content = Text content, m_audit_mark = None \<rparr>"
  obtain q w3 where e: "enq (m_route_key ?msg) ?msg w2 = (q, w3)" by force
  note law = enq_law [OF w2(1) e]
  show ?thesis
  proof (cases q)
    case (Inl er)
    with law e w2 assms(2) u t show ?thesis
      by (cases er) (auto simp: send_text_def Let_def)
  next
    case (Inr v)
    with law e w2 assms(2) u t show ?thesis by (auto simp: send_text_def Let_def)
  qed
qed

end

section \<open>Lemmas on the SQLite inbox\<close>

lemma inbox_exists_value:
  "env_fault e (db_tick d) = None \<Longrightarrow>
   inbox_exists e i d = (Ok (i \<in> ib_id ` set (t_inbox d)), d\<lparr>db_tick := Suc (db_tick d)\<rparr>)"
  by (auto simp: inbox_exists_def sql_read_eq filter_empty_conv)

lemma inbox_ids_mark: "ib_id ` set (t_inbox (snd (inbox_mark_status e i st d))) = ib_id ` set (t_inbox d)"
  by (simp add: inbox_mark_status_def sql_write_eq repo_def flip: set_map split: option.split)

lemma inbox_ids_insert:
  "inbox_insert e x d = (Ok (), d') \<Longrightarrow> ib_id ` set (t_inbox d') = insert (ib_id x) (ib_id ` set (t_inbox d))"
  by (auto simp: inbox_insert_def sql_write_eq tbl_insert_ignore_def inbox_entry_to_row_def split: option.splits if_splits)

text \<open>Once an id is in the inbox it stays there, whatever is processed afterwards.\<close>

lemma process_inbound_keeps:
  assumes "\<And>d. t_inbox (snd (now_s d)) = t_inbox d"
  shows "ib_id ` set (t_inbox d) \<subseteq> ib_id ` set (t_inbox (snd (process_inbound (sqlite_inbox e) now_s json m d)))"
proof -
  have ins: "ib_id ` set (t_inbox d) \<subseteq> ib_id ` set (t_inbox (snd (inbox_insert e x d)))" for x d
    by (auto simp: inbox_insert_def sql_write_eq repo_def tbl_insert_ignore_def split: option.split)
  have ex: "t_inbox (snd (inbox_exists e i d)) = t_inbox d" for i d
    by (simp add: inbox_exists_def sql_read_eq repo_def)
  obtain r1 d1 where e1: "inbox_exists e (m_id m) d = (r1, d1)" by force
  obtain now d2 where e2: "now_s d1 = (now, d2)" by force
  let ?x = "inbox_entry_new (m_id m) (as_str (rk_channel (m_route_key m)))
    (rk_conversation_id (m_route_key m)) (json m) now"
  obtain r3 d3 where e3: "inbox_insert e ?x d2 = (r3, d3)" by force
  obtain r4 d4 where e4: "inbox_mark_status e (m_id m) IProcessing d3 = (r4, d4)" by force
  obtain r5 d5 where e5: "inbox_mark_status e (m_id m) IProcessed d4 = (r5, d5)" by force
  have t: "t_inbox d1 = t_inbox d" "t_inbox d2 = t_inbox d"
    using ex [of "m_id m" d] e1 assms [of d1] e2 by auto
  have s: "ib_id ` set (t_inbox d) \<subseteq> ib_id ` set (t_inbox d3)"
    "ib_id ` set (t_inbox d4) = ib_id ` set (t_inbox d3)" "ib_id ` set (t_inbox d5) = ib_id ` set (t_inbox d3)"
    using ins [of d2 ?x] e3 t(2) inbox_ids_mark [of e "m_id m" IProcessing d3] e4
      inbox_ids_mark [of e "m_id m" IProcessed d4] e5 by auto
  show ?thesis
    using s t by (auto simp: process_inbound_def sqlite_inbox_def e1 e2 e3 e4 e5 Let_def
        split: sum.split bool.split)
qed

lemma process_inbound_stores:
  assumes "\<And>d. t_inbox (snd (now_s d)) = t_inbox d"
    and "process_inbound (sqlite_inbox e) now_s json m d = (Ok InboxProcessed, d')"
  shows "m_id m \<in> ib_id ` set (t_inbox d')"
proof -
  from assms(2) obtain d1 where e1: "inbox_exists e (m_id m) d = (Ok False, d1)"
    by (auto simp: process_inbound_def sqlite_inbox_def Let_def split: prod.splits sum.splits bool.splits)
  obtain now d2 where e2: "now_s d1 = (now, d2)" by force
  let ?x = "inbox_entry_new (m_id m) (as_str (rk_channel (m_route_key m)))
    (rk_conversation_id (m_route_key m)) (json m) now"
  from assms(2) e1 e2 obtain d3 d4 where e3: "inbox_insert e ?x d2 = (Ok (), d3)"
    and e4: "inbox_mark_status e (m_id m) IProcessing d3 = (Ok (), d4)"
    and e5: "inbox_mark_status e (m_id m) IProcessed d4 = (Ok (), d')"
    by (auto simp: process_inbound_def sqlite_inbox_def Let_def split: prod.splits sum.splits)
  have "m_id m \<in> ib_id ` set (t_inbox d3)"
    using inbox_ids_insert [OF e3] by (simp add: inbox_entry_new_def)
  then show ?thesis
    using inbox_ids_mark [of e "m_id m" IProcessing d3] inbox_ids_mark [of e "m_id m" IProcessed d4] e4 e5
    by simp
qed

section \<open>Turns of the router on SQLite\<close>

lemma on_more_inbox [simp]: "t_inbox (snd (on_more f d)) = t_inbox d"
  by (simp add: on_more_def split_beta Let_def)

lemma clock_s_inbox [simp]: "t_inbox (snd (clock_s e d)) = t_inbox d"
  by (simp add: clock_s_def clock_ms_def)

definition router_turn ::
  "env \<Rightarrow> (message \<Rightarrow> string) \<Rightarrow> 'm dedup_cache \<Rightarrow> (route_key \<Rightarrow> message \<Rightarrow> 'm \<Rightarrow> (enqueue_error + unit) \<times> 'm) \<Rightarrow>
   message \<Rightarrow> 'm db_scheme \<Rightarrow> route_outcome option \<times> 'm db_scheme" where
  "router_turn e json cache enq =
     inbound_turn (sqlite_inbox e) (clock_s e) json (\<lambda>c i. on_more (cache c i)) (\<lambda>k m. on_more (enq k m))"

text \<open>The loop over the messages received so far, with the outcome of each.\<close>

fun inbound_router ::
  "env \<Rightarrow> (message \<Rightarrow> string) \<Rightarrow> 'm dedup_cache \<Rightarrow> (route_key \<Rightarrow> message \<Rightarrow> 'm \<Rightarrow> (enqueue_error + unit) \<times> 'm) \<Rightarrow>
   message list \<Rightarrow> 'm db_scheme \<Rightarrow> (message \<times> route_outcome option) list \<times> 'm db_scheme" where
  "inbound_router e json cache enq [] d = ([], d)"
| "inbound_router e json cache enq (m # ms) d =
     (let (r, d1) = router_turn e json cache enq m d;
          (rs, d2) = inbound_router e json cache enq ms d1
      in ((m, r) # rs, d2))"

lemma route_message_inbox:
  "t_inbox (snd (route_message (\<lambda>c i. on_more (cache c i)) (\<lambda>k m. on_more (enq k m)) m d)) = t_inbox d"
proof -
  let ?c = "as_str (rk_channel (m_route_key m))"
  obtain b d1 where d1: "on_more (cache ?c (m_id m)) d = (b, d1)" by force
  obtain q d2 where d2: "on_more (enq (m_route_key m) m) d1 = (q, d2)" by force
  have "t_inbox d1 = t_inbox d" "t_inbox d2 = t_inbox d1"
    using on_more_inbox [of "cache ?c (m_id m)" d] on_more_inbox [of "enq (m_route_key m) m" d1] d1 d2 by auto
  then show ?thesis
    by (simp add: route_message_def d1 d2 split: sum.split enqueue_error.split)
qed

text \<open>A turn keeps the ids of the inbox, and one that routes adds the message's id.\<close>

lemma router_turn_inbox:
  assumes "router_turn e json cache enq m d = (r, d')"
  shows "ib_id ` set (t_inbox d) \<subseteq> ib_id ` set (t_inbox d')"
    and "r \<noteq> None \<Longrightarrow> m_id m \<notin> ib_id ` set (t_inbox d) \<and> m_id m \<in> ib_id ` set (t_inbox d')"
proof -
  obtain q d1 where p: "process_inbound (sqlite_inbox e) (clock_s e) json m d = (q, d1)" by force
  have keep: "ib_id ` set (t_inbox d) \<subseteq> ib_id ` set (t_inbox d1)"
    using process_inbound_keeps [of "clock_s e" d e json m] p by simp
  have eq: "t_inbox d' = t_inbox d1"
    using assms p route_message_inbox [of cache enq m d1]
    by (auto simp: router_turn_def inbound_turn_def Let_def split: sum.splits inbox_result.splits prod.splits)
  then show "ib_id ` set (t_inbox d) \<subseteq> ib_id ` set (t_inbox d')" using keep by simp
  assume "r \<noteq> None"
  with assms p have q: "q = Ok InboxProcessed"
    by (auto simp: router_turn_def inbound_turn_def Let_def split: sum.splits inbox_result.splits prod.splits)
  have "m_id m \<in> ib_id ` set (t_inbox d1)"
    by (rule process_inbound_stores [of "clock_s e" e json m d]) (use p q in simp_all)
  moreover have "m_id m \<notin> ib_id ` set (t_inbox d)"
  proof
    assume i: "m_id m \<in> ib_id ` set (t_inbox d)"
    have "env_fault e (db_tick d) = None"
      using p q by (auto simp: process_inbound_def sqlite_inbox_def inbox_exists_def sql_read_eq
          split: option.splits)
    from inbox_exists_value [OF this, of "m_id m"] i p q show False
      by (simp add: process_inbound_def sqlite_inbox_def)
  qed
  ultimately show "m_id m \<notin> ib_id ` set (t_inbox d) \<and> m_id m \<in> ib_id ` set (t_inbox d')"
    using eq by simp
qed

lemma router_routed_fresh:
  assumes "inbound_router e json cache enq ms d = (rs, d')"
  shows "distinct (map (m_id \<circ> fst) (filter (\<lambda>p. snd p \<noteq> None) rs)) \<and>
    (\<forall>p \<in> set rs. snd p \<noteq> None \<longrightarrow> m_id (fst p) \<notin> ib_id ` set (t_inbox d))"
  using assms
proof (induction ms arbitrary: d rs d')
  case (Cons m ms)
  obtain r d1 where t: "router_turn e json cache enq m d = (r, d1)" by force
  obtain qs d2 where run: "inbound_router e json cache enq ms d1 = (qs, d2)" by force
  from Cons.prems t run have rs: "rs = (m, r) # qs" by auto
  note IH = Cons.IH [OF run]
  note turn = router_turn_inbox [OF t]
  have "\<forall>p \<in> set qs. snd p \<noteq> None \<longrightarrow> m_id (fst p) \<notin> ib_id ` set (t_inbox d)"
    using IH turn(1) by blast
  moreover have "\<forall>p \<in> set qs. snd p \<noteq> None \<longrightarrow> m_id (fst p) \<noteq> m_id m" if "r \<noteq> None"
    using IH turn(2) [OF that] by metis
  ultimately show ?case using IH turn(2) rs by auto
qed simp

section \<open>Properties\<close>

text \<open>
  C4. Under any faults, any deduplication cache and any queue, each message id is routed at
  most once: no two routed messages of a run of the router have the same id. This includes
  messages the full queue dropped: a dropped message is in the inbox as processed, so
  its redelivery is discarded and it is never routed again.
\<close>

theorem inbound_routed_at_most_once:
  assumes "inbound_router e json cache enq ms d = (rs, d')"
  shows "distinct (map (m_id \<circ> fst) (filter (\<lambda>p. snd p \<noteq> None) rs))"
  using router_routed_fresh [OF assms] by blast

theorem inbound_routed_at_most_once_witness:
  "distinct (map (m_id \<circ> fst) (filter (\<lambda>p. snd p \<noteq> None)
     (fst (inbound_router \<lparr> env_fault = \<lambda>n. None, env_now_ms = int, env_rank = \<lambda>n s. 0, env_uuid = show_nat \<rparr>
       (\<lambda>m. ''json'') (\<lambda>c i w. (True, w)) (\<lambda>k m w. (Err (QueueFull (m_id m)), w))
       [sample_msg ''a'' 1, sample_msg ''a'' 1] empty_db))))"
  by (rule inbound_routed_at_most_once [OF surjective_pairing])

text \<open>
  Without faults, a message whose id is not in the inbox is stored, marked processed
  and handed to routing; one whose id is there is reported as a duplicate and leaves the
  inbox as it is.
\<close>

theorem process_inbound_outcome:
  assumes "no_faults e"
  shows "fst (process_inbound (sqlite_inbox e) (clock_s e) json m d) =
      Ok (if m_id m \<in> ib_id ` set (t_inbox d) then InboxDuplicate else InboxProcessed) \<and>
    (m_id m \<in> ib_id ` set (t_inbox d) \<longrightarrow>
       t_inbox (snd (process_inbound (sqlite_inbox e) (clock_s e) json m d)) = t_inbox d) \<and>
    (m_id m \<notin> ib_id ` set (t_inbox d) \<longrightarrow>
       map_option (inbox_status_parse \<circ> ib_status) (tbl_find ib_id (m_id m)
         (t_inbox (snd (process_inbound (sqlite_inbox e) (clock_s e) json m d)))) = Some (Some IProcessed))"
proof (cases "m_id m \<in> ib_id ` set (t_inbox d)")
  case True
  have "inbox_exists e (m_id m) d = (Ok True, d\<lparr>db_tick := Suc (db_tick d)\<rparr>)"
    using inbox_exists_value [of e d "m_id m"] assms True by simp
  with True show ?thesis by (simp add: process_inbound_def sqlite_inbox_def)
next
  case False
  have "inbox_exists e (m_id m) d = (Ok False, d\<lparr>db_tick := Suc (db_tick d)\<rparr>)"
    using inbox_exists_value [of e d "m_id m"] assms False by simp
  with False assms show ?thesis
    by (simp add: process_inbound_def sqlite_inbox_def inbox_insert_def inbox_mark_status_def sql_write_eq
        clock_s_def clock_ms_def Let_def inbox_entry_new_def inbox_entry_to_row_def tbl_find_update
        tbl_insert_ignore_def inbox_status_parse_def)
qed

theorem process_inbound_outcome_witness:
  "fst (process_inbound (sqlite_inbox \<lparr> env_fault = \<lambda>n. None, env_now_ms = int, env_rank = \<lambda>n s. 0, env_uuid = show_nat \<rparr>)
     (clock_s \<lparr> env_fault = \<lambda>n. None, env_now_ms = int, env_rank = \<lambda>n s. 0, env_uuid = show_nat \<rparr>)
     (\<lambda>m. ''json'') (sample_msg ''a'' 1) empty_db) = Ok InboxProcessed"
  using process_inbound_outcome [of "\<lparr> env_fault = \<lambda>n. None, env_now_ms = int, env_rank = \<lambda>n s. 0, env_uuid = show_nat \<rparr>"
      "\<lambda>m. ''json''" "sample_msg ''a'' 1" empty_db]
  by (simp add: no_faults_def empty_db_def)

text \<open>
  Routing to the conversation store: a message the deduplication cache does not know is
  enqueued and then held for processing, or it is dropped by name with the store's
  messages as before; a known one changes nothing in the store.
\<close>

theorem route_message_to_store:
  assumes "store_ok (fst w)" and "route_message dedup (enqueue dp now) msg w = (r, w')"
    and "\<And>c i w. fst (snd (dedup c i w)) = fst w"
  shows "store_ok (fst w') \<and> (case r of Enqueued \<Rightarrow> held (fst w') = add_mset msg (held (fst w))
    | RouteDuplicate \<Rightarrow> held (fst w') = held (fst w)
    | Dropped i \<Rightarrow> i = m_id msg \<and> held (fst w') = held (fst w))"
  using cq.route_message_law [of w dedup dp now msg r w'] assms by (simp split: route_outcome.splits)

theorem route_message_to_store_witness:
  "store_ok (fst (snd (route_message (\<lambda>c i w. (True, w)) (enqueue no_deps 3) (sample_msg ''a'' 1)
     (conv_store_new 2 200, ()))))"
  using route_message_to_store [OF _ surjective_pairing, of "(conv_store_new 2 200, ())" "\<lambda>c i w. (True, w)" no_deps 3
      "sample_msg ''a'' 1"]
  by (simp add: conv_store_new_ok)

end
