(* ===== verification/Agent_Command.thy ===== *)
theory Agent_Command
  imports Magiclaw_Prelude
begin

text \<open>
  \<open>src/core/pipeline/agent_command.rs\<close> and the alias defaults of
  \<open>src/infrastructure/config.rs\<close>: recognising agent-switching commands in a message.

  The alias table is a \<open>HashMap\<close>; it is the list of its entries in the order in which an
  iteration visits them, which the language leaves open. The Unicode \<open>to_lowercase\<close> of
  \<open>resolve_alias\<close> is a parameter; in \<open>parse\<close> the lower-cased text is compared with four fixed
  texts only, for which the ASCII version decides alike. Non-ASCII texts are UTF-8 bytes.
\<close>

section \<open>Commands\<close>

datatype agent_command =
    Switch string
  | Query
  | SwitchAndProcess string string
  | NotCommand

type_synonym alias_table = "(string \<times> string list) list"

definition default_agent_aliases :: alias_table where
  "default_agent_aliases =
     [(''claude_code'', [''cc'', ''claude'', ''claude code'']), (''codex'', [''cx'', ''codex'']),
      (''openclaw'', [''oc'', ''openclaw'']), (''hermes'', [''h'', ''hermes''])]"

definition query_cn_space :: string where
  "query_cn_space =
     [CHR 0xE5, CHR 0xBD, CHR 0x93, CHR 0xE5, CHR 0x89, CHR 0x8D] @
          '' agent''"

definition query_cn :: string where
  "query_cn =
     [CHR 0xE5, CHR 0xBD, CHR 0x93, CHR 0xE5, CHR 0x89, CHR 0x8D] @
          ''agent''"

definition is_query :: "string \<Rightarrow> bool" where
  "is_query trimmed =
     (to_lowercase trimmed \<in> {query_cn_space, query_cn, ''/agent'', ''agent''})"

text \<open>The candidates, longest alias first; \<open>sort_by_key\<close> is stable.\<close>

definition candidates :: "alias_table \<Rightarrow> (string \<times> string) list" where
  "candidates aliases =
     sort_key (\<lambda>p. - int (length (snd p)))
       (concat (map (\<lambda>(agent, as). map (Pair agent) as) aliases))"

text \<open>The rest of the text after a prefix, trimmed, if anything is left.\<close>

definition content_after :: "string \<Rightarrow> string \<Rightarrow> string option" where
  "content_after prefix trimmed =
     (case strip_prefix trimmed prefix of
        None \<Rightarrow> None
      | Some rest \<Rightarrow> (let content = trim rest in if content = [] then None else Some content))"

text \<open>The body of the loop over the candidates.\<close>

definition match_alias :: "string \<Rightarrow> string \<times> string \<Rightarrow> agent_command option" where
  "match_alias trimmed p =
     (let (agent, alias) = p in
      if trimmed = alias \<or> trimmed = ''/'' @ alias then Some (Switch agent)
      else (case content_after (alias @ '' '') trimmed of
              Some content \<Rightarrow> Some (SwitchAndProcess agent content)
            | None \<Rightarrow>
                (case content_after (''/'' @ alias @ '' '') trimmed of
                   Some content \<Rightarrow> Some (SwitchAndProcess agent content)
                 | None \<Rightarrow> None)))"

fun first_match :: "string \<Rightarrow> (string \<times> string) list \<Rightarrow> agent_command" where
  "first_match trimmed [] = NotCommand"
| "first_match trimmed (p # ps) =
     (case match_alias trimmed p of Some c \<Rightarrow> c | None \<Rightarrow> first_match trimmed ps)"

definition parse :: "alias_table \<Rightarrow> string \<Rightarrow> agent_command" where
  "parse aliases text =
     (let trimmed = trim text in
      if is_query trimmed then Query else first_match trimmed (candidates aliases))"

fun resolve_alias :: "(string \<Rightarrow> string) \<Rightarrow> alias_table \<Rightarrow> string \<Rightarrow> string option" where
  "resolve_alias lower [] text = None"
| "resolve_alias lower ((agent, as) # rest) text =
     (if lower text \<in> set (map lower as) then Some agent else resolve_alias lower rest text)"

section \<open>The longest matching alias decides\<close>

lemma set_candidates:
  "set (candidates aliases) = {(agent, al). \<exists>as. (agent, as) \<in> set aliases \<and> al \<in> set as}"
  by (auto simp: candidates_def)

lemma sorted_candidates: "sorted (map (\<lambda>p. - int (length (snd p))) (candidates aliases))"
  by (simp add: candidates_def)

lemma first_match_cases:
  assumes "sorted (map k ps)"
  shows "first_match s ps = NotCommand \<and> (\<forall>p \<in> set ps. match_alias s p = None) \<or>
    (\<exists>p \<in> set ps. match_alias s p = Some (first_match s ps) \<and>
       (\<forall>q \<in> set ps. match_alias s q \<noteq> None \<longrightarrow> k p \<le> k q))"
  using assms
proof (induction ps)
  case (Cons p ps)
  show ?case
  proof (cases "match_alias s p")
    case None
    with Cons show ?thesis by auto
  next
    case (Some c)
    with Cons.prems show ?thesis by auto
  qed
qed simp

text \<open>Aliases as one writes them: not empty, no slash in front, no space at the end.\<close>

definition plain_alias :: "string \<Rightarrow> bool" where
  "plain_alias al \<longleftrightarrow> al \<noteq> [] \<and> hd al \<noteq> CHR ''/'' \<and> last al \<noteq> CHR '' ''"

text \<open>How a text that matches begins.\<close>

lemma match_begins:
  assumes "match_alias s (agent, al) = Some c"
  shows "starts_with (s @ '' '') (al @ '' '') \<or> starts_with (s @ '' '') (''/'' @ al @ '' '')"
  using assms
  by (auto simp: match_alias_def content_after_def strip_prefix_Some starts_with_append Let_def
      split: if_splits option.splits)

lemma prefix_same_length:
  "starts_with s p \<Longrightarrow> starts_with s q \<Longrightarrow> length p = length q \<Longrightarrow> p = q"
  by (auto simp: starts_with_def)

lemma slash_or_not:
  assumes "starts_with s (al @ '' '')" and "starts_with s (''/'' @ al' @ '' '')" and "plain_alias al"
  shows False
  using assms by (cases al) (auto simp: starts_with_append plain_alias_def)

text \<open>Two plain aliases of one length that match the same text are the same.\<close>

lemma match_unique:
  assumes "match_alias s (a, al) = Some c" and "match_alias s (a', al') = Some c'"
    and "plain_alias al" and "plain_alias al'" and "length al = length al'"
  shows "al = al'"
proof -
  let ?s = "s @ '' ''"
  from match_begins [OF assms(1)] match_begins [OF assms(2)]
  consider "starts_with ?s (al @ '' '')" "starts_with ?s (al' @ '' '')"
    | "starts_with ?s (''/'' @ al @ '' '')" "starts_with ?s (''/'' @ al' @ '' '')"
    | "starts_with ?s (al @ '' '')" "starts_with ?s (''/'' @ al' @ '' '')"
    | "starts_with ?s (''/'' @ al @ '' '')" "starts_with ?s (al' @ '' '')" by blast
  then show ?thesis
  proof cases
    case 1
    from prefix_same_length [OF this] assms(5) show ?thesis by simp
  next
    case 2
    from prefix_same_length [OF this] assms(5) show ?thesis by simp
  next
    case 3
    from slash_or_not [OF this assms(3)] show ?thesis ..
  next
    case 4
    from slash_or_not [OF 4(2,1) assms(4)] show ?thesis ..
  qed
qed

section \<open>Properties\<close>

definition table_ok :: "alias_table \<Rightarrow> bool" where
  "table_ok aliases \<longleftrightarrow> (\<forall>(agent, al) \<in> set (candidates aliases). plain_alias al) \<and>
     (\<forall>(agent, al) \<in> set (candidates aliases). \<forall>(agent', al') \<in> set (candidates aliases).
        al = al' \<longrightarrow> agent = agent')"

text \<open>
  The result of \<open>parse\<close> does not depend on the order in which the hash map is visited:
  any two orders of the same table give the same command, provided that no alias belongs
  to two agents and none starts with a slash or ends with a space.
\<close>

theorem parse_order_independent:
  assumes "set as = set bs" and "table_ok as"
  shows "parse as text = parse bs text"
proof -
  let ?s = "trim text"
  have eq: "set (candidates as) = set (candidates bs)" using assms(1) by (simp add: set_candidates)
  note ca = first_match_cases [OF sorted_candidates [of as], of ?s]
  note cb = first_match_cases [OF sorted_candidates [of bs], of ?s]
  have "first_match ?s (candidates as) = first_match ?s (candidates bs)"
  proof (cases "\<exists>p \<in> set (candidates as). match_alias ?s p \<noteq> None")
    case False
    with ca cb eq show ?thesis by fastforce
  next
    case True
    with ca obtain p where p: "p \<in> set (candidates as)" "match_alias ?s p = Some (first_match ?s (candidates as))"
      and pm: "\<forall>q \<in> set (candidates as). match_alias ?s q \<noteq> None \<longrightarrow> - int (length (snd p)) \<le> - int (length (snd q))"
      by auto
    from True cb eq obtain q where q: "q \<in> set (candidates as)" "match_alias ?s q = Some (first_match ?s (candidates bs))"
      and qm: "\<forall>p \<in> set (candidates as). match_alias ?s p \<noteq> None \<longrightarrow> - int (length (snd q)) \<le> - int (length (snd p))"
      by auto
    have len: "length (snd p) = length (snd q)" using pm qm p q by fastforce
    obtain a al b bl where pq: "p = (a, al)" "q = (b, bl)" by (cases p; cases q) blast
    have "plain_alias al" "plain_alias bl" using assms(2) p(1) q(1) pq unfolding table_ok_def by auto
    then have "al = bl" using match_unique p(2) q(2) len pq by simp
    then have "p = q" using assms(2) p(1) q(1) pq unfolding table_ok_def by fastforce
    with p(2) q(2) show ?thesis by simp
  qed
  then show ?thesis by (simp add: parse_def Let_def)
qed

lemma default_aliases_ok: "table_ok default_agent_aliases"
  unfolding table_ok_def set_candidates default_agent_aliases_def plain_alias_def by auto

theorem parse_order_independent_witness:
  "parse default_agent_aliases ''cc hi'' = parse (rev default_agent_aliases) ''cc hi''"
  by (rule parse_order_independent [OF _ default_aliases_ok]) simp

end
