(* ===== verification/Pipeline.thy ===== *)
theory Pipeline
  imports Agent_Command Outbox_Store Audit_Store Resilience Key_Stores Reorder
begin

text \<open>
  \<open>src/core/pipeline\<close>: the middleware chain, its stages and the chain that
  \<open>src/infrastructure/runtime.rs\<close> assembles; \<open>src/core/ai/echo.rs\<close> and \<open>resilient.rs\<close>.

  A middleware is a record with its name, its terminal flag and its \<open>process\<close>, a function
  on the context and the world. Ports (preference store, AI backends, outbox, audit sink,
  clocks) are arguments. Of the configuration a context carries, the two fields the
  stages read are modelled. The text with which the standard library prints the list of
  participants only reaches the backend; it is an argument.
\<close>

section \<open>Contexts and the chain\<close>

record app_config =
  cf_ai_backend :: string
  cf_wechat_account_id :: string

record pipeline_context =
  pc_message :: message
  pc_conversation :: conversation_snapshot
  pc_config :: app_config
  pc_ai_response :: "string option"
  pc_short_circuit :: bool
  pc_user_agent_selection :: "string option"

record 'w middleware =
  mw_name :: string
  mw_is_terminal :: bool
  mw_process :: "pipeline_context \<Rightarrow> 'w \<Rightarrow> (pipeline_error + pipeline_context) \<times> 'w"

fun pipeline_run ::
  "'w middleware list \<Rightarrow> pipeline_context \<Rightarrow> 'w \<Rightarrow> (pipeline_error + pipeline_context) \<times> 'w" where
  "pipeline_run [] ctx w = (Ok ctx, w)"
| "pipeline_run (step # steps) ctx w =
     (if pc_short_circuit ctx \<and> \<not> mw_is_terminal step then pipeline_run steps ctx w
      else (case mw_process step ctx w of
              (Err er, w1) \<Rightarrow> (Err er, w1)
            | (Ok ctx1, w1) \<Rightarrow> pipeline_run steps ctx1 w1))"

text \<open>The context a conversation worker builds for a released message.\<close>

definition initial_context :: "app_config \<Rightarrow> message \<Rightarrow> conversation_snapshot \<Rightarrow> pipeline_context" where
  "initial_context cfg m snap =
     \<lparr> pc_message = m, pc_conversation = snap, pc_config = cfg, pc_ai_response = None,
       pc_short_circuit = False, pc_user_agent_selection = None \<rparr>"

section \<open>Stages\<close>

definition normalize :: "'w middleware" where
  "normalize = \<lparr> mw_name = ''normalize'', mw_is_terminal = False, mw_process = \<lambda>ctx w. (Ok ctx, w) \<rparr>"

definition permission :: "'w middleware" where
  "permission = \<lparr> mw_name = ''permission'', mw_is_terminal = False, mw_process = \<lambda>ctx w. (Ok ctx, w) \<rparr>"

text \<open>
  Rate limiting: the map of last accesses belongs to the world (\<open>get\<close> and \<open>put\<close>), \<open>instant\<close>
  reads the monotonic clock in milliseconds.
\<close>

definition rate_key :: "message \<Rightarrow> string" where
  "rate_key m =
     (let rk = m_route_key m;
          scope = (if rk_conversation_id rk = [] then rk_peer_id rk else rk_conversation_id rk)
      in as_str (rk_channel rk) @ '':'' @ scope)"

definition rate_limit_process ::
  "nat \<Rightarrow> ('w \<Rightarrow> nat \<times> 'w) \<Rightarrow> ('w \<Rightarrow> string \<rightharpoonup> nat) \<Rightarrow> ((string \<rightharpoonup> nat) \<Rightarrow> 'w \<Rightarrow> 'w) \<Rightarrow>
   pipeline_context \<Rightarrow> 'w \<Rightarrow> (pipeline_error + pipeline_context) \<times> 'w" where
  "rate_limit_process min_interval_ms instant get put ctx w =
     (let key = rate_key (pc_message ctx);
          (limited, w1) =
            (case get w key of
               Some t \<Rightarrow> (let (now, w1) = instant w in (now - t < min_interval_ms, w1))
             | None \<Rightarrow> (False, w));
          ctx1 = (if limited then ctx\<lparr>pc_short_circuit := True\<rparr> else ctx);
          (now, w2) = instant w1
      in (Ok ctx1, put ((get w2)(key \<mapsto> now)) w2))"

definition rate_limit ::
  "nat \<Rightarrow> ('w \<Rightarrow> nat \<times> 'w) \<Rightarrow> ('w \<Rightarrow> string \<rightharpoonup> nat) \<Rightarrow> ((string \<rightharpoonup> nat) \<Rightarrow> 'w \<Rightarrow> 'w) \<Rightarrow> 'w middleware" where
  "rate_limit min_interval_ms instant get put =
     \<lparr> mw_name = ''rate_limit'', mw_is_terminal = False,
       mw_process = rate_limit_process min_interval_ms instant get put \<rparr>"

text \<open>Agent commands; the replies are the UTF-8 texts of the source.\<close>

definition text_switched :: string where
  "text_switched =
     [CHR 0xE5, CHR 0xB7, CHR 0xB2, CHR 0xE5, CHR 0x88, CHR 0x87, CHR 0xE6, CHR 0x8D, CHR 0xA2, CHR 0xE5, CHR 0x88, CHR 0xB0] @
     '' ''"

definition text_current :: string where
  "text_current =
     [CHR 0xE5, CHR 0xBD, CHR 0x93, CHR 0xE5, CHR 0x89, CHR 0x8D, CHR 0xE4, CHR 0xBD, CHR 0xBF, CHR 0xE7, CHR 0x94, CHR 0xA8] @
     '' ''"

definition text_none :: string where
  "text_none =
     [CHR 0xE8, CHR 0xBF, CHR 0x98, CHR 0xE6, CHR 0x9C, CHR 0xAA, CHR 0xE9, CHR 0x80, CHR 0x89, CHR 0xE6, CHR 0x8B, CHR 0xA9] @
     '' agent'' @
     [CHR 0xEF, CHR 0xBC, CHR 0x8C, CHR 0xE8, CHR 0xAF, CHR 0xB7, CHR 0xE5, CHR 0x8F, CHR 0x91, CHR 0xE9, CHR 0x80, CHR 0x81] @
     '' cc/cx/oc/h '' @
     [CHR 0xE6, CHR 0x88, CHR 0x96, CHR 0xE5, CHR 0xAE, CHR 0x8C, CHR 0xE6, CHR 0x95, CHR 0xB4, CHR 0xE5, CHR 0x90, CHR 0x8D, CHR 0xE7, CHR 0xA7, CHR 0xB0, CHR 0xE8, CHR 0xBF, CHR 0x9B, CHR 0xE8, CHR 0xA1, CHR 0x8C, CHR 0xE5, CHR 0x88, CHR 0x87, CHR 0xE6, CHR 0x8D, CHR 0xA2]"

definition text_prompt :: string where
  "text_prompt =
     [CHR 0xE8, CHR 0xAF, CHR 0xB7, CHR 0xE5, CHR 0x85, CHR 0x88, CHR 0xE9, CHR 0x80, CHR 0x89, CHR 0xE6, CHR 0x8B, CHR 0xA9] @
     '' AI agent'' @
     [CHR 0xE3, CHR 0x80, CHR 0x82, CHR 0xE5, CHR 0x8F, CHR 0x91, CHR 0xE9, CHR 0x80, CHR 0x81, CHR 0xE4, CHR 0xBB, CHR 0xA5, CHR 0xE4, CHR 0xB8, CHR 0x8B, CHR 0xE5, CHR 0x91, CHR 0xBD, CHR 0xE4, CHR 0xBB, CHR 0xA4, CHR 0xE4, CHR 0xB9, CHR 0x8B, CHR 0xE4, CHR 0xB8, CHR 0x80, CHR 0xE8, CHR 0xBF, CHR 0x9B, CHR 0xE8, CHR 0xA1, CHR 0x8C, CHR 0xE5, CHR 0x88, CHR 0x87, CHR 0xE6, CHR 0x8D, CHR 0xA2, CHR 0xEF, CHR 0xBC, CHR 0x9A, CHR 0x0A, CHR 0xE2, CHR 0x80, CHR 0xA2] @
     '' cc (claude code)'' @
     [CHR 0x0A, CHR 0xE2, CHR 0x80, CHR 0xA2] @
     '' cx (codex)'' @
     [CHR 0x0A, CHR 0xE2, CHR 0x80, CHR 0xA2] @
     '' oc (openclaw)'' @
     [CHR 0x0A, CHR 0xE2, CHR 0x80, CHR 0xA2] @
     '' h (hermes)''"

record agent_config =
  ag_enable_user_preferences :: bool
  ag_aliases :: alias_table

definition effective_aliases :: "agent_config \<Rightarrow> alias_table" where
  "effective_aliases c = (if ag_aliases c = [] then default_agent_aliases else ag_aliases c)"

definition agent_command_process ::
  "'w preference_store \<Rightarrow> agent_config \<Rightarrow> pipeline_context \<Rightarrow> 'w \<Rightarrow>
   (pipeline_error + pipeline_context) \<times> 'w" where
  "agent_command_process prefs c ctx w =
     (case m_content (pc_message ctx) of
        Text text \<Rightarrow>
          (let rk = m_route_key (pc_message ctx);
               channel = as_str (rk_channel rk); peer = rk_peer_id rk;
               scope = cf_wechat_account_id (pc_config ctx) in
           case parse (effective_aliases c) text of
             Switch agent \<Rightarrow>
               (case set_user_agent_via_port prefs channel scope peer agent w of
                  (Err m, w1) \<Rightarrow> (Err (pipeline_error_from_string m), w1)
                | (Ok _, w1) \<Rightarrow>
                    (Ok (ctx\<lparr>pc_ai_response := Some (text_switched @ agent), pc_short_circuit := True\<rparr>), w1))
           | Query \<Rightarrow>
               (case get_user_agent_via_port prefs channel scope peer w of
                  (Err m, w1) \<Rightarrow> (Err (pipeline_error_from_string m), w1)
                | (Ok sel, w1) \<Rightarrow>
                    (Ok (ctx\<lparr>pc_ai_response := Some (case sel of Some agent \<Rightarrow> text_current @ agent | None \<Rightarrow> text_none),
                              pc_short_circuit := True\<rparr>), w1))
           | SwitchAndProcess agent rest \<Rightarrow>
               (case set_user_agent_via_port prefs channel scope peer agent w of
                  (Err m, w1) \<Rightarrow> (Err (pipeline_error_from_string m), w1)
                | (Ok _, w1) \<Rightarrow>
                    (Ok (ctx\<lparr>pc_message := (pc_message ctx)\<lparr>m_content := Text rest\<rparr>,
                              pc_user_agent_selection := Some agent\<rparr>), w1))
           | NotCommand \<Rightarrow>
               (if \<not> ag_enable_user_preferences c then (Ok ctx, w)
                else (case get_user_agent_via_port prefs channel scope peer w of
                        (Err m, w1) \<Rightarrow> (Err (pipeline_error_from_string m), w1)
                      | (Ok (Some agent), w1) \<Rightarrow> (Ok (ctx\<lparr>pc_user_agent_selection := Some agent\<rparr>), w1)
                      | (Ok None, w1) \<Rightarrow>
                          (Ok (ctx\<lparr>pc_ai_response := Some text_prompt, pc_short_circuit := True\<rparr>), w1))))
      | _ \<Rightarrow> (Ok ctx, w))"

definition agent_command_middleware :: "'w preference_store \<Rightarrow> agent_config \<Rightarrow> 'w middleware" where
  "agent_command_middleware prefs c =
     \<lparr> mw_name = ''agent_command'', mw_is_terminal = False, mw_process = agent_command_process prefs c \<rparr>"

subsection \<open>AI\<close>

record 'w ai_backend =
  ab_name :: string
  ab_generate :: "string \<Rightarrow> string option \<Rightarrow> 'w \<Rightarrow> (ai_error + string) \<times> 'w"

definition echo_backend :: "'w ai_backend" where
  "echo_backend = \<lparr> ab_name = ''echo'', ab_generate = \<lambda>input ctx w. (Ok (''[echo] '' @ input), w) \<rparr>"

text \<open>
  \<open>ResilientAiBackend::generate\<close> over a gate; \<open>None\<close> is waiting for a permit.
\<close>

definition resilient_generate ::
  "'x ai_backend \<Rightarrow> nat \<Rightarrow> nat \<Rightarrow> string \<Rightarrow> string option \<Rightarrow> gate \<times> 'x \<Rightarrow> ((ai_error + string) \<times> gate \<times> 'x) option" where
  "resilient_generate inner t0 t1 input context gx =
     gate_execute ai_error_from_string t0 t1 (ab_generate inner input context) (fst gx) (snd gx)"

record 'w ai_deps =
  ai_default :: "'w ai_backend"
  ai_map :: "string \<rightharpoonup> 'w ai_backend"
  ai_audit :: "'w audit_sink"
  ai_key_json :: "route_key \<Rightarrow> string + string"
  ai_debug :: "string list \<Rightarrow> string"

definition select_backend :: "'w ai_deps \<Rightarrow> pipeline_context \<Rightarrow> 'w ai_backend" where
  "select_backend dp ctx =
     (case pc_user_agent_selection ctx of
        Some agent \<Rightarrow> (case ai_map dp agent of Some b \<Rightarrow> b | None \<Rightarrow> ai_default dp)
      | None \<Rightarrow> ai_default dp)"

definition context_info :: "'w ai_deps \<Rightarrow> pipeline_context \<Rightarrow> string" where
  "context_info dp ctx =
     ''channel='' @ as_str (rk_channel (m_route_key (pc_message ctx))) @
     '' conversation='' @ rk_conversation_id (m_route_key (pc_message ctx)) @
     '' participants='' @ ai_debug dp (cs_participants (pc_conversation ctx))"

definition ai_process ::
  "'w ai_deps \<Rightarrow> pipeline_context \<Rightarrow> 'w \<Rightarrow> (pipeline_error + pipeline_context) \<times> 'w" where
  "ai_process dp ctx w =
     (case m_content (pc_message ctx) of
        Text input \<Rightarrow>
          (let backend = select_backend dp ctx;
               key = (case ai_key_json dp (m_route_key (pc_message ctx)) of Ok k \<Rightarrow> Some k | Err _ \<Rightarrow> None) in
           case ab_generate backend input (Some (context_info dp ctx)) w of
             (Ok response, w1) \<Rightarrow>
               (Ok (ctx\<lparr>pc_ai_response := Some response\<rparr>),
                ai_audit dp key ''ai_generate''
                  (''ok backend='' @ ab_name backend @ '' len='' @ show_nat (length response)) w1)
           | (Err er, w1) \<Rightarrow>
               (Ok (ctx\<lparr>pc_ai_response := Some (''[ai error: '' @ ai_error_display er @ ''] '' @ input)\<rparr>),
                ai_audit dp key ''ai_generate''
                  (''degraded backend='' @ ab_name backend @ '' error='' @ ai_error_display er) w1))
      | _ \<Rightarrow> (Ok ctx, w))"

definition ai_middleware :: "'w ai_deps \<Rightarrow> 'w middleware" where
  "ai_middleware dp = \<lparr> mw_name = ''ai'', mw_is_terminal = False, mw_process = ai_process dp \<rparr>"

subsection \<open>Formatting and delivery\<close>

definition add_responder_prefix :: "string \<Rightarrow> string \<Rightarrow> string" where
  "add_responder_prefix text responder =
     (let prefix = ''['' @ responder @ ''] ''
      in if starts_with text prefix then text else prefix @ text)"

definition responder_of :: "pipeline_context \<Rightarrow> string" where
  "responder_of ctx =
     (case pc_user_agent_selection ctx of
        Some agent \<Rightarrow> agent
      | None \<Rightarrow> if pc_short_circuit ctx then ''system'' else cf_ai_backend (pc_config ctx))"

definition formatter_process ::
  "pipeline_context \<Rightarrow> 'w \<Rightarrow> (pipeline_error + pipeline_context) \<times> 'w" where
  "formatter_process ctx w =
     (case pc_ai_response ctx of
        None \<Rightarrow> (Ok ctx, w)
      | Some response \<Rightarrow>
          (Ok (ctx\<lparr>pc_ai_response := None,
                   pc_message := (pc_message ctx)\<lparr>m_direction := Outbound,
                     m_content := Text (add_responder_prefix response (responder_of ctx))\<rparr>\<rparr>), w))"

definition formatter :: "'w middleware" where
  "formatter = \<lparr> mw_name = ''formatter'', mw_is_terminal = True, mw_process = formatter_process \<rparr>"

record 'w outbox_deps =
  od_repo :: "'w outbox_repo"
  od_now_s :: "'w \<Rightarrow> int \<times> 'w"
  od_key_json :: "route_key \<Rightarrow> string + string"
  od_content_json :: "message_content \<Rightarrow> string + string"

definition outbox_stage_process ::
  "'w outbox_deps \<Rightarrow> pipeline_context \<Rightarrow> 'w \<Rightarrow> (pipeline_error + pipeline_context) \<times> 'w" where
  "outbox_stage_process dp ctx w =
     (if m_direction (pc_message ctx) \<noteq> Outbound then (Ok ctx, w)
      else (case od_key_json dp (m_route_key (pc_message ctx)) of
              Err _ \<Rightarrow> (Ok ctx, w)
            | Ok k \<Rightarrow>
                (case od_content_json dp (m_content (pc_message ctx)) of
                   Err _ \<Rightarrow> (Ok ctx, w)
                 | Ok p \<Rightarrow>
                     (let (now, w1) = od_now_s dp w
                      in (Ok ctx, snd (or_insert (od_repo dp)
                            (outbox_entry_new (m_id (pc_message ctx)) k p now) w1))))))"

definition outbox_stage :: "'w outbox_deps \<Rightarrow> 'w middleware" where
  "outbox_stage dp = \<lparr> mw_name = ''outbox'', mw_is_terminal = True, mw_process = outbox_stage_process dp \<rparr>"

section \<open>The assembled chain\<close>

text \<open>
  The chain of \<open>AppRuntime::new\<close>; the rate limit is inserted when the configured backend is
  not the echo backend.
\<close>

definition assemble ::
  "app_config \<Rightarrow> 'w preference_store \<Rightarrow> agent_config \<Rightarrow> 'w middleware \<Rightarrow> 'w ai_deps \<Rightarrow> 'w outbox_deps \<Rightarrow>
   'w middleware list" where
  "assemble cfg prefs ac limiter ai ob =
     [agent_command_middleware prefs ac, normalize, permission] @
     (if cf_ai_backend cfg \<noteq> ''echo'' then [limiter] else []) @
     [ai_middleware ai, formatter, outbox_stage ob]"

section \<open>The chain on SQLite\<close>

text \<open>
  The database, with the rate-limit windows and the rest of the world outside it. Backends
  act on the rest; \<open>tick\<close> reads the monotonic clock; serialisation of route keys and
  contents is total.
\<close>

definition sqlite_limiter ::
  "nat \<Rightarrow> ('m \<Rightarrow> nat \<times> 'm) \<Rightarrow> ((string \<rightharpoonup> nat) \<times> 'm) db_scheme middleware" where
  "sqlite_limiter min_interval_ms tick =
     rate_limit min_interval_ms (on_more (\<lambda>(ws, m). let (t, m') = tick m in (t, (ws, m'))))
       (\<lambda>d. fst (db.more d)) (\<lambda>ws d. db.more_update (\<lambda>p. (ws, snd p)) d)"

definition outside_backend :: "'m ai_backend \<Rightarrow> ((string \<rightharpoonup> nat) \<times> 'm) db_scheme ai_backend" where
  "outside_backend b =
     \<lparr> ab_name = ab_name b,
       ab_generate = \<lambda>input ctx. on_more (\<lambda>(ws, m). let (r, m') = ab_generate b input ctx m in (r, (ws, m'))) \<rparr>"

definition sqlite_pipeline ::
  "digest \<Rightarrow> env \<Rightarrow> app_config \<Rightarrow> agent_config \<Rightarrow> nat \<Rightarrow> ('m \<Rightarrow> nat \<times> 'm) \<Rightarrow> 'm ai_backend \<Rightarrow>
   (string \<rightharpoonup> 'm ai_backend) \<Rightarrow> (route_key \<Rightarrow> string) \<Rightarrow> (message_content \<Rightarrow> string) \<Rightarrow> (string list \<Rightarrow> string) \<Rightarrow>
   ((string \<rightharpoonup> nat) \<times> 'm) db_scheme middleware list" where
  "sqlite_pipeline sha e cfg ac min_interval_ms tick backend backends kj cj dbg =
     assemble cfg (sqlite_preferences e) ac (sqlite_limiter min_interval_ms tick)
       \<lparr> ai_default = outside_backend backend, ai_map = (\<lambda>a. map_option outside_backend (backends a)),
         ai_audit = audit_record sha e, ai_key_json = (\<lambda>k. Ok (kj k)), ai_debug = dbg \<rparr>
       \<lparr> od_repo = sqlite_outbox e, od_now_s = clock_s e,
         od_key_json = (\<lambda>k. Ok (kj k)), od_content_json = (\<lambda>c. Ok (cj c)) \<rparr>"

section \<open>Stage lemmas\<close>

text \<open>Preference calls on a calm database: they succeed and leave the rest alone.\<close>

definition calm_env_ok :: "env \<Rightarrow> bool" where
  "calm_env_ok e \<longleftrightarrow> no_faults e \<and> (\<forall>n. 0 \<le> env_now_ms e n)"

lemma pref_calls:
  assumes "calm_env_ok e"
  shows "\<exists>d'. pref_set e k v d = (Ok (), d') \<and> t_outbox d' = t_outbox d \<and> db.more d' = db.more d \<and>
      pref_view d' = (pref_view d)(k \<mapsto> v)"
    and "\<exists>d'. pref_get e k d = (Ok (pref_view d k), d') \<and> t_outbox d' = t_outbox d \<and> db.more d' = db.more d \<and>
      pref_view d' = pref_view d"
proof -
  have "\<exists>d'. pref_set e k v d = (Ok (), d') \<and> t_outbox d' = t_outbox d \<and> db.more d' = db.more d"
    using assms
    by (simp add: calm_env_ok_def pref_set_def since_epoch_def clock_s_def clock_ms_def
        sql_write_eq Let_def pos_imp_zdiv_neg_iff not_less)
  then show "\<exists>d'. pref_set e k v d = (Ok (), d') \<and> t_outbox d' = t_outbox d \<and> db.more d' = db.more d \<and>
      pref_view d' = (pref_view d)(k \<mapsto> v)"
    using sp.set_law by fastforce
  show "\<exists>d'. pref_get e k d = (Ok (pref_view d k), d') \<and> t_outbox d' = t_outbox d \<and> db.more d' = db.more d \<and>
      pref_view d' = pref_view d"
    using assms
    by (simp add: calm_env_ok_def pref_get_def sql_read_eq pref_view_def fun_eq_iff)
qed

section \<open>What the user gets\<close>

text \<open>
  The reply as a specification: a text is answered at once or handed to a backend; the
  answer of a backend, failures included, is a text; a rate-limited text gets none.
\<close>

datatype reply_plan = Answer string | Ask string "string option"

definition plan_reply :: "agent_config \<Rightarrow> string option \<Rightarrow> string \<Rightarrow> reply_plan" where
  "plan_reply ac stored t =
     (case parse (effective_aliases ac) t of
        Switch agent \<Rightarrow> Answer (text_switched @ agent)
      | Query \<Rightarrow> Answer (case stored of Some agent \<Rightarrow> text_current @ agent | None \<Rightarrow> text_none)
      | SwitchAndProcess agent rest \<Rightarrow> Ask rest (Some agent)
      | NotCommand \<Rightarrow>
          if \<not> ag_enable_user_preferences ac then Ask t None
          else (case stored of Some agent \<Rightarrow> Ask t (Some agent) | None \<Rightarrow> Answer text_prompt))"

definition plan_choice :: "agent_config \<Rightarrow> string \<Rightarrow> string option" where
  "plan_choice ac t =
     (case parse (effective_aliases ac) t of
        Switch agent \<Rightarrow> Some agent | SwitchAndProcess agent rest \<Rightarrow> Some agent | _ \<Rightarrow> None)"

definition pref_key_of :: "app_config \<Rightarrow> message \<Rightarrow> pref_key" where
  "pref_key_of cfg m = (as_str (rk_channel (m_route_key m)), cf_wechat_account_id cfg, rk_peer_id (m_route_key m))"

definition backend_answer :: "'m ai_backend \<Rightarrow> string \<Rightarrow> string \<Rightarrow> 'm \<Rightarrow> string" where
  "backend_answer b input info x =
     (case fst (ab_generate b input (Some info) x) of
        Ok response \<Rightarrow> response
      | Err er \<Rightarrow> ''[ai error: '' @ ai_error_display er @ ''] '' @ input)"

definition limited_at :: "nat \<Rightarrow> ('m \<Rightarrow> nat \<times> 'm) \<Rightarrow> message \<Rightarrow> ((string \<rightharpoonup> nat) \<times> 'm) db_scheme \<Rightarrow> bool" where
  "limited_at mi tick m d \<longleftrightarrow>
     (case fst (db.more d) (rate_key m) of
        Some t \<Rightarrow> fst (tick (snd (db.more d))) - t < mi
      | None \<Rightarrow> False)"

text \<open>The clock is read for the comparison, when there was an access, and again for the new window.\<close>

definition after_limit :: "('m \<Rightarrow> nat \<times> 'm) \<Rightarrow> message \<Rightarrow> ((string \<rightharpoonup> nat) \<times> 'm) db_scheme \<Rightarrow> nat \<times> 'm" where
  "after_limit tick m d =
     (case fst (db.more d) (rate_key m) of
        Some t \<Rightarrow> tick (snd (tick (snd (db.more d))))
      | None \<Rightarrow> tick (snd (db.more d)))"

definition ask_reply ::
  "app_config \<Rightarrow> nat \<Rightarrow> ('m \<Rightarrow> nat \<times> 'm) \<Rightarrow> 'm ai_backend \<Rightarrow> (string \<rightharpoonup> 'm ai_backend) \<Rightarrow>
   (string list \<Rightarrow> string) \<Rightarrow> conversation_snapshot \<Rightarrow> message \<Rightarrow> string \<Rightarrow> string option \<Rightarrow>
   ((string \<rightharpoonup> nat) \<times> 'm) db_scheme \<Rightarrow> string option" where
  "ask_reply cfg mi tick b bs dbg snap m input sel d =
     (let limiting = cf_ai_backend cfg \<noteq> ''echo'';
          backend = (case sel of Some a \<Rightarrow> (case bs a of Some b' \<Rightarrow> b' | None \<Rightarrow> b) | None \<Rightarrow> b);
          x = (if limiting then snd (after_limit tick m d) else snd (db.more d));
          info = ''channel='' @ as_str (rk_channel (m_route_key m)) @
            '' conversation='' @ rk_conversation_id (m_route_key m) @
            '' participants='' @ dbg (cs_participants snap)
      in if limiting \<and> limited_at mi tick m d then None
         else Some (add_responder_prefix (backend_answer backend input info x)
                (case sel of Some a \<Rightarrow> a | None \<Rightarrow> cf_ai_backend cfg)))"

definition expected_reply ::
  "app_config \<Rightarrow> agent_config \<Rightarrow> nat \<Rightarrow> ('m \<Rightarrow> nat \<times> 'm) \<Rightarrow> 'm ai_backend \<Rightarrow> (string \<rightharpoonup> 'm ai_backend) \<Rightarrow>
   (string list \<Rightarrow> string) \<Rightarrow> conversation_snapshot \<Rightarrow> message \<Rightarrow> string \<Rightarrow>
   ((string \<rightharpoonup> nat) \<times> 'm) db_scheme \<Rightarrow> string option" where
  "expected_reply cfg ac mi tick b bs dbg snap m t d =
     (case plan_reply ac (pref_view d (pref_key_of cfg m)) t of
        Answer a \<Rightarrow> Some (add_responder_prefix a ''system'')
      | Ask input sel \<Rightarrow> ask_reply cfg mi tick b bs dbg snap m input sel d)"

section \<open>Stages on SQLite\<close>

fun plan_context :: "pipeline_context \<Rightarrow> reply_plan \<Rightarrow> pipeline_context" where
  "plan_context ctx (Answer a) = ctx\<lparr>pc_ai_response := Some a, pc_short_circuit := True\<rparr>"
| "plan_context ctx (Ask input sel) =
     ctx\<lparr>pc_message := (pc_message ctx)\<lparr>m_content := Text input\<rparr>, pc_user_agent_selection := sel\<rparr>"

lemma agent_stage:
  fixes d :: "'x db_scheme"
  assumes "calm_env_ok e" and "m_content m = Text t"
  shows "\<exists>d'. agent_command_process (sqlite_preferences e) ac (initial_context cfg m snap) d =
      (Ok (plan_context (initial_context cfg m snap) (plan_reply ac (pref_view d (pref_key_of cfg m)) t)), d') \<and>
    t_outbox d' = t_outbox d \<and> db.more d' = db.more d \<and>
    pref_view d' = (case plan_choice ac t of Some a \<Rightarrow> (pref_view d)(pref_key_of cfg m \<mapsto> a) | None \<Rightarrow> pref_view d)"
proof -
  let ?k = "pref_key_of cfg m"
  note defs = agent_command_process_def initial_context_def assms(2) plan_reply_def plan_choice_def
    set_user_agent_via_port_def get_user_agent_via_port_def sqlite_preferences_def pref_key_of_def
  have same: "m\<lparr>m_content := Text t\<rparr> = m" using assms(2) by (cases m) simp
  obtain dg where g: "pref_get e ?k d = (Ok (pref_view d ?k), dg)" "t_outbox dg = t_outbox d" "db.more dg = db.more d"
      "pref_view dg = pref_view d"
    using pref_calls(2) [OF assms(1), of ?k d] by blast
  have s: "\<exists>ds. pref_set e ?k a d = (Ok (), ds) \<and> t_outbox ds = t_outbox d \<and> db.more ds = db.more d \<and>
      pref_view ds = (pref_view d)(?k \<mapsto> a)" for a
    using pref_calls(1) [OF assms(1), of ?k a d] by blast
  show ?thesis
  proof (cases "parse (effective_aliases ac) t")
    case (Switch a)
    with s [of a] show ?thesis by (auto simp: defs)
  next
    case Query
    with g show ?thesis by (simp add: defs Let_def)
  next
    case (SwitchAndProcess a r)
    with s [of a] show ?thesis by (auto simp: defs)
  next
    case NotCommand
    with g same show ?thesis
      by (cases "pref_view d ?k"; cases "ag_enable_user_preferences ac") (simp_all add: defs Let_def)
  qed
qed

lemma limiter_stage:
  "\<exists>d'. mw_process (sqlite_limiter mi tick) ctx d =
     (Ok (if limited_at mi tick (pc_message ctx) d then ctx\<lparr>pc_short_circuit := True\<rparr> else ctx), d') \<and>
     t_outbox d' = t_outbox d \<and> pref_view d' = pref_view d \<and>
     db.more d' = ((fst (db.more d))(rate_key (pc_message ctx) \<mapsto> fst (after_limit tick (pc_message ctx) d)),
                   snd (after_limit tick (pc_message ctx) d))"
  by (cases "fst (db.more d) (rate_key (pc_message ctx))")
    (auto simp: sqlite_limiter_def rate_limit_def rate_limit_process_def limited_at_def after_limit_def Let_def
      on_more_def split_beta pref_view_def fun_eq_iff)

lemma pref_view_cong: "t_preferences d' = t_preferences d \<Longrightarrow> pref_view d' = pref_view d"
  by (simp add: pref_view_def fun_eq_iff)

lemma ai_stage:
  assumes "m_content (pc_message ctx) = Text t" and "ai_audit dp = audit_record sha e"
    and "select_backend dp ctx = outside_backend b"
  shows "\<exists>d'. ai_process dp ctx d =
     (Ok (ctx\<lparr>pc_ai_response := Some (backend_answer b t (context_info dp ctx) (snd (db.more d)))\<rparr>), d') \<and>
     t_outbox d' = t_outbox d \<and> pref_view d' = pref_view d"
proof -
  obtain r d1 where g: "ab_generate (outside_backend b) t (Some (context_info dp ctx)) d = (r, d1)" by force
  then have "t_outbox d1 = t_outbox d" "t_preferences d1 = t_preferences d"
    "fst (ab_generate b t (Some (context_info dp ctx)) (snd (db.more d))) = r"
    by (auto simp: outside_backend_def on_more_def split_beta Let_def)
  with g assms show ?thesis
    by (cases r) (simp_all add: ai_process_def Let_def backend_answer_def, (simp add: pref_view_def fun_eq_iff)+)
qed

lemma outbox_insert_row:
  assumes "no_faults e" and "ob_id x \<notin> ob_id ` set (t_outbox d)"
  shows "t_outbox (snd (outbox_insert e x d)) = t_outbox d @ [entry_to_row x]"
    and "pref_view (snd (outbox_insert e x d)) = pref_view d"
  using assms
  by (auto simp: outbox_insert_def sql_write_eq repo_def tbl_insert_ignore_def entry_to_row_def pref_view_def fun_eq_iff)

text \<open>The two terminal stages turn an answer into a pending outbox entry.\<close>

definition queued :: "message \<Rightarrow> (route_key \<Rightarrow> string) \<Rightarrow> (message_content \<Rightarrow> string) \<Rightarrow> string \<Rightarrow>
  'w db_scheme \<Rightarrow> 'w db_scheme \<Rightarrow> bool" where
  "queued m kj cj body d d' \<longleftrightarrow>
     (\<exists>now. t_outbox d' = t_outbox d @
        [entry_to_row (outbox_entry_new (m_id m) (kj (m_route_key m)) (cj (Text body)) now)])"

lemma queued_cong: "t_outbox d1 = t_outbox d \<Longrightarrow> queued m kj cj x d1 = queued m kj cj x d"
  by (simp add: queued_def fun_eq_iff)

lemma delivery_stages:
  assumes "no_faults e" and "pc_ai_response ctx = Some r" and "m_id m \<notin> ob_id ` set (t_outbox d)"
    and "m_id (pc_message ctx) = m_id m" and "m_route_key (pc_message ctx) = m_route_key m"
    and "od = \<lparr> od_repo = sqlite_outbox e, od_now_s = clock_s e, od_key_json = (\<lambda>k. Ok (kj k)),
                od_content_json = (\<lambda>c. Ok (cj c)) \<rparr>"
  shows "\<exists>ctx' d'. pipeline_run [formatter, outbox_stage od] ctx d = (Ok ctx', d') \<and>
    queued m kj cj (add_responder_prefix r (responder_of ctx)) d d' \<and> pref_view d' = pref_view d"
proof -
  let ?text = "add_responder_prefix r (responder_of ctx)"
  let ?now = "fst (clock_s e d)"
  let ?x = "outbox_entry_new (m_id m) (kj (m_route_key m)) (cj (Text ?text)) ?now"
  have same: "t_outbox (snd (clock_s e d)) = t_outbox d"
      "pref_view (snd (clock_s e d)) = pref_view d"
    by (simp_all add: clock_s_def clock_ms_def pref_view_def fun_eq_iff)
  have "pipeline_run [formatter, outbox_stage od] ctx d =
      (Ok (ctx\<lparr>pc_ai_response := None, pc_message := (pc_message ctx)\<lparr>m_direction := Outbound,
           m_content := Text ?text\<rparr>\<rparr>), snd (outbox_insert e ?x (snd (clock_s e d))))"
    using assms(2,4-6)
    by (simp add: formatter_def formatter_process_def outbox_stage_def outbox_stage_process_def
        sqlite_outbox_def split_beta)
  moreover have "t_outbox (snd (outbox_insert e ?x (snd (clock_s e d)))) = t_outbox d @ [entry_to_row ?x]"
      "pref_view (snd (outbox_insert e ?x (snd (clock_s e d)))) = pref_view d"
    using outbox_insert_row [OF assms(1), of ?x "snd (clock_s e d)"] assms(3) same
    by (simp_all add: outbox_entry_new_def)
  ultimately show ?thesis unfolding queued_def by blast
qed

lemma pipeline_run_skip:
  "pc_short_circuit ctx \<Longrightarrow> \<not> mw_is_terminal s \<Longrightarrow> pipeline_run (s # steps) ctx w = pipeline_run steps ctx w"
  by simp

lemma pipeline_run_step:
  "\<not> pc_short_circuit ctx \<Longrightarrow> mw_process s ctx w = (Ok ctx', w') \<Longrightarrow>
   pipeline_run (s # steps) ctx w = pipeline_run steps ctx' w'"
  by simp

lemma quiet_stages:
  assumes "pc_ai_response ctx = None" and "m_direction (pc_message ctx) = Inbound"
  shows "pipeline_run [formatter, outbox_stage od] ctx d = (Ok ctx, d)"
  using assms by (simp add: formatter_def formatter_process_def outbox_stage_def outbox_stage_process_def)

lemmas stage_simps = normalize_def permission_def ai_middleware_def agent_command_middleware_def
  rate_limit_def sqlite_limiter_def

lemma assembled_front:
  assumes "calm_env_ok e" and "m_content m = Text t"
  shows "\<exists>d'. t_outbox d' = t_outbox d \<and> db.more d' = db.more d \<and>
    pref_view d' = (case plan_choice ac t of Some a \<Rightarrow> (pref_view d)(pref_key_of cfg m \<mapsto> a) | None \<Rightarrow> pref_view d) \<and>
    pipeline_run (agent_command_middleware (sqlite_preferences e) ac # normalize # permission # steps)
      (initial_context cfg m snap) d =
    pipeline_run steps (plan_context (initial_context cfg m snap) (plan_reply ac (pref_view d (pref_key_of cfg m)) t)) d'"
proof -
  let ?ctx = "plan_context (initial_context cfg m snap) (plan_reply ac (pref_view d (pref_key_of cfg m)) t)"
  obtain d' where a: "agent_command_process (sqlite_preferences e) ac (initial_context cfg m snap) d = (Ok ?ctx, d')"
    and rest: "t_outbox d' = t_outbox d" "db.more d' = db.more d"
      "pref_view d' = (case plan_choice ac t of Some a \<Rightarrow> (pref_view d)(pref_key_of cfg m \<mapsto> a) | None \<Rightarrow> pref_view d)"
    using agent_stage [OF assms, of ac cfg snap d] by blast
  have "\<not> pc_short_circuit (initial_context cfg m snap)" by (simp add: initial_context_def)
  with a have "pipeline_run (agent_command_middleware (sqlite_preferences e) ac # normalize # permission # steps)
      (initial_context cfg m snap) d = pipeline_run steps ?ctx d'"
    by (cases "pc_short_circuit ?ctx") (simp_all add: stage_simps)
  with rest show ?thesis by blast
qed

text \<open>An open text: the AI stage answers and the terminal stages queue the reply.\<close>

lemma ai_then_delivery:
  fixes d :: "((string \<rightharpoonup> nat) \<times> 'm) db_scheme"
  assumes "no_faults e" and "\<not> pc_short_circuit ctx" and "m_content (pc_message ctx) = Text t"
    and "m_id m \<notin> ob_id ` set (t_outbox d)"
    and "m_id (pc_message ctx) = m_id m" and "m_route_key (pc_message ctx) = m_route_key m"
    and "ai_audit dp = audit_record sha e" and "select_backend dp ctx = outside_backend b"
    and "od = \<lparr> od_repo = sqlite_outbox e, od_now_s = clock_s e, od_key_json = (\<lambda>k. Ok (kj k)),
                od_content_json = (\<lambda>c. Ok (cj c)) \<rparr>"
  shows "\<exists>ctx' d'. pipeline_run [ai_middleware dp, formatter, outbox_stage od] ctx d = (Ok ctx', d') \<and>
    queued m kj cj (add_responder_prefix (backend_answer b t (context_info dp ctx) (snd (db.more d)))
      (responder_of ctx)) d d' \<and> pref_view d' = pref_view d"
proof -
  let ?r = "backend_answer b t (context_info dp ctx) (snd (db.more d))"
  let ?ctx = "ctx\<lparr>pc_ai_response := Some ?r\<rparr>"
  obtain d1 where ai: "ai_process dp ctx d = (Ok ?ctx, d1)" "t_outbox d1 = t_outbox d" "pref_view d1 = pref_view d"
    using ai_stage [OF assms(3,7,8), of d] by blast
  have run: "pipeline_run [ai_middleware dp, formatter, outbox_stage od] ctx d =
      pipeline_run [formatter, outbox_stage od] ?ctx d1"
    by (rule pipeline_run_step) (use assms(2) ai(1) in \<open>simp_all add: ai_middleware_def\<close>)
  have "responder_of ?ctx = responder_of ctx" by (simp add: responder_of_def split: option.split)
  moreover note queued_cong [OF ai(2)]
  ultimately show ?thesis
    using delivery_stages [OF assms(1) _ _ _ _ assms(9), of ?ctx ?r m d1] assms(4-6) ai(2,3)
    unfolding run by (simp del: pipeline_run.simps)
qed

text \<open>The records with which the chain is assembled.\<close>

definition sqlite_ai_deps ::
  "digest \<Rightarrow> env \<Rightarrow> 'm ai_backend \<Rightarrow> (string \<rightharpoonup> 'm ai_backend) \<Rightarrow> (route_key \<Rightarrow> string) \<Rightarrow>
   (string list \<Rightarrow> string) \<Rightarrow> ((string \<rightharpoonup> nat) \<times> 'm) db_scheme ai_deps" where
  "sqlite_ai_deps sha e b bs kj dbg =
     \<lparr> ai_default = outside_backend b, ai_map = (\<lambda>a. map_option outside_backend (bs a)),
       ai_audit = audit_record sha e, ai_key_json = (\<lambda>k. Ok (kj k)), ai_debug = dbg \<rparr>"

definition sqlite_outbox_deps ::
  "env \<Rightarrow> (route_key \<Rightarrow> string) \<Rightarrow> (message_content \<Rightarrow> string) \<Rightarrow> 'w db_scheme outbox_deps" where
  "sqlite_outbox_deps e kj cj =
     \<lparr> od_repo = sqlite_outbox e, od_now_s = clock_s e,
       od_key_json = (\<lambda>k. Ok (kj k)), od_content_json = (\<lambda>c. Ok (cj c)) \<rparr>"

lemma selected_backend:
  "select_backend (sqlite_ai_deps sha e b bs kj dbg) ctx =
     outside_backend (case pc_user_agent_selection ctx of
       Some a \<Rightarrow> (case bs a of Some b' \<Rightarrow> b' | None \<Rightarrow> b) | None \<Rightarrow> b)"
  by (simp add: select_backend_def sqlite_ai_deps_def split: option.split)

text \<open>The rate limit in front, when there is one, either stops the text or hands it on.\<close>

lemma limiter_front:
  fixes d :: "((string \<rightharpoonup> nat) \<times> 'm) db_scheme"
  assumes "\<not> pc_short_circuit ctx" and "rate_key (pc_message ctx) = rate_key m"
    and "limiting = (cf_ai_backend cfg \<noteq> ''echo'')"
  shows "\<exists>d1. pipeline_run ((if limiting then [sqlite_limiter mi tick] else []) @ steps) ctx d =
      pipeline_run steps (if limiting \<and> limited_at mi tick m d then ctx\<lparr>pc_short_circuit := True\<rparr> else ctx) d1 \<and>
    t_outbox d1 = t_outbox d \<and> pref_view d1 = pref_view d \<and>
    snd (db.more d1) = (if limiting then snd (after_limit tick m d) else snd (db.more d))"
proof (cases limiting)
  case True
  have "limited_at mi tick (pc_message ctx) d = limited_at mi tick m d"
    "after_limit tick (pc_message ctx) d = after_limit tick m d"
    using assms(2) by (simp_all add: limited_at_def after_limit_def)
  with limiter_stage [of mi tick ctx d] obtain d1 where l:
      "mw_process (sqlite_limiter mi tick) ctx d =
         (Ok (if limited_at mi tick m d then ctx\<lparr>pc_short_circuit := True\<rparr> else ctx), d1)"
      "t_outbox d1 = t_outbox d" "pref_view d1 = pref_view d" "snd (db.more d1) = snd (after_limit tick m d)"
    by auto
  from pipeline_run_step [OF assms(1) l(1), of steps] l(2-4) True show ?thesis by auto
qed auto

lemma ask_stages:
  fixes d :: "((string \<rightharpoonup> nat) \<times> 'm) db_scheme"
  assumes "no_faults e" and "m_id m \<notin> ob_id ` set (t_outbox d)" and "m_direction m = Inbound"
    and "ctx = plan_context (initial_context cfg m snap) (Ask input sel)"
    and "limiting = (cf_ai_backend cfg \<noteq> ''echo'')"
  shows "\<exists>ctx' d'. pipeline_run ((if limiting then [sqlite_limiter mi tick] else []) @
        [ai_middleware (sqlite_ai_deps sha e b bs kj dbg), formatter, outbox_stage (sqlite_outbox_deps e kj cj)]) ctx d =
      (Ok ctx', d') \<and>
    (case ask_reply cfg mi tick b bs dbg snap m input sel d of
       Some body \<Rightarrow> queued m kj cj body d d' | None \<Rightarrow> t_outbox d' = t_outbox d) \<and> pref_view d' = pref_view d"
proof -
  let ?dp = "sqlite_ai_deps sha e b bs kj dbg :: ((string \<rightharpoonup> nat) \<times> 'm) db_scheme ai_deps"
  let ?tail = "[ai_middleware ?dp, formatter, outbox_stage (sqlite_outbox_deps e kj cj)]"
  let ?b = "case sel of Some a \<Rightarrow> (case bs a of Some b' \<Rightarrow> b' | None \<Rightarrow> b) | None \<Rightarrow> b"
  have ctx: "\<not> pc_short_circuit ctx" "m_content (pc_message ctx) = Text input" "m_id (pc_message ctx) = m_id m"
    "m_route_key (pc_message ctx) = m_route_key m" "pc_ai_response ctx = None"
    "m_direction (pc_message ctx) = Inbound" "pc_user_agent_selection ctx = sel"
    "rate_key (pc_message ctx) = rate_key m"
    using assms(3,4) by (simp_all add: initial_context_def rate_key_def)
  have audit: "ai_audit ?dp = audit_record sha e" by (simp add: sqlite_ai_deps_def)
  have sel: "select_backend ?dp ctx = outside_backend ?b" using ctx(7) by (simp add: selected_backend)
  have info: "context_info ?dp ctx = ''channel='' @ as_str (rk_channel (m_route_key m)) @
      '' conversation='' @ rk_conversation_id (m_route_key m) @ '' participants='' @ dbg (cs_participants snap)"
    using assms(4) by (simp add: context_info_def initial_context_def sqlite_ai_deps_def)
  have resp: "responder_of ctx = (case sel of Some a \<Rightarrow> a | None \<Rightarrow> cf_ai_backend cfg)"
    using assms(4) by (simp add: responder_of_def initial_context_def split: option.split)
  obtain d1 where front: "pipeline_run ((if limiting then [sqlite_limiter mi tick] else []) @ ?tail) ctx d =
      pipeline_run ?tail (if limiting \<and> limited_at mi tick m d then ctx\<lparr>pc_short_circuit := True\<rparr> else ctx) d1"
    and d1: "t_outbox d1 = t_outbox d" "pref_view d1 = pref_view d"
      "snd (db.more d1) = (if limiting then snd (after_limit tick m d) else snd (db.more d))"
    using limiter_front [OF ctx(1,8) assms(5), of mi tick ?tail d] by blast
  show ?thesis
  proof (cases "limiting \<and> limited_at mi tick m d")
    case True
    let ?ctx = "ctx\<lparr>pc_short_circuit := True\<rparr>"
    have "pipeline_run ?tail ?ctx d1 = pipeline_run [formatter, outbox_stage (sqlite_outbox_deps e kj cj)] ?ctx d1"
      by (rule pipeline_run_skip) (simp_all add: ai_middleware_def)
    also have "\<dots> = (Ok ?ctx, d1)" by (rule quiet_stages) (simp_all add: ctx)
    finally show ?thesis using front True d1 assms(5) by (simp add: ask_reply_def Let_def del: pipeline_run.simps)
  next
    case False
    obtain ctx' d' where "pipeline_run ?tail ctx d1 = (Ok ctx', d')" "pref_view d' = pref_view d1"
      "queued m kj cj (add_responder_prefix (backend_answer ?b input (context_info ?dp ctx) (snd (db.more d1)))
         (responder_of ctx)) d1 d'"
      using ai_then_delivery [OF assms(1) ctx(1,2) _ ctx(3,4) audit sel sqlite_outbox_deps_def, of d1]
        assms(2) d1(1) by metis
    moreover have "ask_reply cfg mi tick b bs dbg snap m input sel d = Some (add_responder_prefix
        (backend_answer ?b input (context_info ?dp ctx) (snd (db.more d1))) (responder_of ctx))"
      using False by (auto simp: ask_reply_def Let_def info resp d1(3) assms(5))
    moreover note queued_cong [OF d1(1)]
    ultimately show ?thesis unfolding front if_not_P [OF False] using d1(2) by (simp del: pipeline_run.simps)
  qed
qed

text \<open>The whole chain: its answer, the outbox and the stored preferences.\<close>

lemma chain_answers:
  fixes d :: "((string \<rightharpoonup> nat) \<times> 'm) db_scheme"
  assumes "calm_env_ok e" and "m_content m = Text t" and "m_direction m = Inbound"
    and "m_id m \<notin> ob_id ` set (t_outbox d)"
    and "pipeline_run (sqlite_pipeline sha e cfg ac mi tick b bs kj cj dbg) (initial_context cfg m snap) d = (r, d')"
  shows "is_Ok r \<and>
    (case expected_reply cfg ac mi tick b bs dbg snap m t d of
       Some body \<Rightarrow> queued m kj cj body d d'
     | None \<Rightarrow> t_outbox d' = t_outbox d) \<and>
    pref_view d' = (case plan_choice ac t of
       Some a \<Rightarrow> (pref_view d)(pref_key_of cfg m \<mapsto> a) | None \<Rightarrow> pref_view d)"
proof -
  define limiting where "limiting = (cf_ai_backend cfg \<noteq> ''echo'')"
  let ?lim = "if limiting then [sqlite_limiter mi tick] else []"
  let ?od = "sqlite_outbox_deps e kj cj"
  let ?tail = "[ai_middleware (sqlite_ai_deps sha e b bs kj dbg), formatter, outbox_stage ?od]"
  let ?ctx0 = "initial_context cfg m snap"
  let ?plan = "plan_reply ac (pref_view d (pref_key_of cfg m)) t"
  let ?pv = "case plan_choice ac t of Some a \<Rightarrow> (pref_view d)(pref_key_of cfg m \<mapsto> a) | None \<Rightarrow> pref_view d"
  have nf: "no_faults e" using assms(1) by (simp add: calm_env_ok_def)
  have chain: "sqlite_pipeline sha e cfg ac mi tick b bs kj cj dbg =
      agent_command_middleware (sqlite_preferences e) ac # normalize # permission # ?lim @ ?tail"
    by (simp add: sqlite_pipeline_def assemble_def sqlite_ai_deps_def sqlite_outbox_deps_def limiting_def)
  obtain d1 where front: "t_outbox d1 = t_outbox d" "db.more d1 = db.more d" "pref_view d1 = ?pv"
    and run: "pipeline_run (?lim @ ?tail) (plan_context ?ctx0 ?plan) d1 = (r, d')"
    using assembled_front [OF assms(1,2), of d _ ac "?lim @ ?tail" snap] assms(5) unfolding chain by metis
  show ?thesis
  proof (cases ?plan)
    case (Answer a)
    let ?ctx = "?ctx0\<lparr>pc_ai_response := Some a, pc_short_circuit := True\<rparr>"
    have "pipeline_run (?lim @ ?tail) ?ctx d1 = pipeline_run [formatter, outbox_stage ?od] ?ctx d1"
      by (simp add: stage_simps del: pipeline_run.simps) (simp add: pipeline_run_skip del: pipeline_run.simps)
    moreover have "responder_of ?ctx = ''system''" by (simp add: responder_of_def initial_context_def)
    moreover obtain ctx' d2 where "pipeline_run [formatter, outbox_stage ?od] ?ctx d1 = (Ok ctx', d2)"
        "queued m kj cj (add_responder_prefix a (responder_of ?ctx)) d1 d2" "pref_view d2 = pref_view d1"
      using delivery_stages [OF nf _ _ _ _ sqlite_outbox_deps_def, of ?ctx a m d1 kj cj] assms(4) front(1)
      by (simp add: initial_context_def del: pipeline_run.simps) blast
    ultimately show ?thesis
      using run Answer front(3) queued_cong [OF front(1)]
      by (auto simp: expected_reply_def is_Ok_def simp del: pipeline_run.simps)
  next
    case (Ask input sel)
    have "ask_reply cfg mi tick b bs dbg snap m input sel d1 = ask_reply cfg mi tick b bs dbg snap m input sel d"
      unfolding ask_reply_def limited_at_def after_limit_def front(2) by (rule refl)
    with ask_stages [OF nf _ assms(3) refl limiting_def, where d = d1 and snap = snap and input = input and sel = sel
        and mi = mi and tick = tick and sha = sha and b = b and bs = bs and kj = kj and dbg = dbg and cj = cj]
      assms(4) front run Ask
      queued_cong [OF front(1)]
    show ?thesis by (auto simp: expected_reply_def is_Ok_def simp del: pipeline_run.simps split: option.splits)
  qed
qed

section \<open>Properties\<close>

text \<open>
  C3. What a user gets for a text message: on a database without faults, whatever the AI
  backends do, the assembled chain runs to its end without an error. It leaves one pending
  outbox entry with the message's id and route key and the specified reply (command
  answers, the prompt to choose an agent, or the answer of the chosen backend, errors
  included, each with the responder's prefix); a text that falls into the rate-limit window
  leaves the outbox as it is. A switch of the agent is stored for the sender, and for
  nobody else.
\<close>

theorem text_message_is_answered:
  fixes d :: "((string \<rightharpoonup> nat) \<times> 'm) db_scheme"
  assumes "calm_env_ok e" and "m_content m = Text t" and "m_direction m = Inbound"
    and "m_id m \<notin> ob_id ` set (t_outbox d)"
    and "pipeline_run (sqlite_pipeline sha e cfg ac mi tick b bs kj cj dbg) (initial_context cfg m snap) d = (r, d')"
  shows "is_Ok r \<and>
    (case expected_reply cfg ac mi tick b bs dbg snap m t d of
       Some body \<Rightarrow> queued m kj cj body d d'
     | None \<Rightarrow> t_outbox d' = t_outbox d) \<and>
    pref_view d' = (case plan_choice ac t of
       Some a \<Rightarrow> (pref_view d)(pref_key_of cfg m \<mapsto> a) | None \<Rightarrow> pref_view d)"
  using assms by (rule chain_answers)

definition empty_world :: "((string \<rightharpoonup> nat) \<times> unit) db_scheme" where
  "empty_world = db.extend empty_db (Map.empty, ())"

definition sample_snapshot :: conversation_snapshot where
  "sample_snapshot = \<lparr> cs_route_key = sample_key, cs_conversation_id = ''c1'', cs_peer_id = ''u1'',
     cs_conversation_type = Direct, cs_participants = [''u1''], cs_message_count = 1, cs_last_active_secs = 0 \<rparr>"

theorem text_message_is_answered_witness:
  "let cfg = \<lparr> cf_ai_backend = ''echo'', cf_wechat_account_id = ''a'' \<rparr>;
       ac = \<lparr> ag_enable_user_preferences = False, ag_aliases = [] \<rparr>;
       m = (sample_msg ''m1'' 5)\<lparr>m_content := Text ''hi''\<rparr>;
       d' = snd (pipeline_run (sqlite_pipeline (\<lambda>x. x) calm_env cfg ac 1000 (\<lambda>x. (0, x)) echo_backend Map.empty
              (\<lambda>k. ''key'') (\<lambda>c. ''body'') concat) (initial_context cfg m sample_snapshot) empty_world)
   in queued m (\<lambda>k. ''key'') (\<lambda>c. ''body'') ''[echo] hi'' empty_world d'"
proof -
  let ?cfg = "\<lparr> cf_ai_backend = ''echo'', cf_wechat_account_id = ''a'' \<rparr>"
  let ?ac = "\<lparr> ag_enable_user_preferences = False, ag_aliases = [] \<rparr>"
  let ?m = "(sample_msg ''m1'' 5)\<lparr>m_content := Text ''hi''\<rparr>"
  have calm: "calm_env_ok calm_env" by (simp add: calm_env_ok_def calm_env_def no_faults_def)
  have ins: "m_content ?m = Text ''hi''" "m_direction ?m = Inbound" "m_id ?m \<notin> ob_id ` set (t_outbox empty_world)"
    by (simp_all add: sample_simps empty_world_def db.defs empty_db_def)
  have "parse (effective_aliases ?ac) ''hi'' = NotCommand" by code_simp
  then have "expected_reply ?cfg ?ac 1000 (\<lambda>x. (0, x)) echo_backend Map.empty concat sample_snapshot ?m ''hi'' empty_world =
      Some ''[echo] hi''"
    by (simp add: expected_reply_def plan_reply_def ask_reply_def Let_def backend_answer_def echo_backend_def
        add_responder_prefix_def starts_with_def)
  with text_message_is_answered [OF calm ins, of "\<lambda>x. x" ?cfg ?ac 1000 "\<lambda>x. (0, x)" echo_backend Map.empty
      "\<lambda>k. ''key''" "\<lambda>c. ''body''" concat sample_snapshot, OF prod.collapse [symmetric]]
  show ?thesis by (simp add: Let_def del: pipeline_run.simps)
qed

end
