(* ===== verification/Api_Auth.thy ===== *)
theory Api_Auth
  imports Audit_Chain Database
begin

text \<open>
  \<open>src/adapters/api_client_registry.rs\<close> and \<open>src/adapters/http_auth.rs\<close>: bearer tokens of API
  clients and the middleware that guards the HTTP routes.

  The digest, the base64 encoding, the system's random bytes, the JSON form of the scopes
  and the text of a column conversion error belong to crates and are fields of
  \<open>token_deps\<close>. A sum of \<open>i64\<close> wraps, as in a release build.
\<close>

section \<open>The registry\<close>

record api_client_record =
  ar_id :: string
  ar_project_id :: string
  ar_client_name :: string
  ar_token_hash :: string
  ar_scopes :: "string list"
  ar_created_at :: int
  ar_expires_at :: int
  ar_revoked_at :: "int option"
  ar_rotated_from :: "string option"

record issued_api_client =
  ic_raw_token :: string
  ic_record :: api_client_record

datatype auth_failure = Unauthorized | Forbidden

record token_deps =
  td_sha :: digest
  td_b64 :: "bytes \<Rightarrow> string"
  td_random :: "nat \<Rightarrow> bytes"
  td_scopes_json :: "string list \<Rightarrow> string + string"
  td_parse_scopes :: "string \<Rightarrow> string + string list"
  td_conversion_error :: "string \<Rightarrow> string"

definition hash_token :: "token_deps \<Rightarrow> string \<Rightarrow> string" where
  "hash_token td raw_token = td_b64 td (td_sha td (as_bytes raw_token))"

definition generate_token :: "token_deps \<Rightarrow> 'w db_scheme \<Rightarrow> string \<times> 'w db_scheme" where
  "generate_token td d = (td_b64 td (td_random td (db_tick d)), d\<lparr>db_tick := Suc (db_tick d)\<rparr>)"

definition parse_scopes :: "token_deps \<Rightarrow> string \<Rightarrow> string + string list" where
  "parse_scopes td s = map_err (\<lambda>m. ''invalid api client scopes JSON: '' @ m) (td_parse_scopes td s)"

definition scopes_to_json :: "token_deps \<Rightarrow> string list \<Rightarrow> string + string" where
  "scopes_to_json td ss = map_err (\<lambda>m. ''failed to serialize scopes: '' @ m) (td_scopes_json td ss)"

definition record_from_row :: "token_deps \<Rightarrow> api_client_row \<Rightarrow> string + api_client_record" where
  "record_from_row td r =
     (case parse_scopes td (ac_scopes r) of
        Err m \<Rightarrow> Err (td_conversion_error td m)
      | Ok ss \<Rightarrow> Ok \<lparr> ar_id = ac_id r, ar_project_id = ac_project_id r, ar_client_name = ac_client_name r,
          ar_token_hash = ac_token_hash r, ar_scopes = ss, ar_created_at = ac_created_at r,
          ar_expires_at = ac_expires_at r, ar_revoked_at = ac_revoked_at r, ar_rotated_from = ac_rotated_from r \<rparr>)"

definition i64_add :: "int \<Rightarrow> int \<Rightarrow> int" where
  "i64_add x y = sint (word_of_int x + word_of_int y :: 64 word)"

text \<open>The insertion checks the primary key and the unique token hash.\<close>

definition insert_client :: "api_client_row \<Rightarrow> api_client_row list \<Rightarrow> string + api_client_row list" where
  "insert_client r t =
     (case tbl_insert ac_id ''UNIQUE constraint failed: api_clients.id'' r t of
        Err m \<Rightarrow> Err m
      | Ok _ \<Rightarrow> tbl_insert ac_token_hash ''UNIQUE constraint failed: api_clients.token_hash'' r t)"

definition client_row :: "api_client_record \<Rightarrow> string \<Rightarrow> api_client_row" where
  "client_row rec json =
     \<lparr> ac_id = ar_id rec, ac_project_id = ar_project_id rec, ac_client_name = ar_client_name rec,
       ac_token_hash = ar_token_hash rec, ac_scopes = json, ac_created_at = ar_created_at rec,
       ac_expires_at = ar_expires_at rec, ac_revoked_at = ar_revoked_at rec, ac_rotated_from = ar_rotated_from rec \<rparr>"

definition issue_token ::
  "token_deps \<Rightarrow> env \<Rightarrow> string \<Rightarrow> string \<Rightarrow> string list \<Rightarrow> int \<Rightarrow> string option \<Rightarrow> 'w db_scheme \<Rightarrow>
   (string + issued_api_client) \<times> 'w db_scheme" where
  "issue_token td e project_id client_name scopes ttl_secs rotated_from d =
     (if trim project_id = [] then (Err ''project_id cannot be empty'', d)
      else if trim client_name = [] then (Err ''client_name cannot be empty'', d)
      else if ttl_secs \<le> 0 then (Err ''ttl_secs must be positive'', d)
      else
        (let (raw, d1) = generate_token td d;
             token_hash = hash_token td raw;
             (uuid, d2) = new_uuid e d1;
             (created, d3) = clock_s e d2;
             (now, d4) = clock_s e d3;
             rec = \<lparr> ar_id = uuid, ar_project_id = trim project_id, ar_client_name = trim client_name,
               ar_token_hash = token_hash, ar_scopes = scopes, ar_created_at = created,
               ar_expires_at = i64_add now ttl_secs, ar_revoked_at = None, ar_rotated_from = rotated_from \<rparr>
         in case scopes_to_json td (ar_scopes rec) of
              Err m \<Rightarrow> (Err m, d4)
            | Ok json \<Rightarrow>
                (case sql e (\<lambda>n d. case insert_client (client_row rec json) (t_api_clients d) of
                          Err m \<Rightarrow> Err m | Ok t \<Rightarrow> Ok ((), d\<lparr>t_api_clients := t\<rparr>)) d4 of
                   (Err m, d5) \<Rightarrow> (Err m, d5)
                 | (Ok _, d5) \<Rightarrow> (Ok \<lparr> ic_raw_token = raw, ic_record = rec \<rparr>, d5))))"

fun collect_rows :: "token_deps \<Rightarrow> api_client_row list \<Rightarrow> string + api_client_record list" where
  "collect_rows td [] = Ok []"
| "collect_rows td (r # rs) =
     (case record_from_row td r of
        Err m \<Rightarrow> Err m
      | Ok x \<Rightarrow> (case collect_rows td rs of Err m \<Rightarrow> Err m | Ok xs \<Rightarrow> Ok (x # xs)))"

definition list_tokens ::
  "token_deps \<Rightarrow> env \<Rightarrow> string option \<Rightarrow> 'w db_scheme \<Rightarrow> (string + api_client_record list) \<times> 'w db_scheme" where
  "list_tokens td e project_id d =
     sql e (\<lambda>n d. case collect_rows td (order_by_desc ac_created_at (\<lambda>r. env_rank e n (ac_id r))
          (filter (\<lambda>r. case project_id of Some p \<Rightarrow> ac_project_id r = p | None \<Rightarrow> True) (t_api_clients d))) of
        Err m \<Rightarrow> Err m | Ok xs \<Rightarrow> Ok (xs, d)) d"

definition revoke_token :: "token_deps \<Rightarrow> env \<Rightarrow> string \<Rightarrow> 'w db_scheme \<Rightarrow> (string + bool) \<times> 'w db_scheme" where
  "revoke_token td e raw_token d =
     (let token_hash = hash_token td (trim raw_token);
          (now, d1) = clock_s e d
      in sql e (\<lambda>n d. Ok (token_hash \<in> ac_token_hash ` set (t_api_clients d),
           d\<lparr>t_api_clients := tbl_update (\<lambda>r. ac_token_hash r = token_hash)
              (\<lambda>r. r\<lparr>ac_revoked_at := Some now\<rparr>) (t_api_clients d)\<rparr>)) d1)"

definition load_by_token_hash ::
  "token_deps \<Rightarrow> env \<Rightarrow> string \<Rightarrow> 'w db_scheme \<Rightarrow> (string + api_client_record option) \<times> 'w db_scheme" where
  "load_by_token_hash td e token_hash d =
     sql e (\<lambda>n d. case tbl_find ac_token_hash token_hash (t_api_clients d) of
          None \<Rightarrow> Ok (None, d)
        | Some r \<Rightarrow> (case record_from_row td r of Err m \<Rightarrow> Err m | Ok x \<Rightarrow> Ok (Some x, d))) d"

definition matches_scope :: "api_client_record \<Rightarrow> string \<Rightarrow> bool" where
  "matches_scope rec required_scope =
     list_ex (\<lambda>s. s = required_scope \<or> s = ''*'') (ar_scopes rec)"

definition authorize_bearer ::
  "token_deps \<Rightarrow> env \<Rightarrow> string option \<Rightarrow> string \<Rightarrow> 'w db_scheme \<Rightarrow>
   (auth_failure + api_client_record) \<times> 'w db_scheme" where
  "authorize_bearer td e auth_header required_scope d =
     (case auth_header of
        None \<Rightarrow> (Err Unauthorized, d)
      | Some header \<Rightarrow>
          (case strip_prefix header ''Bearer '' of
             None \<Rightarrow> (Err Unauthorized, d)
           | Some raw \<Rightarrow>
               (let raw_token = trim raw in
                if raw_token = [] then (Err Unauthorized, d)
                else (case load_by_token_hash td e (hash_token td raw_token) d of
                        (Err _, d1) \<Rightarrow> (Err Unauthorized, d1)
                      | (Ok None, d1) \<Rightarrow> (Err Unauthorized, d1)
                      | (Ok (Some rec), d1) \<Rightarrow>
                          (let (now, d2) = clock_s e d1 in
                           if ar_revoked_at rec \<noteq> None \<or> ar_expires_at rec \<le> now then (Err Unauthorized, d2)
                           else if \<not> matches_scope rec required_scope then (Err Forbidden, d2)
                           else (Ok rec, d2))))))"

section \<open>The HTTP guard\<close>

definition health_path :: string where "health_path = ''/api/health''"

definition feishu_webhook_path :: string where "feishu_webhook_path = ''/api/feishu/webhook''"

datatype path_auth_policy = Public | Scoped string | Deny

definition auth_policy_for_path :: "string \<Rightarrow> path_auth_policy" where
  "auth_policy_for_path path =
     (if path = health_path \<or> path = feishu_webhook_path then Public
      else if path = ''/api/send'' then Scoped ''send''
      else if path = ''/api/window_status'' then Scoped ''window_status''
      else Deny)"

text \<open>A response of the guard itself, or what the rest of the stack answered.\<close>

datatype 'r response = Status nat string | Handled 'r

definition require_bearer_auth ::
  "token_deps \<Rightarrow> env \<Rightarrow> string \<Rightarrow> string option \<Rightarrow> ('w db_scheme \<Rightarrow> 'r \<times> 'w db_scheme) \<Rightarrow> 'w db_scheme \<Rightarrow>
   'r response \<times> 'w db_scheme" where
  "require_bearer_auth td e path header_value next d =
     (let run = (\<lambda>d. let (r, d') = next d in (Handled r, d')) in
      case auth_policy_for_path path of
        Public \<Rightarrow> run d
      | Scoped required_scope \<Rightarrow>
          (case authorize_bearer td e header_value required_scope d of
             (Ok _, d1) \<Rightarrow> run d1
           | (Err Forbidden, d1) \<Rightarrow> (Status 403 ''forbidden'', d1)
           | (Err Unauthorized, d1) \<Rightarrow> (Status 401 ''unauthorized'', d1))
      | Deny \<Rightarrow> (Status 401 ''unauthorized'', d))"

section \<open>Authorised callers\<close>

text \<open>A row that may use a scope at a time, and what a header presents.\<close>

definition grants :: "token_deps \<Rightarrow> api_client_row \<Rightarrow> string \<Rightarrow> int \<Rightarrow> bool" where
  "grants td r scope now \<longleftrightarrow> ac_revoked_at r = None \<and> now < ac_expires_at r \<and>
     (\<exists>ss. td_parse_scopes td (ac_scopes r) = Ok ss \<and> (scope \<in> set ss \<or> ''*'' \<in> set ss))"

fun presents :: "string option \<Rightarrow> string \<Rightarrow> bool" where
  "presents (Some h) tok = (\<exists>raw. strip_prefix h ''Bearer '' = Some raw \<and> trim raw = tok \<and> tok \<noteq> [])"
| "presents None tok = False"

lemma record_from_row_Ok:
  assumes "record_from_row td r = Ok x"
  shows "td_parse_scopes td (ac_scopes r) = Ok (ar_scopes x) \<and> ar_revoked_at x = ac_revoked_at r \<and>
    ar_expires_at x = ac_expires_at r \<and> ar_token_hash x = ac_token_hash r"
  using assms by (auto simp: record_from_row_def parse_scopes_def map_err_def split: sum.splits)

lemma matches_scope_iff: "matches_scope x s \<longleftrightarrow> s \<in> set (ar_scopes x) \<or> ''*'' \<in> set (ar_scopes x)"
  by (auto simp: matches_scope_def list_ex_iff)

lemma load_frame: "t_api_clients (snd (load_by_token_hash td e h d)) = t_api_clients d"
  by (rule sql_cases [of e d "\<lambda>n d. case tbl_find ac_token_hash h (t_api_clients d) of
        None \<Rightarrow> Ok (None, d)
      | Some r \<Rightarrow> (case record_from_row td r of Err m \<Rightarrow> Err m | Ok x \<Rightarrow> Ok (Some x, d))"])
    (auto simp: load_by_token_hash_def split: option.splits sum.splits)

lemma load_by_token_hash_Some:
  assumes "load_by_token_hash td e h d = (Ok (Some x), d1)"
  shows "\<exists>r \<in> set (t_api_clients d). ac_token_hash r = h \<and> record_from_row td r = Ok x"
proof -
  have "\<exists>r. tbl_find ac_token_hash h (t_api_clients d) = Some r \<and> record_from_row td r = Ok x"
    using assms by (auto simp: load_by_token_hash_def sql_def Let_def split: option.splits sum.splits)
  then show ?thesis using tbl_find_Some_key by fast
qed

lemma authorize_Ok:
  assumes "authorize_bearer td e hdr scope d = (Ok x, d')"
  shows "\<exists>tok d1. presents hdr tok \<and> load_by_token_hash td e (hash_token td tok) d = (Ok (Some x), d1) \<and>
    ar_revoked_at x = None \<and> fst (clock_s e d1) < ar_expires_at x \<and> matches_scope x scope"
  using assms
  by (auto simp: authorize_bearer_def Let_def split: option.splits sum.splits if_splits prod.splits)

lemma load_by_token_hash_tick: "db_tick (snd (load_by_token_hash td e h d)) = Suc (db_tick d)"
  by (auto simp: load_by_token_hash_def sql_def Let_def split: option.split sum.split)

text \<open>The clock is read right after the query.\<close>

abbreviation check_time :: "env \<Rightarrow> 'w db_scheme \<Rightarrow> int" where
  "check_time e d \<equiv> env_now_ms e (Suc (db_tick d)) div 1000"

lemma authorize_sound:
  assumes "authorize_bearer td e hdr scope d = (Ok x, d')"
  shows "\<exists>tok. \<exists>r \<in> set (t_api_clients d). presents hdr tok \<and> ac_token_hash r = hash_token td tok \<and>
    grants td r scope (check_time e d)"
proof -
  obtain tok d1 where a: "presents hdr tok" "load_by_token_hash td e (hash_token td tok) d = (Ok (Some x), d1)"
      "ar_revoked_at x = None" "fst (clock_s e d1) < ar_expires_at x" "matches_scope x scope"
    using authorize_Ok [OF assms] by blast
  have "db_tick d1 = Suc (db_tick d)" using load_by_token_hash_tick [of td e "hash_token td tok" d] a(2) by simp
  moreover obtain r where "r \<in> set (t_api_clients d)" "ac_token_hash r = hash_token td tok" "record_from_row td r = Ok x"
    using load_by_token_hash_Some a(2) by blast
  ultimately show ?thesis
    using a record_from_row_Ok [of td r x]
    by (intro exI [of _ tok] bexI [of _ r]) (auto simp: grants_def matches_scope_iff clock_s_def clock_ms_def)
qed

section \<open>Sequences of registry calls\<close>

datatype registry_op = Issue string string "string list" int "string option" | Revoke string
  | Listing "string option" | Authorize "string option" string

fun registry_call :: "token_deps \<Rightarrow> env \<Rightarrow> registry_op \<Rightarrow> 'w db_scheme \<Rightarrow> 'w db_scheme" where
  "registry_call td e (Issue p c ss ttl rot) d = snd (issue_token td e p c ss ttl rot d)"
| "registry_call td e (Revoke t) d = snd (revoke_token td e t d)"
| "registry_call td e (Listing p) d = snd (list_tokens td e p d)"
| "registry_call td e (Authorize h s) d = snd (authorize_bearer td e h s d)"

definition registry_calls :: "token_deps \<Rightarrow> env \<Rightarrow> registry_op list \<Rightarrow> 'w db_scheme \<Rightarrow> 'w db_scheme" where
  "registry_calls td e cs d = fold (registry_call td e) cs d"

text \<open>What no call undoes: hashes are unique, and one hash is revoked in all its rows.\<close>

definition dead_hash :: "string \<Rightarrow> api_client_row list \<Rightarrow> bool" where
  "dead_hash h t \<longleftrightarrow> h \<in> set (map ac_token_hash t) \<and> (\<forall>r \<in> set t. ac_token_hash r = h \<longrightarrow> ac_revoked_at r \<noteq> None)"

lemma insert_client_dead: "insert_client r t = Ok t' \<Longrightarrow> dead_hash h t \<Longrightarrow> dead_hash h t'"
  by (auto simp: insert_client_def tbl_insert_def dead_hash_def split: if_splits sum.splits)

lemma revoke_dead: "dead_hash h t \<Longrightarrow>
    dead_hash h (tbl_update (\<lambda>r. ac_token_hash r = k) (\<lambda>r. r\<lparr>ac_revoked_at := Some now\<rparr>) t)"
  unfolding dead_hash_def by (subst tbl_update_keys) (auto simp: tbl_update_def)

lemma sql_api_clients:
  assumes "\<And>n d1 x d2. f n d1 = Ok (x, d2) \<Longrightarrow> t_api_clients d1 = t_api_clients d \<Longrightarrow> P (t_api_clients d2)"
    and "P (t_api_clients d)"
  shows "P (t_api_clients (snd (sql e f d)))"
  by (rule sql_cases [of e d f]) (use assms in auto)

lemma clock_api_clients [simp]: "t_api_clients (snd (clock_s e d)) = t_api_clients d"
  by (simp add: clock_s_def clock_ms_def)

lemma issue_token_dead:
  assumes "dead_hash h (t_api_clients d)"
  shows "dead_hash h (t_api_clients (snd (issue_token td e p c ss ttl rot d)))"
proof -
  have ins: "dead_hash h (t_api_clients (snd (sql e (\<lambda>n d. case insert_client row (t_api_clients d) of
      Err m \<Rightarrow> Err m | Ok t \<Rightarrow> Ok ((), d\<lparr>t_api_clients := t\<rparr>)) d4)))"
    if "t_api_clients d4 = t_api_clients d" for row and d4 :: "'a db_scheme"
    by (rule sql_api_clients) (use assms that insert_client_dead in \<open>auto split: sum.splits\<close>)
  show ?thesis
    using assms
    by (auto simp: issue_token_def Let_def split_beta generate_token_def new_uuid_def
        split: sum.splits prod.splits intro!: ins dest!: arg_cong [where f = snd])
qed

lemma authorize_api_clients: "t_api_clients (snd (authorize_bearer td e h s d)) = t_api_clients d"
proof -
  have "t_api_clients (snd (clock_s e (snd (load_by_token_hash td e k d)))) = t_api_clients d" for k
    by (simp add: load_frame)
  then show ?thesis
    by (auto simp: authorize_bearer_def Let_def load_frame split_beta split: option.splits sum.splits prod.splits)
qed

lemma registry_call_dead:
  assumes "dead_hash h (t_api_clients d)"
  shows "dead_hash h (t_api_clients (registry_call td e c d))"
proof (cases c)
  case (Issue p n ss ttl rot)
  with assms show ?thesis by (simp add: issue_token_dead)
next
  case (Revoke t)
  have "dead_hash h (t_api_clients (snd (revoke_token td e t d)))"
    unfolding revoke_token_def Let_def split_beta
    by (rule sql_api_clients) (use assms revoke_dead in auto)
  with Revoke show ?thesis by simp
next
  case (Listing p)
  have "dead_hash h (t_api_clients (snd (list_tokens td e p d)))"
    unfolding list_tokens_def by (rule sql_api_clients) (use assms in \<open>auto split: sum.splits\<close>)
  with Listing show ?thesis by simp
next
  case (Authorize hd s)
  with assms show ?thesis by (simp add: authorize_api_clients)
qed

lemma registry_calls_dead:
  "dead_hash h (t_api_clients d) \<Longrightarrow> dead_hash h (t_api_clients (registry_calls td e cs d))"
  unfolding registry_calls_def by (induction cs arbitrary: d) (auto simp: registry_call_dead)

lemma revoke_kills:
  assumes "revoke_token td e tok d = (Ok True, d1)"
  shows "dead_hash (hash_token td (trim tok)) (t_api_clients d1)"
proof -
  let ?h = "hash_token td (trim tok)"
  have mem: "?h \<in> ac_token_hash ` set (t_api_clients d)"
    and upd: "t_api_clients d1 = tbl_update (\<lambda>r. ac_token_hash r = ?h)
      (\<lambda>r. r\<lparr>ac_revoked_at := Some (fst (clock_s e d))\<rparr>) (t_api_clients d)"
    using assms by (auto simp: revoke_token_def Let_def split_beta sql_def split: option.splits)
  have "map ac_token_hash (t_api_clients d1) = map ac_token_hash (t_api_clients d)"
    unfolding upd by (rule tbl_update_keys) simp
  with mem show ?thesis by (auto simp: dead_hash_def upd tbl_update_def)
qed

lemma dead_hash_unauthorized:
  assumes "dead_hash (hash_token td tok) (t_api_clients d)" and "presents hdr tok"
  shows "fst (authorize_bearer td e hdr scope d) = Err Unauthorized"
proof -
  obtain h raw where hdr: "hdr = Some h" "strip_prefix h ''Bearer '' = Some raw" "trim raw = tok" "tok \<noteq> []"
    using assms(2) by (cases hdr) auto
  obtain l d1 where l: "load_by_token_hash td e (hash_token td tok) d = (l, d1)" by force
  have dead: "ar_revoked_at x \<noteq> None" if "l = Ok (Some x)" for x
  proof -
    obtain r where "r \<in> set (t_api_clients d)" "ac_token_hash r = hash_token td tok" "record_from_row td r = Ok x"
      using load_by_token_hash_Some [of td e _ d x d1] l \<open>l = Ok (Some x)\<close> by blast
    with assms(1) record_from_row_Ok [of td r x] show ?thesis by (auto simp: dead_hash_def)
  qed
  show ?thesis
  proof (cases l)
    case (Inr v)
    with dead hdr l show ?thesis by (cases v) (auto simp: authorize_bearer_def Let_def split_beta)
  qed (use hdr l in \<open>simp add: authorize_bearer_def\<close>)
qed

section \<open>Properties\<close>

text \<open>
  The router has a handler for \<open>/api/token_status\<close>, but the guard has no policy for the path:
  it is never reached, whatever token is presented.
\<close>

theorem token_status_unreachable:
  "require_bearer_auth td e ''/api/token_status'' hdr next d = (Status 401 ''unauthorized'', d)"
  by (simp add: require_bearer_auth_def auth_policy_for_path_def health_path_def feishu_webhook_path_def)

text \<open>A database with one client, its token \<open>''tk''\<close> and a digest and encoding that keep texts.\<close>

definition plain_deps :: token_deps where
  "plain_deps = \<lparr> td_sha = (\<lambda>b. b), td_b64 = (\<lambda>b. map (\<lambda>w. char_of (unat w)) b), td_random = (\<lambda>n. [116, 107]),
     td_scopes_json = (\<lambda>ss. if ss = [''send''] then Ok ''S'' else Err ''other''),
     td_parse_scopes = (\<lambda>s. if s = ''S'' then Ok [''send''] else Err ''other''),
     td_conversion_error = (\<lambda>m. m) \<rparr>"

definition one_client :: "int option \<Rightarrow> db" where
  "one_client revoked = empty_db\<lparr>t_api_clients :=
     [\<lparr> ac_id = ''c1'', ac_project_id = ''p'', ac_client_name = ''n'', ac_token_hash = ''tk'', ac_scopes = ''S'',
        ac_created_at = 0, ac_expires_at = 100, ac_revoked_at = revoked, ac_rotated_from = None \<rparr>]\<rparr>"

definition quiet_env :: env where
  "quiet_env = \<lparr> env_fault = \<lambda>n. None, env_now_ms = \<lambda>n. 1000 * int n, env_rank = \<lambda>n s. 0, env_uuid = show_nat \<rparr>"

lemma trim_tk: "trim ''tk'' = ''tk''"
  by code_simp

lemma hash_tk: "hash_token plain_deps ''tk'' = ''tk''"
  by code_simp

lemma presents_tk: "presents (Some ''Bearer tk'') ''tk''"
  by (simp add: strip_prefix_def starts_with_def trim_tk)


text \<open>
  The guard lets nothing through that is not meant to pass: under any database faults, a
  request reaches the handlers only on the two public paths, or on a scoped path with
  a bearer token whose row in the client table is neither revoked nor expired at the
  clock's reading and whose scopes contain the path's scope or the wildcard.
\<close>

theorem guarded_requests_authorized:
  assumes "require_bearer_auth td e path hdr next d = (Handled r, d')"
  shows "path \<in> {health_path, feishu_webhook_path} \<or>
    (\<exists>scope tok. auth_policy_for_path path = Scoped scope \<and> presents hdr tok \<and>
       (\<exists>row \<in> set (t_api_clients d). ac_token_hash row = hash_token td tok \<and> grants td row scope (check_time e d)))"
proof (cases "auth_policy_for_path path")
  case Public
  then show ?thesis by (auto simp: auth_policy_for_path_def split: if_splits)
next
  case (Scoped scope)
  with assms obtain x d1 where "authorize_bearer td e hdr scope d = (Ok x, d1)"
    by (auto simp: require_bearer_auth_def Let_def split: sum.splits prod.splits auth_failure.splits)
  from authorize_sound [OF this] Scoped show ?thesis by blast
next
  case Deny
  with assms show ?thesis by (simp add: require_bearer_auth_def)
qed

theorem guarded_requests_authorized_witness:
  "let run = require_bearer_auth plain_deps quiet_env ''/api/send'' (Some ''Bearer tk'') (\<lambda>d. ((), d)) (one_client None)
   in fst run = Handled () \<and> (\<exists>scope. auth_policy_for_path ''/api/send'' = Scoped scope)"
proof -
  have "authorize_bearer plain_deps quiet_env (Some ''Bearer tk'') ''send'' (one_client None) =
      (Ok \<lparr> ar_id = ''c1'', ar_project_id = ''p'', ar_client_name = ''n'', ar_token_hash = ''tk'', ar_scopes = [''send''],
           ar_created_at = 0, ar_expires_at = 100, ar_revoked_at = None, ar_rotated_from = None \<rparr>,
       (one_client None)\<lparr>db_tick := 2\<rparr>)"
    by (simp add: authorize_bearer_def strip_prefix_def starts_with_def trim_tk hash_tk load_by_token_hash_def sql_def
        quiet_env_def one_client_def empty_db_def record_from_row_def parse_scopes_def map_err_def plain_deps_def
        clock_s_def clock_ms_def matches_scope_def hash_tk [unfolded plain_deps_def] Let_def)
  then have run: "require_bearer_auth plain_deps quiet_env ''/api/send'' (Some ''Bearer tk'') (\<lambda>d. ((), d)) (one_client None) =
      (Handled (), (one_client None)\<lparr>db_tick := 2\<rparr>)"
    by (simp add: require_bearer_auth_def auth_policy_for_path_def health_path_def feishu_webhook_path_def)
  from guarded_requests_authorized [OF this] show ?thesis
    by (auto simp: run health_path_def feishu_webhook_path_def)
qed

text \<open>
  C33. Revocation is final: once a token was revoked, no sequence of registry calls (issuing
  and rotating included) brings it back; under any faults every later request with it is
  unauthorised.
\<close>

theorem revoked_token_stays_dead:
  assumes "revoke_token td e tok d = (Ok True, d1)" and "presents hdr (trim tok)"
  shows "fst (authorize_bearer td e'' hdr scope (registry_calls td e' cs d1)) = Err Unauthorized"
  using dead_hash_unauthorized [OF registry_calls_dead [OF revoke_kills [OF assms(1)]] assms(2)] .

theorem revoked_token_stays_dead_witness:
  "fst (authorize_bearer plain_deps quiet_env (Some ''Bearer tk'') ''send''
     (registry_calls plain_deps quiet_env [Issue ''p'' ''n'' [''send''] 60 None, Listing None]
       (snd (revoke_token plain_deps quiet_env ''tk'' (one_client None))))) = Err Unauthorized"
proof -
  have "revoke_token plain_deps quiet_env ''tk'' (one_client None) =
      (Ok True, snd (revoke_token plain_deps quiet_env ''tk'' (one_client None)))"
    by (simp add: revoke_token_def trim_tk hash_tk sql_def quiet_env_def one_client_def empty_db_def clock_s_def clock_ms_def Let_def)
  moreover have "presents (Some ''Bearer tk'') (trim ''tk'')" by (simp add: trim_tk presents_tk del: presents.simps)
  ultimately show ?thesis by (rule revoked_token_stays_dead)
qed

text \<open>
  C34. An issued token works: on a database without faults, as long as the client table is the
  one the issue left, a request with the issued token gets the issued record if the token
  has not expired and the scope is among those given, is forbidden without the scope, and
  is unauthorised once expired.
\<close>

theorem issued_token_authorizes:
  assumes "issue_token td e p c ss ttl rot d = (Ok i, d1)" and "t_api_clients d2 = t_api_clients d1"
    and "no_faults e'"
    and json: "\<And>xs j. td_scopes_json td xs = Ok j \<Longrightarrow> td_parse_scopes td j = Ok xs"
    and b64: "\<And>n. trim (td_b64 td (td_random td n)) = td_b64 td (td_random td n)" "\<And>n. td_b64 td (td_random td n) \<noteq> []"
  shows "fst (authorize_bearer td e' (Some (''Bearer '' @ ic_raw_token i)) scope d2) =
    (if ar_expires_at (ic_record i) \<le> env_now_ms e' (Suc (db_tick d2)) div 1000 then Err Unauthorized
     else if scope \<in> set ss \<or> ''*'' \<in> set ss then Ok (ic_record i) else Err Forbidden)"
proof -
  obtain j n where i: "ic_raw_token i = td_b64 td (td_random td n)" "ar_scopes (ic_record i) = ss"
      "ar_revoked_at (ic_record i) = None" "ar_token_hash (ic_record i) = hash_token td (ic_raw_token i)"
    and j: "td_scopes_json td ss = Ok j"
      "insert_client (client_row (ic_record i) j) (t_api_clients d) = Ok (t_api_clients d1)"
    using assms(1)
    by (auto simp: issue_token_def Let_def split_beta sql_def generate_token_def new_uuid_def clock_s_def clock_ms_def
        scopes_to_json_def map_err_def split: if_splits sum.splits option.splits prod.splits)
  define row where "row = client_row (ic_record i) j"
  have row: "record_from_row td row = Ok (ic_record i)" "ac_token_hash row = hash_token td (ic_raw_token i)"
      "insert_client row (t_api_clients d) = Ok (t_api_clients d1)"
    using i j json [OF j(1)] by (simp_all add: row_def client_row_def record_from_row_def parse_scopes_def map_err_def)
  have "tbl_find ac_token_hash (hash_token td (ic_raw_token i)) (t_api_clients d2) = Some row"
  proof -
    have "hash_token td (ic_raw_token i) \<notin> ac_token_hash ` set (t_api_clients d)"
      "t_api_clients d2 = t_api_clients d @ [row]"
      using row(2,3) assms(2) by (auto simp: insert_client_def tbl_insert_def split: if_splits sum.splits)
    with row(2) show ?thesis by (simp add: tbl_find_append tbl_find_absent)
  qed
  with row(1) assms(3) have "load_by_token_hash td e' (hash_token td (ic_raw_token i)) d2 =
      (Ok (Some (ic_record i)), d2\<lparr>db_tick := Suc (db_tick d2)\<rparr>)"
    by (simp add: load_by_token_hash_def sql_def Let_def)
  with i b64 show ?thesis
    by (simp add: authorize_bearer_def strip_prefix_def starts_with_def clock_s_def clock_ms_def matches_scope_iff)
qed

theorem issued_token_authorizes_witness:
  "let issued = issue_token plain_deps quiet_env ''p'' ''n'' [''send''] 60 None empty_db;
       i = (case fst issued of Ok i \<Rightarrow> i)
   in fst (authorize_bearer plain_deps quiet_env (Some (''Bearer '' @ ic_raw_token i)) ''send'' (snd issued)) = Ok (ic_record i)"
proof -
  let ?d1 = "snd (issue_token plain_deps quiet_env ''p'' ''n'' [''send''] 60 None empty_db)"
  have names: "trim ''p'' = ''p''" "trim ''n'' = ''n''" by code_simp+
  have tok: "td_b64 plain_deps (td_random plain_deps n) = ''tk''" for n
    by (simp add: plain_deps_def) (code_simp)
  have json: "td_parse_scopes plain_deps j = Ok xs" if "td_scopes_json plain_deps xs = Ok j" for xs j
    using that by (auto simp: plain_deps_def split: if_splits)
  obtain i where i: "issue_token plain_deps quiet_env ''p'' ''n'' [''send''] 60 None empty_db = (Ok i, ?d1)"
      "ar_expires_at (ic_record i) = i64_add 3 60" "db_tick ?d1 = 5"
    by (simp add: issue_token_def names generate_token_def tok hash_tk new_uuid_def quiet_env_def clock_s_def clock_ms_def
        Let_def scopes_to_json_def map_err_def plain_deps_def insert_client_def tbl_insert_def sql_def empty_db_def)
  have "i64_add 3 60 = 63" by code_simp
  moreover have "no_faults quiet_env" "env_now_ms quiet_env 6 = 6000"
    by (simp_all add: no_faults_def quiet_env_def)
  ultimately have "fst (authorize_bearer plain_deps quiet_env (Some (''Bearer '' @ ic_raw_token i)) ''send'' ?d1) =
      Ok (ic_record i)"
    using issued_token_authorizes [OF i(1) refl, of quiet_env "''send''"] json tok i by (simp add: trim_tk)
  moreover have "fst (issue_token plain_deps quiet_env ''p'' ''n'' [''send''] 60 None empty_db) = Ok i"
    by (subst i(1)) simp
  ultimately show ?thesis by (simp add: Let_def)
qed

end
