(* ===== verification/Bindings.thy ===== *)
theory Bindings
  imports Database "HOL-Library.Char_ord" "HOL-Library.List_Lexorder"
begin

text \<open>
  \<open>src/application/binding.rs\<close>: projects, delivery targets and the bindings between them,
  their import from JSONL and CSV files, and the CSV line parser.

  Reading a file gives its content or an error text; parsing a JSON record is an
  argument. Text is ordered by its bytes, as SQLite's default collation does.
\<close>

section \<open>Targets and records\<close>

record delivery_target =
  tg_channel :: string
  tg_peer_id :: string
  tg_conversation_id :: string
  tg_conversation_type :: string
  tg_account_scope :: "string option"

definition account_scope_value :: "delivery_target \<Rightarrow> string" where
  "account_scope_value t = (case tg_account_scope t of Some s \<Rightarrow> s | None \<Rightarrow> [])"

definition target_id :: "delivery_target \<Rightarrow> string" where
  "target_id t = tg_channel t @ ''|'' @ tg_peer_id t @ ''|'' @ tg_conversation_id t @ ''|'' @
     tg_conversation_type t @ ''|'' @ account_scope_value t"

definition validate :: "delivery_target \<Rightarrow> string + unit" where
  "validate t =
     (if trim (tg_channel t) = [] then Err ''channel is empty''
      else if trim (tg_peer_id t) = [] then Err ''peer_id is empty''
      else if trim (tg_conversation_id t) = [] then Err ''conversation_id is empty''
      else if trim (tg_conversation_type t) = [] then Err ''conversation_type is empty''
      else Ok ())"

record binding_import_record =
  bi_project_key :: string
  bi_channel :: string
  bi_peer_id :: string
  bi_conversation_id :: string
  bi_conversation_type :: string
  bi_bind_source :: string
  bi_project_name :: "string option"
  bi_account_scope :: "string option"

definition default_bind_source :: string where
  "default_bind_source = ''import''"

definition record_target :: "binding_import_record \<Rightarrow> delivery_target" where
  "record_target r =
     \<lparr> tg_channel = trim (bi_channel r), tg_peer_id = trim (bi_peer_id r),
       tg_conversation_id = trim (bi_conversation_id r), tg_conversation_type = trim (bi_conversation_type r),
       tg_account_scope = bi_account_scope r \<rparr>"

record import_summary =
  im_total :: nat
  im_success :: nat
  im_failed :: nat
  im_errors :: "string list"

definition summary_default :: import_summary where
  "summary_default = \<lparr> im_total = 0, im_success = 0, im_failed = 0, im_errors = [] \<rparr>"

record project_list_row =
  pl_project_key :: string
  pl_project_name :: string
  pl_binding_count :: int

record binding_list_row =
  bl_target_id :: string
  bl_channel :: string
  bl_peer_id :: string
  bl_conversation_id :: string
  bl_conversation_type :: string
  bl_bind_source :: string
  bl_status :: string

section \<open>The store\<close>

definition explicit_name :: "string option \<Rightarrow> string option" where
  "explicit_name n = (case map_option trim n of Some s \<Rightarrow> (if s = [] then None else Some s) | None \<Rightarrow> None)"

definition ensure_project ::
  "env \<Rightarrow> string \<Rightarrow> string option \<Rightarrow> 'w db_scheme \<Rightarrow> (string + unit) \<times> 'w db_scheme" where
  "ensure_project e project_key project_name d =
     (let key = trim project_key in
      if key = [] then (Err ''project_key is empty'', d)
      else
        (let has_explicit = explicit_name project_name \<noteq> None;
             insert_name = (case explicit_name project_name of Some n \<Rightarrow> n | None \<Rightarrow> key);
             (ts, d1) = clock_s e d;
             (r, d2) = sql_write e (\<lambda>n d. d\<lparr>t_projects := tbl_upsert pj_key
                (\<lambda>q. q\<lparr>pj_name := (if has_explicit then insert_name else pj_name q), pj_updated_at := ts\<rparr>)
                \<lparr> pj_key = key, pj_name = insert_name, pj_created_at = ts, pj_updated_at = ts \<rparr> (t_projects d)\<rparr>) d1
         in (map_err (\<lambda>m. ''ensure_project failed: '' @ m) r, d2)))"

text \<open>
  \<open>INSERT ... ON CONFLICT(k) DO UPDATE\<close> on a table with a further unique key: SQLite checks the
  named constraint first; a conflict on the other key alone is an error.
\<close>

definition tbl_upsert_or ::
  "('r \<Rightarrow> 'k) \<Rightarrow> ('r \<Rightarrow> 'r) \<Rightarrow> ('r \<Rightarrow> 'p) \<Rightarrow> string \<Rightarrow> 'r \<Rightarrow> 'r list \<Rightarrow> string + 'r list" where
  "tbl_upsert_or k g p err r t =
     (if k r \<in> k ` set t then Ok (tbl_update (\<lambda>q. k q = k r) g t) else tbl_insert p err r t)"

definition dt_key :: "delivery_target_row \<Rightarrow> string list" where
  "dt_key r = [dt_channel r, dt_peer_id r, dt_conversation_id r, dt_conversation_type r, dt_account_scope r]"

definition target_row :: "delivery_target \<Rightarrow> int \<Rightarrow> delivery_target_row" where
  "target_row t ts =
     \<lparr> dt_target_id = target_id t, dt_channel = tg_channel t, dt_peer_id = tg_peer_id t,
       dt_conversation_id = tg_conversation_id t, dt_conversation_type = tg_conversation_type t,
       dt_account_scope = account_scope_value t, dt_status = ''active'', dt_created_at = ts, dt_updated_at = ts \<rparr>"

definition upsert_delivery_target ::
  "env \<Rightarrow> delivery_target \<Rightarrow> 'w db_scheme \<Rightarrow> (string + string) \<times> 'w db_scheme" where
  "upsert_delivery_target e t d =
     (case validate t of
        Err m \<Rightarrow> (Err m, d)
      | Ok _ \<Rightarrow>
          (let (ts, d1) = clock_s e d in
           case sql e (\<lambda>n d. case tbl_upsert_or dt_key (\<lambda>q. q\<lparr>dt_status := ''active'', dt_updated_at := ts\<rparr>)
                  dt_target_id ''UNIQUE constraint failed: delivery_targets.target_id'' (target_row t ts)
                  (t_delivery_targets d) of
                Err m \<Rightarrow> Err m | Ok x \<Rightarrow> Ok ((), d\<lparr>t_delivery_targets := x\<rparr>)) d1 of
             (Err m, d2) \<Rightarrow> (Err (''upsert_delivery_target failed: '' @ m), d2)
           | (Ok _, d2) \<Rightarrow> (Ok (target_id t), d2)))"

definition pb_key :: "project_binding_row \<Rightarrow> string \<times> string" where
  "pb_key r = (pb_project_key r, pb_target_id r)"

definition binding_row :: "string \<Rightarrow> string \<Rightarrow> string \<Rightarrow> int \<Rightarrow> project_binding_row" where
  "binding_row project_key tid source ts =
     \<lparr> pb_id = project_key @ ''|'' @ tid, pb_project_key = project_key, pb_target_id = tid,
       pb_bind_source = source, pb_status = ''active'', pb_bound_at = ts, pb_unbound_at = None,
       pb_created_at = ts, pb_updated_at = ts \<rparr>"

definition upsert_binding ::
  "env \<Rightarrow> string \<Rightarrow> string \<Rightarrow> string \<Rightarrow> 'w db_scheme \<Rightarrow> (string + unit) \<times> 'w db_scheme" where
  "upsert_binding e project_key tid bind_source d =
     (let key = trim project_key;
          source = trim bind_source;
          (ts, d1) = clock_s e d;
          (r, d2) = sql e (\<lambda>n d. case tbl_upsert_or pb_key
                 (\<lambda>q. q\<lparr>pb_status := ''active'', pb_bind_source := source, pb_unbound_at := None, pb_updated_at := ts\<rparr>)
                 pb_id ''UNIQUE constraint failed: project_bindings.id'' (binding_row key tid source ts)
                 (t_project_bindings d) of
               Err m \<Rightarrow> Err m | Ok x \<Rightarrow> Ok ((), d\<lparr>t_project_bindings := x\<rparr>)) d1
      in (map_err (\<lambda>m. ''upsert_binding failed: '' @ m) r, d2))"

definition apply_binding_record ::
  "env \<Rightarrow> binding_import_record \<Rightarrow> 'w db_scheme \<Rightarrow> (string + unit) \<times> 'w db_scheme" where
  "apply_binding_record e r d =
     (if trim (bi_project_key r) = [] then (Err ''project_key is empty'', d)
      else (case ensure_project e (bi_project_key r) (bi_project_name r) d of
              (Err m, d1) \<Rightarrow> (Err m, d1)
            | (Ok _, d1) \<Rightarrow>
                (case upsert_delivery_target e (record_target r) d1 of
                   (Err m, d2) \<Rightarrow> (Err m, d2)
                 | (Ok tid, d2) \<Rightarrow>
                     (let source = (if trim (bi_bind_source r) = [] then ''import'' else trim (bi_bind_source r))
                      in upsert_binding e (trim (bi_project_key r)) tid source d2))))"

section \<open>Files\<close>

text \<open>\<open>str::lines\<close>: split at line feeds, no empty last line, one carriage return stripped.\<close>

definition strip_cr :: "string \<Rightarrow> string" where
  "strip_cr s = (if s \<noteq> [] \<and> last s = CHR 0x0D then butlast s else s)"

definition str_lines :: "string \<Rightarrow> string list" where
  "str_lines s =
     (let ps = split_on (CHR 0x0A) s
      in map strip_cr (butlast ps) @ (if last ps = [] then [] else [last ps]))"

fun csv_scan :: "bool \<Rightarrow> string \<Rightarrow> string \<Rightarrow> string list" where
  "csv_scan in_quotes field [] = [field]"
| "csv_scan True field (c # cs) =
     (if c = CHR 0x22
      then (case cs of
              [] \<Rightarrow> csv_scan False field []
            | c' # cs' \<Rightarrow> if c' = CHR 0x22 then csv_scan True (field @ [CHR 0x22]) cs' else csv_scan False field cs)
      else csv_scan True (field @ [c]) cs)"
| "csv_scan False field (c # cs) =
     (if c = CHR 0x22 then csv_scan True field cs
      else if c = CHR '','' then field # csv_scan False [] cs
      else csv_scan False (field @ [c]) cs)"

definition parse_csv_line :: "string \<Rightarrow> string list" where
  "parse_csv_line line = map trim (csv_scan False [] line)"

definition import_ok :: "import_summary \<Rightarrow> import_summary" where
  "import_ok s = s\<lparr>im_success := im_success s + 1\<rparr>"

definition import_failed :: "string \<Rightarrow> import_summary \<Rightarrow> import_summary" where
  "import_failed m s = s\<lparr>im_failed := im_failed s + 1, im_errors := im_errors s @ [m]\<rparr>"

definition line_text :: "nat \<Rightarrow> string \<Rightarrow> string" where
  "line_text n m = ''line '' @ show_nat n @ '': '' @ m"

fun jsonl_loop ::
  "env \<Rightarrow> (string \<Rightarrow> string + binding_import_record) \<Rightarrow> nat \<Rightarrow> string list \<Rightarrow> import_summary \<Rightarrow> 'w db_scheme \<Rightarrow>
   import_summary \<times> 'w db_scheme" where
  "jsonl_loop e json idx [] s d = (s, d)"
| "jsonl_loop e json idx (l # ls) s d =
     (let line = trim l in
      if line = [] then jsonl_loop e json (Suc idx) ls s d
      else
        (let s = s\<lparr>im_total := im_total s + 1\<rparr>;
             (s', d') = (case json line of
                Ok r \<Rightarrow> (case apply_binding_record e r d of
                    (Ok _, d1) \<Rightarrow> (import_ok s, d1)
                  | (Err m, d1) \<Rightarrow> (import_failed (line_text (idx + 1) m) s, d1))
              | Err m \<Rightarrow> (import_failed (line_text (idx + 1) (''parse error: '' @ m)) s, d))
         in jsonl_loop e json (Suc idx) ls s' d'))"

definition read_failed :: "string \<Rightarrow> string \<Rightarrow> string" where
  "read_failed path m = ''read '' @ path @ '' failed: '' @ m"

definition import_bindings_jsonl ::
  "env \<Rightarrow> (string \<Rightarrow> string + binding_import_record) \<Rightarrow> (string \<Rightarrow> string + string) \<Rightarrow> string \<Rightarrow> 'w db_scheme \<Rightarrow>
   (string + import_summary) \<times> 'w db_scheme" where
  "import_bindings_jsonl e json read_file path d =
     (case read_file path of
        Err m \<Rightarrow> (Err (read_failed path m), d)
      | Ok content \<Rightarrow> (let (s, d') = jsonl_loop e json 0 (str_lines content) summary_default d in (Ok s, d')))"

definition csv_record :: "string list \<Rightarrow> binding_import_record" where
  "csv_record fs =
     \<lparr> bi_project_key = fs ! 0, bi_channel = fs ! 1, bi_peer_id = fs ! 2, bi_conversation_id = fs ! 3,
       bi_conversation_type = fs ! 4,
       bi_bind_source = (if length fs > 5 \<and> trim (fs ! 5) \<noteq> [] then fs ! 5 else default_bind_source),
       bi_project_name = None, bi_account_scope = None \<rparr>"

fun csv_loop ::
  "env \<Rightarrow> nat \<Rightarrow> string list \<Rightarrow> import_summary \<Rightarrow> 'w db_scheme \<Rightarrow> import_summary \<times> 'w db_scheme" where
  "csv_loop e idx [] s d = (s, d)"
| "csv_loop e idx (line # ls) s d =
     (if trim line = [] then csv_loop e (Suc idx) ls s d
      else
        (let s = s\<lparr>im_total := im_total s + 1\<rparr>;
             fs = parse_csv_line line in
         if length fs < 5
         then csv_loop e (Suc idx) ls
                (import_failed (line_text (idx + 2) (''expected >=5 columns, got '' @ show_nat (length fs))) s) d
         else
           (let (s', d') = (case apply_binding_record e (csv_record fs) d of
                  (Ok _, d1) \<Rightarrow> (import_ok s, d1)
                | (Err m, d1) \<Rightarrow> (import_failed (line_text (idx + 2) m) s, d1))
            in csv_loop e (Suc idx) ls s' d')))"

definition import_bindings_csv ::
  "env \<Rightarrow> (string \<Rightarrow> string + string) \<Rightarrow> string \<Rightarrow> 'w db_scheme \<Rightarrow> (string + import_summary) \<times> 'w db_scheme" where
  "import_bindings_csv e read_file path d =
     (case read_file path of
        Err m \<Rightarrow> (Err (read_failed path m), d)
      | Ok content \<Rightarrow> (let (s, d') = csv_loop e 0 (tl (str_lines content)) summary_default d in (Ok s, d')))"

section \<open>Listings\<close>

definition list_projects :: "env \<Rightarrow> 'w db_scheme \<Rightarrow> (string + project_list_row list) \<times> 'w db_scheme" where
  "list_projects e d =
     (let (r, d') = sql_read e (\<lambda>n d. map (\<lambda>p.
            \<lparr> pl_project_key = pj_key p, pl_project_name = pj_name p,
              pl_binding_count = int (length (filter (\<lambda>b. pb_project_key b = pj_key p \<and> pb_status b = ''active'')
                (t_project_bindings d))) \<rparr>)
          (sort_key pj_key (t_projects d))) d
      in (map_err (\<lambda>m. ''list_projects failed: '' @ m) r, d'))"

definition join_targets ::
  "project_binding_row list \<Rightarrow> delivery_target_row list \<Rightarrow> (project_binding_row \<times> delivery_target_row) list" where
  "join_targets bs ts = concat (map (\<lambda>b. map (Pair b) (filter (\<lambda>t. dt_target_id t = pb_target_id b) ts)) bs)"

definition list_bindings ::
  "env \<Rightarrow> string \<Rightarrow> 'w db_scheme \<Rightarrow> (string + binding_list_row list) \<times> 'w db_scheme" where
  "list_bindings e project_key d =
     (let (r, d') = sql_read e (\<lambda>n d. sort_key bl_channel (sort_key bl_peer_id (sort_key (\<lambda>x. env_rank e n (bl_target_id x))
          (map (\<lambda>(b, t). \<lparr> bl_target_id = dt_target_id t, bl_channel = dt_channel t, bl_peer_id = dt_peer_id t,
                 bl_conversation_id = dt_conversation_id t, bl_conversation_type = dt_conversation_type t,
                 bl_bind_source = pb_bind_source b, bl_status = pb_status b \<rparr>)
             (join_targets (filter (\<lambda>b. pb_project_key b = project_key \<and> pb_status b = ''active'') (t_project_bindings d))
               (t_delivery_targets d)))))) d
      in (map_err (\<lambda>m. ''list_bindings failed: '' @ m) r, d'))"

section \<open>CSV lines\<close>

text \<open>Quoting as the parser expects it: every field in quotes, quotes doubled.\<close>

definition csv_escape :: "string \<Rightarrow> string" where
  "csv_escape f = concat (map (\<lambda>c. if c = CHR 0x22 then [c, c] else [c]) f)"

fun csv_render :: "string list \<Rightarrow> string" where
  "csv_render [] = []"
| "csv_render [f] = CHR 0x22 # csv_escape f @ [CHR 0x22]"
| "csv_render (f # g # fs) = CHR 0x22 # csv_escape f @ [CHR 0x22, CHR '',''] @ csv_render (g # fs)"

lemma csv_escape_simps [simp]:
  "csv_escape [] = []"
  "csv_escape (c # f) = (if c = CHR 0x22 then [c, c] else [c]) @ csv_escape f"
  by (simp_all add: csv_escape_def)

lemma csv_scan_quoted:
  assumes "rest = [] \<or> hd rest \<noteq> CHR 0x22"
  shows "csv_scan True acc (csv_escape f @ CHR 0x22 # rest) = csv_scan False (acc @ f) rest"
proof (induction f arbitrary: acc)
  case Nil
  then show ?case using assms by (cases rest) auto
qed auto

lemma csv_scan_render: "fs \<noteq> [] \<Longrightarrow> csv_scan False [] (csv_render fs) = fs"
proof (induction fs rule: csv_render.induct)
  case (2 f)
  then show ?case using csv_scan_quoted [of "[]" "[]" f] by simp
next
  case (3 f g fs)
  then show ?case using csv_scan_quoted [of "CHR '','' # csv_render (g # fs)" "[]" f] by simp
qed simp

section \<open>What is bound to a project\<close>

definition target_key :: "delivery_target \<Rightarrow> string list" where
  "target_key t = [tg_channel t, tg_peer_id t, tg_conversation_id t, tg_conversation_type t, account_scope_value t]"

definition bound :: "'w db_scheme \<Rightarrow> string \<Rightarrow> string list set" where
  "bound d k = {dt_key t | t b. b \<in> set (t_project_bindings d) \<and> t \<in> set (t_delivery_targets d) \<and>
     dt_target_id t = pb_target_id b \<and> pb_project_key b = k \<and> pb_status b = ''active'' \<and> dt_status t = ''active''}"

text \<open>
  The invariant of the tables: the id of a target is the one of its columns, ids are unique,
  nothing is inactive (no operation deactivates), and bindings refer to stored targets.
\<close>

definition key_id :: "string list \<Rightarrow> string" where
  "key_id ks = ks ! 0 @ ''|'' @ ks ! 1 @ ''|'' @ ks ! 2 @ ''|'' @ ks ! 3 @ ''|'' @ ks ! 4"

definition targets_ok :: "delivery_target_row list \<Rightarrow> bool" where
  "targets_ok ts \<longleftrightarrow> distinct (map dt_target_id ts) \<and>
     (\<forall>t \<in> set ts. dt_target_id t = key_id (dt_key t) \<and> dt_status t = ''active'')"

definition bindings_ok :: "'w db_scheme \<Rightarrow> bool" where
  "bindings_ok d \<longleftrightarrow> targets_ok (t_delivery_targets d) \<and>
     (\<forall>b \<in> set (t_project_bindings d). pb_status b = ''active'' \<and>
        pb_target_id b \<in> dt_target_id ` set (t_delivery_targets d))"

lemma target_id_key: "target_id t = key_id (target_key t)"
  by (simp add: target_id_def key_id_def target_key_def)

lemma target_row_simps [simp]:
  "dt_target_id (target_row t ts) = target_id t" "dt_key (target_row t ts) = target_key t"
  "dt_status (target_row t ts) = ''active''"
  by (simp_all add: target_row_def dt_key_def target_key_def)

lemma binding_row_simps [simp]:
  "pb_key (binding_row k i s ts) = (k, i)" "pb_status (binding_row k i s ts) = ''active''"
  "pb_project_key (binding_row k i s ts) = k" "pb_target_id (binding_row k i s ts) = i"
  by (simp_all add: binding_row_def pb_key_def)

lemma upsert_or_image:
  assumes "tbl_upsert_or k g p err r t = Ok t'" and "\<And>q. v (g q) = v q"
    and "\<And>q. q \<in> set t \<Longrightarrow> k q = k r \<Longrightarrow> v q = v r"
  shows "v ` set t' = insert (v r) (v ` set t)"
proof (cases "k r \<in> k ` set t")
  case True
  then obtain q where "q \<in> set t" "k q = k r" by (auto simp: image_iff)
  with assms(3) have "v r \<in> v ` set t" by (metis image_eqI)
  moreover have "map v t' = map v t"
    using assms(1,2) True by (auto simp: tbl_upsert_or_def tbl_update_def)
  then have "v ` set t' = v ` set t" by (metis set_map)
  ultimately show ?thesis by blast
next
  case False
  with assms(1) show ?thesis by (auto simp: tbl_upsert_or_def tbl_insert_def split: if_splits)
qed

lemma upsert_target_ok:
  assumes "targets_ok ts" and "tbl_upsert_or dt_key (\<lambda>q. q\<lparr>dt_status := ''active'', dt_updated_at := now\<rparr>)
      dt_target_id err (target_row t now) ts = Ok ts'"
  shows "targets_ok ts' \<and> (\<lambda>r. (dt_target_id r, dt_key r)) ` set ts' =
    insert (target_id t, target_key t) ((\<lambda>r. (dt_target_id r, dt_key r)) ` set ts)"
proof
  let ?v = "\<lambda>r. (dt_target_id r, dt_key r)"
  let ?g = "\<lambda>q. q\<lparr>dt_status := ''active'', dt_updated_at := now\<rparr>"
  have g: "dt_key (?g q) = dt_key q" for q by (simp add: dt_key_def)
  have "?v ` set ts' = insert (?v (target_row t now)) (?v ` set ts)"
    by (rule upsert_or_image [OF assms(2)])
      (use assms(1) in \<open>auto simp: g targets_ok_def target_id_key\<close>)
  then show img: "?v ` set ts' = insert (target_id t, target_key t) (?v ` set ts)" by simp
  have "distinct (map dt_target_id ts')"
    using assms by (auto simp: tbl_upsert_or_def tbl_insert_def targets_ok_def split: if_splits)
  moreover have "dt_status r = ''active''" if "r \<in> set ts'" for r
    using assms that by (auto simp: tbl_upsert_or_def tbl_insert_def tbl_update_def targets_ok_def split: if_splits)
  moreover have "dt_target_id r = key_id (dt_key r)" if "r \<in> set ts'" for r
  proof -
    have "?v r \<in> insert (target_id t, target_key t) (?v ` set ts)" using that img by blast
    with assms(1) show ?thesis by (auto simp: targets_ok_def target_id_key)
  qed
  ultimately show "targets_ok ts'" by (simp add: targets_ok_def)
qed

text \<open>The view of bindings and targets by which \<open>bound\<close> is computed.\<close>

lemma bound_alt:
  assumes "bindings_ok d"
  shows "bound d k = {ks. \<exists>i. (k, i) \<in> pb_key ` set (t_project_bindings d) \<and>
    (i, ks) \<in> (\<lambda>r. (dt_target_id r, dt_key r)) ` set (t_delivery_targets d)}"
proof (intro set_eqI iffI)
  fix ks
  assume "ks \<in> bound d k"
  then obtain b t where bt: "b \<in> set (t_project_bindings d)" "t \<in> set (t_delivery_targets d)"
      "dt_target_id t = pb_target_id b" "pb_project_key b = k" "ks = dt_key t"
    by (auto simp: bound_def)
  then have "(k, pb_target_id b) = pb_key b" "(pb_target_id b, ks) = (dt_target_id t, dt_key t)"
    by (simp_all add: pb_key_def)
  with bt(1,2) show "ks \<in> {ks. \<exists>i. (k, i) \<in> pb_key ` set (t_project_bindings d) \<and>
      (i, ks) \<in> (\<lambda>r. (dt_target_id r, dt_key r)) ` set (t_delivery_targets d)}" by blast
next
  fix ks
  assume "ks \<in> {ks. \<exists>i. (k, i) \<in> pb_key ` set (t_project_bindings d) \<and>
      (i, ks) \<in> (\<lambda>r. (dt_target_id r, dt_key r)) ` set (t_delivery_targets d)}"
  then obtain b t where bt: "b \<in> set (t_project_bindings d)" "t \<in> set (t_delivery_targets d)"
      "(k, dt_target_id t) = pb_key b" "ks = dt_key t"
    by auto
  moreover have "pb_status b = ''active''" "dt_status t = ''active''"
    using assms bt(1,2) by (simp_all add: bindings_ok_def targets_ok_def)
  ultimately show "ks \<in> bound d k" by (auto simp: bound_def pb_key_def)
qed

lemma target_ids_unique:
  "targets_ok ts \<Longrightarrow> (i, ks) \<in> (\<lambda>r. (dt_target_id r, dt_key r)) ` set ts \<Longrightarrow>
   (i, ks') \<in> (\<lambda>r. (dt_target_id r, dt_key r)) ` set ts \<Longrightarrow> ks = ks'"
  by (auto simp: targets_ok_def distinct_map inj_on_def)

text \<open>How the three statements change the tables, whether they fail or not.\<close>

lemma ensure_project_frame:
  "t_delivery_targets (snd (ensure_project e k n d)) = t_delivery_targets d"
  "t_project_bindings (snd (ensure_project e k n d)) = t_project_bindings d"
  by (simp_all add: ensure_project_def Let_def split_beta sql_write_eq clock_s_def clock_ms_def split: option.split)

lemma upsert_target_effect:
  assumes "targets_ok (t_delivery_targets d)" and "upsert_delivery_target e t d = (r, d')"
  shows "t_project_bindings d' = t_project_bindings d \<and>
    (case r of
       Err _ \<Rightarrow> t_delivery_targets d' = t_delivery_targets d
     | Ok i \<Rightarrow> i = target_id t \<and> targets_ok (t_delivery_targets d') \<and>
         (\<lambda>r. (dt_target_id r, dt_key r)) ` set (t_delivery_targets d') =
         insert (target_id t, target_key t) ((\<lambda>r. (dt_target_id r, dt_key r)) ` set (t_delivery_targets d)))"
proof (cases "validate t")
  case (Inl m)
  with assms show ?thesis by (auto simp: upsert_delivery_target_def)
next
  case (Inr u)
  let ?now = "fst (clock_s e d)"
  let ?f = "\<lambda>n d. case tbl_upsert_or dt_key (\<lambda>q. q\<lparr>dt_status := ''active'', dt_updated_at := ?now\<rparr>)
      dt_target_id ''UNIQUE constraint failed: delivery_targets.target_id'' (target_row t ?now) (t_delivery_targets d) of
    Err m \<Rightarrow> Err m | Ok x \<Rightarrow> Ok ((), d\<lparr>t_delivery_targets := x\<rparr>)"
  have same: "t_delivery_targets (snd (clock_s e d)) = t_delivery_targets d"
      "t_project_bindings (snd (clock_s e d)) = t_project_bindings d"
    by (simp_all add: clock_s_def clock_ms_def)
  have run: "upsert_delivery_target e t d = (case sql e ?f (snd (clock_s e d)) of
      (Err m, d2) \<Rightarrow> (Err (''upsert_delivery_target failed: '' @ m), d2) | (Ok _, d2) \<Rightarrow> (Ok (target_id t), d2))"
    using Inr by (simp add: upsert_delivery_target_def split_beta)
  show ?thesis
  proof (cases rule: sql_cases [of e "snd (clock_s e d)" ?f])
    case (effect x d2)
    then obtain ts where "tbl_upsert_or dt_key (\<lambda>q. q\<lparr>dt_status := ''active'', dt_updated_at := ?now\<rparr>)
        dt_target_id ''UNIQUE constraint failed: delivery_targets.target_id'' (target_row t ?now) (t_delivery_targets d) = Ok ts"
      "t_delivery_targets d2 = ts" "t_project_bindings d2 = t_project_bindings d"
      using same by (auto split: sum.splits)
    with upsert_target_ok [OF assms(1)] effect(3) run assms(2) show ?thesis by auto
  qed (use run assms(2) same in auto)
qed

lemma upsert_binding_effect:
  assumes "upsert_binding e k i src d = (r, d')"
  shows "t_delivery_targets d' = t_delivery_targets d \<and>
    (case r of
       Err _ \<Rightarrow> t_project_bindings d' = t_project_bindings d
     | Ok _ \<Rightarrow> pb_key ` set (t_project_bindings d') = insert (trim k, i) (pb_key ` set (t_project_bindings d)) \<and>
         (\<forall>b \<in> set (t_project_bindings d'). pb_status b \<noteq> ''active'' \<longrightarrow> b \<in> set (t_project_bindings d)))"
proof -
  let ?now = "fst (clock_s e d)"
  let ?g = "\<lambda>q. q\<lparr>pb_status := ''active'', pb_bind_source := trim src, pb_unbound_at := None, pb_updated_at := ?now\<rparr>"
  let ?up = "\<lambda>bs. tbl_upsert_or pb_key ?g pb_id ''UNIQUE constraint failed: project_bindings.id''
      (binding_row (trim k) i (trim src) ?now) bs"
  let ?f = "\<lambda>n d. case ?up (t_project_bindings d) of Err m \<Rightarrow> Err m | Ok x \<Rightarrow> Ok ((), d\<lparr>t_project_bindings := x\<rparr>)"
  have same: "t_delivery_targets (snd (clock_s e d)) = t_delivery_targets d"
      "t_project_bindings (snd (clock_s e d)) = t_project_bindings d"
    by (simp_all add: clock_s_def clock_ms_def)
  have run: "upsert_binding e k i src d = (map_err (\<lambda>m. ''upsert_binding failed: '' @ m) (fst (sql e ?f (snd (clock_s e d)))),
      snd (sql e ?f (snd (clock_s e d))))"
    by (simp add: upsert_binding_def Let_def split_beta)
  show ?thesis
  proof (cases rule: sql_cases [of e "snd (clock_s e d)" ?f])
    case (effect x d2)
    then obtain bs where up: "?up (t_project_bindings d) = Ok bs"
      and bs: "t_project_bindings d2 = bs" "t_delivery_targets d2 = t_delivery_targets d"
      using same by (auto split: sum.splits)
    have "pb_key ` set bs = insert (trim k, i) (pb_key ` set (t_project_bindings d))"
      using upsert_or_image [OF up, of pb_key] by (simp add: pb_key_def)
    moreover have "\<forall>b \<in> set bs. pb_status b \<noteq> ''active'' \<longrightarrow> b \<in> set (t_project_bindings d)"
      using up by (auto simp: tbl_upsert_or_def tbl_insert_def tbl_update_def split: if_splits)
    ultimately show ?thesis using effect(3) run assms bs by (auto simp: map_err_def)
  qed (use run assms same in \<open>auto simp: map_err_def\<close>)
qed

lemma targets_grow_bound:
  assumes "bindings_ok d" and "targets_ok (t_delivery_targets d')"
    and "t_project_bindings d' = t_project_bindings d"
    and "(\<lambda>r. (dt_target_id r, dt_key r)) ` set (t_delivery_targets d') =
         insert (i, ks) ((\<lambda>r. (dt_target_id r, dt_key r)) ` set (t_delivery_targets d))"
  shows "bindings_ok d' \<and> bound d' = bound d"
proof -
  let ?v = "\<lambda>r. (dt_target_id r, dt_key r)"
  have ids: "dt_target_id ` set (t_delivery_targets d') = insert i (dt_target_id ` set (t_delivery_targets d))"
    using arg_cong [OF assms(4), of "image fst"] by (simp add: image_image)
  have ok: "bindings_ok d'" using assms(1-3) ids by (auto simp: bindings_ok_def)
  have "ks' \<in> bound d k" if mem: "ks' \<in> bound d' k" for k ks'
  proof -
    obtain j where j: "(k, j) \<in> pb_key ` set (t_project_bindings d)" "(j, ks') \<in> ?v ` set (t_delivery_targets d')"
      using mem assms(3) unfolding bound_alt [OF ok] by auto
    then obtain b where b: "b \<in> set (t_project_bindings d)" "pb_target_id b = j" by (auto simp: pb_key_def)
    then obtain ks'' where "(j, ks'') \<in> ?v ` set (t_delivery_targets d)"
      using assms(1) by (fastforce simp: bindings_ok_def)
    moreover from this assms(4) target_ids_unique [OF assms(2) j(2)] have "ks'' = ks'" by blast
    ultimately show ?thesis using j(1) unfolding bound_alt [OF assms(1)] by auto
  qed
  moreover have "ks' \<in> bound d' k" if "ks' \<in> bound d k" for k ks'
    using that assms(3,4) unfolding bound_alt [OF ok] bound_alt [OF assms(1)] by auto
  ultimately show ?thesis using ok by (auto simp: fun_eq_iff)
qed

lemma bindings_grow_bound:
  assumes "bindings_ok d" and "t_delivery_targets d' = t_delivery_targets d"
    and "pb_key ` set (t_project_bindings d') = insert (k, i) (pb_key ` set (t_project_bindings d))"
    and "\<forall>b \<in> set (t_project_bindings d'). pb_status b \<noteq> ''active'' \<longrightarrow> b \<in> set (t_project_bindings d)"
    and "(i, ks) \<in> (\<lambda>r. (dt_target_id r, dt_key r)) ` set (t_delivery_targets d)"
  shows "bindings_ok d' \<and> bound d' = (bound d)(k := insert ks (bound d k))"
proof -
  let ?v = "\<lambda>r. (dt_target_id r, dt_key r)"
  have "snd ` pb_key ` set (t_project_bindings d') \<subseteq> dt_target_id ` set (t_delivery_targets d)"
    using assms(1,5) unfolding assms(3) by (auto simp: bindings_ok_def pb_key_def)
  then have "pb_target_id b \<in> dt_target_id ` set (t_delivery_targets d)" if "b \<in> set (t_project_bindings d')" for b
    using that by (auto simp: image_image pb_key_def)
  then have ok: "bindings_ok d'" using assms(1,2,4) by (auto simp: bindings_ok_def)
  have ts: "targets_ok (t_delivery_targets d)" using assms(1) by (simp add: bindings_ok_def)
  have "x \<in> bound d' k' \<longleftrightarrow> x \<in> bound d k' \<or> k' = k \<and> x = ks" for k' x
  proof -
    have "x \<in> bound d' k' \<longleftrightarrow> (\<exists>j. ((k', j) = (k, i) \<or> (k', j) \<in> pb_key ` set (t_project_bindings d)) \<and>
        (j, x) \<in> ?v ` set (t_delivery_targets d))"
      unfolding bound_alt [OF ok] assms(2,3) by simp
    moreover have "(i, x) \<in> ?v ` set (t_delivery_targets d) \<longleftrightarrow> x = ks"
      using assms(5) target_ids_unique [OF ts] by blast
    ultimately show ?thesis unfolding bound_alt [OF assms(1)] by blast
  qed
  then show ?thesis using ok by (auto simp: fun_eq_iff)
qed

lemma bindings_cong:
  "bindings_ok y \<Longrightarrow> t_delivery_targets x = t_delivery_targets y \<Longrightarrow> t_project_bindings x = t_project_bindings y \<Longrightarrow>
   bindings_ok x \<and> bound x = bound y"
  by (simp add: bindings_ok_def bound_def fun_eq_iff)

lemma apply_binding_effect:
  assumes "bindings_ok d" and "apply_binding_record e r d = (res, d')"
  shows "bindings_ok d' \<and> bound d' = (case res of
    Ok _ \<Rightarrow> (bound d)(trim (bi_project_key r) := insert (target_key (record_target r)) (bound d (trim (bi_project_key r))))
  | Err _ \<Rightarrow> bound d)"
proof -
  let ?v = "\<lambda>r. (dt_target_id r, dt_key r)"
  let ?k = "trim (bi_project_key r)"
  let ?t = "record_target r"
  note defs = apply_binding_record_def
  obtain r1 d1 where ens: "ensure_project e (bi_project_key r) (bi_project_name r) d = (r1, d1)" by force
  have d1: "bindings_ok d1" "bound d1 = bound d"
    using bindings_cong [OF assms(1), of d1] ensure_project_frame [of e "bi_project_key r" "bi_project_name r" d] ens
    by simp_all
  obtain r2 d2 where tgt: "upsert_delivery_target e ?t d1 = (r2, d2)" by force
  have ok1: "targets_ok (t_delivery_targets d1)" using d1(1) by (simp add: bindings_ok_def)
  note eff = upsert_target_effect [OF ok1 tgt]
  have d2: "bindings_ok d2 \<and> bound d2 = bound d"
  proof (cases r2)
    case (Inl m)
    with eff bindings_cong [OF d1(1), of d2] d1(2) show ?thesis by simp
  next
    case (Inr i)
    with eff targets_grow_bound [OF d1(1), of d2 "target_id ?t" "target_key ?t"] d1(2) show ?thesis by simp
  qed
  consider "?k = []" | m where "?k \<noteq> []" "r1 = Err m" | m where "?k \<noteq> []" "r1 = Ok ()" "r2 = Err m"
    | i where "?k \<noteq> []" "r1 = Ok ()" "r2 = Ok i"
    by (cases r1; cases r2) auto
  then show ?thesis
  proof cases
    case 1
    with assms show ?thesis by (simp add: defs split: sum.split) auto
  next
    case 2
    with assms(2) ens have "res = Err m" "d' = d1" by (simp_all add: defs)
    with d1 show ?thesis by simp
  next
    case 3
    with assms(2) ens tgt have "res = Err m" "d' = d2" by (simp_all add: defs)
    with d2 show ?thesis by simp
  next
    case (4 i)
    then have oks: "r1 = Ok ()" "r2 = Ok i" "?k \<noteq> []" by simp_all
    obtain src where up: "upsert_binding e ?k i src d2 = (res, d')"
      using assms(2) ens tgt oks by (simp add: defs Let_def)
    note beff = upsert_binding_effect [OF up]
    have i: "i = target_id ?t" "(i, target_key ?t) \<in> ?v ` set (t_delivery_targets d2)" using eff oks by auto
    show ?thesis
    proof (cases res)
      case (Inl m)
      with beff bindings_cong [of d2 d'] d2 show ?thesis by simp
    next
      case (Inr u)
      have "trim ?k = ?k" by simp
      with beff Inr bindings_grow_bound [of d2 d' ?k i "target_key ?t"] d2 i(2) show ?thesis by simp
    qed
  qed
qed


lemma apply_binding_ok: "bindings_ok d \<Longrightarrow> apply_binding_record e r d = (res, d') \<Longrightarrow> bindings_ok d'"
  using apply_binding_effect by blast

section \<open>Imports\<close>

text \<open>Every line that is not blank is counted once, as a success or with its error.\<close>

definition summary_ok :: "import_summary \<Rightarrow> bool" where
  "summary_ok s \<longleftrightarrow> im_total s = im_success s + im_failed s \<and> im_failed s = length (im_errors s)"

lemma import_step_ok:
  assumes "summary_ok s"
  shows "summary_ok (import_ok (s\<lparr>im_total := Suc (im_total s)\<rparr>))"
    and "summary_ok (import_failed m (s\<lparr>im_total := Suc (im_total s)\<rparr>))"
  using assms by (simp_all add: summary_ok_def import_ok_def import_failed_def)

lemma jsonl_loop_ok:
  "summary_ok s \<Longrightarrow> bindings_ok d \<Longrightarrow> jsonl_loop e json idx ls s d = (s', d') \<Longrightarrow> summary_ok s' \<and> bindings_ok d'"
proof (induction ls arbitrary: idx s d)
  case (Cons l ls)
  let ?s = "s\<lparr>im_total := Suc (im_total s)\<rparr>"
  show ?case
  proof (cases "trim l = []")
    case True
    with Cons show ?thesis by simp
  next
    case nonempty: False
    show ?thesis
    proof (cases "json (trim l)")
      case (Inl m)
      with Cons.prems(3) nonempty have "jsonl_loop e json (Suc idx) ls
          (import_failed (line_text (Suc idx) (''parse error: '' @ m)) ?s) d = (s', d')" by simp
      from Cons.IH [OF import_step_ok(2) [OF Cons.prems(1)] Cons.prems(2) this] show ?thesis .
    next
      case (Inr r)
      obtain res d1 where ap: "apply_binding_record e r d = (res, d1)" by force
      have "bindings_ok d1" using apply_binding_ok [OF Cons.prems(2) ap] .
      moreover have "\<exists>s1. summary_ok s1 \<and> jsonl_loop e json (Suc idx) ls s1 d1 = (s', d')"
        using Cons.prems(3) nonempty Inr ap import_step_ok [OF Cons.prems(1)] by (cases res) auto
      ultimately show ?thesis using Cons.IH by blast
    qed
  qed
qed simp

lemma csv_loop_ok:
  "summary_ok s \<Longrightarrow> bindings_ok d \<Longrightarrow> csv_loop e idx ls s d = (s', d') \<Longrightarrow> summary_ok s' \<and> bindings_ok d'"
proof (induction ls arbitrary: idx s d)
  case (Cons l ls)
  let ?s = "s\<lparr>im_total := Suc (im_total s)\<rparr>"
  show ?case
  proof (cases "trim l = [] \<or> length (parse_csv_line l) < 5")
    case True
    then have "\<exists>s1. summary_ok s1 \<and> csv_loop e (Suc idx) ls s1 d = (s', d')"
      using Cons.prems(1,3) import_step_ok(2) [OF Cons.prems(1)] by (cases "trim l = []") (auto simp: Let_def)
    with Cons.IH Cons.prems(2) show ?thesis by blast
  next
    case False
    obtain res d1 where ap: "apply_binding_record e (csv_record (parse_csv_line l)) d = (res, d1)" by force
    have "bindings_ok d1" using apply_binding_ok [OF Cons.prems(2) ap] .
    moreover have "\<exists>s1. summary_ok s1 \<and> csv_loop e (Suc idx) ls s1 d1 = (s', d')"
      using Cons.prems(3) False ap import_step_ok [OF Cons.prems(1)] by (cases res) (auto simp: Let_def)
    ultimately show ?thesis using Cons.IH by blast
  qed
qed simp

section \<open>Properties\<close>

text \<open>
  C35. Importing a binding is all or nothing and idempotent in what it binds: under any
  database faults the tables keep their invariant; when the call succeeds exactly the
  record's target is added to what the record's project is bound to, when it fails
  nothing is bound that was not; no other project is affected.
\<close>

theorem apply_binding_adds_target:
  assumes "bindings_ok d" and "apply_binding_record e r d = (res, d')"
  shows "bindings_ok d' \<and> bound d' = (case res of
    Ok _ \<Rightarrow> (bound d)(trim (bi_project_key r) := insert (target_key (record_target r)) (bound d (trim (bi_project_key r))))
  | Err _ \<Rightarrow> bound d)"
  using apply_binding_effect [OF assms] .

definition sample_record :: binding_import_record where
  "sample_record = \<lparr> bi_project_key = ''p'', bi_channel = ''wechat'', bi_peer_id = ''u'', bi_conversation_id = ''c'',
     bi_conversation_type = ''direct'', bi_bind_source = ''import'', bi_project_name = None, bi_account_scope = None \<rparr>"

theorem apply_binding_adds_target_witness:
  "let e = \<lparr> env_fault = \<lambda>n. None, env_now_ms = int, env_rank = \<lambda>n s. 0, env_uuid = show_nat \<rparr>
   in bound (snd (apply_binding_record e sample_record empty_db)) ''p'' = {[''wechat'', ''u'', ''c'', ''direct'', []]}"
proof -
  let ?e = "\<lparr> env_fault = \<lambda>n. None, env_now_ms = int, env_rank = \<lambda>n s. 0, env_uuid = show_nat \<rparr>"
  have trims: "trim ''p'' = ''p''" "trim ''wechat'' = ''wechat''" "trim ''u'' = ''u''" "trim ''c'' = ''c''"
      "trim ''direct'' = ''direct''" "trim ''import'' = ''import''"
    by code_simp+
  have "bindings_ok empty_db" by (simp add: bindings_ok_def targets_ok_def empty_db_def)
  note app = apply_binding_adds_target [OF this prod.collapse [symmetric], of ?e sample_record]
  have "fst (apply_binding_record ?e sample_record empty_db) = Ok ()"
    by (simp add: apply_binding_record_def sample_record_def trims ensure_project_def explicit_name_def clock_s_def clock_ms_def
        sql_write_eq empty_db_def upsert_delivery_target_def validate_def record_target_def sql_def tbl_upsert_or_def
        tbl_insert_def upsert_binding_def map_err_def Let_def)
  moreover have "bound empty_db k = {}" for k by (simp add: bound_def empty_db_def)
  ultimately show ?thesis using app
    by (simp add: sample_record_def trims record_target_def target_key_def account_scope_value_def)
qed

text \<open>
  The CSV parser inverts quoting: a line of quoted fields, with the quotes in them
  doubled, is read back as these fields, trimmed, whatever characters they contain.
\<close>

theorem csv_line_roundtrip:
  assumes "fs \<noteq> []"
  shows "parse_csv_line (csv_render fs) = map trim fs"
  using csv_scan_render [OF assms] by (simp add: parse_csv_line_def)

theorem csv_line_roundtrip_witness:
  "parse_csv_line (csv_render [''a,b'', [CHR 0x22], []]) = map trim [''a,b'', [CHR 0x22], []]"
  by (rule csv_line_roundtrip) simp

end
