(* ===== verification/Push.thy ===== *)
theory Push
  imports Bindings Audit_Store Outbox_Store
begin

text \<open>
  \<open>src/application/push.rs\<close>: push jobs. An import writes the items of a job; running the job
  resolves the targets of each pending item, from the bindings of its project or from the
  validated list it names, and inserts one outbox row per target.

  JSON conversions are the fields of \<open>push_deps\<close>; reading a file gives its content or an
  error text.
\<close>

section \<open>Records\<close>

record push_import_record =
  pr_project_key :: string
  pr_mode :: string
  pr_message_text :: string
  pr_target_targets :: "delivery_target list"

record run_summary =
  rs_job_id :: string
  rs_total_items :: nat
  rs_queued_items :: nat
  rs_failed_items :: nat
  rs_enqueued_messages :: nat

record push_deps =
  pd_route_key_json :: "route_key \<Rightarrow> string + string"
  pd_content_json :: "message_content \<Rightarrow> string + string"
  pd_targets_json :: "delivery_target list \<Rightarrow> string + string"
  pd_parse_targets :: "string \<Rightarrow> string + delivery_target list"
  pd_parse_record :: "string \<Rightarrow> string + push_import_record"

definition new_id :: "env \<Rightarrow> string \<Rightarrow> 'w db_scheme \<Rightarrow> string \<times> 'w db_scheme" where
  "new_id e prefix d = (let (u, d') = new_uuid e d in (prefix @ ''-'' @ u, d'))"

definition parse_conversation_type :: "string \<Rightarrow> conversation_type" where
  "parse_conversation_type v =
     (let s = to_lowercase (trim v) in
      if s = ''group'' then Group else if s = ''thread'' then Thread
      else if s = ''bot_session'' then BotSession else Direct)"

definition validate_mode :: "string \<Rightarrow> string + unit" where
  "validate_mode mode = (if mode = ''broadcast'' \<or> mode = ''targeted'' then Ok () else Err (''invalid mode: '' @ mode))"

section \<open>Import\<close>

definition insert_push_item ::
  "push_deps \<Rightarrow> env \<Rightarrow> string \<Rightarrow> push_import_record \<Rightarrow> 'w db_scheme \<Rightarrow> (string + unit) \<times> 'w db_scheme" where
  "insert_push_item pd e job_id r d =
     (if trim (pr_project_key r) = [] then (Err ''project_key is empty'', d)
      else if trim (pr_message_text r) = [] then (Err ''message_text is empty'', d)
      else (case validate_mode (trim (pr_mode r)) of
         Err m \<Rightarrow> (Err m, d)
       | Ok _ \<Rightarrow>
           (let (item_id, d1) = new_id e ''item'' d in
            case (if pr_target_targets r = [] then Ok None
                  else (case pd_targets_json pd (pr_target_targets r) of Err m \<Rightarrow> Err m | Ok j \<Rightarrow> Ok (Some j))) of
              Err m \<Rightarrow> (Err m, d1)
            | Ok targets_json \<Rightarrow>
                (let (ts, d2) = clock_s e d1;
                     row = \<lparr> pi_item_id = item_id, pi_job_id = job_id, pi_project_key = trim (pr_project_key r),
                       pi_message_text = pr_message_text r, pi_mode = trim (pr_mode r), pi_targets_json = targets_json,
                       pi_status = ''pending'', pi_error = None, pi_created_at = ts, pi_updated_at = ts \<rparr>;
                     (res, d3) = sql e (\<lambda>n d.
                       case tbl_insert pi_item_id ''UNIQUE constraint failed: push_job_items.item_id'' row (t_push_job_items d) of
                         Err m \<Rightarrow> Err m | Ok t \<Rightarrow> Ok ((), d\<lparr>t_push_job_items := t\<rparr>)) d2
                 in (map_err (\<lambda>m. ''insert push item failed: '' @ m) res, d3)))))"

fun insert_items ::
  "push_deps \<Rightarrow> env \<Rightarrow> string \<Rightarrow> nat \<Rightarrow> push_import_record list \<Rightarrow> import_summary \<Rightarrow> 'w db_scheme \<Rightarrow>
   import_summary \<times> 'w db_scheme" where
  "insert_items pd e job_id idx [] s d = (s, d)"
| "insert_items pd e job_id idx (r # rs) s d =
     (let s = s\<lparr>im_total := im_total s + 1\<rparr> in
      case insert_push_item pd e job_id r d of
        (Err m, d1) \<Rightarrow>
          insert_items pd e job_id (Suc idx) rs (import_failed (''record '' @ show_nat (idx + 1) @ '': '' @ m) s) d1
      | (Ok _, d1) \<Rightarrow> insert_items pd e job_id (Suc idx) rs (import_ok s) d1)"

definition import_pushes ::
  "push_deps \<Rightarrow> env \<Rightarrow> string \<Rightarrow> string \<Rightarrow> push_import_record list \<Rightarrow> 'w db_scheme \<Rightarrow>
   (string + string \<times> import_summary) \<times> 'w db_scheme" where
  "import_pushes pd e source_format path records d =
     (let (job_id, d1) = new_id e ''job'' d;
          (ts, d2) = clock_s e d1;
          row = \<lparr> pu_job_id = job_id, pu_source_format = source_format, pu_source_path = path, pu_status = ''pending'',
            pu_total_items = 0, pu_success_items = 0, pu_failed_items = 0, pu_created_at = ts, pu_updated_at = ts \<rparr> in
      case sql e (\<lambda>n d. case tbl_insert pu_job_id ''UNIQUE constraint failed: push_jobs.job_id'' row (t_push_jobs d) of
               Err m \<Rightarrow> Err m | Ok t \<Rightarrow> Ok ((), d\<lparr>t_push_jobs := t\<rparr>)) d2 of
        (Err m, d3) \<Rightarrow> (Err (''create push job failed: '' @ m), d3)
      | (Ok _, d3) \<Rightarrow>
          (let (summary, d4) = insert_items pd e job_id 0 records summary_default d3 in
           case sql_write e (\<lambda>n d. d\<lparr>t_push_jobs := tbl_update (\<lambda>q. pu_job_id q = job_id)
                  (\<lambda>q. q\<lparr>pu_total_items := int (im_total summary), pu_updated_at := unixepoch e n\<rparr>) (t_push_jobs d)\<rparr>) d4 of
             (Err m, d5) \<Rightarrow> (Err (''update push job totals failed: '' @ m), d5)
           | (Ok _, d5) \<Rightarrow> (Ok (job_id, summary), d5)))"

subsection \<open>Files\<close>

fun jsonl_pushes ::
  "(string \<Rightarrow> string + push_import_record) \<Rightarrow> nat \<Rightarrow> string list \<Rightarrow> string + push_import_record list" where
  "jsonl_pushes json idx [] = Ok []"
| "jsonl_pushes json idx (l # ls) =
     (let line = trim l in
      if line = [] then jsonl_pushes json (Suc idx) ls
      else (case json line of
              Err m \<Rightarrow> Err (line_text (idx + 1) (''parse error: '' @ m))
            | Ok r \<Rightarrow> (case jsonl_pushes json (Suc idx) ls of Err m \<Rightarrow> Err m | Ok rs \<Rightarrow> Ok (r # rs))))"

definition parse_pushes_jsonl ::
  "push_deps \<Rightarrow> (string \<Rightarrow> string + string) \<Rightarrow> string \<Rightarrow> string + push_import_record list" where
  "parse_pushes_jsonl pd read_file path =
     (case read_file path of
        Err m \<Rightarrow> Err (read_failed path m)
      | Ok content \<Rightarrow> jsonl_pushes (pd_parse_record pd) 0 (str_lines content))"

definition segment_target :: "string \<Rightarrow> string + delivery_target" where
  "segment_target seg =
     (let parts = split_on (CHR '':'') seg in
      if length parts \<noteq> 4
      then Err (''invalid target segment '' @ [CHR 0x27] @ seg @ [CHR 0x27] @ '': expected channel:peer:conv:type'')
      else Ok \<lparr> tg_channel = trim (parts ! 0), tg_peer_id = trim (parts ! 1), tg_conversation_id = trim (parts ! 2),
             tg_conversation_type = trim (parts ! 3), tg_account_scope = None \<rparr>)"

fun segment_loop :: "string list \<Rightarrow> string + delivery_target list" where
  "segment_loop [] = Ok []"
| "segment_loop (s # ss) =
     (let seg = trim s in
      if seg = [] then segment_loop ss
      else (case segment_target seg of
              Err m \<Rightarrow> Err m
            | Ok t \<Rightarrow> (case segment_loop ss of Err m \<Rightarrow> Err m | Ok ts \<Rightarrow> Ok (t # ts))))"

definition parse_target_segments :: "string \<Rightarrow> string + delivery_target list" where
  "parse_target_segments v = (if trim v = [] then Ok [] else segment_loop (split_on (CHR ''|'') (trim v)))"

fun csv_pushes :: "nat \<Rightarrow> string list \<Rightarrow> string + push_import_record list" where
  "csv_pushes idx [] = Ok []"
| "csv_pushes idx (line # ls) =
     (if trim line = [] then csv_pushes (Suc idx) ls
      else
        (let fs = parse_csv_line line in
         if length fs < 4 then Err (line_text (idx + 2) (''expected 4 columns, got '' @ show_nat (length fs)))
         else (case parse_target_segments (fs ! 2) of
                 Err m \<Rightarrow> Err (line_text (idx + 2) m)
               | Ok ts \<Rightarrow>
                   (case csv_pushes (Suc idx) ls of
                      Err m \<Rightarrow> Err m
                    | Ok rs \<Rightarrow> Ok (\<lparr> pr_project_key = fs ! 0, pr_mode = fs ! 1, pr_message_text = fs ! 3,
                                   pr_target_targets = ts \<rparr> # rs)))))"

definition parse_pushes_csv :: "(string \<Rightarrow> string + string) \<Rightarrow> string \<Rightarrow> string + push_import_record list" where
  "parse_pushes_csv read_file path =
     (case read_file path of
        Err m \<Rightarrow> Err (read_failed path m)
      | Ok content \<Rightarrow> csv_pushes 0 (tl (str_lines content)))"

section \<open>Running a job\<close>

definition row_target :: "delivery_target_row \<Rightarrow> delivery_target" where
  "row_target t =
     \<lparr> tg_channel = dt_channel t, tg_peer_id = dt_peer_id t, tg_conversation_id = dt_conversation_id t,
       tg_conversation_type = dt_conversation_type t,
       tg_account_scope = (if dt_account_scope t = [] then None else Some (dt_account_scope t)) \<rparr>"

definition broadcast_rows :: "string \<Rightarrow> 'w db_scheme \<Rightarrow> delivery_target_row list" where
  "broadcast_rows project_key d =
     map snd (filter (\<lambda>(b, t). dt_status t = ''active'')
       (join_targets (filter (\<lambda>b. pb_project_key b = project_key \<and> pb_status b = ''active'') (t_project_bindings d))
         (t_delivery_targets d)))"

text \<open>Without an \<open>ORDER BY\<close> the order of the rows is the database's.\<close>

definition resolve_broadcast_targets ::
  "env \<Rightarrow> string \<Rightarrow> 'w db_scheme \<Rightarrow> (string + delivery_target list) \<times> 'w db_scheme" where
  "resolve_broadcast_targets e project_key d =
     (let (r, d') = sql_read e (\<lambda>n d. map row_target
            (sort_key (\<lambda>t. env_rank e n (dt_target_id t)) (broadcast_rows project_key d))) d
      in (map_err (\<lambda>m. ''resolve broadcast targets failed: '' @ m) r, d'))"

definition active_ids :: "string \<Rightarrow> 'w db_scheme \<Rightarrow> string set" where
  "active_ids project_key d =
     set (map pb_target_id (filter (\<lambda>b. pb_project_key b = project_key \<and> pb_status b = ''active'') (t_project_bindings d)))"

definition active_target_ids :: "env \<Rightarrow> string \<Rightarrow> 'w db_scheme \<Rightarrow> (string + string set) \<times> 'w db_scheme" where
  "active_target_ids e project_key d =
     (let (r, d') = sql_read e (\<lambda>n d. active_ids project_key d) d
      in (map_err (\<lambda>m. ''load active target ids failed: '' @ m) r, d'))"

definition target_route :: "delivery_target \<Rightarrow> route_key" where
  "target_route t = route_key_new (ChannelId (tg_channel t)) (tg_conversation_id t) (tg_peer_id t)
     (parse_conversation_type (tg_conversation_type t))"

definition enqueue_outbox ::
  "push_deps \<Rightarrow> env \<Rightarrow> delivery_target \<Rightarrow> string \<Rightarrow> 'w db_scheme \<Rightarrow> (string + unit) \<times> 'w db_scheme" where
  "enqueue_outbox pd e t message_text d =
     (case pd_route_key_json pd (target_route t) of
        Err m \<Rightarrow> (Err m, d)
      | Ok k \<Rightarrow>
          (case pd_content_json pd (Text message_text) of
             Err m \<Rightarrow> (Err m, d)
           | Ok p \<Rightarrow>
               (let (i, d1) = new_id e ''push'' d;
                    (ts, d2) = clock_s e d1;
                    (r, d3) = sql e (\<lambda>n d. case tbl_insert ob_id ''UNIQUE constraint failed: outbox.id''
                          (entry_to_row (outbox_entry_new i k p ts)) (t_outbox d) of
                        Err m \<Rightarrow> Err m | Ok x \<Rightarrow> Ok ((), d\<lparr>t_outbox := x\<rparr>)) d2
                in (map_err (\<lambda>m. ''enqueue outbox failed: '' @ m) r, d3))))"

record pending_item =
  pe_item_id :: string
  pe_project_key :: string
  pe_message_text :: string
  pe_mode :: string
  pe_targets_json :: "string option"

definition pending_of :: "push_item_row \<Rightarrow> pending_item" where
  "pending_of r = \<lparr> pe_item_id = pi_item_id r, pe_project_key = pi_project_key r, pe_message_text = pi_message_text r,
     pe_mode = pi_mode r, pe_targets_json = pi_targets_json r \<rparr>"

definition pending_rows :: "string \<Rightarrow> push_item_row list \<Rightarrow> push_item_row list" where
  "pending_rows job_id t = filter (\<lambda>r. pi_job_id r = job_id \<and> pi_status r = ''pending'') t"

definition fetch_pending_items ::
  "env \<Rightarrow> string \<Rightarrow> 'w db_scheme \<Rightarrow> (string + pending_item list) \<times> 'w db_scheme" where
  "fetch_pending_items e job_id d =
     (let (r, d') = sql_read e (\<lambda>n d. map pending_of (order_by pi_created_at (\<lambda>r. env_rank e n (pi_item_id r))
            (pending_rows job_id (t_push_job_items d)))) d
      in (map_err (\<lambda>m. ''fetch pending items failed: '' @ m) r, d'))"

definition mark_item ::
  "env \<Rightarrow> string \<Rightarrow> string \<Rightarrow> string option \<Rightarrow> 'w db_scheme \<Rightarrow> (string + unit) \<times> 'w db_scheme" where
  "mark_item e item_id status err d =
     (let (r, d') = sql_write e (\<lambda>n d. d\<lparr>t_push_job_items := tbl_update (\<lambda>q. pi_item_id q = item_id)
            (\<lambda>q. q\<lparr>pi_status := status, pi_error := err, pi_updated_at := unixepoch e n\<rparr>) (t_push_job_items d)\<rparr>) d
      in (map_err (\<lambda>m. ''mark item failed: '' @ m) r, d'))"

fun join_with :: "string \<Rightarrow> string list \<Rightarrow> string" where
  "join_with sep [] = []"
| "join_with sep [x] = x"
| "join_with sep (x # xs) = x @ sep @ join_with sep xs"

definition check_requested :: "string set \<Rightarrow> delivery_target list \<Rightarrow> string + delivery_target list" where
  "check_requested allowed requested =
     (let valid = filter (\<lambda>t. target_id t \<in> allowed) requested;
          invalid = filter (\<lambda>t. target_id t \<notin> allowed) requested
      in if invalid \<noteq> [] then Err (''targets not bound to project: '' @ join_with '', '' (map target_id invalid))
         else Ok valid)"

definition resolve_item_targets ::
  "push_deps \<Rightarrow> env \<Rightarrow> pending_item \<Rightarrow> 'w db_scheme \<Rightarrow> (string + delivery_target list) \<times> 'w db_scheme" where
  "resolve_item_targets pd e item d =
     (if pe_mode item = ''broadcast'' then
        (case resolve_broadcast_targets e (pe_project_key item) d of
           (Err m, d1) \<Rightarrow> (Err m, d1)
         | (Ok ts, d1) \<Rightarrow> (if ts = [] then Err ''no active bindings for project'' else Ok ts, d1))
      else if pe_mode item = ''targeted'' then
        (case pe_targets_json item of
           None \<Rightarrow> (Err ''targeted item has no target_targets'', d)
         | Some raw \<Rightarrow>
             (case pd_parse_targets pd raw of
                Err m \<Rightarrow> (Err m, d)
              | Ok requested \<Rightarrow>
                  if requested = [] then (Err ''targeted item has empty target set'', d)
                  else (case active_target_ids e (pe_project_key item) d of
                          (Err m, d1) \<Rightarrow> (Err m, d1)
                        | (Ok allowed, d1) \<Rightarrow> (check_requested allowed requested, d1))))
      else (Err (''invalid mode: '' @ pe_mode item), d))"

text \<open>The loop over the targets of an item: how many rows were inserted, and the first error.\<close>

fun enqueue_all ::
  "push_deps \<Rightarrow> env \<Rightarrow> delivery_target list \<Rightarrow> string \<Rightarrow> nat \<Rightarrow> string option \<Rightarrow> 'w db_scheme \<Rightarrow>
   (nat \<times> string option) \<times> 'w db_scheme" where
  "enqueue_all pd e [] message_text enqueued first_error d = ((enqueued, first_error), d)"
| "enqueue_all pd e (t # ts) message_text enqueued first_error d =
     (case enqueue_outbox pd e t message_text d of
        (Ok _, d1) \<Rightarrow> enqueue_all pd e ts message_text (enqueued + 1) first_error d1
      | (Err m, d1) \<Rightarrow>
          enqueue_all pd e ts message_text enqueued (case first_error of None \<Rightarrow> Some m | Some x \<Rightarrow> Some x) d1)"

text \<open>Marking an item, counting it and the audit entry, whose failure is ignored.\<close>

definition settle_item ::
  "env \<Rightarrow> pending_item \<Rightarrow> string \<Rightarrow> string option \<Rightarrow> string \<Rightarrow> (run_summary \<Rightarrow> run_summary) \<Rightarrow> run_summary \<Rightarrow> 'w db_scheme \<Rightarrow>
   (string + run_summary) \<times> 'w db_scheme" where
  "settle_item e item status err result tally s d =
     (case mark_item e (pe_item_id item) status err d of
        (Err m, d1) \<Rightarrow> (Err m, d1)
      | (Ok _, d1) \<Rightarrow> (Ok (tally s), snd (write_audit e (Some (pe_project_key item)) ''project_push'' result d1)))"

definition count_queued :: "nat \<Rightarrow> run_summary \<Rightarrow> run_summary" where
  "count_queued n s = s\<lparr>rs_queued_items := rs_queued_items s + 1, rs_enqueued_messages := rs_enqueued_messages s + n\<rparr>"

definition count_failed :: "run_summary \<Rightarrow> run_summary" where
  "count_failed s = s\<lparr>rs_failed_items := rs_failed_items s + 1\<rparr>"

definition run_item ::
  "push_deps \<Rightarrow> env \<Rightarrow> pending_item \<Rightarrow> run_summary \<Rightarrow> 'w db_scheme \<Rightarrow> (string + run_summary) \<times> 'w db_scheme" where
  "run_item pd e item s d =
     (case resolve_item_targets pd e item d of
        (Err m, d1) \<Rightarrow> settle_item e item ''failed'' (Some m) (''failed: '' @ m) count_failed s d1
      | (Ok ts, d1) \<Rightarrow>
          (case enqueue_all pd e ts (pe_message_text item) 0 None d1 of
             ((enqueued, first_error), d2) \<Rightarrow>
               if enqueued > 0 \<and> first_error = None
               then settle_item e item ''queued'' None
                      (''queued '' @ pe_mode item @ '' ('' @ show_nat enqueued @ '' targets)'') (count_queued enqueued) s d2
               else if enqueued > 0
               then (let err = (case first_error of Some m \<Rightarrow> m | None \<Rightarrow> ''partial enqueue'')
                     in settle_item e item ''queued'' (Some (''partial: '' @ err)) (''partial: '' @ err)
                          (count_queued enqueued) s d2)
               else (let err = (case first_error of Some m \<Rightarrow> m | None \<Rightarrow> ''no targets enqueued'')
                     in settle_item e item ''failed'' (Some err) (''failed: '' @ err) count_failed s d2)))"

fun run_items ::
  "push_deps \<Rightarrow> env \<Rightarrow> pending_item list \<Rightarrow> run_summary \<Rightarrow> 'w db_scheme \<Rightarrow> (string + run_summary) \<times> 'w db_scheme" where
  "run_items pd e [] s d = (Ok s, d)"
| "run_items pd e (i # is) s d =
     (case run_item pd e i s d of
        (Err m, d1) \<Rightarrow> (Err m, d1)
      | (Ok s1, d1) \<Rightarrow> run_items pd e is s1 d1)"

definition run_push_job ::
  "push_deps \<Rightarrow> env \<Rightarrow> string \<Rightarrow> 'w db_scheme \<Rightarrow> (string + run_summary) \<times> 'w db_scheme" where
  "run_push_job pd e job_id d =
     (case sql_write e (\<lambda>n d. d\<lparr>t_push_jobs := tbl_update (\<lambda>q. pu_job_id q = job_id)
             (\<lambda>q. q\<lparr>pu_status := ''running'', pu_updated_at := unixepoch e n\<rparr>) (t_push_jobs d)\<rparr>) d of
        (Err m, d1) \<Rightarrow> (Err (''mark job running failed: '' @ m), d1)
      | (Ok _, d1) \<Rightarrow>
          (case fetch_pending_items e job_id d1 of
             (Err m, d2) \<Rightarrow> (Err m, d2)
           | (Ok items, d2) \<Rightarrow>
               (case run_items pd e items \<lparr> rs_job_id = job_id, rs_total_items = length items, rs_queued_items = 0,
                        rs_failed_items = 0, rs_enqueued_messages = 0 \<rparr> d2 of
                  (Err m, d3) \<Rightarrow> (Err m, d3)
                | (Ok s, d3) \<Rightarrow>
                    (let status = (if rs_failed_items s = 0 then ''done''
                                   else if rs_queued_items s = 0 then ''failed'' else ''partial'') in
                     case sql_write e (\<lambda>n d. d\<lparr>t_push_jobs := tbl_update (\<lambda>q. pu_job_id q = job_id)
                            (\<lambda>q. q\<lparr>pu_status := status, pu_success_items := int (rs_queued_items s),
                                   pu_failed_items := int (rs_failed_items s), pu_updated_at := unixepoch e n\<rparr>)
                            (t_push_jobs d)\<rparr>) d3 of
                       (Err m, d4) \<Rightarrow> (Err (''finalize job failed: '' @ m), d4)
                     | (Ok _, d4) \<Rightarrow> (Ok s, d4)))))"

section \<open>What a job delivers\<close>

text \<open>The specification: the targets an item stands for, and the outbox rows they ask for.\<close>

definition push_plan :: "push_deps \<Rightarrow> 'w db_scheme \<Rightarrow> pending_item \<Rightarrow> delivery_target multiset" where
  "push_plan pd d item =
     (if pe_mode item = ''broadcast'' then mset (map row_target (broadcast_rows (pe_project_key item) d))
      else if pe_mode item = ''targeted'' then
        (case pe_targets_json item of
           None \<Rightarrow> {#}
         | Some raw \<Rightarrow>
             (case pd_parse_targets pd raw of
                Err m \<Rightarrow> {#}
              | Ok requested \<Rightarrow>
                  if list_all (\<lambda>t. target_id t \<in> active_ids (pe_project_key item) d) requested
                  then mset requested else {#}))
      else {#})"

text \<open>A letter is the route key, payload and status of a row.\<close>

definition letter ::
  "(route_key \<Rightarrow> string) \<Rightarrow> (message_content \<Rightarrow> string) \<Rightarrow> string \<Rightarrow> delivery_target \<Rightarrow> string \<times> string \<times> string" where
  "letter kj cj message_text t = (kj (target_route t), cj (Text message_text), ''pending'')"

definition letters_of :: "outbox_row list \<Rightarrow> (string \<times> string \<times> string) multiset" where
  "letters_of rows = mset (map (\<lambda>r. (ob_route_key r, ob_payload r, ob_status r)) rows)"

definition item_letters ::
  "push_deps \<Rightarrow> (route_key \<Rightarrow> string) \<Rightarrow> (message_content \<Rightarrow> string) \<Rightarrow> 'w db_scheme \<Rightarrow> pending_item \<Rightarrow> (string \<times> string \<times> string) multiset" where
  "item_letters pd kj cj d item = image_mset (letter kj cj (pe_message_text item)) (push_plan pd d item)"

text \<open>New identifiers differ from each other and from the ids in the outbox.\<close>

definition fresh_ids :: "env \<Rightarrow> 'w db_scheme \<Rightarrow> bool" where
  "fresh_ids e d \<longleftrightarrow> inj (env_uuid e) \<and> (\<forall>n \<ge> db_tick d. ''push-'' @ env_uuid e n \<notin> ob_id ` set (t_outbox d))"

definition serialises :: "push_deps \<Rightarrow> (route_key \<Rightarrow> string) \<Rightarrow> (message_content \<Rightarrow> string) \<Rightarrow> bool" where
  "serialises pd kj cj \<longleftrightarrow> pd_route_key_json pd = (\<lambda>k. Ok (kj k)) \<and> pd_content_json pd = (\<lambda>c. Ok (cj c))"

definition push_frame :: "'w db_scheme \<Rightarrow> 'w db_scheme \<Rightarrow> bool" where
  "push_frame d d' \<longleftrightarrow> t_project_bindings d' = t_project_bindings d \<and> t_delivery_targets d' = t_delivery_targets d \<and>
     db_tick d \<le> db_tick d'"

lemma push_frame_refl: "push_frame d d"
  by (simp add: push_frame_def)

lemma push_frame_trans: "push_frame d d1 \<Longrightarrow> push_frame d1 d2 \<Longrightarrow> push_frame d d2"
  by (simp add: push_frame_def)

lemma push_frame_plan: "push_frame d d' \<Longrightarrow> push_plan pd d' = push_plan pd d"
proof -
  assume "push_frame d d'"
  then have "active_ids k d' = active_ids k d" "broadcast_rows k d' = broadcast_rows k d" for k
    by (simp_all add: push_frame_def broadcast_rows_def active_ids_def)
  then show ?thesis by (simp add: push_plan_def fun_eq_iff split: option.split sum.split)
qed

lemma fresh_ids_frame: "fresh_ids e d \<Longrightarrow> db_tick d \<le> db_tick d' \<Longrightarrow> t_outbox d' = t_outbox d \<Longrightarrow> fresh_ids e d'"
  by (simp add: fresh_ids_def)

section \<open>Steps of a run\<close>

lemma enqueue_outbox_effect:
  assumes "no_faults e" and "serialises pd kj cj" and "fresh_ids e d"
  shows "\<exists>x d'. enqueue_outbox pd e t msg d = (Ok (), d') \<and> t_outbox d' = t_outbox d @ [x] \<and>
    (ob_route_key x, ob_payload x, ob_status x) = letter kj cj msg t \<and> fresh_ids e d' \<and> push_frame d d' \<and>
    t_push_job_items d' = t_push_job_items d \<and> t_audit_log d' = t_audit_log d"
proof -
  let ?i = "''push-'' @ env_uuid e (db_tick d)"
  have new: "?i \<notin> ob_id ` set (t_outbox d)" using assms(3) by (simp add: fresh_ids_def)
  have rest: "''push-'' @ env_uuid e n \<notin> insert ?i (ob_id ` set (t_outbox d))" if "Suc (Suc (Suc (db_tick d))) \<le> n" for n
  proof -
    have "n \<noteq> db_tick d" using that by simp
    with assms(3) that show ?thesis by (simp add: fresh_ids_def inj_eq)
  qed
  show ?thesis
    using assms(1,2) new rest assms(3)
    by (auto simp: enqueue_outbox_def serialises_def new_id_def new_uuid_def clock_s_def clock_ms_def sql_def Let_def
        tbl_insert_def map_err_def entry_to_row_def outbox_entry_new_def letter_def fresh_ids_def push_frame_def)
qed

lemma enqueue_all_effect:
  assumes "no_faults e" and "serialises pd kj cj" and "fresh_ids e d"
  shows "\<exists>rows d'. enqueue_all pd e ts msg n err d = ((n + length ts, err), d') \<and> t_outbox d' = t_outbox d @ rows \<and>
    letters_of rows = image_mset (letter kj cj msg) (mset ts) \<and> fresh_ids e d' \<and> push_frame d d' \<and>
    t_push_job_items d' = t_push_job_items d \<and> t_audit_log d' = t_audit_log d \<and> length rows = length ts"
  using assms(3)
proof (induction ts arbitrary: n d)
  case Nil
  then show ?case by (auto simp: letters_of_def push_frame_refl)
next
  case (Cons t ts)
  obtain x d1 where one: "enqueue_outbox pd e t msg d = (Ok (), d1)" "t_outbox d1 = t_outbox d @ [x]"
      "(ob_route_key x, ob_payload x, ob_status x) = letter kj cj msg t" "fresh_ids e d1" "push_frame d d1"
      "t_push_job_items d1 = t_push_job_items d" "t_audit_log d1 = t_audit_log d"
    using enqueue_outbox_effect [OF assms(1,2) Cons.prems, of t msg] by blast
  obtain rows d2 where "enqueue_all pd e ts msg (n + 1) err d1 = ((n + 1 + length ts, err), d2)"
      "t_outbox d2 = t_outbox d1 @ rows" "letters_of rows = image_mset (letter kj cj msg) (mset ts)" "fresh_ids e d2"
      "push_frame d1 d2" "t_push_job_items d2 = t_push_job_items d1" "t_audit_log d2 = t_audit_log d1"
      "length rows = length ts"
    using Cons.IH [OF one(4), of "n + 1"] by blast
  with one push_frame_trans [OF one(5), of d2] show ?case
    by (intro exI [of _ "x # rows"] exI [of _ d2]) (simp add: letters_of_def)
qed

lemma resolve_effect:
  assumes "no_faults e"
  shows "\<exists>r d'. resolve_item_targets pd e item d = (r, d') \<and> push_frame d d' \<and> t_outbox d' = t_outbox d \<and>
    t_push_job_items d' = t_push_job_items d \<and> t_audit_log d' = t_audit_log d \<and>
    (case r of Ok ts \<Rightarrow> ts \<noteq> [] \<and> mset ts = push_plan pd d item | Err m \<Rightarrow> push_plan pd d item = {#})"
proof -
  have check: "case check_requested A ts of Ok vs \<Rightarrow> vs = ts \<and> list_all (\<lambda>t. target_id t \<in> A) ts
      | Err m \<Rightarrow> \<not> list_all (\<lambda>t. target_id t \<in> A) ts" for A ts
    by (auto simp: check_requested_def Let_def filter_empty_conv list_all_iff intro!: filter_True)
  consider "pe_mode item = ''broadcast''" | "pe_mode item = ''targeted''"
    | "pe_mode item \<noteq> ''broadcast''" "pe_mode item \<noteq> ''targeted''" by blast
  then show ?thesis
  proof cases
    case 1
    let ?rows = "sort_key (\<lambda>t. env_rank e (db_tick d) (dt_target_id t)) (broadcast_rows (pe_project_key item) d)"
    have "resolve_item_targets pd e item d =
        (if map row_target ?rows = [] then Err ''no active bindings for project'' else Ok (map row_target ?rows),
         d\<lparr>db_tick := Suc (db_tick d)\<rparr>)"
      using 1 assms by (simp add: resolve_item_targets_def resolve_broadcast_targets_def sql_read_eq map_err_def
          broadcast_rows_def)
    moreover have "?rows = [] \<longleftrightarrow> broadcast_rows (pe_project_key item) d = []"
      by (metis length_0_conv length_sort)
    ultimately show ?thesis using 1 by (auto simp: push_frame_def push_plan_def mset_map)
  next
    case 2
    have ids: "active_target_ids e k d = (Ok (active_ids k d), d\<lparr>db_tick := Suc (db_tick d)\<rparr>)" for k
      using assms by (simp add: active_target_ids_def sql_read_eq map_err_def active_ids_def)
    show ?thesis
    proof (cases "pe_targets_json item")
      case (Some raw)
      show ?thesis
      proof (cases "pd_parse_targets pd raw")
        case (Inr requested)
        let ?A = "active_ids (pe_project_key item) d"
        have "resolve_item_targets pd e item d = (if requested = [] then (Err ''targeted item has empty target set'', d)
            else (check_requested ?A requested, d\<lparr>db_tick := Suc (db_tick d)\<rparr>))"
          using 2 Some Inr by (simp add: resolve_item_targets_def ids)
        moreover have "push_plan pd d item = (if list_all (\<lambda>t. target_id t \<in> ?A) requested then mset requested else {#})"
          using 2 Some Inr by (simp add: push_plan_def)
        ultimately show ?thesis
          using check [of ?A requested]
          by (cases "requested = []"; cases "check_requested ?A requested") (auto simp: push_frame_def)
      qed (use 2 Some in \<open>simp add: resolve_item_targets_def push_frame_def push_plan_def\<close>)
    qed (use 2 in \<open>simp add: resolve_item_targets_def push_frame_def push_plan_def\<close>)
  next
    case 3
    then show ?thesis by (auto simp: resolve_item_targets_def push_frame_def push_plan_def)
  qed
qed

text \<open>A settled item is no longer pending, and the audit log has a row without a hash.\<close>

lemma settle_effect:
  assumes "no_faults e" and "fresh_ids e d"
  shows "\<exists>d' x. settle_item e item st err res tally s d = (Ok (tally s), d') \<and> t_outbox d' = t_outbox d \<and> push_frame d d' \<and>
    fresh_ids e d' \<and> t_audit_log d' = t_audit_log d @ [x] \<and> al_entry_hash x = None \<and> al_id x = next_audit_id (t_audit_log d) \<and>
    (\<exists>f. (\<forall>q. pi_status (f q) = st \<and> pi_job_id (f q) = pi_job_id q \<and> pi_item_id (f q) = pi_item_id q) \<and>
       t_push_job_items d' = tbl_update (\<lambda>q. pi_item_id q = pe_item_id item) f (t_push_job_items d))"
proof -
  let ?f = "\<lambda>q. q\<lparr>pi_status := st, pi_error := err, pi_updated_at := unixepoch e (db_tick d)\<rparr>"
  let ?d1 = "d\<lparr>db_tick := Suc (db_tick d),
      t_push_job_items := tbl_update (\<lambda>q. pi_item_id q = pe_item_id item) ?f (t_push_job_items d)\<rparr>"
  have "mark_item e (pe_item_id item) st err d = (Ok (), ?d1)"
    using assms(1) by (simp add: mark_item_def sql_write_eq map_err_def)
  then have "settle_item e item st err res tally s d =
      (Ok (tally s), snd (write_audit e (Some (pe_project_key item)) ''project_push'' res ?d1))"
    by (simp add: settle_item_def)
  then show ?thesis
    using assms by (auto simp: write_audit_def sql_write_eq push_frame_def fresh_ids_def intro!: exI [of _ ?f])
qed

lemma run_item_effect:
  assumes "no_faults e" and "serialises pd kj cj" and "fresh_ids e d"
  shows "\<exists>s' d' rows x st. run_item pd e item s d = (Ok s', d') \<and> t_outbox d' = t_outbox d @ rows \<and>
    letters_of rows = item_letters pd kj cj d item \<and> push_frame d d' \<and> fresh_ids e d' \<and>
    t_audit_log d' = t_audit_log d @ [x] \<and> al_entry_hash x = None \<and> al_id x = next_audit_id (t_audit_log d) \<and>
    st \<noteq> ''pending'' \<and>
    (\<exists>f. (\<forall>q. pi_status (f q) = st \<and> pi_job_id (f q) = pi_job_id q \<and> pi_item_id (f q) = pi_item_id q) \<and>
       t_push_job_items d' = tbl_update (\<lambda>q. pi_item_id q = pe_item_id item) f (t_push_job_items d)) \<and>
    rs_total_items s' = rs_total_items s \<and>
    rs_queued_items s' + rs_failed_items s' = Suc (rs_queued_items s + rs_failed_items s) \<and>
    rs_enqueued_messages s' = rs_enqueued_messages s + length rows"
proof -
  obtain r d1 where res: "resolve_item_targets pd e item d = (r, d1)" "push_frame d d1" "t_outbox d1 = t_outbox d"
      "t_push_job_items d1 = t_push_job_items d" "t_audit_log d1 = t_audit_log d"
      "case r of Ok ts \<Rightarrow> ts \<noteq> [] \<and> mset ts = push_plan pd d item | Err m \<Rightarrow> push_plan pd d item = {#}"
    using resolve_effect [OF assms(1), of pd item d] by blast
  have fr: "fresh_ids e d1" using assms(3) res(2,3) by (auto simp: push_frame_def intro: fresh_ids_frame)
  show ?thesis
  proof (cases r)
    case (Inl m)
    then have run: "run_item pd e item s d = settle_item e item ''failed'' (Some m) (''failed: '' @ m) count_failed s d1"
      using res(1) by (simp add: run_item_def)
    have plan: "letters_of [] = item_letters pd kj cj d item" using res(6) Inl by (simp add: letters_of_def item_letters_def)
    from settle_effect [OF assms(1) fr, of item "''failed''" "Some m" "''failed: '' @ m" count_failed s] obtain d' x f
      where "run_item pd e item s d = (Ok (count_failed s), d')" "t_outbox d' = t_outbox d1" "push_frame d1 d'"
        "fresh_ids e d'" "t_audit_log d' = t_audit_log d1 @ [x]" "al_entry_hash x = None"
        "al_id x = next_audit_id (t_audit_log d1)"
        "\<forall>q. pi_status (f q) = ''failed'' \<and> pi_job_id (f q) = pi_job_id q \<and> pi_item_id (f q) = pi_item_id q"
        "t_push_job_items d' = tbl_update (\<lambda>q. pi_item_id q = pe_item_id item) f (t_push_job_items d1)"
      unfolding run by blast
    with res plan push_frame_trans [OF res(2), of d'] show ?thesis
      by (intro exI [of _ "count_failed s"] exI [of _ d'] exI [of _ "[]"] exI [of _ x] exI [of _ "''failed''"])
        (auto simp: count_failed_def)
  next
    case (Inr ts)
    obtain rows d2 where enq: "enqueue_all pd e ts (pe_message_text item) 0 None d1 = ((length ts, None), d2)"
        "t_outbox d2 = t_outbox d1 @ rows" "letters_of rows = image_mset (letter kj cj (pe_message_text item)) (mset ts)"
        "fresh_ids e d2" "push_frame d1 d2" "t_push_job_items d2 = t_push_job_items d1" "t_audit_log d2 = t_audit_log d1"
        "length rows = length ts"
      using enqueue_all_effect [OF assms(1,2) fr, of ts "pe_message_text item" 0 None] by auto
    have ts: "ts \<noteq> []" "mset ts = push_plan pd d item" using res(6) Inr by simp_all
    let ?res = "''queued '' @ pe_mode item @ '' ('' @ show_nat (length ts) @ '' targets)''"
    have run: "run_item pd e item s d = settle_item e item ''queued'' None ?res (count_queued (length ts)) s d2"
      using res(1) Inr enq(1) ts(1) by (simp add: run_item_def)
    have plan: "letters_of rows = item_letters pd kj cj d item" using enq(3) ts(2) by (simp add: item_letters_def)
    from settle_effect [OF assms(1) enq(4), of item "''queued''" None ?res "count_queued (length ts)" s] obtain d' x f
      where "run_item pd e item s d = (Ok (count_queued (length ts) s), d')" "t_outbox d' = t_outbox d2" "push_frame d2 d'"
        "fresh_ids e d'" "t_audit_log d' = t_audit_log d2 @ [x]" "al_entry_hash x = None"
        "al_id x = next_audit_id (t_audit_log d2)"
        "\<forall>q. pi_status (f q) = ''queued'' \<and> pi_job_id (f q) = pi_job_id q \<and> pi_item_id (f q) = pi_item_id q"
        "t_push_job_items d' = tbl_update (\<lambda>q. pi_item_id q = pe_item_id item) f (t_push_job_items d2)"
      unfolding run by blast
    with res enq plan push_frame_trans [OF push_frame_trans [OF res(2) enq(5)], of d'] show ?thesis
      by (intro exI [of _ "count_queued (length ts) s"] exI [of _ d'] exI [of _ rows] exI [of _ x] exI [of _ "''queued''"])
        (auto simp: count_queued_def)
  qed
qed

lemma settled_rows:
  assumes "\<forall>q. pi_status (f q) = st \<and> pi_job_id (f q) = pi_job_id q \<and> pi_item_id (f q) = pi_item_id q" and "st \<noteq> ''pending''"
  shows "pending_rows job (tbl_update (\<lambda>q. pi_item_id q = i) f t) =
    filter (\<lambda>r. pi_item_id r \<noteq> i) (pending_rows job t)"
  using assms by (induction t) (auto simp: pending_rows_def tbl_update_def)

lemma run_items_effect:
  assumes "no_faults e" and "serialises pd kj cj"
  shows "fresh_ids e d \<Longrightarrow> \<exists>s' d' rows zs. run_items pd e items s d = (Ok s', d') \<and> t_outbox d' = t_outbox d @ rows \<and>
    letters_of rows = (\<Sum>i \<in># mset items. item_letters pd kj cj d i) \<and>
    pending_rows job (t_push_job_items d') =
      filter (\<lambda>r. pi_item_id r \<notin> pe_item_id ` set items) (pending_rows job (t_push_job_items d)) \<and>
    t_audit_log d' = t_audit_log d @ zs \<and> length zs = length items \<and> (\<forall>z \<in> set zs. al_entry_hash z = None) \<and>
    (log_ids_ok (t_audit_log d) \<longrightarrow> log_ids_ok (t_audit_log d')) \<and>
    rs_total_items s' = rs_total_items s \<and>
    rs_queued_items s' + rs_failed_items s' = rs_queued_items s + rs_failed_items s + length items \<and>
    rs_enqueued_messages s' = rs_enqueued_messages s + length rows"
proof (induction items arbitrary: s d)
  case Nil
  then show ?case by (auto simp: letters_of_def)
next
  case (Cons i js)
  obtain s1 d1 rows1 x st f where one: "run_item pd e i s d = (Ok s1, d1)" "t_outbox d1 = t_outbox d @ rows1"
      "letters_of rows1 = item_letters pd kj cj d i" "push_frame d d1" "fresh_ids e d1"
      "t_audit_log d1 = t_audit_log d @ [x]" "al_entry_hash x = None" "al_id x = next_audit_id (t_audit_log d)"
      "st \<noteq> ''pending''"
      "\<forall>q. pi_status (f q) = st \<and> pi_job_id (f q) = pi_job_id q \<and> pi_item_id (f q) = pi_item_id q"
      "t_push_job_items d1 = tbl_update (\<lambda>q. pi_item_id q = pe_item_id i) f (t_push_job_items d)"
      "rs_total_items s1 = rs_total_items s"
      "rs_queued_items s1 + rs_failed_items s1 = Suc (rs_queued_items s + rs_failed_items s)"
      "rs_enqueued_messages s1 = rs_enqueued_messages s + length rows1"
    using run_item_effect [OF assms Cons.prems, of i s] by blast
  obtain s2 d2 rows2 zs where rest: "run_items pd e js s1 d1 = (Ok s2, d2)" "t_outbox d2 = t_outbox d1 @ rows2"
      "letters_of rows2 = (\<Sum>i \<in># mset js. item_letters pd kj cj d1 i)"
      "pending_rows job (t_push_job_items d2) =
        filter (\<lambda>r. pi_item_id r \<notin> pe_item_id ` set js) (pending_rows job (t_push_job_items d1))"
      "t_audit_log d2 = t_audit_log d1 @ zs" "length zs = length js" "\<forall>z \<in> set zs. al_entry_hash z = None"
      "log_ids_ok (t_audit_log d1) \<longrightarrow> log_ids_ok (t_audit_log d2)"
      "rs_total_items s2 = rs_total_items s1"
      "rs_queued_items s2 + rs_failed_items s2 = rs_queued_items s1 + rs_failed_items s1 + length js"
      "rs_enqueued_messages s2 = rs_enqueued_messages s1 + length rows2"
    using Cons.IH [OF one(5), of s1] by blast
  have plan: "item_letters pd kj cj d1 = item_letters pd kj cj d"
    using push_frame_plan [OF one(4)] by (simp add: item_letters_def fun_eq_iff)
  have pend: "pending_rows job (t_push_job_items d2) =
      filter (\<lambda>r. pi_item_id r \<notin> pe_item_id ` set (i # js)) (pending_rows job (t_push_job_items d))"
    unfolding rest(4) one(11) settled_rows [OF one(10) one(9)] by (auto intro: filter_cong)
  have ids: "log_ids_ok (t_audit_log d) \<longrightarrow> log_ids_ok (t_audit_log d2)"
    using rest(8) one(6,8) log_ids_ok_append by auto
  show ?case
    using one rest pend ids plan
    by (intro exI [of _ s2] exI [of _ d2] exI [of _ "rows1 @ rows2"] exI [of _ "x # zs"])
      (simp add: letters_of_def)
qed

lemma pending_of_sel [simp]: "pe_item_id (pending_of r) = pi_item_id r"
  by (simp add: pending_of_def)

lemma run_push_job_effect:
  assumes "no_faults e" and "serialises pd kj cj" and "fresh_ids e d"
  shows "\<exists>s d' rows zs. run_push_job pd e job d = (Ok s, d') \<and> t_outbox d' = t_outbox d @ rows \<and>
    letters_of rows = (\<Sum>r \<in># mset (pending_rows job (t_push_job_items d)). item_letters pd kj cj d (pending_of r)) \<and>
    pending_rows job (t_push_job_items d') = [] \<and>
    t_audit_log d' = t_audit_log d @ zs \<and> length zs = length (pending_rows job (t_push_job_items d)) \<and>
    (\<forall>z \<in> set zs. al_entry_hash z = None) \<and> (log_ids_ok (t_audit_log d) \<longrightarrow> log_ids_ok (t_audit_log d')) \<and>
    rs_total_items s = length (pending_rows job (t_push_job_items d)) \<and>
    rs_queued_items s + rs_failed_items s = rs_total_items s \<and> rs_enqueued_messages s = length rows"
proof -
  define d1 where "d1 = d\<lparr>db_tick := Suc (db_tick d), t_push_jobs := tbl_update (\<lambda>q. pu_job_id q = job)
      (\<lambda>q. q\<lparr>pu_status := ''running'', pu_updated_at := unixepoch e (db_tick d)\<rparr>) (t_push_jobs d)\<rparr>"
  define items where "items = map pending_of (order_by pi_created_at (\<lambda>r. env_rank e (db_tick d1) (pi_item_id r))
      (pending_rows job (t_push_job_items d)))"
  define d2 where "d2 = d1\<lparr>db_tick := Suc (db_tick d1)\<rparr>"
  let ?s = "\<lparr> rs_job_id = job, rs_total_items = length items, rs_queued_items = 0, rs_failed_items = 0, rs_enqueued_messages = 0 \<rparr>"
  have start: "sql_write e (\<lambda>n d. d\<lparr>t_push_jobs := tbl_update (\<lambda>q. pu_job_id q = job)
      (\<lambda>q. q\<lparr>pu_status := ''running'', pu_updated_at := unixepoch e n\<rparr>) (t_push_jobs d)\<rparr>) d = (Ok (), d1)"
    using assms(1) by (simp add: sql_write_eq d1_def)
  have fetch: "fetch_pending_items e job d1 = (Ok items, d2)"
    using assms(1) by (simp add: fetch_pending_items_def sql_read_eq map_err_def items_def d2_def d1_def)
  have fr: "fresh_ids e d2" using assms(3) by (rule fresh_ids_frame) (simp_all add: d2_def d1_def)
  have len: "length items = length (pending_rows job (t_push_job_items d))" by (simp add: items_def)
  have plan: "(\<Sum>i \<in># mset items. item_letters pd kj cj d2 i) =
      (\<Sum>r \<in># mset (pending_rows job (t_push_job_items d)). item_letters pd kj cj d (pending_of r))"
  proof -
    have "push_plan pd d2 = push_plan pd d" by (rule push_frame_plan) (simp add: push_frame_def d2_def d1_def)
    then have "item_letters pd kj cj d2 = item_letters pd kj cj d" by (simp add: item_letters_def fun_eq_iff)
    moreover have "mset items = image_mset pending_of (mset (pending_rows job (t_push_job_items d)))"
      by (simp add: items_def)
    ultimately show ?thesis by (simp add: image_mset.compositionality o_def)
  qed
  obtain s' d3 rows zs where run: "run_items pd e items ?s d2 = (Ok s', d3)" "t_outbox d3 = t_outbox d2 @ rows"
      "letters_of rows = (\<Sum>i \<in># mset items. item_letters pd kj cj d2 i)"
      "pending_rows job (t_push_job_items d3) =
         filter (\<lambda>r. pi_item_id r \<notin> pe_item_id ` set items) (pending_rows job (t_push_job_items d2))"
      "t_audit_log d3 = t_audit_log d2 @ zs" "length zs = length items" "\<forall>z \<in> set zs. al_entry_hash z = None"
      "log_ids_ok (t_audit_log d2) \<longrightarrow> log_ids_ok (t_audit_log d3)" "rs_total_items s' = length items"
      "rs_queued_items s' + rs_failed_items s' = length items" "rs_enqueued_messages s' = length rows"
    using run_items_effect [OF assms(1,2) fr, of items ?s job] by auto
  have none: "pending_rows job (t_push_job_items d3) = []"
    unfolding run(4) by (auto simp: filter_empty_conv items_def image_image d2_def d1_def)
  show ?thesis
    using start fetch run none plan len assms(1)
    by (auto simp: run_push_job_def sql_write_eq Let_def d2_def d1_def)
qed

text \<open>
  The run of a job with a pending item writes audit rows without a hash, and no reader of the
  chain gets past them.
\<close>

lemma push_run_unreadable_chain:
  assumes "no_faults e" and "serialises pd kj cj" and "fresh_ids e d" and "log_ids_ok (t_audit_log d)"
    and "pending_rows job (t_push_job_items d) \<noteq> []" and "run_push_job pd e job d = (res, d')"
  shows "chain_rows (sort_key al_id (t_audit_log d')) = Err ''Invalid column type Null at index: 2, name: entry_hash''"
proof -
  obtain s d1 zs where z: "run_push_job pd e job d = (Ok s, d1)" "t_audit_log d1 = t_audit_log d @ zs"
    "length zs = length (pending_rows job (t_push_job_items d))" "\<forall>z \<in> set zs. al_entry_hash z = None"
    "log_ids_ok (t_audit_log d1)"
    using run_push_job_effect [OF assms(1-3), of job] assms(4) by blast
  then have d1: "d1 = d'" using assms(6) by simp
  obtain y ys where "zs = y # ys" using z(3) assms(5) by (cases zs) auto
  with z(4) have "chain_rows zs = Err ''Invalid column type Null at index: 2, name: entry_hash''" by simp
  then have "chain_rows (t_audit_log d') = Err ''Invalid column type Null at index: 2, name: entry_hash''"
    using z(2) d1 by (auto simp: chain_rows_append split: sum.split dest: chain_rows_Err)
  with z(5) d1 show ?thesis by (simp add: log_sorted)
qed

section \<open>Properties\<close>

text \<open>
  C6. A push job delivers exactly its plan: without database faults and with fresh
  identifiers, running a job appends to the outbox exactly one pending row for every
  target of every pending item of the job (all active bindings of the project for a
  broadcast; the requested targets, if every one is bound, for a targeted item), with the
  target's route key and the item's text. Afterwards no item of the job is pending, so a
  second run delivers nothing, and the summary counts items and rows correctly.
\<close>

theorem push_job_delivers_plan:
  assumes "no_faults e" and "serialises pd kj cj" and "fresh_ids e d" and "run_push_job pd e job d = (res, d')"
  shows "\<exists>s rows. res = Ok s \<and> t_outbox d' = t_outbox d @ rows \<and>
    letters_of rows = (\<Sum>r \<in># mset (pending_rows job (t_push_job_items d)). item_letters pd kj cj d (pending_of r)) \<and>
    pending_rows job (t_push_job_items d') = [] \<and>
    rs_total_items s = length (pending_rows job (t_push_job_items d)) \<and>
    rs_queued_items s + rs_failed_items s = rs_total_items s \<and> rs_enqueued_messages s = length rows"
proof -
  obtain s d1 rows where "run_push_job pd e job d = (Ok s, d1)" "t_outbox d1 = t_outbox d @ rows"
    "letters_of rows = (\<Sum>r \<in># mset (pending_rows job (t_push_job_items d)). item_letters pd kj cj d (pending_of r))"
    "pending_rows job (t_push_job_items d1) = []" "rs_total_items s = length (pending_rows job (t_push_job_items d))"
    "rs_queued_items s + rs_failed_items s = rs_total_items s" "rs_enqueued_messages s = length rows"
    using run_push_job_effect [OF assms(1-3), of job] by blast
  with assms(4) show ?thesis by auto
qed

definition push_env :: env where
  "push_env = \<lparr> env_fault = \<lambda>n. None, env_now_ms = \<lambda>n. 1000 * int n, env_rank = \<lambda>n s. 0,
     env_uuid = \<lambda>n. replicate n CHR ''x'' \<rparr>"

definition plain_push_deps :: push_deps where
  "plain_push_deps = \<lparr> pd_route_key_json = (\<lambda>k. Ok (rk_peer_id k)), pd_content_json = (\<lambda>c. Ok ''body''),
     pd_targets_json = (\<lambda>ts. Ok []), pd_parse_targets = (\<lambda>s. Err ''none''), pd_parse_record = (\<lambda>s. Err ''none'') \<rparr>"

definition bound_target :: delivery_target where
  "bound_target = \<lparr> tg_channel = ''wechat'', tg_peer_id = ''a|b'', tg_conversation_id = ''c'', tg_conversation_type = ''direct'',
     tg_account_scope = None \<rparr>"

definition one_push :: db where
  "one_push = empty_db\<lparr>t_delivery_targets := [target_row bound_target 0],
     t_project_bindings := [binding_row ''p'' (target_id bound_target) ''import'' 0],
     t_push_job_items := [\<lparr> pi_item_id = ''i'', pi_job_id = ''j'', pi_project_key = ''p'', pi_message_text = ''hello'',
       pi_mode = ''broadcast'', pi_targets_json = None, pi_status = ''pending'', pi_error = None, pi_created_at = 0,
       pi_updated_at = 0 \<rparr>]\<rparr>"

lemma push_env_ok: "no_faults push_env" "fresh_ids push_env one_push"
  by (auto simp: push_env_def no_faults_def fresh_ids_def one_push_def empty_db_def inj_def replicate_eq_replicate)

lemma plain_serialises: "serialises plain_push_deps rk_peer_id (\<lambda>c. ''body'')"
  by (simp add: serialises_def plain_push_deps_def)

theorem push_job_delivers_plan_witness:
  "\<exists>row. t_outbox (snd (run_push_job plain_push_deps push_env ''j'' one_push)) = [row] \<and>
     ob_route_key row = ''a|b'' \<and> ob_payload row = ''body'' \<and> ob_status row = ''pending''"
proof -
  obtain rows where rows: "t_outbox (snd (run_push_job plain_push_deps push_env ''j'' one_push)) = t_outbox one_push @ rows"
      "letters_of rows = (\<Sum>r \<in># mset (pending_rows ''j'' (t_push_job_items one_push)).
         item_letters plain_push_deps rk_peer_id (\<lambda>c. ''body'') one_push (pending_of r))"
    using push_job_delivers_plan [OF push_env_ok(1) plain_serialises push_env_ok(2) prod.collapse [symmetric], of "''j''"]
    by blast
  have "letters_of rows = {#(''a|b'', ''body'', ''pending'')#}"
    unfolding rows(2)
    by (simp add: one_push_def pending_rows_def pending_of_def item_letters_def push_plan_def broadcast_rows_def
        join_targets_def row_target_def target_row_def binding_row_def bound_target_def letter_def target_route_def
        route_key_new_def)
  then have "map (\<lambda>r. (ob_route_key r, ob_payload r, ob_status r)) rows = [(''a|b'', ''body'', ''pending'')]"
    unfolding letters_of_def by (simp only: mset_single_iff)
  then obtain row where "rows = [row]" "(ob_route_key row, ob_payload row, ob_status row) = (''a|b'', ''body'', ''pending'')" by auto
  with rows(1) show ?thesis by (auto simp: one_push_def empty_db_def)
qed

text \<open>
  The check of a targeted item compares ids that join the columns with an unescaped bar,
  so a target that was never bound passes: the project is bound to peer \<open>a|b\<close> with
  conversation \<open>c\<close> only, and a request for peer \<open>a\<close> with conversation \<open>b|c\<close> is accepted.
\<close>

theorem targeted_check_confuses_targets:
  "let t = \<lparr> tg_channel = ''wechat'', tg_peer_id = ''a'', tg_conversation_id = ''b|c'', tg_conversation_type = ''direct'',
             tg_account_scope = None \<rparr>
   in bindings_ok one_push \<and> target_key t \<notin> bound one_push ''p'' \<and>
      check_requested (active_ids ''p'' one_push) [t] = Ok [t]"
proof -
  have "bindings_ok one_push"
    by (simp add: bindings_ok_def targets_ok_def one_push_def target_id_key)
  then show ?thesis
    by (simp add: bound_alt Let_def one_push_def active_ids_def check_requested_def target_id_def bound_target_def
        target_key_def account_scope_value_def)
qed

end
