(* ===== verification/Channels.thy ===== *)
theory Channels
  imports Outbox_Worker Key_Stores Conversation_Store "HOL-Library.AList"
begin

text \<open>
  \<open>src/channels/channel_trait.rs\<close> and \<open>registry.rs\<close>, the sender of
  \<open>src/infrastructure/runtime.rs\<close> that delivers outbox entries through the registry, its
  startup sequence up to the background tasks, \<open>src/application/gc_janitor.rs\<close> and
  \<open>health.rs\<close>.

  A channel is a record of functions on the world. The registry's hash map is an
  association list in the map's iteration order. Parsing JSON and the derived debug text of
  a chain error are arguments.
\<close>

section \<open>Channels and their registry\<close>

record send_receipt =
  sr_message_id :: string
  sr_platform_msg_id :: "string option"
  sr_timestamp_ms :: int

record health_status =
  hs_channel :: string
  hs_healthy :: bool
  hs_detail :: string

record 'w channel =
  ch_id :: channel_id
  ch_send :: "string \<Rightarrow> message_content \<Rightarrow> 'w \<Rightarrow> (channel_error + send_receipt) \<times> 'w"
  ch_stop :: "'w \<Rightarrow> (channel_error + unit) \<times> 'w"
  ch_health :: "'w \<Rightarrow> (channel_error + health_status) \<times> 'w"

definition default_health :: "channel_id \<Rightarrow> 'w \<Rightarrow> (channel_error + health_status) \<times> 'w" where
  "default_health i w = (Ok \<lparr> hs_channel = as_str i, hs_healthy = True, hs_detail = ''ok'' \<rparr>, w)"

type_synonym 'w registry = "(channel_id \<times> 'w channel) list"

definition registry_new :: "'w registry" where
  "registry_new = []"

definition register :: "'w channel \<Rightarrow> 'w registry \<Rightarrow> 'w registry" where
  "register c reg = AList.update (ch_id c) c reg"

definition send_via ::
  "'w registry \<Rightarrow> channel_id \<Rightarrow> string \<Rightarrow> message_content \<Rightarrow> 'w \<Rightarrow> (channel_error + send_receipt) \<times> 'w" where
  "send_via reg i dest content w =
     (case map_of reg i of
        None \<Rightarrow> (Err (InvalidRecipient (''channel not found: '' @ as_str i)), w)
      | Some c \<Rightarrow> ch_send c dest content w)"

fun stop_all :: "'w registry \<Rightarrow> 'w \<Rightarrow> 'w" where
  "stop_all [] w = w"
| "stop_all ((i, c) # reg) w = stop_all reg (snd (ch_stop c w))"

fun health_check_all :: "'w registry \<Rightarrow> 'w \<Rightarrow> health_status list \<times> 'w" where
  "health_check_all [] w = ([], w)"
| "health_check_all ((i, c) # reg) w =
     (let (r, w1) = ch_health c w;
          h = (case r of Ok h \<Rightarrow> h
               | Err er \<Rightarrow> \<lparr> hs_channel = as_str i, hs_healthy = False, hs_detail = channel_error_display er \<rparr>);
          (hs, w2) = health_check_all reg w1
      in (h # hs, w2))"

definition channel_count :: "'w registry \<Rightarrow> nat" where
  "channel_count reg = length reg"

definition has_channel :: "'w registry \<Rightarrow> channel_id \<Rightarrow> bool" where
  "has_channel reg i = (map_of reg i \<noteq> None)"

text \<open>The registrations of \<open>AppRuntime::new\<close>.\<close>

definition runtime_registry ::
  "'w channel \<Rightarrow> 'w channel \<Rightarrow> 'w channel \<Rightarrow> 'w channel list \<Rightarrow> 'w registry" where
  "runtime_registry wechat dingtalk feishu feishu_accounts =
     fold register feishu_accounts (register feishu (register dingtalk (register wechat registry_new)))"

section \<open>The outbox sender\<close>

definition registry_send ::
  "(string \<Rightarrow> string + route_key) \<Rightarrow> (string \<Rightarrow> string + message_content) \<Rightarrow> 'w registry \<Rightarrow> outbox_entry \<Rightarrow> 'w \<Rightarrow>
   (string + unit) \<times> 'w" where
  "registry_send parse_key parse_content reg entry w =
     (case parse_key (ob_route_key entry) of
        Err m \<Rightarrow> (Err (''invalid route_key payload: '' @ m), w)
      | Ok k \<Rightarrow>
          (case parse_content (ob_payload entry) of
             Err m \<Rightarrow> (Err (''invalid message payload: '' @ m), w)
           | Ok c \<Rightarrow>
               (let (r, w') = send_via reg (rk_channel k) (rk_peer_id k) c w
                in (case r of Ok _ \<Rightarrow> Ok () | Err er \<Rightarrow> Err (channel_error_display er), w'))))"

definition process_outbox_once :: "'w worker_deps \<Rightarrow> 'w \<Rightarrow> 'w" where
  "process_outbox_once dp w = process_retries dp 64 (process_pending dp 64 w)"

section \<open>Startup\<close>

definition start_background ::
  "digest \<Rightarrow> env \<Rightarrow> (chain_error \<Rightarrow> string) \<Rightarrow> 'w db_scheme \<Rightarrow> (string + unit) \<times> 'w db_scheme" where
  "start_background sha e debug d =
     (case recover_after_crash (sqlite_outbox e) d of
        (Err m, d1) \<Rightarrow> (Err m, d1)
      | (Ok _, d1) \<Rightarrow>
          (case verify_chain sha e d1 of
             (Err er, d2) \<Rightarrow> (Err (''audit log chain integrity check failed: '' @ debug er), d2)
           | (Ok _, d2) \<Rightarrow> (Ok (), snd (state_load_all e d2))))"

section \<open>Janitor and health\<close>

text \<open>The loop of the janitor, cut after \<open>n\<close> ticks; \<open>clock\<close> gives the time of each.\<close>

fun gc_janitor :: "'w cs_deps \<Rightarrow> (nat \<Rightarrow> nat) \<Rightarrow> nat \<Rightarrow> nat \<Rightarrow> conv_store \<times> 'w \<Rightarrow> conv_store \<times> 'w" where
  "gc_janitor dp clock timeout 0 sw = sw"
| "gc_janitor dp clock timeout (Suc n) sw =
     gc_janitor dp (\<lambda>i. clock (Suc i)) timeout n (snd (collect_idle dp (clock 0) timeout sw))"

record health_report =
  sh_status :: string
  sh_uptime_secs :: nat
  sh_active_conversations :: nat
  sh_channels :: "health_status list"

definition system_health ::
  "nat \<Rightarrow> nat \<Rightarrow> conv_store \<Rightarrow> 'w registry option \<Rightarrow> 'w \<Rightarrow> health_report \<times> 'w" where
  "system_health start_time now queue reg w =
     (let (hs, w1) = (case reg of Some r \<Rightarrow> health_check_all r w | None \<Rightarrow> ([], w))
      in (\<lparr> sh_status = (if list_all hs_healthy hs then ''healthy'' else ''degraded''),
            sh_uptime_secs = (now - start_time) div 1000,
            sh_active_conversations = active_conversations queue, sh_channels = hs \<rparr>, w1))"

section \<open>Lemmas\<close>

lemma mark_status_audit: "t_audit_log (snd (or_mark_status (sqlite_outbox e) i st er d)) = t_audit_log d"
  by (simp add: sqlite_outbox_def outbox_mark_status_def sql_write_eq split: option.split)

lemma reset_all_audit: "t_audit_log (snd (reset_all (sqlite_outbox e) xs d)) = t_audit_log d"
proof (induction xs arbitrary: d)
  case (Cons x xs)
  obtain r d1 where m: "or_mark_status (sqlite_outbox e) (ob_id x) Pending None d = (r, d1)" by force
  with mark_status_audit [of e "ob_id x" Pending None d] Cons.IH [of d1] show ?case by (cases r) simp_all
qed simp

lemma recover_audit: "t_audit_log (snd (recover_after_crash (sqlite_outbox e) d)) = t_audit_log d"
proof -
  obtain q d1 where f: "or_recover_after_crash (sqlite_outbox e) d = (q, d1)" by force
  then have d1: "t_audit_log d1 = t_audit_log d"
    by (auto simp: sqlite_outbox_def outbox_recover_after_crash_def sql_read_eq split: option.splits)
  show ?thesis
  proof (cases q)
    case (Inr xs)
    obtain r d2 where "reset_all (sqlite_outbox e) xs d1 = (r, d2)" by force
    with reset_all_audit [of e xs d1] d1 f Inr show ?thesis by (cases r) (simp_all add: recover_after_crash_def)
  qed (use f d1 in \<open>simp add: recover_after_crash_def\<close>)
qed

lemma recovered_none_in_flight:
  assumes "outbox_ok d" and "recover_after_crash (sqlite_outbox e) d = (Ok n, d1)" and "outbox_view d1 i = Some y"
  shows "ob_status y \<notin> {Sending, Retrying}"
proof -
  note rc = sq.recover_after_crash_view [OF assms(1,2)]
  obtain x where "outbox_view d i = Some x" using rc assms(3) by (cases "outbox_view d i") auto
  with rc assms(3) show ?thesis by (fastforce simp: is_Ok_def split: if_splits)
qed

lemma lookup_register: "map_of (register c reg) = (map_of reg)(ch_id c \<mapsto> c)"
  by (simp add: register_def update_conv')

text \<open>Verifying the chain only reads; loading the states too.\<close>

lemma verify_chain_reads:
  assumes "verify_chain sha e d = (v, d')"
  shows "d' = d\<lparr>db_tick := Suc (db_tick d)\<rparr>"
    and "is_Ok v \<Longrightarrow> \<exists>rows h. chain_rows (sort_key al_id (t_audit_log d)) = Ok rows \<and> verify sha rows = Ok h"
  using assms
  by (cases "chain_rows (sort_key al_id (t_audit_log d))";
      auto simp: verify_chain_def sql_def Let_def is_Ok_def split: option.splits sum.splits)+

lemma state_load_all_reads:
  "outbox_view (snd (state_load_all e d)) = outbox_view d" "t_audit_log (snd (state_load_all e d)) = t_audit_log d"
  by (simp_all add: state_load_all_def sql_read_eq outbox_view_def fun_eq_iff)

lemma start_background_log: "t_audit_log (snd (start_background sha e debug d)) = t_audit_log d"
proof -
  obtain q d1 where rec: "recover_after_crash (sqlite_outbox e) d = (q, d1)" by force
  moreover obtain v d2 where ver: "verify_chain sha e d1 = (v, d2)" by force
  ultimately show ?thesis
    using recover_audit [of e d] verify_chain_reads(1) [OF ver] state_load_all_reads(2) [of e d2]
    by (cases q; cases v) (simp_all add: start_background_def)
qed

lemma start_background_verifies:
  assumes "is_Ok (fst (start_background sha e debug d))"
  shows "\<exists>rows h. chain_rows (sort_key al_id (t_audit_log d)) = Ok rows \<and> verify sha rows = Ok h"
proof -
  obtain q d1 where rec: "recover_after_crash (sqlite_outbox e) d = (q, d1)" by force
  moreover obtain v d2 where ver: "verify_chain sha e d1 = (v, d2)" by force
  ultimately have "is_Ok v" using assms by (cases q; cases v) (simp_all add: start_background_def is_Ok_def)
  with verify_chain_reads(2) [OF ver] recover_audit [of e d] rec show ?thesis by simp
qed

lemma start_background_recovers:
  assumes "start_background sha e debug d = (res, d')" and "is_Ok res"
  shows "\<exists>n d1. recover_after_crash (sqlite_outbox e) d = (Ok n, d1) \<and> outbox_view d' = outbox_view d1"
proof -
  obtain q d1 where rec: "recover_after_crash (sqlite_outbox e) d = (q, d1)" by force
  moreover obtain v d2 where ver: "verify_chain sha e d1 = (v, d2)" by force
  ultimately show ?thesis
    using assms verify_chain_reads(1) [OF ver] state_load_all_reads(1) [of e d2]
    by (cases q; cases v) (auto simp: start_background_def is_Ok_def)
qed

section \<open>Properties\<close>

text \<open>
  C29. What a successful start guarantees, under any database faults: no outbox entry is left
  in flight, and the stored audit chain was read in full and verified; with a chain that
  cannot be read or does not verify the start is refused.
\<close>

theorem startup_checks:
  assumes "outbox_ok d" and "start_background sha e debug d = (res, d')"
  shows "(is_Ok res \<longrightarrow> (\<forall>i y. outbox_view d' i = Some y \<longrightarrow> ob_status y \<notin> {Sending, Retrying}) \<and>
      (\<exists>rows h. chain_rows (sort_key al_id (t_audit_log d)) = Ok rows \<and> verify sha rows = Ok h)) \<and>
    t_audit_log d' = t_audit_log d"
proof (intro conjI impI allI)
  assume ok: "is_Ok res"
  then show "\<exists>rows h. chain_rows (sort_key al_id (t_audit_log d)) = Ok rows \<and> verify sha rows = Ok h"
    using start_background_verifies [of sha e debug d] assms(2) by simp
  fix i y assume "outbox_view d' i = Some y"
  with start_background_recovers [OF assms(2) ok] recovered_none_in_flight [OF assms(1)]
  show "ob_status y \<notin> {Sending, Retrying}" by metis
next
  show "t_audit_log d' = t_audit_log d" using start_background_log [of sha e debug d] assms(2) by simp
qed

theorem startup_checks_witness:
  "let d' = snd (start_background toy_sha calm_env (\<lambda>er. []) (sample_db (sample_entry\<lparr>ob_status := Sending\<rparr>)))
   in \<exists>y. outbox_view d' ''m1'' = Some y \<and> ob_status y \<notin> {Sending, Retrying}"
proof -
  let ?d = "sample_db (sample_entry\<lparr>ob_status := Sending\<rparr>)"
  have "is_Ok (fst (start_background toy_sha calm_env (\<lambda>er. []) ?d))"
    and "outbox_view (snd (start_background toy_sha calm_env (\<lambda>er. []) ?d)) ''m1'' \<noteq> None" by code_simp+
  then show ?thesis
    using startup_checks [OF sample_db_ok [of "sample_entry\<lparr>ob_status := Sending\<rparr>"] surjective_pairing,
        of toy_sha calm_env "\<lambda>er. []"]
    unfolding Let_def by blast
qed

text \<open>A channel that records what it is asked to send.\<close>

definition recording :: "string \<Rightarrow> string \<Rightarrow> (string \<times> string \<times> message_content) list channel" where
  "recording i account =
     \<lparr> ch_id = ChannelId i,
       ch_send = (\<lambda>dest c w. (Ok \<lparr> sr_message_id = [], sr_platform_msg_id = None, sr_timestamp_ms = 0 \<rparr>, w @ [(account, dest, c)])),
       ch_stop = (\<lambda>w. (Ok (), w)), ch_health = default_health (ChannelId i) \<rparr>"

end
