(* ===== verification/Json_Http.thy ===== *)
theory Json_Http
  imports Magiclaw_Prelude
begin

text \<open>
  What the HTTP and JSON clients share: JSON values with the accessors of \<open>serde_json::Value\<close>
  the sources call, parsing of decimal numbers, casts between integer widths, status codes and
  the failures of a request. Parsing and printing JSON text are arguments of the components.
\<close>

section \<open>JSON values\<close>

datatype json = JNull | JBool bool | JInt int | JFloat string | JString string | JArray "json list"
  | JObject "(string \<times> json) list"

fun json_get :: "json \<Rightarrow> string \<Rightarrow> json option" where
  "json_get (JObject fs) k = map_of fs k"
| "json_get _ k = None"

fun json_as_str :: "json \<Rightarrow> string option" where
  "json_as_str (JString s) = Some s"
| "json_as_str _ = None"

fun json_as_u64 :: "json \<Rightarrow> nat option" where
  "json_as_u64 (JInt n) = (if 0 \<le> n \<and> n < 2 ^ 64 then Some (nat n) else None)"
| "json_as_u64 _ = None"

fun json_as_i64 :: "json \<Rightarrow> int option" where
  "json_as_i64 (JInt n) = (if is_i64 n then Some n else None)"
| "json_as_i64 _ = None"

definition str_field :: "json \<Rightarrow> string \<Rightarrow> string option" where
  "str_field v k = Option.bind (json_get v k) json_as_str"

definition int_field :: "json \<Rightarrow> string \<Rightarrow> int option" where
  "int_field v k = Option.bind (json_get v k) json_as_i64"

text \<open>
  The values of the named fields, a missing one being \<open>None\<close>. A struct is read from an object, in
  which none of its fields may occur twice, or from an array with its first fields in order.
\<close>

fun struct_fields :: "string list \<Rightarrow> json \<Rightarrow> json option list option" where
  "struct_fields names (JObject fs) =
     (if distinct (filter (\<lambda>k. k \<in> set names) (map fst fs)) then Some (map (map_of fs) names) else None)"
| "struct_fields names (JArray vs) =
     (if length vs \<le> length names then Some (map Some vs @ replicate (length names - length vs) None) else None)"
| "struct_fields names _ = None"

section \<open>Numbers\<close>

text \<open>\<open>str::parse::<i64>\<close>: an optional sign, at least one digit, nothing else, in range.\<close>

fun parse_digits :: "string \<Rightarrow> int \<Rightarrow> int option" where
  "parse_digits [] acc = Some acc"
| "parse_digits (c # cs) acc =
     (let n = of_char c :: nat
      in if 48 \<le> n \<and> n \<le> 57 then parse_digits cs (10 * acc + int (n - 48)) else None)"

definition parse_i64 :: "string \<Rightarrow> int option" where
  "parse_i64 s =
     (let (neg, ds) = (case s of [] \<Rightarrow> (False, [])
                       | c # cs \<Rightarrow> if c = CHR ''-'' then (True, cs) else if c = CHR ''+'' then (False, cs) else (False, s))
      in if ds = [] then None
         else (case parse_digits ds 0 of
                 None \<Rightarrow> None
               | Some n \<Rightarrow> (let v = (if neg then - n else n) in if is_i64 v then Some v else None)))"

text \<open>\<open>str::parse\<close> of a 64-bit unsigned integer: no minus sign, a plus sign is allowed.\<close>

definition parse_u64 :: "string \<Rightarrow> nat option" where
  "parse_u64 s =
     (let ds = (case s of [] \<Rightarrow> [] | c # cs \<Rightarrow> if c = CHR ''+'' then cs else s)
      in if ds = [] then None
         else (case parse_digits ds 0 of
                 None \<Rightarrow> None
               | Some n \<Rightarrow> if n < 2 ^ 64 then Some (nat n) else None))"

text \<open>\<open>as i32\<close>: the low 32 bits, read as a signed number.\<close>

definition as_i32 :: "int \<Rightarrow> int" where
  "as_i32 n = sint (word_of_int n :: 32 word)"

section \<open>Requests\<close>

datatype http_failure = TimedOut string | ConnectFailed string | OtherFailure string

fun failure_text :: "http_failure \<Rightarrow> string" where
  "failure_text (TimedOut e) = e"
| "failure_text (ConnectFailed e) = e"
| "failure_text (OtherFailure e) = e"

type_synonym headers = "(string \<times> string) list"

text \<open>A response is a status with the text of the body, or the error of reading it.\<close>

type_synonym response = "nat \<times> (string + string)"

definition is_success :: "nat \<Rightarrow> bool" where
  "is_success status \<longleftrightarrow> 200 \<le> status \<and> status < 300"

section \<open>Lemmas\<close>

lemma parse_digits_append:
  "parse_digits (s @ t) acc = Option.bind (parse_digits s acc) (parse_digits t)"
  by (induction s arbitrary: acc) (auto simp: Let_def)

lemma show_nat_small: "n < 10 \<Longrightarrow> show_nat n = [digit_char n]"
  by (simp add: show_nat.simps [of n])

lemma show_nat_step: "10 \<le> n \<Longrightarrow> show_nat n = show_nat (n div 10) @ [digit_char (n mod 10)]"
  by (subst show_nat.simps) simp

lemma of_char_digit: "d < 10 \<Longrightarrow> (of_char (digit_char d) :: nat) = 48 + d"
  by (simp add: of_char_of)

lemma parse_digits_digit: "d < 10 \<Longrightarrow> parse_digits [digit_char d] acc = Some (10 * acc + int d)"
  by (simp only: parse_digits.simps of_char_digit Let_def) simp

text \<open>Printing a number and parsing it again.\<close>

lemma parse_digits_show_nat: "parse_digits (show_nat n) 0 = Some (int n)"
proof (induction n rule: less_induct)
  case (less n)
  show ?case
  proof (cases "n < 10")
    case True
    then show ?thesis using parse_digits_digit [of n 0] by (simp add: show_nat_small)
  next
    case False
    then have "parse_digits (show_nat (n div 10)) 0 = Some (int (n div 10))" using less [of "n div 10"] by simp
    with False show ?thesis
      using parse_digits_digit [of "n mod 10" "int (n div 10)"]
      by (simp add: show_nat_step [of n] parse_digits_append) (metis div_mult_mod_eq mult.commute of_nat_add of_nat_mult of_nat_numeral)
  qed
qed

lemma set_show_nat: "set (show_nat n) \<subseteq> digit_char ` {0..<10}"
proof (induction n rule: less_induct)
  case (less n)
  show ?case
  proof (cases "n < 10")
    case True
    then show ?thesis by (auto simp: show_nat_small)
  next
    case False
    then show ?thesis using less [of "n div 10"] by (auto simp: show_nat_step)
  qed
qed

lemma digit_char_eq: "x \<in> digit_char ` {0..<10} \<longleftrightarrow> 48 \<le> (of_char x :: nat) \<and> (of_char x :: nat) \<le> 57"
proof
  assume "x \<in> digit_char ` {0..<10}"
  then show "48 \<le> (of_char x :: nat) \<and> (of_char x :: nat) \<le> 57" by (auto simp: of_char_of)
next
  assume "48 \<le> (of_char x :: nat) \<and> (of_char x :: nat) \<le> 57"
  then have "x = digit_char (of_char x - 48)" and "(of_char x :: nat) - 48 \<in> {0..<10}" by auto
  then show "x \<in> digit_char ` {0..<10}" by blast
qed

lemma parse_u64_show_nat: "n < 2 ^ 64 \<Longrightarrow> parse_u64 (show_nat n) = Some n"
proof -
  assume n: "n < 2 ^ 64"
  obtain c cs where s: "show_nat n = c # cs" by (cases "show_nat n") auto
  then have "c \<in> digit_char ` {0..<10}" using set_show_nat [of n] by auto
  then have "c \<noteq> CHR ''+''" unfolding digit_char_eq by auto
  then show ?thesis
    using parse_digits_show_nat [of n] s n by (simp add: parse_u64_def)
qed

lemma show_nat_inj: "show_nat m = show_nat n \<longleftrightarrow> m = n"
  by (metis of_nat_eq_iff option.inject parse_digits_show_nat)

end
