(* ===== verification/Feishu_Webhook.thy ===== *)
theory Feishu_Webhook
  imports Inbound Channels Json_Http
begin

text \<open>
  Inbound Feishu events: \<open>feishu_channel_id\<close>, \<open>parse_webhook_event\<close> and
  \<open>verify_webhook_signature\<close> of \<open>src/channels/feishu/channel.rs\<close>, and the selection of the
  account and the handler of \<open>/api/feishu/webhook\<close> in \<open>src/infrastructure/runtime.rs\<close>.

  The parser, the derived conversion to the envelope, HMAC-SHA256,
  base64 and the lossy reading of bytes are arguments (\<open>webhook_deps\<close>). \<open>headers n\<close> is the value
  of header \<open>n\<close> when it is there and is a visible ASCII text. Hexadecimal text is \<open>to_hex\<close> of the
  audit chain. The sender of an event is its inner \<open>sender_id\<close>.
\<close>

section \<open>Accounts\<close>

record feishu_config =
  fc_enabled :: bool
  fc_account_id :: string
  fc_base_url :: string
  fc_app_id :: string
  fc_app_secret :: string
  fc_tenant_access_token :: string
  fc_receive_id_type :: string
  fc_verification_token :: string
  fc_signing_secret :: string
  fc_timeout_ms :: nat

definition feishu_config_default :: feishu_config where
  "feishu_config_default =
     \<lparr> fc_enabled = False, fc_account_id = ''default'', fc_base_url = ''https://open.feishu.cn'', fc_app_id = [],
       fc_app_secret = [], fc_tenant_access_token = [], fc_receive_id_type = ''open_id'', fc_verification_token = [],
       fc_signing_secret = [], fc_timeout_ms = 15000 \<rparr>"

definition feishu_channel_id :: "string \<Rightarrow> channel_id" where
  "feishu_channel_id account_id =
     (let acc = trim account_id
      in if acc = [] \<or> acc = ''default'' then ChannelId ''feishu'' else ChannelId (''feishu:'' @ acc))"

definition nonblank :: "string option \<Rightarrow> string option" where
  "nonblank s = (case s of Some v \<Rightarrow> if trim v = [] then None else Some (trim v) | None \<Rightarrow> None)"

definition extract_feishu_verification_token :: "json \<Rightarrow> string option" where
  "extract_feishu_verification_token payload =
     (case nonblank (str_field payload ''token'') of
        Some t \<Rightarrow> Some t
      | None \<Rightarrow> nonblank (Option.bind (json_get payload ''header'') (\<lambda>h. str_field h ''token'')))"

definition select_feishu_config :: "feishu_config list \<Rightarrow> json \<Rightarrow> feishu_config option" where
  "select_feishu_config configs payload =
     (if configs = [] then None
      else (case Option.bind (extract_feishu_verification_token payload)
                   (\<lambda>token. find (\<lambda>c. trim (fc_verification_token c) \<noteq> [] \<and> trim (fc_verification_token c) = token) configs) of
              Some cfg \<Rightarrow> Some cfg
            | None \<Rightarrow>
                if length configs = 1 then Some (hd configs)
                else find (\<lambda>c. trim (fc_verification_token c) = []) configs))"

section \<open>Events\<close>

record feishu_event_header =
  he_event_id :: string
  he_event_type :: string
  he_create_time :: string
  he_token :: string

record feishu_sender_id =
  si_open_id :: string
  si_user_id :: string
  si_union_id :: string

record feishu_inbound_message =
  fm_message_id :: string
  fm_chat_id :: string
  fm_chat_type :: string
  fm_message_type :: string
  fm_content :: string
  fm_create_time :: string

record feishu_event_body =
  eb_sender :: feishu_sender_id
  eb_message :: feishu_inbound_message

record feishu_webhook_envelope =
  we_type :: string
  we_challenge :: string
  we_token :: string
  we_header :: "feishu_event_header option"
  we_event :: "feishu_event_body option"

datatype feishu_webhook_dispatch = UrlVerification string | WebhookMessage message | Ignore

record webhook_deps =
  wh_json :: "string \<Rightarrow> string + json"
  wh_envelope :: "json \<Rightarrow> string + feishu_webhook_envelope"
  wh_hmac :: "bytes \<Rightarrow> bytes \<Rightarrow> bytes"
  wh_b64 :: "bytes \<Rightarrow> string"
  wh_lossy :: "string \<Rightarrow> string"

definition event_peer_id :: "feishu_sender_id \<Rightarrow> string" where
  "event_peer_id s =
     (if trim (si_open_id s) \<noteq> [] then trim (si_open_id s)
      else if trim (si_user_id s) \<noteq> [] then trim (si_user_id s)
      else if trim (si_union_id s) \<noteq> [] then trim (si_union_id s) else [])"

definition event_content :: "webhook_deps \<Rightarrow> feishu_inbound_message \<Rightarrow> message_content" where
  "event_content dp m =
     (let content_json = (case wh_json dp (fm_content m) of Ok v \<Rightarrow> v | Err _ \<Rightarrow> JNull);
          text_or = (\<lambda>k d. case str_field content_json k of Some v \<Rightarrow> v | None \<Rightarrow> d) in
      if fm_message_type m = ''text'' then (case str_field content_json ''text'' of Some t \<Rightarrow> Text t | None \<Rightarrow> Unknown)
      else if fm_message_type m = ''image'' then
        (let image_key = text_or ''image_key'' [] in if image_key = [] then Unknown else Image [] (Some image_key))
      else if fm_message_type m = ''file'' then
        (let file_key = text_or ''file_key'' []; name = text_or ''file_name'' ''file'';
             size = (case Option.bind (json_get content_json ''file_size'') json_as_u64 of Some n \<Rightarrow> n | None \<Rightarrow> 0)
         in if file_key = [] then Unknown else File file_key name size)
      else Unknown)"

text \<open>\<open>uuid\<close> and \<open>now_ms\<close> are called only when the event has no id or no readable time.\<close>

definition event_message_id :: "('w \<Rightarrow> string \<times> 'w) \<Rightarrow> feishu_event_header \<Rightarrow> feishu_inbound_message \<Rightarrow> 'w \<Rightarrow> string \<times> 'w" where
  "event_message_id uuid h m w =
     (if trim (fm_message_id m) \<noteq> [] then (trim (fm_message_id m), w)
      else if trim (he_event_id h) \<noteq> [] then (trim (he_event_id h), w) else uuid w)"

definition event_timestamp_ms :: "('w \<Rightarrow> int \<times> 'w) \<Rightarrow> feishu_event_header \<Rightarrow> feishu_inbound_message \<Rightarrow> 'w \<Rightarrow> int \<times> 'w" where
  "event_timestamp_ms now_ms h m w =
     (case parse_i64 (fm_create_time m) of
        Some t \<Rightarrow> (t, w)
      | None \<Rightarrow> (case parse_i64 (he_create_time h) of Some t \<Rightarrow> (t, w) | None \<Rightarrow> now_ms w))"

definition event_message ::
  "webhook_deps \<Rightarrow> ('w \<Rightarrow> string \<times> 'w) \<Rightarrow> ('w \<Rightarrow> int \<times> 'w) \<Rightarrow> feishu_config \<Rightarrow> feishu_event_header \<Rightarrow> feishu_event_body \<Rightarrow>
   'w \<Rightarrow> message \<times> 'w" where
  "event_message dp uuid now_ms cfg h b w =
     (let m = eb_message b;
          (message_id, w1) = event_message_id uuid h m w;
          peer_id = event_peer_id (eb_sender b);
          conversation_id = (if trim (fm_chat_id m) \<noteq> [] then trim (fm_chat_id m)
                             else if trim peer_id \<noteq> [] then peer_id else ''unknown'');
          conversation_type = (if fm_chat_type m = ''group'' then Group else Direct);
          (timestamp_ms, w2) = event_timestamp_ms now_ms h m w1
      in (new_inbound message_id (route_key_new (feishu_channel_id (fc_account_id cfg)) conversation_id peer_id conversation_type)
            None timestamp_ms (event_content dp m), w2))"

definition token_candidate :: "feishu_webhook_envelope \<Rightarrow> string" where
  "token_candidate env =
     (if trim (we_token env) \<noteq> [] then trim (we_token env)
      else (case we_header env of Some h \<Rightarrow> trim (he_token h) | None \<Rightarrow> []))"

definition parse_webhook_event ::
  "webhook_deps \<Rightarrow> ('w \<Rightarrow> string \<times> 'w) \<Rightarrow> ('w \<Rightarrow> int \<times> 'w) \<Rightarrow> json \<Rightarrow> feishu_config \<Rightarrow> 'w \<Rightarrow>
   (string + feishu_webhook_dispatch) \<times> 'w" where
  "parse_webhook_event dp uuid now_ms payload cfg w =
     (case wh_envelope dp payload of
        Err e \<Rightarrow> (Err (''invalid feishu webhook payload: '' @ e), w)
      | Ok env \<Rightarrow>
          (let expected_token = trim (fc_verification_token cfg) in
           if expected_token \<noteq> [] \<and> token_candidate env \<noteq> expected_token then (Err ''feishu webhook token mismatch'', w)
           else if we_type env = ''url_verification'' then (Ok (UrlVerification (we_challenge env)), w)
           else (case (we_header env, we_event env) of
                   (Some h, Some b) \<Rightarrow>
                     if he_event_type h \<noteq> ''im.message.receive_v1'' then (Ok Ignore, w)
                     else (let (m, w1) = event_message dp uuid now_ms cfg h b w in (Ok (WebhookMessage m), w1))
                 | _ \<Rightarrow> (Ok Ignore, w))))"

section \<open>Signatures\<close>

definition header_text :: "(string \<Rightarrow> string option) \<Rightarrow> string \<Rightarrow> string + string" where
  "header_text headers name =
     (case headers name of
        Some v \<Rightarrow> if trim v = [] then Err (''missing '' @ name) else Ok v
      | None \<Rightarrow> Err (''missing '' @ name))"

definition signature_digest :: "webhook_deps \<Rightarrow> string \<Rightarrow> string \<Rightarrow> string \<Rightarrow> string \<Rightarrow> bytes" where
  "signature_digest dp secret ts nonce body =
     wh_hmac dp (as_bytes secret) (as_bytes (ts @ nonce @ secret @ wh_lossy dp body))"

definition provided_signature :: "string \<Rightarrow> string" where
  "provided_signature signature =
     trim (case strip_prefix signature ''sha256='' of Some s \<Rightarrow> s | None \<Rightarrow> signature)"

definition verify_webhook_signature ::
  "webhook_deps \<Rightarrow> (string \<Rightarrow> string option) \<Rightarrow> string \<Rightarrow> feishu_config \<Rightarrow> string + unit" where
  "verify_webhook_signature dp headers body cfg =
     (let secret = trim (fc_signing_secret cfg) in
      if secret = [] then Ok ()
      else (case header_text headers ''x-lark-request-timestamp'' of
              Err e \<Rightarrow> Err e
            | Ok ts \<Rightarrow>
                (case header_text headers ''x-lark-request-nonce'' of
                   Err e \<Rightarrow> Err e
                 | Ok nonce \<Rightarrow>
                     (case header_text headers ''x-lark-signature'' of
                        Err e \<Rightarrow> Err e
                      | Ok signature \<Rightarrow>
                          (let digest = signature_digest dp secret ts nonce body;
                               provided = provided_signature signature in
                           if wh_b64 dp digest = provided then Ok ()
                           else if to_lowercase (to_hex digest) = to_lowercase provided then Ok ()
                           else Err ''invalid feishu webhook signature'')))))"

section \<open>The handler\<close>

record feishu_webhook_response =
  wr_ok :: bool
  wr_challenge :: "string option"
  wr_duplicate :: "bool option"
  wr_ignored :: "bool option"
  wr_error :: "string option"

definition webhook_failed :: "string \<Rightarrow> feishu_webhook_response" where
  "webhook_failed e = \<lparr> wr_ok = False, wr_challenge = None, wr_duplicate = None, wr_ignored = None, wr_error = Some e \<rparr>"

definition webhook_done :: "bool \<Rightarrow> feishu_webhook_response" where
  "webhook_done dup = \<lparr> wr_ok = True, wr_challenge = None, wr_duplicate = Some dup, wr_ignored = None, wr_error = None \<rparr>"

text \<open>The ports the handler takes from the state of the server.\<close>

record 'w webhook_ports =
  wp_uuid :: "'w \<Rightarrow> string \<times> 'w"
  wp_now_ms :: "'w \<Rightarrow> int \<times> 'w"
  wp_now_s :: "'w \<Rightarrow> int \<times> 'w"
  wp_inbox :: "'w inbox_repo"
  wp_message_json :: "message \<Rightarrow> string"
  wp_dedup :: "'w dedup_cache"
  wp_enqueue :: "route_key \<Rightarrow> message \<Rightarrow> 'w \<Rightarrow> (enqueue_error + unit) \<times> 'w"

definition webhook_route :: "'w webhook_ports \<Rightarrow> message \<Rightarrow> 'w \<Rightarrow> (nat \<times> feishu_webhook_response) \<times> 'w" where
  "webhook_route ps msg w =
     (case process_inbound (wp_inbox ps) (wp_now_s ps) (wp_message_json ps) msg w of
        (Ok InboxDuplicate, w1) \<Rightarrow> ((200, webhook_done True), w1)
      | (Ok InboxProcessed, w1) \<Rightarrow>
          (case route_message (wp_dedup ps) (wp_enqueue ps) msg w1 of
             (Enqueued, w2) \<Rightarrow> ((200, webhook_done False), w2)
           | (RouteDuplicate, w2) \<Rightarrow> ((200, webhook_done True), w2)
           | (Dropped i, w2) \<Rightarrow>
               ((503, (webhook_failed (''feishu route queue full, dropped message_id='' @ i))\<lparr>wr_duplicate := Some False\<rparr>), w2))
      | (Err (RepoDb e), w1) \<Rightarrow>
          ((500, webhook_failed (''failed to persist feishu inbound message '' @ m_id msg @ '': '' @ e)), w1)
      | (Err (NotFound e), w1) \<Rightarrow> ((404, webhook_failed e), w1))"

definition webhook_handler ::
  "webhook_deps \<Rightarrow> 'w webhook_ports \<Rightarrow> feishu_config list \<Rightarrow> (string \<Rightarrow> string option) \<Rightarrow> string \<Rightarrow> 'w \<Rightarrow>
   (nat \<times> feishu_webhook_response) \<times> 'w" where
  "webhook_handler dp ps configs headers body w =
     (case wh_json dp body of
        Err e \<Rightarrow> ((400, webhook_failed (''invalid feishu webhook JSON: '' @ e)), w)
      | Ok payload \<Rightarrow>
          (case select_feishu_config configs payload of
             None \<Rightarrow> ((400, webhook_failed ''no matching feishu account config for webhook''), w)
           | Some cfg \<Rightarrow>
               (case verify_webhook_signature dp headers body cfg of
                  Err e \<Rightarrow> ((401, webhook_failed e), w)
                | Ok _ \<Rightarrow>
                    (case parse_webhook_event dp (wp_uuid ps) (wp_now_ms ps) payload cfg w of
                       (Err e, w1) \<Rightarrow> ((401, webhook_failed e), w1)
                     | (Ok (UrlVerification c), w1) \<Rightarrow>
                         ((200, \<lparr> wr_ok = True, wr_challenge = Some c, wr_duplicate = None, wr_ignored = None, wr_error = None \<rparr>), w1)
                     | (Ok Ignore, w1) \<Rightarrow>
                         ((200, \<lparr> wr_ok = True, wr_challenge = None, wr_duplicate = None, wr_ignored = Some True, wr_error = None \<rparr>), w1)
                     | (Ok (WebhookMessage msg), w1) \<Rightarrow> webhook_route ps msg w1))))"

section \<open>What the checks mean\<close>

text \<open>The request carries a signature of the account, or the account has no secret.\<close>

definition signature_ok :: "webhook_deps \<Rightarrow> (string \<Rightarrow> string option) \<Rightarrow> string \<Rightarrow> feishu_config \<Rightarrow> bool" where
  "signature_ok dp headers body cfg \<longleftrightarrow> trim (fc_signing_secret cfg) = [] \<or>
     (\<exists>ts nonce sig. headers ''x-lark-request-timestamp'' = Some ts \<and> headers ''x-lark-request-nonce'' = Some nonce \<and>
        headers ''x-lark-signature'' = Some sig \<and>
        (let digest = signature_digest dp (trim (fc_signing_secret cfg)) ts nonce body
         in provided_signature sig = wh_b64 dp digest \<or>
            to_lowercase (provided_signature sig) = to_lowercase (to_hex digest)))"

text \<open>The event carries the account's verification token, or the account has none.\<close>

definition token_ok :: "feishu_config \<Rightarrow> feishu_webhook_envelope \<Rightarrow> bool" where
  "token_ok cfg env \<longleftrightarrow> trim (fc_verification_token cfg) = [] \<or> token_candidate env = trim (fc_verification_token cfg)"

lemma header_text_Ok: "header_text headers n = Ok v \<Longrightarrow> headers n = Some v"
  by (auto simp: header_text_def split: option.splits if_splits)

lemma verify_signature_ok: "verify_webhook_signature dp headers body cfg = Ok u \<Longrightarrow> signature_ok dp headers body cfg"
  by (auto simp: verify_webhook_signature_def signature_ok_def Let_def split: if_splits sum.splits dest!: header_text_Ok)

lemma select_in: "select_feishu_config configs payload = Some cfg \<Longrightarrow> cfg \<in> set configs"
  by (auto simp: select_feishu_config_def find_Some_iff bind_eq_Some_conv split: if_splits option.splits)

lemma parse_event_Err: "parse_webhook_event dp uuid now payload cfg w = (Err e, w1) \<Longrightarrow> w1 = w"
  by (auto simp: parse_webhook_event_def Let_def split: sum.splits if_splits option.splits prod.splits)

lemma parse_event_Ok:
  assumes "parse_webhook_event dp uuid now payload cfg w = (Ok disp, w1)"
  shows "\<exists>env. wh_envelope dp payload = Ok env \<and> token_ok cfg env \<and>
    (case disp of
       WebhookMessage m \<Rightarrow> (\<exists>h b. we_header env = Some h \<and> we_event env = Some b \<and> event_message dp uuid now cfg h b w = (m, w1))
     | _ \<Rightarrow> w1 = w)"
  using assms
  by (auto simp: parse_webhook_event_def token_ok_def Let_def split: sum.splits if_splits option.splits prod.splits)

lemma event_message_route:
  "event_message dp uuid now cfg h b w = (m, w1) \<Longrightarrow>
   rk_channel (m_route_key m) = feishu_channel_id (fc_account_id cfg) \<and> m_direction m = Inbound"
  by (auto simp: event_message_def Let_def new_inbound_def route_key_new_def split: prod.splits)

lemma webhook_handler_cases:
  assumes "webhook_handler dp ps configs headers body w = ((status, resp), w')"
  shows "(status \<in> {400, 401} \<and> w' = w) \<or>
    (\<exists>payload cfg disp w1. wh_json dp body = Ok payload \<and> select_feishu_config configs payload = Some cfg \<and>
       verify_webhook_signature dp headers body cfg = Ok () \<and>
       parse_webhook_event dp (wp_uuid ps) (wp_now_ms ps) payload cfg w = (Ok disp, w1) \<and>
       (case disp of WebhookMessage m \<Rightarrow> webhook_route ps m w1 = ((status, resp), w') | _ \<Rightarrow> status = 200 \<and> w' = w1))"
  using assms
  by (auto simp: webhook_handler_def split: sum.splits option.splits prod.splits feishu_webhook_dispatch.splits
      dest: parse_event_Err)

lemma webhook_routed:
  assumes "webhook_handler dp ps configs headers body w = ((status, resp), w')" and "status \<notin> {200, 400, 401}"
  shows "\<exists>payload cfg m w1. wh_json dp body = Ok payload \<and> select_feishu_config configs payload = Some cfg \<and>
    verify_webhook_signature dp headers body cfg = Ok () \<and>
    parse_webhook_event dp (wp_uuid ps) (wp_now_ms ps) payload cfg w = (Ok (WebhookMessage m), w1) \<and>
    webhook_route ps m w1 = ((status, resp), w')"
proof -
  from webhook_handler_cases [OF assms(1)] assms(2) obtain payload cfg disp w1 where
      "wh_json dp body = Ok payload" "select_feishu_config configs payload = Some cfg"
      "verify_webhook_signature dp headers body cfg = Ok ()"
      "parse_webhook_event dp (wp_uuid ps) (wp_now_ms ps) payload cfg w = (Ok disp, w1)"
      "case disp of WebhookMessage m \<Rightarrow> webhook_route ps m w1 = ((status, resp), w') | _ \<Rightarrow> status = 200 \<and> w' = w1"
    by blast
  then show ?thesis using assms(2) by (cases disp) auto
qed

section \<open>The handler on SQLite\<close>

definition sqlite_ports ::
  "env \<Rightarrow> (message \<Rightarrow> string) \<Rightarrow> 'm dedup_cache \<Rightarrow> (route_key \<Rightarrow> message \<Rightarrow> 'm \<Rightarrow> (enqueue_error + unit) \<times> 'm) \<Rightarrow>
   'm db_scheme webhook_ports" where
  "sqlite_ports e json cache enq =
     \<lparr> wp_uuid = new_uuid e, wp_now_ms = clock_ms e, wp_now_s = clock_s e, wp_inbox = sqlite_inbox e, wp_message_json = json,
       wp_dedup = (\<lambda>c i. on_more (cache c i)), wp_enqueue = (\<lambda>k m. on_more (enq k m)) \<rparr>"

lemma event_message_given_id:
  assumes "trim (fm_message_id (eb_message b)) \<noteq> []" and "event_message dp uuid now cfg h b w = (m, w1)"
  shows "m_id m = trim (fm_message_id (eb_message b))"
  using assms by (auto simp: event_message_def event_message_id_def new_inbound_def Let_def split: prod.splits)

lemma event_message_frame:
  assumes "event_message dp (new_uuid e) (clock_ms e) cfg h b d = (m, d1)"
  shows "t_inbox d1 = t_inbox d" and "db.more d1 = db.more d"
  using assms
  by (auto simp: event_message_def event_message_id_def event_timestamp_ms_def new_uuid_def clock_ms_def Let_def
      split: prod.splits option.splits if_splits)

text \<open>An accepted event is accepted in every world, with a message from the same event.\<close>

lemma parse_event_again:
  assumes "parse_webhook_event dp uuid now payload cfg w = (Ok (WebhookMessage m), w1)"
  shows "\<exists>env h b. wh_envelope dp payload = Ok env \<and> we_event env = Some b \<and> event_message dp uuid now cfg h b w = (m, w1) \<and>
    (\<forall>uuid' now' w'. parse_webhook_event dp uuid' now' payload cfg w' =
       map_prod (Ok \<circ> WebhookMessage) id (event_message dp uuid' now' cfg h b w'))"
  using assms
  by (auto simp: parse_webhook_event_def Let_def split_beta map_prod_def
      split: sum.splits if_splits option.splits prod.splits)

text \<open>A message answered with 503 is in the inbox, and a message in the inbox is a duplicate.\<close>

lemma webhook_route_unavailable:
  assumes "webhook_route (sqlite_ports e json cache enq) m d = ((503, resp), d')"
  shows "m_id m \<in> ib_id ` set (t_inbox d')"
proof -
  obtain q d1 where p: "process_inbound (sqlite_inbox e) (clock_s e) json m d = (q, d1)" by force
  with assms have q: "q = Ok InboxProcessed"
    and r: "d' = snd (route_message (\<lambda>c i. on_more (cache c i)) (\<lambda>k m. on_more (enq k m)) m d1)"
    by (auto simp: webhook_route_def sqlite_ports_def split: sum.splits inbox_result.splits repo_error.splits
        prod.splits route_outcome.splits)
  have "m_id m \<in> ib_id ` set (t_inbox d1)"
    by (rule process_inbound_stores [of "clock_s e" e json m d]) (use p q in simp_all)
  then show ?thesis unfolding r by (simp add: route_message_inbox)
qed

lemma webhook_route_known:
  assumes "m_id m \<in> ib_id ` set (t_inbox d)" and "env_fault e (db_tick d) = None"
  shows "webhook_route (sqlite_ports e json cache enq) m d = ((200, webhook_done True), d\<lparr>db_tick := Suc (db_tick d)\<rparr>)"
  using inbox_exists_value [OF assms(2), of "m_id m"] assms(1)
  by (simp add: webhook_route_def sqlite_ports_def process_inbound_def sqlite_inbox_def)

text \<open>An account with a token and a secret, an event of it, and a queue that is full.\<close>

definition sample_event :: feishu_event_body where
  "sample_event = \<lparr> eb_sender = \<lparr> si_open_id = ''u1'', si_user_id = [], si_union_id = [] \<rparr>,
     eb_message = \<lparr> fm_message_id = ''om1'', fm_chat_id = [], fm_chat_type = [], fm_message_type = [], fm_content = [],
       fm_create_time = ''7'' \<rparr> \<rparr>"

definition sample_envelope :: feishu_webhook_envelope where
  "sample_envelope = \<lparr> we_type = [], we_challenge = [], we_token = ''vt'',
     we_header = Some \<lparr> he_event_id = [], he_event_type = ''im.message.receive_v1'', he_create_time = [], he_token = [] \<rparr>,
     we_event = Some sample_event \<rparr>"

definition plain_webhook :: webhook_deps where
  "plain_webhook =
     \<lparr> wh_json = (\<lambda>s. if s = ''body'' then Ok (JObject [(''token'', JString ''vt'')]) else Ok JNull),
       wh_envelope = (\<lambda>v. Ok sample_envelope),
       wh_hmac = (\<lambda>k m. k), wh_b64 = (\<lambda>b. ''mac''), wh_lossy = (\<lambda>s. s) \<rparr>"

definition secured_account :: feishu_config where
  "secured_account = feishu_config_default\<lparr>fc_account_id := ''main'', fc_verification_token := ''vt'', fc_signing_secret := ''s''\<rparr>"

definition signed_headers :: "string \<Rightarrow> string option" where
  "signed_headers n = (if n = ''x-lark-signature'' then Some ''mac'' else Some ''1'')"

definition full_ports :: "db webhook_ports" where
  "full_ports = sqlite_ports calm_env (\<lambda>m. ''j'') (\<lambda>c i w. (True, w)) (\<lambda>k m w. (Err (QueueFull (m_id m)), w))"

definition first_delivery :: "(nat \<times> feishu_webhook_response) \<times> db" where
  "first_delivery = webhook_handler plain_webhook full_ports [secured_account] signed_headers ''body'' empty_db"

lemma webhook_trims:
  "trim ''vt'' = ''vt''" "trim ''s'' = ''s''" "trim ''mac'' = ''mac''" "trim ''1'' = ''1''" "trim ''om1'' = ''om1''"
  "trim ''u1'' = ''u1''" "trim ''main'' = ''main''" "parse_i64 ''7'' = Some 7"
  by code_simp+

lemma first_delivery_unavailable: "fst (fst first_delivery) = 503"
proof -
  have "select_feishu_config [secured_account] (JObject [(''token'', JString ''vt'')]) = Some secured_account"
    by (auto simp: select_feishu_config_def bind_eq_Some_conv split: option.split if_splits)
  moreover have "verify_webhook_signature plain_webhook signed_headers ''body'' secured_account = Ok ()"
    by (simp add: verify_webhook_signature_def secured_account_def feishu_config_default_def webhook_trims header_text_def
        signed_headers_def plain_webhook_def provided_signature_def strip_prefix_def starts_with_def)
  moreover have "\<exists>m. parse_webhook_event plain_webhook (new_uuid calm_env) (clock_ms calm_env) (JObject [(''token'', JString ''vt'')])
      secured_account empty_db = (Ok (WebhookMessage m), empty_db)"
    by (simp add: parse_webhook_event_def secured_account_def feishu_config_default_def webhook_trims plain_webhook_def
        sample_envelope_def sample_event_def token_candidate_def event_message_def event_message_id_def event_timestamp_ms_def
        Let_def)
  moreover have "fst (fst (webhook_route full_ports m empty_db)) = 503" for m
    by (simp add: webhook_route_def full_ports_def sqlite_ports_def process_inbound_def sqlite_inbox_def inbox_exists_def
        inbox_insert_def inbox_mark_status_def sql_read_eq sql_write_eq clock_s_def clock_ms_def calm_env_def empty_db_def
        route_message_def on_more_def)
  ultimately show ?thesis
    by (auto simp: first_delivery_def webhook_handler_def full_ports_def sqlite_ports_def plain_webhook_def)
qed

section \<open>Properties\<close>

text \<open>
  C8. The webhook acts only on authenticated events: for any ports, a request is refused
  with 400 or 401 and changes nothing, or its body is a JSON event and there is a
  configured account for which the signature of the body and the verification token are
  right (as far as the account has a secret and a token); then either nothing changes,
  or the event's message, with the channel id of that account, went to the inbox and the
  router, and the answer is theirs.
\<close>

theorem webhook_authentic:
  assumes "webhook_handler dp ps configs headers body w = ((status, resp), w')"
  shows "(status \<in> {400, 401} \<and> w' = w) \<or>
    (\<exists>payload cfg env. wh_json dp body = Ok payload \<and> cfg \<in> set configs \<and> wh_envelope dp payload = Ok env \<and>
       signature_ok dp headers body cfg \<and> token_ok cfg env \<and>
       (w' = w \<or> (\<exists>h b m w1. we_event env = Some b \<and> event_message dp (wp_uuid ps) (wp_now_ms ps) cfg h b w = (m, w1) \<and>
          rk_channel (m_route_key m) = feishu_channel_id (fc_account_id cfg) \<and>
          webhook_route ps m w1 = ((status, resp), w'))))"
  using webhook_handler_cases [OF assms]
proof (elim disjE exE conjE)
  fix payload cfg disp w1
  assume h: "wh_json dp body = Ok payload" "select_feishu_config configs payload = Some cfg"
    "verify_webhook_signature dp headers body cfg = Ok ()"
    "parse_webhook_event dp (wp_uuid ps) (wp_now_ms ps) payload cfg w = (Ok disp, w1)"
    "case disp of WebhookMessage m \<Rightarrow> webhook_route ps m w1 = ((status, resp), w') | _ \<Rightarrow> status = 200 \<and> w' = w1"
  from parse_event_Ok [OF h(4)] obtain env where env: "wh_envelope dp payload = Ok env" "token_ok cfg env"
      "case disp of WebhookMessage m \<Rightarrow> (\<exists>h b. we_header env = Some h \<and> we_event env = Some b \<and>
          event_message dp (wp_uuid ps) (wp_now_ms ps) cfg h b w = (m, w1)) | _ \<Rightarrow> w1 = w"
    by blast
  have "w' = w \<or> (\<exists>h b m w1. we_event env = Some b \<and> event_message dp (wp_uuid ps) (wp_now_ms ps) cfg h b w = (m, w1) \<and>
      rk_channel (m_route_key m) = feishu_channel_id (fc_account_id cfg) \<and> webhook_route ps m w1 = ((status, resp), w'))"
    using env(3) h(5) event_message_route [of dp "wp_uuid ps" "wp_now_ms ps" cfg _ _ w]
    by (cases disp) (simp_all, metis)
  with h(1) select_in [OF h(2)] env(1,2) verify_signature_ok [OF h(3)] show ?thesis by blast
qed simp

theorem webhook_authentic_witness:
  "\<exists>cfg \<in> set [secured_account]. signature_ok plain_webhook signed_headers ''body'' cfg"
proof -
  have "first_delivery = ((503, snd (fst first_delivery)), snd first_delivery)"
    using first_delivery_unavailable by (simp add: prod_eq_iff)
  from webhook_authentic [OF this [unfolded first_delivery_def]] show ?thesis by auto
qed

text \<open>
  A message that met a full queue is lost although the platform was told to retry: when
  the webhook answers 503 because the queue is full, the message is already in the inbox
  as processed, so every redelivery of the same event, on any later state with these
  inbox rows and without database faults, is answered 200 as a duplicate and reaches
  neither the deduplication cache nor the queue.
\<close>

theorem webhook_retry_discarded:
  assumes "webhook_handler dp (sqlite_ports e json cache enq) configs headers body d = ((503, resp), d1)"
    and "wh_json dp body = Ok payload" and "wh_envelope dp payload = Ok env" and "we_event env = Some b"
    and "trim (fm_message_id (eb_message b)) \<noteq> []"
    and "ib_id ` set (t_inbox d1) \<subseteq> ib_id ` set (t_inbox d2)" and "no_faults e'"
  shows "\<exists>d3. webhook_handler dp (sqlite_ports e' json cache enq) configs headers body d2 = ((200, webhook_done True), d3) \<and>
    db.more d3 = db.more d2"
proof -
  obtain cfg m w1 where h: "select_feishu_config configs payload = Some cfg"
      "verify_webhook_signature dp headers body cfg = Ok ()"
      "parse_webhook_event dp (new_uuid e) (clock_ms e) payload cfg d = (Ok (WebhookMessage m), w1)"
      "webhook_route (sqlite_ports e json cache enq) m w1 = ((503, resp), d1)"
    using webhook_routed [OF assms(1)] assms(2) by (auto simp: sqlite_ports_def)
  from parse_event_again [OF h(3)] assms(3,4) obtain hd where
      first: "event_message dp (new_uuid e) (clock_ms e) cfg hd b d = (m, w1)"
    and again: "\<And>uuid' now' w' :: 'a db_scheme. parse_webhook_event dp uuid' now' payload cfg w' =
       map_prod (Ok \<circ> WebhookMessage) id (event_message dp uuid' now' cfg hd b w')" by auto
  obtain m' w2 where second: "event_message dp (new_uuid e') (clock_ms e') cfg hd b d2 = (m', w2)" by force
  have "m_id m' = m_id m" using event_message_given_id [OF assms(5)] first second by metis
  moreover have "m_id m \<in> ib_id ` set (t_inbox d1)" using webhook_route_unavailable [OF h(4)] .
  ultimately have "m_id m' \<in> ib_id ` set (t_inbox w2)" using assms(6) event_message_frame(1) [OF second] by auto
  from webhook_route_known [OF this, of e' json cache enq] assms(7)
  have "webhook_route (sqlite_ports e' json cache enq) m' w2 = ((200, webhook_done True), w2\<lparr>db_tick := Suc (db_tick w2)\<rparr>)"
    by simp
  then show ?thesis
    using assms(2) h(1,2) again [of "new_uuid e'" "clock_ms e'" d2] second event_message_frame(2) [OF second]
    by (simp add: webhook_handler_def sqlite_ports_def)
qed

theorem webhook_retry_discarded_witness:
  "fst (webhook_handler plain_webhook full_ports [secured_account] signed_headers ''body'' (snd first_delivery)) =
     (200, webhook_done True)"
proof -
  have first: "first_delivery = ((503, snd (fst first_delivery)), snd first_delivery)"
    using first_delivery_unavailable by (simp add: prod_eq_iff)
  have event: "wh_json plain_webhook ''body'' = Ok (JObject [(''token'', JString ''vt'')])"
      "wh_envelope plain_webhook (JObject [(''token'', JString ''vt'')]) = Ok sample_envelope"
      "we_event sample_envelope = Some sample_event"
    by (simp_all add: plain_webhook_def sample_envelope_def)
  have id: "trim (fm_message_id (eb_message sample_event)) \<noteq> []" by code_simp
  from webhook_retry_discarded [OF first [unfolded first_delivery_def full_ports_def] event id subset_refl calm_env_calm]
  show ?thesis by (auto simp: first_delivery_def full_ports_def)
qed

text \<open>
  By default the webhook is open to everybody: the first account of the list is always
  there, enabled or not, and without a verification token it takes every event whose token
  belongs to no other account; without a signing secret nothing else is checked. Every
  JSON event then passes, whatever its headers and whatever token it carries.
\<close>

theorem webhook_open_by_default:
  assumes "trim (fc_verification_token main) = []" and "trim (fc_signing_secret main) = []"
    and "wh_json dp body = Ok payload" and "is_Ok (wh_envelope dp payload)"
    and "\<forall>c \<in> set accounts. extract_feishu_verification_token payload \<noteq> Some (trim (fc_verification_token c))"
  shows "select_feishu_config (main # accounts) payload = Some main \<and>
    verify_webhook_signature dp headers body main = Ok () \<and>
    is_Ok (fst (parse_webhook_event dp uuid now payload main w))"
proof (intro conjI)
  have "find (\<lambda>c. trim (fc_verification_token c) \<noteq> [] \<and> trim (fc_verification_token c) = t) accounts = None"
    if "extract_feishu_verification_token payload = Some t" for t
    using assms(5) that by (auto simp: find_None_iff)
  then show "select_feishu_config (main # accounts) payload = Some main"
    using assms(1)
    by (cases "extract_feishu_verification_token payload") (auto simp: select_feishu_config_def split: option.split)
  show "verify_webhook_signature dp headers body main = Ok ()"
    using assms(2) by (simp add: verify_webhook_signature_def)
  show "is_Ok (fst (parse_webhook_event dp uuid now payload main w))"
    using assms(1,4) by (auto simp: parse_webhook_event_def is_Ok_def split_beta split: sum.splits option.splits)
qed

theorem webhook_open_by_default_witness:
  "select_feishu_config [feishu_config_default, secured_account\<lparr>fc_verification_token := ''other''\<rparr>]
     (JObject [(''token'', JString ''vt'')]) = Some feishu_config_default"
proof -
  have t: "extract_feishu_verification_token (JObject [(''token'', JString ''vt'')]) = Some ''vt''" "trim ''other'' = ''other''"
    by code_simp+
  show ?thesis
    using webhook_open_by_default [of feishu_config_default plain_webhook "''body''" "JObject [(''token'', JString ''vt'')]"
        "[secured_account\<lparr>fc_verification_token := ''other''\<rparr>]", THEN conjunct1]
    by (auto simp: feishu_config_default_def plain_webhook_def is_Ok_def t)
qed

end
