(* ===== verification/Feishu_Channel.thy ===== *)
theory Feishu_Channel
  imports Feishu_Webhook
begin

text \<open>
  Sending through Feishu: the rest of \<open>src/channels/feishu/channel.rs\<close>, the classification of
  \<open>src/channels/feishu/error_semantics.rs\<close> and the result contract of the text command in
  \<open>src/cli/delivery_result.rs\<close>.

  HTTP requests, the file system, JSON printing, the clock and identifiers are arguments, the
  fields of \<open>feishu_http\<close> on the world \<open>'w\<close>; \<open>'p\<close> stands for the body of an uploaded file. A request
  fails before a response, or the body of the response cannot be read.
\<close>

section \<open>Classification of errors\<close>

datatype error_semantics = Retryable | Terminal | UnknownSemantics

definition feishu_from_http_status :: "nat \<Rightarrow> error_semantics" where
  "feishu_from_http_status status_code =
     (if status_code \<in> {400, 401, 403, 404, 405} then Terminal
      else if status_code \<in> {429, 500, 502, 503, 504, 408} then Retryable
      else UnknownSemantics)"

definition from_feishu_error_code :: "int \<Rightarrow> error_semantics" where
  "from_feishu_error_code code =
     (if code \<in> {0, 1001, 1002, 1003, 1004, 2001, 2002} then Terminal
      else if code \<in> {1008, 5001, 5002, 1010} then Retryable
      else UnknownSemantics)"

definition from_error_message :: "string \<Rightarrow> error_semantics" where
  "from_error_message msg =
     (let lower = to_lowercase msg in
      if contains lower ''permission'' \<or> contains lower ''forbidden'' \<or> contains lower ''denied'' then Terminal
      else if contains lower ''not found'' \<or> contains lower ''does not exist'' then Terminal
      else if contains lower ''invalid'' \<or> contains lower ''malformed'' \<or> contains lower ''bad request'' then Terminal
      else if contains lower ''rate limit'' \<or> contains lower ''too many'' then Retryable
      else if contains lower ''server error'' \<or> contains lower ''unavailable'' \<or> contains lower ''timeout'' then Retryable
      else UnknownSemantics)"

definition should_retry :: "error_semantics \<Rightarrow> bool" where
  "should_retry s \<longleftrightarrow> s = Retryable \<or> s = UnknownSemantics"

definition is_terminal_error :: "error_semantics \<Rightarrow> bool" where
  "is_terminal_error s \<longleftrightarrow> s = Terminal"

section \<open>Requests\<close>

datatype http_error = RequestFailed string | ParseFailed string

datatype open_error = OpenFailed string | MetadataFailed string

record feishu_token_response =
  tr_code :: int
  tr_msg :: string
  tr_tenant_access_token :: string

record feishu_send_envelope =
  se_code :: int
  se_msg :: string
  se_data :: "string option"

record feishu_upload_data =
  ud_image_key :: string
  ud_file_key :: string

record feishu_upload_envelope =
  ue_code :: int
  ue_msg :: string
  ue_data :: "feishu_upload_data option"

record feishu_send_request =
  sq_receive_id :: string
  sq_msg_type :: string
  sq_content :: string

type_synonym 'w token_request = "string \<Rightarrow> string \<Rightarrow> string \<Rightarrow> 'w \<Rightarrow> (http_error + nat \<times> feishu_token_response) \<times> 'w"

record ('w, 'p) feishu_http =
  fh_token :: "'w token_request"
  fh_send :: "string \<Rightarrow> string \<Rightarrow> string \<Rightarrow> feishu_send_request \<Rightarrow> 'w \<Rightarrow> (http_error + nat \<times> feishu_send_envelope) \<times> 'w"
  fh_upload :: "string \<Rightarrow> string \<Rightarrow> string \<Rightarrow> string \<Rightarrow> string \<Rightarrow> 'p \<Rightarrow> string \<Rightarrow> 'w \<Rightarrow> (http_error + nat \<times> feishu_upload_envelope) \<times> 'w"
  fh_open :: "string \<Rightarrow> 'w \<Rightarrow> (open_error + 'p \<times> string option) \<times> 'w"
  fh_download :: "string \<Rightarrow> 'w \<Rightarrow> (string + nat \<times> 'p) \<times> 'w"
  fh_url_last :: "string \<Rightarrow> string option"
  fh_exists :: "string \<Rightarrow> 'w \<Rightarrow> bool"
  fh_object :: "string \<Rightarrow> string \<Rightarrow> string"
  fh_status_text :: "nat \<Rightarrow> string"
  fh_uuid :: "'w \<Rightarrow> string \<times> 'w"
  fh_now_ms :: "'w \<Rightarrow> int \<times> 'w"
  fh_session :: "'w \<Rightarrow> string"
  fh_set_session :: "string \<Rightarrow> 'w \<Rightarrow> 'w"

definition trim_end_slashes :: "string \<Rightarrow> string" where
  "trim_end_slashes s = rev (dropWhile (\<lambda>c. c = CHR ''/'') (rev s))"

definition trim_start_slashes :: "string \<Rightarrow> string" where
  "trim_start_slashes s = dropWhile (\<lambda>c. c = CHR ''/'') s"

definition file_name_from_url :: "('w, 'p) feishu_http \<Rightarrow> string \<Rightarrow> string \<Rightarrow> string" where
  "file_name_from_url hp url fallback = (case fh_url_last hp url of Some s \<Rightarrow> if s = [] then fallback else s | None \<Rightarrow> fallback)"

definition open_part :: "('w, 'p) feishu_http \<Rightarrow> string \<Rightarrow> string \<Rightarrow> 'w \<Rightarrow> (string + 'p \<times> string) \<times> 'w" where
  "open_part hp path fallback_name w =
     (case fh_open hp path w of
        (Err (OpenFailed e), w1) \<Rightarrow> (Err (''open media file failed: '' @ e), w1)
      | (Err (MetadataFailed e), w1) \<Rightarrow> (Err (''read media metadata failed: '' @ e), w1)
      | (Ok (part, name), w1) \<Rightarrow> (Ok (part, case name of Some n \<Rightarrow> if n = [] then fallback_name else n | None \<Rightarrow> fallback_name), w1))"

definition media_part :: "('w, 'p) feishu_http \<Rightarrow> string \<Rightarrow> string \<Rightarrow> 'w \<Rightarrow> (string + 'p \<times> string) \<times> 'w" where
  "media_part hp source fallback_name w =
     (case strip_prefix source ''file://'' of
        Some path \<Rightarrow> open_part hp path fallback_name w
      | None \<Rightarrow>
          if starts_with source ''http://'' \<or> starts_with source ''https://'' then
            (case fh_download hp source w of
               (Err e, w1) \<Rightarrow> (Err (''download media failed: '' @ e), w1)
             | (Ok (status, part), w1) \<Rightarrow>
                 if \<not> is_success status then (Err (''download media failed: HTTP '' @ fh_status_text hp status), w1)
                 else (Ok (part, file_name_from_url hp source fallback_name), w1))
          else open_part hp source fallback_name w)"

definition upload_media ::
  "('w, 'p) feishu_http \<Rightarrow> feishu_config \<Rightarrow> string \<Rightarrow> string \<Rightarrow> string \<Rightarrow> string \<Rightarrow> string \<Rightarrow> string \<Rightarrow> string \<Rightarrow> 'w \<Rightarrow>
   (string + feishu_upload_data) \<times> 'w" where
  "upload_media hp cfg token endpoint media_field type_field type_value source fallback_name w =
     (case media_part hp source fallback_name w of
        (Err e, w1) \<Rightarrow> (Err e, w1)
      | (Ok (part, filename), w1) \<Rightarrow>
          (let url = trim_end_slashes (fc_base_url cfg) @ ''/'' @ trim_start_slashes endpoint in
           case fh_upload hp url token type_field type_value media_field part filename w1 of
             (Err (RequestFailed e), w2) \<Rightarrow> (Err (''upload '' @ filename @ '' failed: '' @ e), w2)
           | (Err (ParseFailed e), w2) \<Rightarrow> (Err (''upload parse failed: '' @ e), w2)
           | (Ok (status, parsed), w2) \<Rightarrow>
               if \<not> is_success status \<or> ue_code parsed \<noteq> 0
               then (Err (''upload rejected: status='' @ fh_status_text hp status @ '' code='' @ show_int (ue_code parsed) @
                       '' msg='' @ ue_msg parsed), w2)
               else (case ue_data parsed of Some d \<Rightarrow> (Ok d, w2) | None \<Rightarrow> (Err ''upload response missing data'', w2))))"

definition looks_like_upload_source :: "('w, 'p) feishu_http \<Rightarrow> string \<Rightarrow> 'w \<Rightarrow> bool" where
  "looks_like_upload_source hp value w \<longleftrightarrow>
     (let trimmed = trim value
      in starts_with trimmed ''file://'' \<or> starts_with trimmed ''http://'' \<or> starts_with trimmed ''https://'' \<or>
         fh_exists hp trimmed w)"

definition ensure_tenant_token ::
  "('w, 'p) feishu_http \<Rightarrow> 'w token_request \<Rightarrow> feishu_config \<Rightarrow> 'w \<Rightarrow> (string + string) \<times> 'w" where
  "ensure_tenant_token hp request cfg w =
     (if trim (fh_session hp w) \<noteq> [] then (Ok (fh_session hp w), w)
      else if trim (fc_app_id cfg) = [] \<or> trim (fc_app_secret cfg) = []
      then (Err ''feishu token missing: set tenant_access_token or app_id/app_secret'', w)
      else (let endpoint = trim_end_slashes (fc_base_url cfg) @ ''/open-apis/auth/v3/tenant_access_token/internal'' in
            case request endpoint (fc_app_id cfg) (fc_app_secret cfg) w of
              (Err (RequestFailed e), w1) \<Rightarrow> (Err (''feishu token request failed: '' @ e), w1)
            | (Err (ParseFailed e), w1) \<Rightarrow> (Err (''feishu token parse failed: '' @ e), w1)
            | (Ok (status, parsed), w1) \<Rightarrow>
                if \<not> is_success status \<or> tr_code parsed \<noteq> 0 \<or> trim (tr_tenant_access_token parsed) = []
                then (Err (''feishu token exchange failed: status='' @ fh_status_text hp status @ '' code='' @
                        show_int (tr_code parsed) @ '' msg='' @ tr_msg parsed), w1)
                else (Ok (tr_tenant_access_token parsed), fh_set_session hp (tr_tenant_access_token parsed) w1)))"

definition map_content :: "('w, 'p) feishu_http \<Rightarrow> message_content \<Rightarrow> string + string \<times> string" where
  "map_content hp content =
     (case content of
        Text t \<Rightarrow> Ok (''text'', fh_object hp ''text'' t)
      | Image url media_id \<Rightarrow>
          (case media_id of
             Some key \<Rightarrow> if trim key = [] then Err ''feishu image send requires media_id as image_key''
                         else Ok (''image'', fh_object hp ''image_key'' key)
           | None \<Rightarrow> Err ''feishu image send requires media_id as image_key'')
      | File url name sz \<Rightarrow>
          if trim url = [] then Err ''feishu file send requires pre-uploaded file_key in url''
          else Ok (''file'', fh_object hp ''file_key'' url)
      | Unknown \<Rightarrow> Err ''feishu cannot send Unknown content'')"

text \<open>The message type and body of the request, uploading media first.\<close>

definition image_body ::
  "('w, 'p) feishu_http \<Rightarrow> feishu_config \<Rightarrow> string \<Rightarrow> string \<Rightarrow> 'w \<Rightarrow> (string + string \<times> string) \<times> 'w" where
  "image_body hp cfg token url w =
     (if trim url = [] then (Err ''feishu image send requires media_id or uploadable url/path'', w)
      else if \<not> looks_like_upload_source hp url w then (Ok (''image'', fh_object hp ''image_key'' url), w)
      else (case upload_media hp cfg token ''/open-apis/im/v1/images'' ''image'' ''image_type'' ''message'' url ''image.bin'' w of
              (Err e, w1) \<Rightarrow> (Err e, w1)
            | (Ok u, w1) \<Rightarrow>
                if trim (ud_image_key u) = [] then (Err ''feishu image upload returned empty image_key'', w1)
                else (Ok (''image'', fh_object hp ''image_key'' (ud_image_key u)), w1)))"

definition file_body ::
  "('w, 'p) feishu_http \<Rightarrow> feishu_config \<Rightarrow> string \<Rightarrow> string \<Rightarrow> string \<Rightarrow> 'w \<Rightarrow> (string + string \<times> string) \<times> 'w" where
  "file_body hp cfg token url name w =
     (if trim url = [] then (Err ''feishu file send requires uploadable url/path or file_key'', w)
      else if \<not> looks_like_upload_source hp url w then (Ok (''file'', fh_object hp ''file_key'' url), w)
      else (case upload_media hp cfg token ''/open-apis/im/v1/files'' ''file'' ''file_type'' ''stream'' url
                   (if trim name = [] then ''file.bin'' else name) w of
              (Err e, w1) \<Rightarrow> (Err e, w1)
            | (Ok u, w1) \<Rightarrow>
                (Ok (''file'', fh_object hp ''file_key'' (if trim (ud_file_key u) = [] then url else ud_file_key u)), w1)))"

definition message_body ::
  "('w, 'p) feishu_http \<Rightarrow> feishu_config \<Rightarrow> string \<Rightarrow> message_content \<Rightarrow> 'w \<Rightarrow> (string + string \<times> string) \<times> 'w" where
  "message_body hp cfg token content w =
     (case content of
        Image url media_id \<Rightarrow>
          if trim (case media_id of Some k \<Rightarrow> k | None \<Rightarrow> []) = [] then image_body hp cfg token url w
          else (map_content hp content, w)
      | File url name sz \<Rightarrow> file_body hp cfg token url name w
      | _ \<Rightarrow> (map_content hp content, w))"

section \<open>The channel\<close>

datatype feishu_mode = Stub | OpenApi feishu_config

record feishu_channel =
  fch_id :: channel_id
  fch_mode :: feishu_mode

definition feishu_new :: feishu_channel where
  "feishu_new = \<lparr> fch_id = ChannelId ''feishu'', fch_mode = Stub \<rparr>"

definition feishu_from_config :: "feishu_config \<Rightarrow> feishu_channel" where
  "feishu_from_config cfg =
     \<lparr> fch_id = feishu_channel_id (fc_account_id cfg), fch_mode = (if fc_enabled cfg then OpenApi cfg else Stub) \<rparr>"

definition receipt :: "('w, 'p) feishu_http \<Rightarrow> string option \<Rightarrow> 'w \<Rightarrow> send_receipt \<times> 'w" where
  "receipt hp platform_id w =
     (let (i, w1) = fh_uuid hp w; (now, w2) = fh_now_ms hp w1
      in (\<lparr> sr_message_id = i, sr_platform_msg_id = platform_id, sr_timestamp_ms = now \<rparr>, w2))"

text \<open>
  \<open>send_message_inner\<close>; the second component of the result is \<open>message_request_started\<close>. The
  receipt of the stub reads the clock once more, for its platform id.
\<close>

definition send_message_inner ::
  "('w, 'p) feishu_http \<Rightarrow> feishu_mode \<Rightarrow> string \<Rightarrow> message_content \<Rightarrow> 'w \<Rightarrow> ((channel_error + send_receipt) \<times> bool) \<times> 'w" where
  "send_message_inner hp mode dest content w =
     (case mode of
        Stub \<Rightarrow>
          (case map_content hp content of
             Err e \<Rightarrow> ((Err (channel_error_from_string e), False), w)
           | Ok _ \<Rightarrow>
               (let (i, w1) = fh_uuid hp w; (t1, w2) = fh_now_ms hp w1; (t2, w3) = fh_now_ms hp w2
                in ((Ok \<lparr> sr_message_id = i, sr_platform_msg_id = Some (''feishu_stub_'' @ show_int t1),
                        sr_timestamp_ms = t2 \<rparr>, False), w3)))
      | OpenApi cfg \<Rightarrow>
          (case ensure_tenant_token hp (fh_token hp) cfg w of
             (Err e, w1) \<Rightarrow> ((Err (channel_error_from_string e), False), w1)
           | (Ok token, w1) \<Rightarrow>
               (case message_body hp cfg token content w1 of
                  (Err e, w2) \<Rightarrow> ((Err (channel_error_from_string e), False), w2)
                | (Ok (msg_type, body), w2) \<Rightarrow>
                    (let endpoint = trim_end_slashes (fc_base_url cfg) @ ''/open-apis/im/v1/messages'' in
                     case fh_send hp endpoint (fc_receive_id_type cfg) token
                            \<lparr> sq_receive_id = dest, sq_msg_type = msg_type, sq_content = body \<rparr> w2 of
                       (Err (RequestFailed e), w3) \<Rightarrow> ((Err (channel_error_from_string (''feishu send failed: '' @ e)), True), w3)
                     | (Err (ParseFailed e), w3) \<Rightarrow> ((Err (channel_error_from_string (''feishu send parse failed: '' @ e)), True), w3)
                     | (Ok (status, parsed), w3) \<Rightarrow>
                         if \<not> is_success status \<or> se_code parsed \<noteq> 0
                         then ((Err (ContentRejected (''feishu send rejected: status='' @ fh_status_text hp status @
                                 '' code='' @ show_int (se_code parsed) @ '' msg='' @ se_msg parsed)), True), w3)
                         else (let (r, w4) = receipt hp (case se_data parsed of Some i \<Rightarrow> if i = [] then None else Some i
                                                         | None \<Rightarrow> None) w3
                               in ((Ok r, True), w4))))))"

definition feishu_health :: "feishu_mode \<Rightarrow> health_status" where
  "feishu_health mode =
     \<lparr> hs_channel = ''feishu'', hs_healthy = True,
       hs_detail = (case mode of
          Stub \<Rightarrow> ''skeleton '' @ [CHR 0xE2, CHR 0x80, CHR 0x94] @ '' not connected to platform''
        | OpenApi cfg \<Rightarrow> ''openapi configured'') \<rparr>"

definition feishu_as_channel :: "('w, 'p) feishu_http \<Rightarrow> feishu_channel \<Rightarrow> 'w channel" where
  "feishu_as_channel hp c =
     \<lparr> ch_id = fch_id c,
       ch_send = (\<lambda>dest content w. let ((r, started), w') = send_message_inner hp (fch_mode c) dest content w in (r, w')),
       ch_stop = (\<lambda>w. (Ok (), w)), ch_health = (\<lambda>w. (Ok (feishu_health (fch_mode c)), w)) \<rparr>"

section \<open>Delivery evidence\<close>

datatype feishu_text_delivery_evidence =
    AuthBeforeMessage
  | MessageResult "channel_error + send_receipt" bool
  | Unavailable

text \<open>\<open>auth\<close> is the token request of the client without redirects, if it could be built.\<close>

definition send_text_with_delivery_evidence ::
  "('w, 'p) feishu_http \<Rightarrow> 'w token_request option \<Rightarrow> feishu_channel \<Rightarrow> string \<Rightarrow> string \<Rightarrow> 'w \<Rightarrow>
   feishu_text_delivery_evidence \<times> 'w" where
  "send_text_with_delivery_evidence hp auth c dest text w =
     (case fch_mode c of
        Stub \<Rightarrow> (Unavailable, w)
      | OpenApi cfg \<Rightarrow>
          (case auth of
             None \<Rightarrow> (Unavailable, w)
           | Some request \<Rightarrow>
               (case ensure_tenant_token hp request cfg w of
                  (Err _, w1) \<Rightarrow> (AuthBeforeMessage, w1)
                | (Ok _, w1) \<Rightarrow>
                    (let ((result, started), w2) = send_message_inner hp (fch_mode c) dest (Text text) w1
                     in (MessageResult result started, w2)))))"

record feishu_delivery_result =
  dr_schema :: string
  dr_invocation_id :: string
  dr_channel :: string
  dr_account_id :: string
  dr_app_id_sha256 :: string
  dr_receive_id_type :: string
  dr_target_sha256 :: string
  dr_content_sha256 :: string
  dr_kind :: string
  dr_phase :: string
  dr_message_request_started :: bool
  dr_reason_code :: string
  dr_receipt :: "(string \<times> string) option"

definition sha256_bytes :: "digest \<Rightarrow> bytes \<Rightarrow> string" where
  "sha256_bytes sha bs = to_hex (sha bs)"

definition valid_remote_id :: "string \<Rightarrow> bool" where
  "valid_remote_id value =
     (case strip_prefix value ''om_'' of
        Some suffix \<Rightarrow> suffix \<noteq> [] \<and> length suffix \<le> 128 \<and>
          list_all (\<lambda>c. let n = of_char c :: nat in 97 \<le> n \<and> n \<le> 122 \<or> 48 \<le> n \<and> n \<le> 57) suffix
      | None \<Rightarrow> False)"

definition delivery_result_new :: "digest \<Rightarrow> string \<Rightarrow> feishu_config \<Rightarrow> string \<Rightarrow> string \<Rightarrow> feishu_delivery_result" where
  "delivery_result_new sha invocation_id cfg target text =
     \<lparr> dr_schema = ''magiclaw.feishu_delivery.v1'', dr_invocation_id = invocation_id, dr_channel = ''feishu'',
       dr_account_id = fc_account_id cfg, dr_app_id_sha256 = sha256_bytes sha (as_bytes (fc_app_id cfg)),
       dr_receive_id_type = fc_receive_id_type cfg, dr_target_sha256 = sha256_bytes sha (as_bytes (trim target)),
       dr_content_sha256 = sha256_bytes sha (as_bytes text), dr_kind = ''Uncertain'', dr_phase = ''preflight'',
       dr_message_request_started = False, dr_reason_code = ''feishu_preflight_unconfirmed'', dr_receipt = None \<rparr>"

text \<open>\<open>valid_local_id\<close>, the canonical text of a random UUID, is an argument.\<close>

definition finish ::
  "(string \<Rightarrow> bool) \<Rightarrow> feishu_text_delivery_evidence \<Rightarrow> feishu_delivery_result \<Rightarrow> feishu_delivery_result" where
  "finish valid_local_id evidence r =
     (case evidence of
        AuthBeforeMessage \<Rightarrow>
          r\<lparr>dr_kind := ''RejectedBeforeMessage'', dr_phase := ''auth'', dr_reason_code := ''feishu_auth_failed_before_message''\<rparr>
      | MessageResult result started \<Rightarrow>
          (let r1 = r\<lparr>dr_message_request_started := started\<rparr> in
           if \<not> started then r1
           else (let r2 = r1\<lparr>dr_phase := ''message'', dr_reason_code := ''feishu_message_result_unconfirmed''\<rparr> in
                 case result of
                   Err _ \<Rightarrow> r2
                 | Ok rc \<Rightarrow>
                     (case sr_platform_msg_id rc of
                        None \<Rightarrow> r2
                      | Some p \<Rightarrow>
                          if valid_remote_id p \<and> valid_local_id (sr_message_id rc)
                          then r2\<lparr>dr_kind := ''Accepted'', dr_reason_code := ''accepted'', dr_receipt := Some (sr_message_id rc, p)\<rparr>
                          else r2)))
      | Unavailable \<Rightarrow> r)"

definition result_accepted :: "feishu_delivery_result \<Rightarrow> bool" where
  "result_accepted r \<longleftrightarrow> dr_kind r = ''Accepted''"

section \<open>Lemmas\<close>

text \<open>Parts of a send that do not reach the messages endpoint.\<close>

lemma token_ignores_send [simp]:
  "ensure_tenant_token (hp\<lparr>fh_send := f\<rparr>) request cfg w = ensure_tenant_token hp request cfg w"
  by (simp add: ensure_tenant_token_def split: prod.split sum.split http_error.split)

lemma text_body: "message_body hp cfg token (Text t) w = (Ok (''text'', fh_object hp ''text'' t), w)"
  by (simp add: message_body_def map_content_def)

lemma send_not_started:
  assumes "send_message_inner hp mode dest (Text t) w = ((r, False), w')"
  shows "send_message_inner (hp\<lparr>fh_send := f\<rparr>) mode dest (Text t) w = ((r, False), w')"
proof (cases mode)
  case Stub
  with assms show ?thesis by (simp add: send_message_inner_def map_content_def)
next
  case (OpenApi cfg)
  obtain q w1 where tok: "ensure_tenant_token hp (fh_token hp) cfg w = (q, w1)" by force
  show ?thesis
  proof (cases q)
    case (Inl e)
    with assms OpenApi tok show ?thesis by (simp add: send_message_inner_def)
  next
    case (Inr token)
    with assms OpenApi tok have False
      by (auto simp: send_message_inner_def text_body Let_def split: sum.splits http_error.splits if_splits prod.splits)
    then show ?thesis ..
  qed
qed

lemma registered_last:
  "map_of (fold register cs reg) i = (case find (\<lambda>c. ch_id c = i) (rev cs) of Some c \<Rightarrow> Some c | None \<Rightarrow> map_of reg i)"
proof (induction cs rule: rev_induct)
  case (snoc c cs)
  then show ?case by (simp add: lookup_register)
qed simp

lemma find_map: "find P (map f xs) = map_option f (find (P \<circ> f) xs)"
  by (induction xs) auto

text \<open>A platform that accepts every message and records the recipient; the world is the list of recipients.\<close>

definition recording_http :: "(string list, unit) feishu_http" where
  "recording_http =
     \<lparr> fh_token = (\<lambda>u i s w. (Ok (200, \<lparr> tr_code = 0, tr_msg = [], tr_tenant_access_token = ''t'' \<rparr>), w)),
       fh_send = (\<lambda>u ty tok q w. (Ok (200, \<lparr> se_code = 0, se_msg = [], se_data = Some ''om_1'' \<rparr>), w @ [sq_receive_id q])),
       fh_upload = (\<lambda>u t tf tv mf p n w. (Err (RequestFailed []), w)), fh_open = (\<lambda>p w. (Err (OpenFailed []), w)),
       fh_download = (\<lambda>u w. (Err [], w)), fh_url_last = (\<lambda>u. None), fh_exists = (\<lambda>p w. False),
       fh_object = (\<lambda>k v. v), fh_status_text = show_nat, fh_uuid = (\<lambda>w. (''id'', w)), fh_now_ms = (\<lambda>w. (0, w)),
       fh_session = (\<lambda>w. ''t''), fh_set_session = (\<lambda>t w. w) \<rparr>"

definition enabled_account :: "string \<Rightarrow> feishu_config" where
  "enabled_account a = feishu_config_default\<lparr>fc_enabled := True, fc_account_id := a\<rparr>"

section \<open>Properties\<close>

text \<open>
  Each Feishu account has its own channel: in the registry the runtime builds, a message
  for the channel id of an account goes through the last configured account with this id,
  the only one if account ids differ (up to surrounding blanks, and with the empty id read
  as \<open>default\<close>); without such an account it is refused as an unknown channel.
\<close>

theorem feishu_accounts_routed:
  assumes "ch_id wechat = ChannelId ''wechat''" and "ch_id dingtalk = ChannelId ''dingtalk''"
  shows "send_via (runtime_registry wechat dingtalk (feishu_as_channel hp (feishu_from_config main))
        (map (\<lambda>c. feishu_as_channel hp (feishu_from_config c)) accounts)) (feishu_channel_id a) dest content w =
    (case find (\<lambda>c. feishu_channel_id (fc_account_id c) = feishu_channel_id a) (rev (main # accounts)) of
       Some c \<Rightarrow> ch_send (feishu_as_channel hp (feishu_from_config c)) dest content w
     | None \<Rightarrow> (Err (InvalidRecipient (''channel not found: '' @ as_str (feishu_channel_id a))), w))"
proof -
  let ?mk = "\<lambda>c. feishu_as_channel hp (feishu_from_config c)"
  have reg: "runtime_registry wechat dingtalk (?mk main) (map ?mk accounts) =
      fold register (map ?mk (main # accounts)) (register dingtalk (register wechat registry_new))"
    by (simp add: runtime_registry_def)
  have "feishu_channel_id a \<noteq> ChannelId ''wechat''" "feishu_channel_id a \<noteq> ChannelId ''dingtalk''"
    by (simp_all add: feishu_channel_id_def Let_def)
  then have none: "map_of (register dingtalk (register wechat registry_new)) (feishu_channel_id a) = None"
    using assms by (simp add: lookup_register registry_new_def)
  have "find (\<lambda>c. ch_id c = feishu_channel_id a) (rev (map ?mk (main # accounts))) =
      map_option ?mk (find (\<lambda>c. feishu_channel_id (fc_account_id c) = feishu_channel_id a) (rev (main # accounts)))"
    by (simp only: rev_map find_map comp_def) (simp add: feishu_as_channel_def feishu_from_config_def)
  then have "map_of (runtime_registry wechat dingtalk (?mk main) (map ?mk accounts)) (feishu_channel_id a) =
      map_option ?mk (find (\<lambda>c. feishu_channel_id (fc_account_id c) = feishu_channel_id a) (rev (main # accounts)))"
    unfolding reg registered_last none by (simp split: option.split)
  then show ?thesis by (simp add: send_via_def split: option.split)
qed

theorem feishu_accounts_routed_witness:
  "let mk = (\<lambda>c. feishu_as_channel recording_http (feishu_from_config c)) in
   snd (send_via (runtime_registry ((mk feishu_config_default)\<lparr>ch_id := ChannelId ''wechat''\<rparr>)
       ((mk feishu_config_default)\<lparr>ch_id := ChannelId ''dingtalk''\<rparr>) (mk feishu_config_default)
       (map mk [enabled_account ''a'', enabled_account ''b''])) (feishu_channel_id '' a'') ''u'' (Text ''hi'') []) = [''u'']"
proof -
  have ids: "feishu_channel_id ''a'' = ChannelId ''feishu:a''" "feishu_channel_id ''b'' = ChannelId ''feishu:b''"
      "feishu_channel_id '' a'' = ChannelId ''feishu:a''" "feishu_channel_id ''default'' = ChannelId ''feishu''" "trim ''t'' = ''t''"
    by code_simp+
  show ?thesis
    unfolding Let_def
    by (subst feishu_accounts_routed)
      (simp_all add: ids enabled_account_def feishu_config_default_def feishu_as_channel_def feishu_from_config_def
        send_message_inner_def ensure_tenant_token_def text_body recording_http_def is_success_def receipt_def Let_def)
qed

text \<open>
  C15. The result of the text command tells the truth about the message: it reports an accepted
  message exactly when the messages endpoint was called and returned a receipt with well
  formed local and platform ids, which the result carries; and when it reports that no
  message request was started, the outcome and the world are the same whatever the
  messages endpoint would have done, so it was not called.
\<close>

theorem delivery_result_truthful:
  assumes "send_text_with_delivery_evidence hp auth c dest text w = (ev, w')"
    and "r = finish valid_local_id ev (delivery_result_new sha iid cfg dest text)"
  shows "(result_accepted r \<longleftrightarrow> (\<exists>rc p. ev = MessageResult (Ok rc) True \<and> sr_platform_msg_id rc = Some p \<and> valid_remote_id p \<and>
      valid_local_id (sr_message_id rc) \<and> dr_receipt r = Some (sr_message_id rc, p))) \<and>
    (\<not> dr_message_request_started r \<longrightarrow>
       (\<forall>f. send_text_with_delivery_evidence (hp\<lparr>fh_send := f\<rparr>) auth c dest text w = (ev, w')))"
proof (intro conjI impI allI)
  show "result_accepted r \<longleftrightarrow> (\<exists>rc p. ev = MessageResult (Ok rc) True \<and> sr_platform_msg_id rc = Some p \<and> valid_remote_id p \<and>
      valid_local_id (sr_message_id rc) \<and> dr_receipt r = Some (sr_message_id rc, p))"
    by (auto simp: assms(2) result_accepted_def finish_def delivery_result_new_def Let_def
        split: feishu_text_delivery_evidence.split sum.split option.split)
next
  fix f assume ns: "\<not> dr_message_request_started r"
  show "send_text_with_delivery_evidence (hp\<lparr>fh_send := f\<rparr>) auth c dest text w = (ev, w')"
  proof (cases "\<exists>result. ev = MessageResult result False")
    case True
    then obtain result cfg1 request token w1 where "ev = MessageResult result False" "fch_mode c = OpenApi cfg1" "auth = Some request"
        "ensure_tenant_token hp request cfg1 w = (Ok token, w1)"
        "send_message_inner hp (fch_mode c) dest (Text text) w1 = ((result, False), w')"
      using assms(1)
      by (auto simp: send_text_with_delivery_evidence_def split: feishu_mode.splits option.splits sum.splits prod.splits)
    then show ?thesis
      using send_not_started [of hp "fch_mode c" dest "text" w1 result w' f]
      by (simp add: send_text_with_delivery_evidence_def)
  next
    case False
    with ns have "ev = AuthBeforeMessage \<or> ev = Unavailable"
      by (cases ev) (auto simp: assms(2) finish_def delivery_result_new_def Let_def split: sum.splits option.splits if_splits)
    with assms(1) show ?thesis
      by (auto simp: send_text_with_delivery_evidence_def split: feishu_mode.splits option.splits sum.splits prod.splits)
  qed
qed

theorem delivery_result_truthful_witness:
  "let run = send_text_with_delivery_evidence recording_http (Some (fh_token recording_http)) (feishu_from_config (enabled_account ''a''))
       ''u'' ''hi'' [];
       r = finish (\<lambda>i. i = ''id'') (fst run) (delivery_result_new (\<lambda>x. x) ''inv'' (enabled_account ''a'') ''u'' ''hi'')
   in result_accepted r \<and> dr_receipt r = Some (''id'', ''om_1'')"
proof -
  have t: "trim ''t'' = ''t''" "valid_remote_id ''om_1''" by code_simp+
  have run: "send_text_with_delivery_evidence recording_http (Some (fh_token recording_http))
      (feishu_from_config (enabled_account ''a'')) ''u'' ''hi'' [] =
    (MessageResult (Ok \<lparr> sr_message_id = ''id'', sr_platform_msg_id = Some ''om_1'', sr_timestamp_ms = 0 \<rparr>) True, [''u''])"
    by (simp add: send_text_with_delivery_evidence_def feishu_from_config_def enabled_account_def feishu_config_default_def
        ensure_tenant_token_def send_message_inner_def text_body recording_http_def t is_success_def receipt_def Let_def)
  note truth = delivery_result_truthful [OF run refl, of "\<lambda>i. i = ''id''" "\<lambda>x. x" "''inv''" "enabled_account ''a''", THEN conjunct1]
  show ?thesis
    unfolding Let_def run fst_conv truth by (auto simp: finish_def delivery_result_new_def Let_def t)
qed

end
