(* ===== verification/Dingtalk.thy ===== *)
theory Dingtalk
  imports Feishu_Channel
begin

text \<open>
  \<open>src/channels/dingtalk/channel.rs\<close> and \<open>error_semantics.rs\<close>.

  Requests, the clocks, JSON printing and identifiers are arguments. Instants are seconds of the
  monotonic clock; adding a duration that leaves the range of an instant panics, and a
  panicking call is \<open>None\<close>.
\<close>

section \<open>Classification of errors\<close>

datatype dingtalk_error_semantics = DRetryable | DTerminal | DUnknown

definition dingtalk_from_http_status :: "nat \<Rightarrow> dingtalk_error_semantics" where
  "dingtalk_from_http_status status_code =
     (if status_code \<in> {400, 401, 403, 404, 405} then DTerminal
      else if status_code = 408 \<or> status_code = 429 then DRetryable
      else if 500 \<le> status_code \<and> status_code \<le> 599 then DRetryable
      else DUnknown)"

definition from_dingtalk_errcode :: "int \<Rightarrow> dingtalk_error_semantics" where
  "from_dingtalk_errcode code =
     (if code = 0 then DTerminal
      else if code \<in> {33001, 90001, 90002, 90007} then DRetryable
      else if code \<in> {40001, 40003, 40014, 40102} then DTerminal
      else if code \<in> {40002, 40004, 60008} then DTerminal
      else if code = - 1 then DRetryable
      else DUnknown)"

definition dingtalk_should_retry :: "dingtalk_error_semantics \<Rightarrow> bool" where
  "dingtalk_should_retry s \<longleftrightarrow> s = DRetryable \<or> s = DUnknown"

definition dingtalk_is_terminal :: "dingtalk_error_semantics \<Rightarrow> bool" where
  "dingtalk_is_terminal s \<longleftrightarrow> s = DTerminal"

section \<open>The channel\<close>

record dingtalk_token_response =
  dt_errcode :: int
  dt_errmsg :: "string option"
  dt_access_token :: "string option"
  dt_expires_in :: "int option"

record dingtalk_send_request =
  ds_agent_id :: string
  ds_userid_list :: string
  ds_msg :: json

record dingtalk_send_response =
  dr_errcode :: int
  dr_errmsg :: string
  dr_task_id :: "int option"

record token_cache =
  tc_token :: string
  tc_expires_at :: nat

record dingtalk_config =
  dc_app_key :: string
  dc_app_secret :: string
  dc_agent_id :: string
  dc_base_url :: string
  dc_timeout_secs :: nat

datatype dingtalk_mode = DStub | DOpenApi dingtalk_config

record dingtalk_channel =
  dch_id :: channel_id
  dch_mode :: dingtalk_mode

record 'w dingtalk_http =
  dh_token :: "string \<Rightarrow> nat \<Rightarrow> 'w \<Rightarrow> (http_error + nat \<times> dingtalk_token_response) \<times> 'w"
  dh_send :: "string \<Rightarrow> nat \<Rightarrow> dingtalk_send_request \<Rightarrow> 'w \<Rightarrow> (http_error + nat \<times> dingtalk_send_response) \<times> 'w"
  dh_instant :: "'w \<Rightarrow> nat \<times> 'w"
  dh_uuid :: "'w \<Rightarrow> string \<times> 'w"
  dh_now_ms :: "'w \<Rightarrow> int \<times> 'w"
  dh_cache :: "'w \<Rightarrow> token_cache option"
  dh_set_cache :: "token_cache option \<Rightarrow> 'w \<Rightarrow> 'w"

definition dingtalk_new :: dingtalk_channel where
  "dingtalk_new = \<lparr> dch_id = ChannelId ''dingtalk'', dch_mode = DStub \<rparr>"

definition dingtalk_from_config :: "string \<Rightarrow> string \<Rightarrow> string \<Rightarrow> string \<Rightarrow> dingtalk_channel" where
  "dingtalk_from_config app_key app_secret agent_id base_url =
     (if app_key = [] \<or> app_secret = [] \<or> agent_id = [] then dingtalk_new
      else \<lparr> dch_id = ChannelId ''dingtalk'',
             dch_mode = DOpenApi \<lparr> dc_app_key = app_key, dc_app_secret = app_secret, dc_agent_id = agent_id,
               dc_base_url = (if base_url = [] then ''https://oapi.dingtalk.com'' else base_url), dc_timeout_secs = 30 \<rparr> \<rparr>)"

text \<open>\<open>expires_in as u64\<close> minus a minute, and the instant it gives from \<open>now\<close>.\<close>

definition token_lifetime :: "int option \<Rightarrow> nat" where
  "token_lifetime expires_in = nat ((case expires_in of Some n \<Rightarrow> n | None \<Rightarrow> 7200) mod 2 ^ 64) - 60"

definition instant_add :: "nat \<Rightarrow> nat \<Rightarrow> nat option" where
  "instant_add now secs = (if now + secs < 2 ^ 63 then Some (now + secs) else None)"

definition fetch_access_token ::
  "'w dingtalk_http \<Rightarrow> dingtalk_config \<Rightarrow> 'w \<Rightarrow> ((channel_error + string) \<times> 'w) option" where
  "fetch_access_token hp cfg w =
     (let url = dc_base_url cfg @ ''/gettoken?appkey='' @ dc_app_key cfg @ ''&appsecret='' @ dc_app_secret cfg in
      case dh_token hp url (dc_timeout_secs cfg) w of
        (Err (RequestFailed e), w1) \<Rightarrow> Some (Err (CTransport (''dingtalk gettoken: '' @ e)), w1)
      | (Err (ParseFailed e), w1) \<Rightarrow> Some (Err (CTransport (''dingtalk gettoken parse: '' @ e)), w1)
      | (Ok (status, body), w1) \<Rightarrow>
          if dt_errcode body \<noteq> 0
          then Some (Err (case from_dingtalk_errcode (dt_errcode body) of
                       DRetryable \<Rightarrow> CRateLimited 60
                     | _ \<Rightarrow> AuthExpired (dt_errcode body) (case dt_errmsg body of Some m \<Rightarrow> m | None \<Rightarrow> [])), w1)
          else (case dt_access_token body of
                  None \<Rightarrow> Some (Err (CInternal ''dingtalk: no access_token in response''), w1)
                | Some token \<Rightarrow>
                    (let (now, w2) = dh_instant hp w1 in
                     case instant_add now (token_lifetime (dt_expires_in body)) of
                       None \<Rightarrow> None
                     | Some expires_at \<Rightarrow>
                         Some (Ok token, dh_set_cache hp (Some \<lparr> tc_token = token, tc_expires_at = expires_at \<rparr>) w2))))"

definition ensure_access_token ::
  "'w dingtalk_http \<Rightarrow> dingtalk_config \<Rightarrow> 'w \<Rightarrow> ((channel_error + string) \<times> 'w) option" where
  "ensure_access_token hp cfg w =
     (case dh_cache hp w of
        None \<Rightarrow> fetch_access_token hp cfg w
      | Some c \<Rightarrow>
          (let (now, w1) = dh_instant hp w
           in if now < tc_expires_at c then Some (Ok (tc_token c), w1) else fetch_access_token hp cfg w1))"

definition dingtalk_map_content :: "message_content \<Rightarrow> channel_error + json" where
  "dingtalk_map_content content =
     (case content of
        Text t \<Rightarrow> Ok (JObject [(''msgtype'', JString ''text''), (''text'', JObject [(''content'', JString t)])])
      | Image url _ \<Rightarrow> Ok (JObject [(''msgtype'', JString ''image''), (''image'', JObject [(''media_id'', JString url)])])
      | File url name _ \<Rightarrow>
          Ok (JObject [(''msgtype'', JString ''file''), (''file'', JObject [(''media_id'', JString url), (''file_name'', JString name)])])
      | Unknown \<Rightarrow> Err (Unsupported ''dingtalk: unsupported message content type''))"

definition dingtalk_stub_send ::
  "'w dingtalk_http \<Rightarrow> message_content \<Rightarrow> 'w \<Rightarrow> (channel_error + send_receipt) \<times> 'w" where
  "dingtalk_stub_send hp content w =
     (case dingtalk_map_content content of
        Err e \<Rightarrow> (Err e, w)
      | Ok _ \<Rightarrow>
          (let (i, w1) = dh_uuid hp w; (t1, w2) = dh_now_ms hp w1; (t2, w3) = dh_now_ms hp w2
           in (Ok \<lparr> sr_message_id = i, sr_platform_msg_id = Some (''dingtalk_stub_'' @ show_int t1), sr_timestamp_ms = t2 \<rparr>, w3)))"

text \<open>The verdict on a response with an error code.\<close>

definition dingtalk_rejection :: "nat \<Rightarrow> dingtalk_send_response \<Rightarrow> channel_error" where
  "dingtalk_rejection status body =
     (let sem0 = from_dingtalk_errcode (dr_errcode body);
          sem = (if sem0 = DUnknown then dingtalk_from_http_status status else sem0)
      in if sem = DRetryable then CRateLimited 10
         else ContentRejected (''dingtalk send rejected: errcode='' @ show_int (dr_errcode body) @ '' msg='' @ dr_errmsg body))"

definition dingtalk_send_message ::
  "'w dingtalk_http \<Rightarrow> dingtalk_mode \<Rightarrow> string \<Rightarrow> message_content \<Rightarrow> 'w \<Rightarrow> ((channel_error + send_receipt) \<times> 'w) option" where
  "dingtalk_send_message hp mode dest content w =
     (case mode of
        DStub \<Rightarrow> Some (dingtalk_stub_send hp content w)
      | DOpenApi cfg \<Rightarrow>
          (case ensure_access_token hp cfg w of
             None \<Rightarrow> None
           | Some (Err e, w1) \<Rightarrow> Some (Err e, w1)
           | Some (Ok token, w1) \<Rightarrow>
               (case dingtalk_map_content content of
                  Err e \<Rightarrow> Some (Err e, w1)
                | Ok msg_body \<Rightarrow>
                    (let url = dc_base_url cfg @ ''/topapi/message/corpconversation/asyncsend_v2?access_token='' @ token in
                     case dh_send hp url (dc_timeout_secs cfg)
                            \<lparr> ds_agent_id = dc_agent_id cfg, ds_userid_list = dest, ds_msg = msg_body \<rparr> w1 of
                       (Err (RequestFailed e), w2) \<Rightarrow> Some (Err (CTransport (''dingtalk send: '' @ e)), w2)
                     | (Err (ParseFailed e), w2) \<Rightarrow> Some (Err (CTransport (''dingtalk send parse: '' @ e)), w2)
                     | (Ok (status, body), w2) \<Rightarrow>
                         if dr_errcode body \<noteq> 0 then Some (Err (dingtalk_rejection status body), w2)
                         else (let (i, w3) = dh_uuid hp w2; (now, w4) = dh_now_ms hp w3
                               in Some (Ok \<lparr> sr_message_id = i, sr_platform_msg_id = map_option show_int (dr_task_id body),
                                     sr_timestamp_ms = now \<rparr>, w4))))))"

definition dingtalk_health :: "dingtalk_mode \<Rightarrow> health_status" where
  "dingtalk_health mode =
     \<lparr> hs_channel = ''dingtalk'', hs_healthy = True,
       hs_detail = (case mode of
          DStub \<Rightarrow> ''skeleton '' @ [CHR 0xE2, CHR 0x80, CHR 0x94] @ '' not connected to platform''
        | DOpenApi cfg \<Rightarrow> ''openapi configured'') \<rparr>"

section \<open>Lemmas\<close>

text \<open>
  A cached token is used without a request while it is valid, and is given out only before
  the expiry recorded with it.
\<close>

lemma cached_token_used:
  assumes "dh_cache hp w = Some c" and "fst (dh_instant hp w) < tc_expires_at c"
  shows "ensure_access_token hp cfg w = Some (Ok (tc_token c), snd (dh_instant hp w))"
  using assms by (simp add: ensure_access_token_def split_beta)

lemma fresh_token_lifetime:
  assumes "fetch_access_token hp cfg w = Some (Ok token, w')"
  shows "\<exists>url body w1. dh_token hp url (dc_timeout_secs cfg) w = (Ok body, w1) \<and> dt_access_token (snd body) = Some token \<and>
    w' = dh_set_cache hp (Some \<lparr> tc_token = token,
      tc_expires_at = fst (dh_instant hp w1) + token_lifetime (dt_expires_in (snd body)) \<rparr>) (snd (dh_instant hp w1))"
proof -
  let ?url = "dc_base_url cfg @ ''/gettoken?appkey='' @ dc_app_key cfg @ ''&appsecret='' @ dc_app_secret cfg"
  obtain q w1 where req: "dh_token hp ?url (dc_timeout_secs cfg) w = (q, w1)" by force
  with assms obtain body where "q = Ok body"
    by (cases q) (auto simp: fetch_access_token_def Let_def split: http_error.splits)
  with assms req have "dt_access_token (snd body) = Some token"
      "w' = dh_set_cache hp (Some \<lparr> tc_token = token,
         tc_expires_at = fst (dh_instant hp w1) + token_lifetime (dt_expires_in (snd body)) \<rparr>) (snd (dh_instant hp w1))"
    by (auto simp: fetch_access_token_def instant_add_def Let_def split_beta split: if_splits option.splits)
  with req \<open>q = Ok body\<close> show ?thesis by blast
qed

text \<open>
  A response is judged by its error code alone: an HTTP error whose body has no error code
  (the field defaults to 0) counts as sent.
\<close>

lemma http_error_counts_as_sent:
  assumes "ensure_access_token hp cfg w = Some (Ok token, w1)" and "dingtalk_map_content content = Ok body"
    and "dh_send hp (dc_base_url cfg @ ''/topapi/message/corpconversation/asyncsend_v2?access_token='' @ token)
      (dc_timeout_secs cfg) \<lparr> ds_agent_id = dc_agent_id cfg, ds_userid_list = dest, ds_msg = body \<rparr> w1 =
      (Ok (500, \<lparr> dr_errcode = 0, dr_errmsg = [], dr_task_id = None \<rparr>), w2)"
  shows "\<exists>r w'. dingtalk_send_message hp (DOpenApi cfg) dest content w = Some (Ok r, w')"
  using assms by (simp add: dingtalk_send_message_def split_beta)

text \<open>Which rejections carry an error marked retryable: an unknown code alone is not enough.\<close>

lemma rejection_retryable:
  "channel_is_retryable (dingtalk_rejection status body) \<longleftrightarrow>
     from_dingtalk_errcode (dr_errcode body) = DRetryable \<or>
     from_dingtalk_errcode (dr_errcode body) = DUnknown \<and> dingtalk_from_http_status status = DRetryable"
  by (simp add: dingtalk_rejection_def Let_def)

end
