(* ===== verification/Cli_Agent.thy ===== *)
theory Cli_Agent
  imports Feishu_Webhook Pipeline
begin

text \<open>
  AI backends that run a local command: \<open>src/core/ai/cli_agent.rs\<close> and \<open>claude_code.rs\<close>, and the
  choice of backends in \<open>src/infrastructure/runtime.rs\<close>.

  Starting and watching the child is an argument: its result says how far it got and, when the
  child ended, gives the exit code and the chunks that were read from its pipes. JSON, JSON
  pointers, the lossy reading of bytes and the file system are arguments too.
\<close>

section \<open>Configurations\<close>

record cli_agent_config =
  ca_binary_path :: string
  ca_args :: "string list"
  ca_timeout_secs :: nat
  ca_max_output_bytes :: nat
  ca_result_json_pointer :: "string option"
  ca_read_output_file :: bool

record claude_code_config =
  cc_binary_path :: string
  cc_timeout_secs :: nat
  cc_max_output_bytes :: nat
  cc_extra_args :: "string list"

definition preset :: "string \<Rightarrow> cli_agent_config option" where
  "preset name =
     (if name = ''codex'' then
        Some \<lparr> ca_binary_path = ''codex'',
               ca_args = [''exec'', ''--skip-git-repo-check'', ''--sandbox'', ''read-only'', ''--color'', ''never'', ''-o'',
                          ''{output_file}'', ''{prompt}''],
               ca_timeout_secs = 120, ca_max_output_bytes = 16384, ca_result_json_pointer = None, ca_read_output_file = True \<rparr>
      else if name = ''copilot'' then
        Some \<lparr> ca_binary_path = ''copilot'', ca_args = [''-p'', ''{prompt}''], ca_timeout_secs = 90,
               ca_max_output_bytes = 16384, ca_result_json_pointer = None, ca_read_output_file = False \<rparr>
      else None)"

definition to_cli_config :: "claude_code_config \<Rightarrow> cli_agent_config" where
  "to_cli_config c =
     \<lparr> ca_binary_path = cc_binary_path c,
       ca_args = [''-p'', ''{prompt}'', ''--output-format'', ''json''] @ cc_extra_args c,
       ca_timeout_secs = cc_timeout_secs c, ca_max_output_bytes = cc_max_output_bytes c,
       ca_result_json_pointer = Some ''/result'', ca_read_output_file = False \<rparr>"

definition quoted :: "string \<Rightarrow> string" where
  "quoted s = [CHR 0x27] @ s @ [CHR 0x27]"

section \<open>Arguments\<close>

text \<open>\<open>str::replace\<close> for a pattern that is not empty: leftmost matches, not overlapping.\<close>

function replace :: "string \<Rightarrow> string \<Rightarrow> string \<Rightarrow> string" where
  "replace p t s =
     (if p = [] \<or> s = [] then s
      else if starts_with s p then t @ replace p t (drop (length p) s)
      else hd s # replace p t (tl s))"
  by pat_completeness auto
termination by (relation "measure (\<lambda>(p, t, s). length s)") auto

declare replace.simps [simp del]

definition build_arg :: "string \<Rightarrow> string option \<Rightarrow> string \<Rightarrow> string" where
  "build_arg prompt out_file a =
     (if contains a ''{prompt}'' then replace ''{prompt}'' prompt a
      else if contains a ''{output_file}''
      then (case out_file of Some p \<Rightarrow> replace ''{output_file}'' p a | None \<Rightarrow> a)
      else a)"

definition build_argv :: "string list \<Rightarrow> string \<Rightarrow> string option \<Rightarrow> string list" where
  "build_argv args prompt out_file =
     map (build_arg prompt out_file) args @
     (if list_ex (\<lambda>a. contains a ''{prompt}'') args then [] else [prompt])"

section \<open>Output\<close>

text \<open>The loop of \<open>read_capped\<close> over the chunks that were read, up to the end or an error.\<close>

fun read_capped :: "nat \<Rightarrow> bytes \<Rightarrow> bytes list \<Rightarrow> bytes" where
  "read_capped limit buf [] = buf"
| "read_capped limit buf (chunk # chunks) =
     (if chunk = [] then buf
      else read_capped limit
             (if length buf < limit then buf @ take (min (length chunk) (limit - length buf)) chunk else buf) chunks)"

definition read_file_capped :: "nat \<Rightarrow> bytes \<Rightarrow> bytes" where
  "read_file_capped limit bs = (if length bs > limit then take limit bs else bs)"

text \<open>
  Control characters in UTF-8: the ASCII ones and the two-byte encodings of U+0080 to U+009F.
\<close>

definition byte_of :: "char \<Rightarrow> nat" where
  "byte_of c = of_char c"

fun strip_control :: "string \<Rightarrow> string" where
  "strip_control [] = []"
| "strip_control (c # cs) =
     (if byte_of c < 32 \<or> byte_of c = 127
      then (if byte_of c = 10 \<or> byte_of c = 9 then c # strip_control cs else strip_control cs)
      else (case cs of
              [] \<Rightarrow> [c]
            | c' # cs' \<Rightarrow> if byte_of c = 194 \<and> 128 \<le> byte_of c' \<and> byte_of c' < 160 then strip_control cs'
                          else c # strip_control cs))"

definition is_char_boundary :: "string \<Rightarrow> nat \<Rightarrow> bool" where
  "is_char_boundary s i \<longleftrightarrow> i = 0 \<or> i = length s \<or> (i < length s \<and> \<not> (128 \<le> byte_of (s ! i) \<and> byte_of (s ! i) < 192))"

fun floor_boundary :: "string \<Rightarrow> nat \<Rightarrow> nat" where
  "floor_boundary s 0 = 0"
| "floor_boundary s (Suc n) = (if is_char_boundary s (Suc n) then Suc n else floor_boundary s n)"

definition truncated_mark :: string where
  "truncated_mark = [CHR 0xE2, CHR 0x80, CHR 0xA6] @ ''(truncated)''"

definition sanitize :: "string \<Rightarrow> nat \<Rightarrow> string" where
  "sanitize raw limit =
     (let trimmed = trim (strip_control raw)
      in if length trimmed > limit then take (floor_boundary trimmed limit) trimmed @ truncated_mark else trimmed)"

section \<open>Running the agent\<close>

datatype child_run =
    SpawnFailed string
  | NoStdout
  | NoStderr
  | TimedOut
  | WaitFailed string
  | Exited "int option" "bytes list" "bytes list"

record 'w agent_deps =
  ad_run :: "string \<Rightarrow> string list \<Rightarrow> nat \<Rightarrow> 'w \<Rightarrow> child_run \<times> 'w"
  ad_temp_file :: "'w \<Rightarrow> string \<times> 'w"
  ad_read_file :: "string \<Rightarrow> 'w \<Rightarrow> bytes option"
  ad_remove_file :: "string \<Rightarrow> 'w \<Rightarrow> 'w"
  ad_lossy :: "bytes \<Rightarrow> string"
  ad_json :: "string \<Rightarrow> string + json"
  ad_pointer :: "json \<Rightarrow> string \<Rightarrow> json option"

definition extract_reply :: "'w agent_deps \<Rightarrow> string \<Rightarrow> string option \<Rightarrow> string + string" where
  "extract_reply dp raw pointer =
     (case pointer of
        Some ptr \<Rightarrow>
          (case ad_json dp (trim raw) of
             Ok v \<Rightarrow>
               if json_get v ''is_error'' = Some (JBool True)
               then Err (''agent reported error: '' @ (case str_field v ''subtype'' of Some s \<Rightarrow> s | None \<Rightarrow> ''unknown''))
               else (case Option.bind (ad_pointer dp v ptr) json_as_str of
                       Some t \<Rightarrow> if t = [] then Err (''agent json missing non-empty value at pointer '' @ quoted ptr) else Ok t
                     | None \<Rightarrow> Err (''agent json missing non-empty value at pointer '' @ quoted ptr))
           | Err e \<Rightarrow> if trim raw \<noteq> [] then Ok (trim raw) else Err (''failed to parse agent output: '' @ e))
      | None \<Rightarrow> if trim raw = [] then Err ''agent produced empty output'' else Ok (trim raw))"

text \<open>
  \<open>status.code() as u16\<close> and its debug text; the timeout in milliseconds in 64-bit arithmetic.
\<close>

definition debug_code :: "int option \<Rightarrow> string" where
  "debug_code code = (case code of Some n \<Rightarrow> ''Some('' @ show_int n @ '')'' | None \<Rightarrow> ''None'')"

definition exit_status :: "int option \<Rightarrow> nat" where
  "exit_status code = nat ((case code of Some n \<Rightarrow> n | None \<Rightarrow> 0) mod 2 ^ 16)"

definition cleanup_file :: "'w agent_deps \<Rightarrow> string option \<Rightarrow> 'w \<Rightarrow> 'w" where
  "cleanup_file dp path w = (case path of Some p \<Rightarrow> ad_remove_file dp p w | None \<Rightarrow> w)"

text \<open>The reply of a child that ended well, from the output file, which then goes, or the standard output.\<close>

definition raw_reply ::
  "'w agent_deps \<Rightarrow> cli_agent_config \<Rightarrow> string option \<Rightarrow> bytes list \<Rightarrow> 'w \<Rightarrow> (ai_error + string) \<times> 'w" where
  "raw_reply dp cfg out_file out w =
     (case out_file of
        Some p \<Rightarrow>
          (let content = ad_read_file dp p w; w1 = cleanup_file dp out_file w in
           case content of
             Some bs \<Rightarrow> (Ok (ad_lossy dp (read_file_capped (ca_max_output_bytes cfg) bs)), w1)
           | None \<Rightarrow> (Err (Backend 0 (''agent '' @ quoted (ca_binary_path cfg) @ '' did not write its output file'')), w1))
      | None \<Rightarrow> (Ok (ad_lossy dp (read_capped (ca_max_output_bytes cfg) [] out)), w))"

text \<open>What follows the attempt to run the child; each way to fail removes the output file before it returns.\<close>

definition agent_verdict ::
  "'w agent_deps \<Rightarrow> cli_agent_config \<Rightarrow> string option \<Rightarrow> child_run \<Rightarrow> 'w \<Rightarrow> (ai_error + string) \<times> 'w" where
  "agent_verdict dp cfg out_file run w =
     (case run of
        SpawnFailed e \<Rightarrow>
          (Err (ATransport (''failed to spawn agent '' @ quoted (ca_binary_path cfg) @ '': '' @ e)), cleanup_file dp out_file w)
      | NoStdout \<Rightarrow> (Err (AInternal ''no stdout pipe''), cleanup_file dp out_file w)
      | NoStderr \<Rightarrow> (Err (AInternal ''no stderr pipe''), cleanup_file dp out_file w)
      | TimedOut \<Rightarrow> (Err (Timeout (ca_timeout_secs cfg * 1000 mod 2 ^ 64)), cleanup_file dp out_file w)
      | WaitFailed e \<Rightarrow> (Err (ATransport (''failed to wait for agent: '' @ e)), cleanup_file dp out_file w)
      | Exited code out err \<Rightarrow>
          if code \<noteq> Some 0
          then (Err (Backend (exit_status code)
                  (''agent '' @ quoted (ca_binary_path cfg) @ '' exited with status '' @ debug_code code)),
                cleanup_file dp out_file w)
          else (case raw_reply dp cfg out_file out w of
                  (Err e, w1) \<Rightarrow> (Err e, w1)
                | (Ok raw, w1) \<Rightarrow>
                    (case extract_reply dp raw (ca_result_json_pointer cfg) of
                       Err e \<Rightarrow> (Err (ai_error_from_string e), w1)
                     | Ok reply \<Rightarrow> (Ok (sanitize reply (ca_max_output_bytes cfg)), w1))))"

definition run_cli_agent :: "'w agent_deps \<Rightarrow> cli_agent_config \<Rightarrow> string \<Rightarrow> 'w \<Rightarrow> (ai_error + string) \<times> 'w" where
  "run_cli_agent dp cfg prompt w =
     (let (out_file, w1) = (if ca_read_output_file cfg then (let (p, w1) = ad_temp_file dp w in (Some p, w1)) else (None, w));
          (run, w2) = ad_run dp (ca_binary_path cfg) (build_argv (ca_args cfg) prompt out_file) (ca_timeout_secs cfg) w1
      in agent_verdict dp cfg out_file run w2)"

section \<open>Backends\<close>

definition cli_agent_backend :: "'w agent_deps \<Rightarrow> string \<Rightarrow> cli_agent_config \<Rightarrow> 'w ai_backend" where
  "cli_agent_backend dp name cfg =
     \<lparr> ab_name = name, ab_generate = \<lambda>input ctx w. run_cli_agent dp cfg input w \<rparr>"

definition claude_code_backend :: "'w agent_deps \<Rightarrow> claude_code_config \<Rightarrow> 'w ai_backend" where
  "claude_code_backend dp c =
     \<lparr> ab_name = ''claude_code'', ab_generate = \<lambda>input ctx w. run_cli_agent dp (to_cli_config c) input w \<rparr>"

definition claude_backend :: "'w ai_backend" where
  "claude_backend = \<lparr> ab_name = ''claude'', ab_generate = \<lambda>input ctx w. (Ok ''[claude stub] response placeholder'', w) \<rparr>"

definition openai_backend :: "'w ai_backend" where
  "openai_backend = \<lparr> ab_name = ''openai'', ab_generate = \<lambda>input ctx w. (Ok ''[openai stub] response placeholder'', w) \<rparr>"

definition create_backend ::
  "'w agent_deps \<Rightarrow> claude_code_config \<Rightarrow> (string \<rightharpoonup> cli_agent_config) \<Rightarrow> string \<Rightarrow> 'w ai_backend" where
  "create_backend dp claude agents name =
     (if name = ''echo'' then echo_backend
      else if name = ''claude_code'' then claude_code_backend dp claude
      else (case agents name of
              Some custom \<Rightarrow> cli_agent_backend dp name custom
            | None \<Rightarrow> (case preset name of
                        Some p \<Rightarrow> cli_agent_backend dp name p
                      | None \<Rightarrow> echo_backend)))"

text \<open>The backends a user can switch to, before each is put behind the AI gate.\<close>

definition backend_map ::
  "'w agent_deps \<Rightarrow> claude_code_config \<Rightarrow> (string \<rightharpoonup> cli_agent_config) \<Rightarrow> string \<rightharpoonup> 'w ai_backend" where
  "backend_map dp claude agents name =
     (if name \<in> {''echo'', ''claude_code'', ''codex'', ''openclaw'', ''hermes''} \<or> name \<in> dom agents
      then Some (create_backend dp claude agents name) else None)"

section \<open>Lemmas\<close>

lemma read_capped_eq:
  "length buf \<le> limit \<Longrightarrow> read_capped limit buf chunks = take limit (buf @ concat (takeWhile (\<lambda>c. c \<noteq> []) chunks))"
proof (induction chunks arbitrary: buf)
  case (Cons c cs)
  show ?case
  proof (cases "length buf < limit \<and> c \<noteq> []")
    case True
    let ?k = "limit - length buf" and ?rest = "concat (takeWhile (\<lambda>c. c \<noteq> []) cs)"
    have "take (min (length c) ?k) c = take ?k c" by (simp add: min_def)
    moreover have "take limit ((buf @ take ?k c) @ ?rest) = take limit (buf @ c @ ?rest)"
      by (cases "length c \<le> ?k") simp_all
    moreover have "length (buf @ take ?k c) \<le> limit" using True by (simp add: min_def) arith
    ultimately show ?thesis using True Cons.IH [of "buf @ take ?k c"] by simp
  qed (use Cons in \<open>auto simp: not_less\<close>)
qed simp

lemma floor_boundary_le: "floor_boundary s n \<le> n"
  by (induction n) auto

lemma floor_boundary_ok: "is_char_boundary s (floor_boundary s n)"
  by (induction n) (auto simp: is_char_boundary_def)

text \<open>A text without ASCII control characters other than tab and newline.\<close>

definition printable :: "string \<Rightarrow> bool" where
  "printable s \<longleftrightarrow> (\<forall>c \<in> set s. byte_of c \<in> {9, 10} \<or> 32 \<le> byte_of c \<and> byte_of c \<noteq> 127)"

lemma strip_control_printable: "printable (strip_control s)"
proof (induction s rule: strip_control.induct)
  case (2 c cs)
  show ?case
  proof (cases "byte_of c < 32 \<or> byte_of c = 127")
    case True
    with 2 show ?thesis by (auto simp: printable_def)
  next
    case False
    with 2 show ?thesis
      by (subst strip_control.simps) (auto simp: printable_def simp del: strip_control.simps split: list.split)
  qed
qed (simp add: printable_def)

lemma sanitize_contained:
  "printable (sanitize s limit)" "length (sanitize s limit) \<le> limit + length truncated_mark"
proof -
  let ?t = "trim (strip_control s)"
  have "set ?t \<subseteq> set (strip_control s)" by (rule set_trim)
  then have "printable ?t" using strip_control_printable [of s] by (auto simp: printable_def)
  moreover have "printable truncated_mark" by code_simp
  moreover have "set (take n ?t) \<subseteq> set ?t" for n by (rule set_take_subset)
  ultimately show "printable (sanitize s limit)"
    by (auto simp: sanitize_def Let_def printable_def)
  show "length (sanitize s limit) \<le> limit + length truncated_mark"
    using floor_boundary_le [of ?t limit] by (simp add: sanitize_def Let_def)
qed

lemma replace_whole: "p \<noteq> [] \<Longrightarrow> replace p t p = t"
  by (subst replace.simps) (simp add: starts_with_def replace.simps)

text \<open>
  The built-in names \<open>openclaw\<close> and \<open>hermes\<close> have no preset: without a configuration of their own
  they answer with the echo backend.
\<close>

lemma unconfigured_agent_echoes:
  assumes "agents name = None" and "name \<in> {''openclaw'', ''hermes''}"
  shows "backend_map dp claude agents name = Some echo_backend"
  using assms by (auto simp: backend_map_def create_backend_def preset_def)

text \<open>
  The preset for codex passes the prompt as its last, positional argument with nothing that ends
  the options before it, so a prompt that begins with a dash reaches the agent as an option.
\<close>

lemma codex_prompt_unprotected:
  "\<exists>cfg front. preset ''codex'' = Some cfg \<and> build_argv (ca_args cfg) prompt (Some f) = front @ [prompt] \<and> ''--'' \<notin> set (butlast front)"
proof -
  have "contains ''{prompt}'' ''{prompt}''" "contains ''{output_file}'' ''{output_file}''" "\<not> contains ''{output_file}'' ''{prompt}''"
      "\<forall>a \<in> set [''exec'', ''--skip-git-repo-check'', ''--sandbox'', ''read-only'', ''--color'', ''never'', ''-o''].
         \<not> contains a ''{prompt}'' \<and> \<not> contains a ''{output_file}''"
    by code_simp+
  then show ?thesis by (simp add: preset_def build_argv_def build_arg_def replace_whole)
qed

text \<open>A child that prints \<open>hi\<close> and a bell character.\<close>

definition ringing_agent :: "string list agent_deps" where
  "ringing_agent =
     \<lparr> ad_run = (\<lambda>b args t w. (Exited (Some 0) [[104, 105, 7]] [], w)), ad_temp_file = (\<lambda>w. (''f'', w)),
       ad_read_file = (\<lambda>p w. Some [104, 105, 7]), ad_remove_file = (\<lambda>p w. w @ [p]),
       ad_lossy = (\<lambda>bs. map (\<lambda>b. char_of (unat b)) bs), ad_json = (\<lambda>s. Err []), ad_pointer = (\<lambda>v p. None) \<rparr>"

section \<open>Properties\<close>

text \<open>
  C36. What an agent says reaches the user only cleaned and bounded: a reply has no ASCII control
  character except tab and newline and is at most the configured number of bytes long,
  plus the mark of a truncation; and however the run ends, the temporary output file is
  removed as the last step.
\<close>

theorem agent_reply_contained:
  assumes "run_cli_agent dp cfg prompt w = (res, w')"
  shows "(\<forall>reply. res = Ok reply \<longrightarrow> printable reply \<and> length reply \<le> ca_max_output_bytes cfg + length truncated_mark) \<and>
    (ca_read_output_file cfg \<longrightarrow> (\<exists>w1. w' = ad_remove_file dp (fst (ad_temp_file dp w)) w1))"
proof (intro conjI allI impI)
  fix reply assume "res = Ok reply"
  then obtain s where "reply = sanitize s (ca_max_output_bytes cfg)"
    using assms
    by (auto simp: run_cli_agent_def agent_verdict_def split_beta Let_def split: if_splits child_run.splits sum.splits prod.splits)
  then show "printable reply" "length reply \<le> ca_max_output_bytes cfg + length truncated_mark"
    using sanitize_contained by auto
next
  assume "ca_read_output_file cfg"
  with assms obtain run w2 where "agent_verdict dp cfg (Some (fst (ad_temp_file dp w))) run w2 = (res, w')"
    by (auto simp: run_cli_agent_def split_beta Let_def)
  then show "\<exists>w1. w' = ad_remove_file dp (fst (ad_temp_file dp w)) w1"
    by (auto simp: agent_verdict_def raw_reply_def cleanup_file_def Let_def
        split: child_run.splits if_splits sum.splits option.splits prod.splits)
qed

theorem agent_reply_contained_witness:
  "\<exists>cfg reply. preset ''codex'' = Some cfg \<and> fst (run_cli_agent ringing_agent cfg ''p'' []) = Ok reply \<and> printable reply"
proof -
  let ?cfg = "\<lparr> ca_binary_path = ''codex'',
               ca_args = [''exec'', ''--skip-git-repo-check'', ''--sandbox'', ''read-only'', ''--color'', ''never'', ''-o'',
                          ''{output_file}'', ''{prompt}''],
               ca_timeout_secs = 120, ca_max_output_bytes = 16384, ca_result_json_pointer = None, ca_read_output_file = True \<rparr>"
  have out: "trim (map (\<lambda>b. char_of (unat b)) [104, 105, 7 :: 8 word]) = ''hi'' @ [CHR 0x07]" by code_simp
  have "fst (run_cli_agent ringing_agent ?cfg ''p'' []) = Ok (sanitize (''hi'' @ [CHR 0x07]) 16384)"
    using out
    by (simp add: run_cli_agent_def agent_verdict_def raw_reply_def read_file_capped_def extract_reply_def ringing_agent_def
        cleanup_file_def)
  moreover from this have "printable (sanitize (''hi'' @ [CHR 0x07]) 16384)"
    using agent_reply_contained [OF prod.collapse [symmetric], of ringing_agent ?cfg "''p''" "[]"] by auto
  moreover have "preset ''codex'' = Some ?cfg" by (simp add: preset_def)
  ultimately show ?thesis by blast
qed

text \<open>
  The prompt stays where it belongs: the agent gets one argument for each configured one, and
  the prompt as one more only if none has its placeholder; an argument without the
  placeholder is the same for every prompt, and one that is the placeholder is exactly the
  prompt, whatever characters it contains.
\<close>

theorem prompt_stays_in_argument:
  assumes "i < length args"
  shows "length (build_argv args prompt out) = length args + (if list_ex (\<lambda>a. contains a ''{prompt}'') args then 0 else 1) \<and>
    (\<not> contains (args ! i) ''{prompt}'' \<longrightarrow> build_argv args prompt out ! i = build_argv args prompt' out ! i) \<and>
    (args ! i = ''{prompt}'' \<longrightarrow> build_argv args prompt out ! i = prompt) \<and>
    (\<not> list_ex (\<lambda>a. contains a ''{prompt}'') args \<longrightarrow> last (build_argv args prompt out) = prompt)"
proof -
  have "contains ''{prompt}'' ''{prompt}''" by code_simp
  with assms show ?thesis by (simp add: build_argv_def nth_append build_arg_def replace_whole)
qed

theorem prompt_stays_in_argument_witness:
  "build_argv [''-p'', ''{prompt}''] ''$(rm -rf /)'' None ! 1 = ''$(rm -rf /)''"
  using prompt_stays_in_argument [of 1 "[''-p'', ''{prompt}'']" "''$(rm -rf /)''" None "[]"] by simp

end
