(* ===== verification/Supervisor.thy ===== *)
theory Supervisor
  imports Magiclaw_Prelude
begin

text \<open>
  \<open>src/infrastructure/task_supervisor.rs\<close>. The runtime's join set is the list of the tasks that
  are running and the queue of those that ended and were not collected: the value of a task is
  its name, and a task that panicked has a text instead. Tasks end by steps of the environment.
\<close>

datatype task_state = TaskRunning | Completed | Failed string

record task_status =
  ts_name :: string
  ts_state :: task_state

record join_set =
  js_active :: "string list"
  js_ended :: "(string + string) list"

record task_supervisor =
  sv_set :: join_set
  sv_running :: "(nat \<times> string) list"
  sv_last_statuses :: "task_status list"

definition supervisor_new :: task_supervisor where
  "supervisor_new = \<lparr> sv_set = \<lparr> js_active = [], js_ended = [] \<rparr>, sv_running = [], sv_last_statuses = [] \<rparr>"

definition spawn_task :: "string \<Rightarrow> task_supervisor \<Rightarrow> task_supervisor" where
  "spawn_task name s = s\<lparr>sv_set := (sv_set s)\<lparr>js_active := js_active (sv_set s) @ [name]\<rparr>\<rparr>"

text \<open>The loop over \<open>try_join_next\<close>.\<close>

fun drain_ended :: "(string + string) list \<Rightarrow> (nat \<times> string) list \<Rightarrow> task_status list \<times> (nat \<times> string) list" where
  "drain_ended [] running = ([], running)"
| "drain_ended (Ok name # rs) running =
     (let (out, running') = drain_ended rs (filter (\<lambda>(i, v). v \<noteq> name) running)
      in (\<lparr> ts_name = name, ts_state = Completed \<rparr> # out, running'))"
| "drain_ended (Err detail # rs) running =
     (let (out, running') = drain_ended rs running
      in (\<lparr> ts_name = ''<unknown>'', ts_state = Failed detail \<rparr> # out, running'))"

definition poll_status :: "task_supervisor \<Rightarrow> task_status list \<times> task_supervisor" where
  "poll_status s =
     (let (out, running) = drain_ended (js_ended (sv_set s)) (sv_running s);
          last = sv_last_statuses s @ out;
          kept = (if length last > 256 then drop (length last - 256) last else last)
      in (out, s\<lparr>sv_set := (sv_set s)\<lparr>js_ended := []\<rparr>, sv_running := running, sv_last_statuses := kept\<rparr>))"

definition running_names :: "task_supervisor \<Rightarrow> string list" where
  "running_names s = map snd (sv_running s)"

definition active_count :: "task_supervisor \<Rightarrow> nat" where
  "active_count s = length (js_active (sv_set s)) + length (js_ended (sv_set s))"

definition shutdown :: "task_supervisor \<Rightarrow> task_supervisor" where
  "shutdown s = s\<lparr>sv_set := \<lparr> js_active = [], js_ended = [] \<rparr>, sv_running := []\<rparr>"

section \<open>Runs\<close>

text \<open>Calls of the supervisor, interleaved with the ends of tasks.\<close>

inductive supervisor_step :: "task_supervisor \<Rightarrow> task_supervisor \<Rightarrow> bool" where
  spawned: "supervisor_step s (spawn_task name s)"
| polled: "supervisor_step s (snd (poll_status s))"
| shut: "supervisor_step s (shutdown s)"
| ended: "js_active (sv_set s) = xs @ name # ys \<Longrightarrow> r = Ok name \<or> r = Err detail \<Longrightarrow>
    supervisor_step s (s\<lparr>sv_set := \<lparr> js_active = xs @ ys, js_ended = js_ended (sv_set s) @ [r] \<rparr>\<rparr>)"

abbreviation supervisor_reachable :: "task_supervisor \<Rightarrow> bool" where
  "supervisor_reachable \<equiv> supervisor_step\<^sup>*\<^sup>* supervisor_new"

lemma drain_ended_nothing_running: "snd (drain_ended rs []) = []"
  by (induction rs "[] :: (nat \<times> string) list" rule: drain_ended.induct) (simp_all add: split_beta)

lemma drain_ended_statuses:
  "fst (drain_ended rs running) =
     map (\<lambda>r. case r of Ok n \<Rightarrow> \<lparr> ts_name = n, ts_state = Completed \<rparr>
                      | Err d \<Rightarrow> \<lparr> ts_name = ''<unknown>'', ts_state = Failed d \<rparr>) rs"
  by (induction rs running rule: drain_ended.induct) (simp_all add: split_beta)

text \<open>
  The map of running tasks is never filled, so no task is ever reported as running; the kept
  statuses stay within their bound.
\<close>

lemma supervisor_invariant:
  assumes "supervisor_reachable s"
  shows "running_names s = []" and "length (sv_last_statuses s) \<le> 256"
proof -
  have "sv_running s = [] \<and> length (sv_last_statuses s) \<le> 256"
    using assms
  proof (induction rule: rtranclp_induct)
    case base
    show ?case by (simp add: supervisor_new_def)
  next
    case (step s t)
    from step(2,3) show ?case
      by cases (auto simp: spawn_task_def shutdown_def poll_status_def drain_ended_nothing_running split_beta Let_def)
  qed
  then show "running_names s = []" "length (sv_last_statuses s) \<le> 256" by (simp_all add: running_names_def)
qed

text \<open>A task that panicked loses its name.\<close>

lemma failed_task_nameless:
  assumes "st \<in> set (fst (poll_status s))" and "ts_state st = Failed detail"
  shows "ts_name st = ''<unknown>''"
  using assms by (auto simp: poll_status_def drain_ended_statuses split_beta Let_def split: sum.splits)

end
