(* ===== verification/Wechat_Media.thy ===== *)
theory Wechat_Media
  imports Resilience Audit_Chain
begin

text \<open>
  \<open>src/channels/wechat/media.rs\<close> and the data of \<open>src/domain/ports/media.rs\<close>: locations of
  media, a file that is read in chunks and may be opened again and again, and uploading behind a
  bulkhead and a timeout.

  The file system is the record \<open>media_fs\<close>. A read of \<open>n\<close> bytes may deliver fewer, but at least
  one before the end of the file; how many is the argument \<open>rd\<close>, one answer per read. The
  uploader behind the decorator is an argument: its result, or \<open>None\<close> when it does not finish
  in time.
\<close>

section \<open>Locations\<close>

datatype media_location = LocalFile string | RemoteUrl string

definition parse_location :: "string \<Rightarrow> media_error + media_location" where
  "parse_location raw =
     (let s = trim raw in
      if s = [] then Err (Source ''empty media location'')
      else (case strip_prefix s ''file://'' of
              Some path \<Rightarrow> if trim path = [] then Err (Source ''file:// with empty path'') else Ok (LocalFile path)
            | None \<Rightarrow>
                if starts_with s ''http://'' \<or> starts_with s ''https://'' then Ok (RemoteUrl s)
                else Err (Source (''unsupported or ambiguous media location: '' @ s))))"

definition mime_from_filename :: "string \<Rightarrow> string" where
  "mime_from_filename filename =
     (let ext = map ascii_lower (last (split_on (CHR ''.'') filename)) in
      if ext = ''png'' then ''image/png''
      else if ext = ''jpg'' \<or> ext = ''jpeg'' then ''image/jpeg''
      else if ext = ''gif'' then ''image/gif''
      else if ext = ''webp'' then ''image/webp''
      else if ext = ''pdf'' then ''application/pdf''
      else if ext = ''txt'' then ''text/plain''
      else if ext = ''mp4'' then ''video/mp4''
      else if ext = ''mp3'' then ''audio/mpeg''
      else ''application/octet-stream'')"

text \<open>\<open>Path::file_name\<close>: the last component of the path, unless that is \<open>..\<close>.\<close>

definition path_file_name :: "string \<Rightarrow> string option" where
  "path_file_name path =
     (case filter (\<lambda>c. c \<noteq> [] \<and> c \<noteq> ''.'') (split_on (CHR ''/'') path) of
        [] \<Rightarrow> None
      | cs \<Rightarrow> if last cs = ''..'' then None else Some (last cs))"

section \<open>Files as sources\<close>

record media_meta =
  mm_filename :: string
  mm_mime :: string
  mm_size :: nat

record file_metadata =
  fm_is_file :: bool
  fm_len :: nat

record 'w media_fs =
  mf_metadata :: "string \<Rightarrow> 'w \<Rightarrow> (string + file_metadata) \<times> 'w"
  mf_open :: "string \<Rightarrow> 'w \<Rightarrow> (string + bytes) \<times> 'w"

record file_media_source =
  fs_path :: string
  fs_meta :: media_meta
  fs_chunk_bytes :: nat

definition file_media_source_new ::
  "'w media_fs \<Rightarrow> string \<Rightarrow> nat \<Rightarrow> nat \<Rightarrow> 'w \<Rightarrow> (media_error + file_media_source) \<times> 'w" where
  "file_media_source_new fs path chunk_bytes size_limit w =
     (case mf_metadata fs path w of
        (Err e, w1) \<Rightarrow> (Err (Source (''stat '' @ path @ '': '' @ e)), w1)
      | (Ok md, w1) \<Rightarrow>
          if \<not> fm_is_file md then (Err (Source (''not a regular file: '' @ path)), w1)
          else if 0 < size_limit \<and> size_limit < fm_len md then (Err (TooLarge (fm_len md) size_limit), w1)
          else (let filename = (case path_file_name path of Some n \<Rightarrow> n | None \<Rightarrow> ''file'')
                in (Ok \<lparr> fs_path = path,
                        fs_meta = \<lparr> mm_filename = filename, mm_mime = mime_from_filename filename, mm_size = fm_len md \<rparr>,
                        fs_chunk_bytes = max chunk_bytes 1 \<rparr>, w1)))"

record file_chunk_stream =
  cs_rest :: bytes
  cs_chunk_bytes :: nat

definition open_source :: "'w media_fs \<Rightarrow> file_media_source \<Rightarrow> 'w \<Rightarrow> (media_error + file_chunk_stream) \<times> 'w" where
  "open_source fs src w =
     (case mf_open fs (fs_path src) w of
        (Err e, w1) \<Rightarrow> (Err (Source (''open '' @ fs_path src @ '': '' @ e)), w1)
      | (Ok content, w1) \<Rightarrow> (Ok \<lparr> cs_rest = content, cs_chunk_bytes = fs_chunk_bytes src \<rparr>, w1))"

text \<open>How many bytes a read into a buffer of \<open>n\<close> bytes delivers when \<open>k\<close> are offered.\<close>

definition bytes_read :: "nat \<Rightarrow> nat \<Rightarrow> bytes \<Rightarrow> nat" where
  "bytes_read k n rest = min (max 1 k) (min n (length rest))"

definition next_chunk :: "string + nat \<Rightarrow> file_chunk_stream \<Rightarrow> (media_error + bytes option) \<times> file_chunk_stream" where
  "next_chunk rd st =
     (case rd of
        Err e \<Rightarrow> (Err (Source (''read: '' @ e)), st)
      | Ok k \<Rightarrow>
          (let n = bytes_read k (cs_chunk_bytes st) (cs_rest st) in
           if n = 0 then (Ok None, st)
           else (Ok (Some (take n (cs_rest st))), st\<lparr>cs_rest := drop n (cs_rest st)\<rparr>)))"

text \<open>A consumer that asks for chunks until the stream ends or fails; \<open>rd i\<close> answers read \<open>i\<close>.\<close>

function drain :: "(nat \<Rightarrow> string + nat) \<Rightarrow> file_chunk_stream \<Rightarrow> media_error + bytes list" where
  "drain rd st =
     (case next_chunk (rd 0) st of
        (Err e, _) \<Rightarrow> Err e
      | (Ok None, _) \<Rightarrow> Ok []
      | (Ok (Some c), st1) \<Rightarrow> (case drain (\<lambda>i. rd (Suc i)) st1 of Err e \<Rightarrow> Err e | Ok cs \<Rightarrow> Ok (c # cs)))"
  by pat_completeness auto

lemma next_chunk_shorter: "next_chunk r st = (Ok (Some c), st1) \<Longrightarrow> length (cs_rest st1) < length (cs_rest st)"
  by (auto simp: next_chunk_def bytes_read_def Let_def split: sum.splits if_splits)

termination drain
  by (relation "measure (\<lambda>(rd, st). length (cs_rest st))") (auto dest!: next_chunk_shorter [OF sym])

declare drain.simps [simp del]

section \<open>Uploads\<close>

record media_ref =
  mr_media_id :: string
  mr_url :: "string option"

record resilient_uploader =
  ru_bulkhead :: bulkhead
  ru_timeout_ms :: nat

definition resilient_uploader_new :: "nat \<Rightarrow> nat \<Rightarrow> resilient_uploader" where
  "resilient_uploader_new max_concurrent timeout =
     \<lparr> ru_bulkhead = bulkhead_new (max max_concurrent 1), ru_timeout_ms = timeout \<rparr>"

definition uploader_with_defaults :: resilient_uploader where
  "uploader_with_defaults = resilient_uploader_new 4 60000"

definition uploads_active :: "resilient_uploader \<Rightarrow> nat" where
  "uploads_active u = bh_active_count (ru_bulkhead u)"

text \<open>
  \<open>upload\<close> in two steps, as other uploads may run in between: taking a permit (\<open>None\<close> is
  waiting for one), and ending with the result of the uploader or with the timeout, which drops
  the permit either way.
\<close>

definition upload_start :: "resilient_uploader \<Rightarrow> resilient_uploader option" where
  "upload_start u = map_option (\<lambda>b. u\<lparr>ru_bulkhead := b\<rparr>) (bh_acquire (ru_bulkhead u))"

definition upload_end ::
  "(media_error + media_ref) option \<Rightarrow> resilient_uploader \<Rightarrow> (media_error + media_ref) \<times> resilient_uploader" where
  "upload_end result u =
     ((case result of
         Some r \<Rightarrow> r
       | None \<Rightarrow> Err (Upload (''upload timed out after '' @ show_nat (ru_timeout_ms u) @ ''ms''))),
      u\<lparr>ru_bulkhead := bh_release (ru_bulkhead u)\<rparr>)"

inductive upload_step :: "resilient_uploader \<Rightarrow> resilient_uploader \<Rightarrow> bool" where
  started: "upload_start u = Some u' \<Longrightarrow> upload_step u u'"
| ended: "0 < uploads_active u \<Longrightarrow> upload_step u (snd (upload_end r u))"

inductive upload_reachable :: "nat \<Rightarrow> nat \<Rightarrow> resilient_uploader \<Rightarrow> bool" for n t where
  init: "upload_reachable n t (resilient_uploader_new n t)"
| more: "upload_reachable n t u \<Longrightarrow> upload_step u u' \<Longrightarrow> upload_reachable n t u'"

section \<open>Lemmas\<close>

lemma parse_location_local: "parse_location raw = Ok (LocalFile p) \<Longrightarrow> trim raw = ''file://'' @ p \<and> trim p \<noteq> []"
  by (auto simp: parse_location_def Let_def strip_prefix_Some split: if_splits option.splits)

lemma parse_location_remote:
  "parse_location raw = Ok (RemoteUrl u) \<Longrightarrow> u = trim raw \<and> (starts_with u ''http://'' \<or> starts_with u ''https://'')"
  by (auto simp: parse_location_def Let_def split: if_splits option.splits)

lemma drain_chunks:
  assumes "drain rd st = Ok cs" and "0 < cs_chunk_bytes st"
  shows "concat cs = cs_rest st \<and> (\<forall>c\<in>set cs. c \<noteq> [] \<and> length c \<le> cs_chunk_bytes st)"
  using assms
proof (induction rd st arbitrary: cs rule: drain.induct)
  case (1 rd st)
  show ?case
  proof (cases "rd 0")
    case (Inl e)
    then show ?thesis using "1.prems" by (simp add: drain.simps [of rd st] next_chunk_def)
  next
    case (Inr k)
    let ?n = "bytes_read k (cs_chunk_bytes st) (cs_rest st)"
    show ?thesis
    proof (cases "?n = 0")
      case True
      then have "cs_rest st = []" using "1.prems"(2) by (auto simp: bytes_read_def min_def split: if_splits)
      then show ?thesis using "1.prems"(1) True Inr by (simp add: drain.simps [of rd st] next_chunk_def)
    next
      case False
      let ?st = "st\<lparr>cs_rest := drop ?n (cs_rest st)\<rparr>"
      have nc: "next_chunk (rd 0) st = (Ok (Some (take ?n (cs_rest st))), ?st)"
        using False Inr by (simp add: next_chunk_def Let_def)
      then obtain cs' where cs': "drain (\<lambda>i. rd (Suc i)) ?st = Ok cs'" "cs = take ?n (cs_rest st) # cs'"
        using "1.prems"(1) by (auto simp: drain.simps [of rd st] split: sum.splits)
      have "concat cs' = cs_rest ?st \<and> (\<forall>c\<in>set cs'. c \<noteq> [] \<and> length c \<le> cs_chunk_bytes ?st)"
        using "1.IH" [OF nc [symmetric] refl refl cs'(1)] "1.prems"(2) by simp
      then show ?thesis using cs'(2) False by (auto simp: bytes_read_def)
    qed
  qed
qed

lemma drain_total:
  assumes "\<And>i. is_Ok (rd i)"
  shows "is_Ok (drain rd st)"
  using assms
proof (induction rd st rule: drain.induct)
  case (1 rd st)
  from "1.prems" [of 0] obtain k where k: "rd 0 = Ok k" by (auto simp: is_Ok_def split: sum.splits)
  let ?n = "bytes_read k (cs_chunk_bytes st) (cs_rest st)"
  let ?st = "st\<lparr>cs_rest := drop ?n (cs_rest st)\<rparr>"
  show ?case
  proof (cases "?n = 0")
    case True
    then show ?thesis using k by (simp add: drain.simps [of rd st] next_chunk_def is_Ok_def)
  next
    case False
    then have nc: "next_chunk (rd 0) st = (Ok (Some (take ?n (cs_rest st))), ?st)"
      using k by (simp add: next_chunk_def Let_def)
    from "1.IH" [OF nc [symmetric] refl refl] "1.prems" have "is_Ok (drain (\<lambda>i. rd (Suc i)) ?st)" by simp
    then show ?thesis using nc by (auto simp: drain.simps [of rd st] is_Ok_def split: sum.splits)
  qed
qed

lemma upload_bulkhead:
  "upload_reachable n t u \<Longrightarrow> bulkhead_reachable (max n 1) (ru_bulkhead u) \<and> ru_timeout_ms u = t"
proof (induction rule: upload_reachable.induct)
  case init
  then show ?case by (simp add: resilient_uploader_new_def bulkhead_reachable.start)
next
  case (more u u')
  from more(2) show ?case
  proof cases
    case started
    then show ?thesis using more(3) bulkhead_step.acquire bulkhead_reachable.step
      by (fastforce simp: upload_start_def)
  next
    case (ended r)
    then show ?thesis using more(3) bulkhead_step.release bulkhead_reachable.step
      by (fastforce simp: upload_end_def uploads_active_def)
  qed
qed

section \<open>Properties\<close>

text \<open>
  C32. A file accepted as a source is read completely and in order, whatever sizes the reads
  have: as long as no read fails the stream ends, its chunks joined are the content of the file
  at the time of opening, no chunk is empty or larger than the configured size (at least one
  byte), and a file over the limit is never accepted. Every opening starts from the beginning.
\<close>

theorem file_streamed_exactly:
  assumes "file_media_source_new fs path chunk limit w = (Ok src, w1)"
    and "mf_open fs path w2 = (Ok content, w3)" and "\<And>i. is_Ok (rd i)"
  shows "\<exists>st chunks. open_source fs src w2 = (Ok st, w3) \<and> drain rd st = Ok chunks \<and> concat chunks = content \<and>
    list_all (\<lambda>c. 1 \<le> length c \<and> length c \<le> max chunk 1) chunks \<and>
    (limit = 0 \<or> mm_size (fs_meta src) \<le> limit)"
proof -
  from assms(1) have src: "fs_path src = path" "fs_chunk_bytes src = max chunk 1"
    "limit = 0 \<or> mm_size (fs_meta src) \<le> limit"
    by (auto simp: file_media_source_new_def Let_def split: sum.splits prod.splits if_splits)
  let ?st = "\<lparr> cs_rest = content, cs_chunk_bytes = max chunk 1 \<rparr>"
  have "open_source fs src w2 = (Ok ?st, w3)" using src assms(2) by (simp add: open_source_def)
  moreover obtain chunks where "drain rd ?st = Ok chunks"
    using drain_total [of rd ?st] assms(3) by (auto simp: is_Ok_def split: sum.splits)
  ultimately show ?thesis using drain_chunks [of rd ?st chunks] src(3)
    by (fastforce simp: list_all_iff Suc_le_eq)
qed

text \<open>A file system with one file.\<close>

definition one_file :: "string \<Rightarrow> bytes \<Rightarrow> unit media_fs" where
  "one_file path content =
     \<lparr> mf_metadata = (\<lambda>p w. (if p = path then Ok \<lparr> fm_is_file = True, fm_len = length content \<rparr> else Err ''absent'', w)),
       mf_open = (\<lambda>p w. (if p = path then Ok content else Err ''absent'', w)) \<rparr>"

theorem file_streamed_exactly_witness:
  "\<exists>src st chunks. fst (file_media_source_new (one_file ''/a.png'' [1, 2, 3, 4, 5]) ''/a.png'' 2 9 ()) = Ok src \<and>
     fst (open_source (one_file ''/a.png'' [1, 2, 3, 4, 5]) src ()) = Ok st \<and>
     drain (\<lambda>i. Ok 7) st = Ok chunks \<and> concat chunks = [1, 2, 3, 4, 5]"
proof -
  let ?fs = "one_file ''/a.png'' [1, 2, 3, 4, 5]"
  obtain src where src: "file_media_source_new ?fs ''/a.png'' 2 9 () = (Ok src, ())"
    by (simp add: file_media_source_new_def one_file_def Let_def)
  have "mf_open ?fs ''/a.png'' () = (Ok [1, 2, 3, 4, 5], ())" by (simp add: one_file_def)
  from file_streamed_exactly [OF src this, of "\<lambda>i. Ok 7"] src show ?thesis
    by (force simp: is_Ok_def)
qed

end
