(* ===== verification/Wechat_Ilink.thy ===== *)
theory Wechat_Ilink
  imports Json_Http Audit_Chain
begin

text \<open>
  \<open>src/channels/wechat/ilink.rs\<close>, the client of the ilink protocol, and \<open>WeChatConfig\<close> of
  \<open>src/infrastructure/config.rs\<close>.

  Requests, parsing JSON, the derived readings of the responses, base64, AES, the clock, random
  numbers and identifiers are arguments: the fields of \<open>ilink_http\<close> on the world \<open>'w\<close>, and the
  block functions of the cipher. Integers of a response are \<open>i32\<close> or \<open>i64\<close> values.
\<close>

section \<open>Configuration\<close>

record wechat_config =
  wc_enabled :: bool
  wc_base_url :: string
  wc_token :: string
  wc_context_token :: string
  wc_channel_version :: string
  wc_account_id :: string
  wc_timeout_ms :: nat
  wc_keepalive_timeout_ms :: nat

definition wechat_config_default :: wechat_config where
  "wechat_config_default =
     \<lparr> wc_enabled = False, wc_base_url = [], wc_token = [], wc_context_token = [], wc_channel_version = ''0.1.0'',
       wc_account_id = ''default'', wc_timeout_ms = 15000, wc_keepalive_timeout_ms = 4000 \<rparr>"

record ilink_send_config =
  ic_base_url :: string
  ic_token :: string
  ic_from_user_id :: string
  ic_context_token :: string
  ic_channel_version :: string
  ic_timeout_ms :: nat
  ic_keepalive_timeout_ms :: nat

definition from_wechat_config :: "wechat_config \<Rightarrow> ilink_send_config option" where
  "from_wechat_config cfg =
     (if \<not> wc_enabled cfg then None
      else if trim (wc_base_url cfg) = [] \<or> trim (wc_token cfg) = [] then None
      else Some \<lparr> ic_base_url = trim (wc_base_url cfg), ic_token = trim (wc_token cfg),
             ic_from_user_id = trim (wc_account_id cfg), ic_context_token = trim (wc_context_token cfg),
             ic_channel_version = trim (wc_channel_version cfg), ic_timeout_ms = wc_timeout_ms cfg,
             ic_keepalive_timeout_ms = wc_keepalive_timeout_ms cfg \<rparr>)"

section \<open>Responses\<close>

record ilink_response =
  ir_ret :: int
  ir_errcode :: "int option"
  ir_errmsg :: "string option"

datatype ilink_error_code = Success | BadParam | AuthFailed | RateLimited | SessionExpiredCode | UnknownCode int

definition ilink_error_code_from :: "int \<Rightarrow> ilink_error_code" where
  "ilink_error_code_from code =
     (if code = 0 then Success else if code = 1 then BadParam else if code = 2 then AuthFailed
      else if code = 3 then RateLimited else if code = 4 then SessionExpiredCode else UnknownCode code)"

definition ilink_is_success :: "ilink_response \<Rightarrow> bool" where
  "ilink_is_success r = (ir_ret r = 0)"

definition ilink_error_code_of :: "ilink_response \<Rightarrow> ilink_error_code option" where
  "ilink_error_code_of r = map_option ilink_error_code_from (ir_errcode r)"

record ilink_item =
  ii_item_type :: "int option"
  ii_text_item :: "string option option"

record ilink_message =
  im_message_type :: "int option"
  im_from_user_id :: "string option"
  im_to_user_id :: "string option"
  im_group_id :: "string option"
  im_context_token :: "string option"
  im_item_list :: "ilink_item list"

record ilink_qrcode_response =
  iq_ret :: int
  iq_errcode :: "int option"
  iq_errmsg :: "string option"
  iq_qrcode :: string
  iq_qrcode_img_content :: "string option"

record ilink_qrcode_status_response =
  qs_ret :: int
  qs_errcode :: "int option"
  qs_errmsg :: "string option"
  qs_status :: "string option"
  qs_bot_token :: "string option"
  qs_baseurl :: "string option"
  qs_ilink_bot_id :: "string option"
  qs_ilink_user_id :: "string option"

record ilink_updates =
  iu_ret :: int
  iu_errcode :: "int option"
  iu_errmsg :: "string option"
  iu_msgs :: "ilink_message list"
  iu_get_updates_buf :: "string option"

datatype get_updates_error =
    Transport string
  | SessionExpired int string
  | Business int int string

fun get_updates_error_display :: "get_updates_error \<Rightarrow> string" where
  "get_updates_error_display (Transport msg) = msg"
| "get_updates_error_display (SessionExpired errcode errmsg) =
     ''ilink session expired: errcode='' @ show_int errcode @ '', errmsg='' @ errmsg"
| "get_updates_error_display (Business ret errcode errmsg) =
     ''ilink getupdates business error: ret='' @ show_int ret @ '', errcode='' @ show_int errcode @ '', errmsg='' @ errmsg"

section \<open>The HTTP client\<close>

record 'w ilink_http =
  ih_post :: "string \<Rightarrow> headers \<Rightarrow> nat \<Rightarrow> json \<Rightarrow> 'w \<Rightarrow> (http_failure + response) \<times> 'w"
  ih_get :: "string \<Rightarrow> headers \<Rightarrow> 'w \<Rightarrow> (http_failure + response) \<times> 'w"
  ih_json :: "string \<Rightarrow> string + json"
  ih_updates :: "string \<Rightarrow> string + ilink_updates"
  ih_qrcode :: "string \<Rightarrow> string + ilink_qrcode_response"
  ih_qrcode_status :: "string \<Rightarrow> string + ilink_qrcode_status_response"
  ih_status_text :: "nat \<Rightarrow> string"
  ih_header_ok :: "string \<Rightarrow> bool"
  ih_b64 :: "bytes \<Rightarrow> string"
  ih_random :: "'w \<Rightarrow> 32 word \<times> 'w"
  ih_uuid :: "'w \<Rightarrow> string \<times> 'w"
  ih_uuid_simple :: "'w \<Rightarrow> string \<times> 'w"
  ih_now_ms :: "'w \<Rightarrow> int \<times> 'w"

definition random_wechat_uin :: "'w ilink_http \<Rightarrow> 'w \<Rightarrow> string \<times> 'w" where
  "random_wechat_uin hp w = (let (v, w1) = ih_random hp w in (ih_b64 hp (as_bytes (show_nat (unat v))), w1))"

definition build_headers :: "'w ilink_http \<Rightarrow> string \<Rightarrow> 'w \<Rightarrow> headers \<times> 'w" where
  "build_headers hp token w =
     (let (uin, w1) = random_wechat_uin hp w; auth = ''Bearer '' @ trim token
      in ([(''content-type'', ''application/json''), (''authorizationtype'', ''ilink_bot_token'')]
          @ (if ih_header_ok hp uin then [(''x-wechat-uin'', uin)] else [])
          @ (if ih_header_ok hp auth then [(''authorization'', auth)] else []), w1))"

definition with_slash :: "string \<Rightarrow> string" where
  "with_slash base_url = (if base_url \<noteq> [] \<and> last base_url = CHR ''/'' then base_url else base_url @ ''/'')"

text \<open>The payloads as the derived serialisers write them.\<close>

definition base_info :: "string \<Rightarrow> json" where
  "base_info channel_version =
     JObject (if channel_version = [] then [] else [(''channel_version'', JString channel_version)])"

definition send_payload :: "ilink_send_config \<Rightarrow> string \<Rightarrow> string \<Rightarrow> string \<Rightarrow> json" where
  "send_payload cfg client_id dest body =
     JObject
       [(''msg'', JObject
           [(''from_user_id'', JString (ic_from_user_id cfg)), (''to_user_id'', JString dest),
            (''client_id'', JString client_id), (''message_type'', JInt 2), (''message_state'', JInt 2),
            (''item_list'', JArray [JObject [(''type'', JInt 1), (''text_item'', JObject [(''text'', JString body)])]]),
            (''context_token'', JString (ic_context_token cfg))]),
        (''base_info'', base_info (ic_channel_version cfg))]"

definition build_send_request_payload ::
  "'w ilink_http \<Rightarrow> ilink_send_config \<Rightarrow> string \<Rightarrow> string \<Rightarrow> 'w \<Rightarrow> json \<times> 'w" where
  "build_send_request_payload hp cfg dest body w =
     (let (now, w1) = ih_now_ms hp w; (i, w2) = ih_uuid_simple hp w1
      in (send_payload cfg (''wechat-channel:'' @ show_int now @ ''-'' @ i) dest body, w2))"

section \<open>Sending a text\<close>

definition server_id :: "json \<Rightarrow> string option" where
  "server_id v =
     (case Option.bind (json_get v ''msg'') (\<lambda>m. str_field m ''server_id'') of
        Some s \<Rightarrow> Some s | None \<Rightarrow> str_field v ''server_id'')"

definition has_server_id :: "json \<Rightarrow> bool" where
  "has_server_id v \<longleftrightarrow>
     (case Option.bind (json_get v ''msg'') (\<lambda>m. str_field m ''server_id'') of Some s \<Rightarrow> trim s \<noteq> [] | None \<Rightarrow> False) \<or>
     (case str_field v ''server_id'' of Some s \<Rightarrow> trim s \<noteq> [] | None \<Rightarrow> False)"

definition or_else :: "'a \<Rightarrow> 'a option \<Rightarrow> 'a" where
  "or_else d x = (case x of Some v \<Rightarrow> v | None \<Rightarrow> d)"

text \<open>What \<open>send_text_via_ilink\<close> makes of the JSON value in a successful response.\<close>

definition judge_send_response :: "json \<Rightarrow> string + json" where
  "judge_send_response v =
     (let errcode = as_i32 (or_else 0 (int_field v ''errcode''));
          ret = or_else 0 (int_field v ''ret'') in
      if errcode = - 14
      then Err (''wechat session expired (errcode=-14): '' @ or_else ''session expired'' (str_field v ''errmsg''))
      else if errcode \<noteq> 0
      then Err (''ilink business error: ret='' @ show_int ret @ '', errcode='' @ show_int errcode @ '', errmsg='' @
             or_else ''unknown error'' (str_field v ''errmsg''))
      else if ret \<noteq> 0 \<and> \<not> has_server_id v
      then Err (''ilink send rejected: ret='' @ show_int ret @ '', errcode='' @ show_int errcode @ '', errmsg='' @
             or_else ''unknown error'' (str_field v ''errmsg''))
      else Ok v)"

definition send_text_via_ilink ::
  "'w ilink_http \<Rightarrow> ilink_send_config \<Rightarrow> string \<Rightarrow> string \<Rightarrow> 'w \<Rightarrow> (string + json) \<times> 'w" where
  "send_text_via_ilink hp cfg dest body w =
     (let url = with_slash (ic_base_url cfg) @ ''ilink/bot/sendmessage'';
          (payload, w1) = build_send_request_payload hp cfg dest body w;
          (hs, w2) = build_headers hp (ic_token cfg) w1 in
      case ih_post hp url hs (ic_timeout_ms cfg) payload w2 of
        (Err e, w3) \<Rightarrow> (Err (''ilink request failed: '' @ failure_text e), w3)
      | (Ok (status, Err e), w3) \<Rightarrow> (Err (''failed to read ilink response: '' @ e), w3)
      | (Ok (status, Ok reply), w3) \<Rightarrow>
          if \<not> is_success status then (Err (''ilink HTTP '' @ ih_status_text hp status @ '': '' @ reply), w3)
          else if trim reply = [] then (Err ''ilink empty response body (session may be expired)'', w3)
          else (case ih_json hp (trim reply) of
                  Err e \<Rightarrow> (Err (''invalid ilink JSON response: '' @ e), w3)
                | Ok v \<Rightarrow> (judge_send_response v, w3)))"

section \<open>Polling\<close>

definition no_updates :: "string \<Rightarrow> ilink_updates" where
  "no_updates sync_buf =
     \<lparr> iu_ret = 0, iu_errcode = None, iu_errmsg = None, iu_msgs = [], iu_get_updates_buf = Some sync_buf \<rparr>"

definition judge_updates :: "ilink_updates \<Rightarrow> get_updates_error + ilink_updates" where
  "judge_updates v =
     (if iu_errcode v = Some (- 14) then Err (SessionExpired (- 14) (or_else ''session expired'' (iu_errmsg v)))
      else if iu_ret v \<noteq> 0
      then Err (Business (iu_ret v) (or_else 0 (iu_errcode v)) (or_else ''unknown error'' (iu_errmsg v)))
      else Ok v)"

definition get_updates_via_ilink ::
  "'w ilink_http \<Rightarrow> ilink_send_config \<Rightarrow> string \<Rightarrow> 'w \<Rightarrow> (get_updates_error + ilink_updates) \<times> 'w" where
  "get_updates_via_ilink hp cfg sync_buf w =
     (let url = with_slash (ic_base_url cfg) @ ''ilink/bot/getupdates'';
          payload = JObject [(''get_updates_buf'', JString sync_buf), (''base_info'', base_info (ic_channel_version cfg))];
          (hs, w1) = build_headers hp (ic_token cfg) w in
      case ih_post hp url hs (ic_keepalive_timeout_ms cfg) payload w1 of
        (Err (OtherFailure e), w2) \<Rightarrow> (Err (Transport (''ilink getupdates failed: '' @ e)), w2)
      | (Err _, w2) \<Rightarrow> (Ok (no_updates sync_buf), w2)
      | (Ok (status, Err e), w2) \<Rightarrow> (Err (Transport (''failed to read ilink getupdates response: '' @ e)), w2)
      | (Ok (status, Ok reply), w2) \<Rightarrow>
          if \<not> is_success status
          then (Err (Transport (''ilink getupdates HTTP '' @ ih_status_text hp status @ '': '' @ reply)), w2)
          else if trim reply = [] then (Ok (no_updates sync_buf), w2)
          else (case ih_updates hp (trim reply) of
                  Err e \<Rightarrow> (Err (Transport (''invalid ilink getupdates JSON response: '' @ e)), w2)
                | Ok v \<Rightarrow> (judge_updates v, w2)))"

text \<open>The newest non-blank context token of the messages, or of those with the peer.\<close>

fun latest_token :: "string option \<Rightarrow> ilink_message list \<Rightarrow> string option" where
  "latest_token peer [] = None"
| "latest_token peer (m # ms) =
     (case im_context_token m of
        None \<Rightarrow> latest_token peer ms
      | Some token \<Rightarrow>
          if peer \<noteq> None \<and> im_from_user_id m \<noteq> peer \<and> im_to_user_id m \<noteq> peer then latest_token peer ms
          else if trim token \<noteq> [] then Some token
          else latest_token peer ms)"

definition extract_latest_context_token :: "ilink_message list \<Rightarrow> string option \<Rightarrow> string option" where
  "extract_latest_context_token msgs peer = latest_token peer (rev msgs)"

section \<open>Login by QR code\<close>

text \<open>
  Both login requests read their response the same way; \<open>parse\<close> and the three readers are those
  of the response at hand.
\<close>

definition qr_reply ::
  "'w ilink_http \<Rightarrow> string \<Rightarrow> (string \<Rightarrow> string + 'r) \<Rightarrow> ('r \<Rightarrow> int) \<Rightarrow> ('r \<Rightarrow> int option) \<Rightarrow> ('r \<Rightarrow> string option) \<Rightarrow>
   (http_failure + response) \<Rightarrow> string + 'r" where
  "qr_reply hp name parse ret errcode errmsg r =
     (case r of
        Err e \<Rightarrow> Err (''ilink '' @ name @ '' request failed: '' @ failure_text e)
      | Ok (status, Err e) \<Rightarrow> Err (''failed to read ilink '' @ name @ '' response: '' @ e)
      | Ok (status, Ok reply) \<Rightarrow>
          if \<not> is_success status then Err (''ilink '' @ name @ '' HTTP '' @ ih_status_text hp status @ '': '' @ reply)
          else (case parse (trim reply) of
                  Err e \<Rightarrow> Err (''invalid ilink '' @ name @ '' JSON response: '' @ e)
                | Ok v \<Rightarrow>
                    if ret v \<noteq> 0
                    then Err (''ilink '' @ name @ '' business error: ret='' @ show_int (ret v) @ '', errcode='' @
                           show_int (or_else 0 (errcode v)) @ '', errmsg='' @ or_else ''unknown error'' (errmsg v))
                    else Ok v))"

definition get_bot_qrcode :: "'w ilink_http \<Rightarrow> string \<Rightarrow> 'w \<Rightarrow> (string + ilink_qrcode_response) \<times> 'w" where
  "get_bot_qrcode hp base_url w =
     (let (r, w1) = ih_get hp (with_slash base_url @ ''ilink/bot/get_bot_qrcode?bot_type=3'') [] w
      in (qr_reply hp ''get_bot_qrcode'' (ih_qrcode hp) iq_ret iq_errcode iq_errmsg r, w1))"

definition get_qrcode_status ::
  "'w ilink_http \<Rightarrow> string \<Rightarrow> string \<Rightarrow> 'w \<Rightarrow> (string + ilink_qrcode_status_response) \<times> 'w" where
  "get_qrcode_status hp base_url qrcode w =
     (let (r, w1) = ih_get hp (with_slash base_url @ ''ilink/bot/get_qrcode_status?qrcode='' @ qrcode)
                      [(''ilink-app-clientversion'', ''1'')] w
      in (qr_reply hp ''get_qrcode_status'' (ih_qrcode_status hp) qs_ret qs_errcode qs_errmsg r, w1))"

section \<open>AES-128-ECB with PKCS7 padding\<close>

text \<open>\<open>chunks_exact_mut(16)\<close>: every full block is replaced, a shorter rest stays.\<close>

function map_blocks :: "(bytes \<Rightarrow> bytes) \<Rightarrow> bytes \<Rightarrow> bytes" where
  "map_blocks f bs = (if length bs < 16 then bs else f (take 16 bs) @ map_blocks f (drop 16 bs))"
  by pat_completeness auto
termination by (relation "measure (\<lambda>(f, bs). length bs)") auto

declare map_blocks.simps [simp del]

datatype decrypt_error = EmptyInput | InvalidPadding | KeyError string

definition encrypt_aes_128_ecb_pkcs7 :: "(bytes \<Rightarrow> bytes \<Rightarrow> bytes) \<Rightarrow> bytes \<Rightarrow> bytes \<Rightarrow> bytes" where
  "encrypt_aes_128_ecb_pkcs7 enc plaintext key =
     (let p = 16 - length plaintext mod 16;
          pad_len = (if p = 0 then 16 else p)
      in map_blocks (enc key) (plaintext @ replicate pad_len (word_of_nat pad_len)))"

definition decrypt_aes_128_ecb_pkcs7 ::
  "(bytes \<Rightarrow> bytes \<Rightarrow> bytes) \<Rightarrow> bytes \<Rightarrow> bytes \<Rightarrow> decrypt_error + bytes" where
  "decrypt_aes_128_ecb_pkcs7 dec encrypted key =
     (if encrypted = [] then Err EmptyInput
      else if length encrypted mod 16 \<noteq> 0 then Err InvalidPadding
      else (let decrypted = map_blocks (dec key) encrypted in
            if decrypted = [] then Err EmptyInput
            else (let pad_len = unat (last decrypted) in
                  if pad_len = 0 \<or> 16 < pad_len \<or> length decrypted < pad_len then Err InvalidPadding
                  else (let start = length decrypted - pad_len in
                        if \<not> list_all (\<lambda>b. unat b = pad_len) (drop start decrypted) then Err InvalidPadding
                        else Ok (take start decrypted)))))"

section \<open>Lemmas on blocks\<close>

text \<open>A block function that keeps the length 16 of a block.\<close>

definition keeps_blocks :: "(bytes \<Rightarrow> bytes) \<Rightarrow> bool" where
  "keeps_blocks f \<longleftrightarrow> (\<forall>b. length b = 16 \<longrightarrow> length (f b) = 16)"

lemma map_blocks_short: "length bs < 16 \<Longrightarrow> map_blocks f bs = bs"
  by (simp add: map_blocks.simps [of f bs])

lemma map_blocks_block: "length b = 16 \<Longrightarrow> map_blocks f (b @ bs) = f b @ map_blocks f bs"
  by (subst map_blocks.simps) simp

lemma length_map_blocks [simp]: "keeps_blocks f \<Longrightarrow> length (map_blocks f bs) = length bs"
proof (induction f bs rule: map_blocks.induct)
  case (1 f bs)
  then show ?case by (subst map_blocks.simps) (auto simp: keeps_blocks_def)
qed

lemma map_blocks_inverse:
  assumes "keeps_blocks f" and "\<And>b. length b = 16 \<Longrightarrow> g (f b) = b"
  shows "map_blocks g (map_blocks f bs) = bs"
  using assms
proof (induction f bs rule: map_blocks.induct)
  case (1 f bs)
  show ?case
  proof (cases "length bs < 16")
    case True
    then show ?thesis by (simp add: map_blocks_short)
  next
    case False
    then have "length (f (take 16 bs)) = 16" and "g (f (take 16 bs)) = take 16 bs"
      using "1.prems" by (simp_all add: keeps_blocks_def)
    with False show ?thesis
      using "1.IH" [OF False "1.prems"] by (simp add: map_blocks.simps [of f bs] map_blocks_block)
  qed
qed

lemma drop_replicate_tail:
  assumes "k \<le> length xs" and "list_all (\<lambda>x. x = v) (drop (length xs - k) xs)"
  shows "take (length xs - k) xs @ replicate k v = xs"
proof -
  have "drop (length xs - k) xs = replicate k v"
    using assms by (intro replicate_eqI) (auto simp: list_all_iff)
  then show ?thesis by (metis append_take_drop_id)
qed

text \<open>The length of the padding, from both sides.\<close>

lemma padded_multiple: "(n + (16 - n mod 16)) mod 16 = (0 :: nat)"
proof -
  have "(n + (16 - n mod 16)) mod 16 = (n mod 16 + (16 - n mod 16)) mod 16" by (rule mod_add_left_eq [symmetric])
  also have "n mod 16 + (16 - n mod 16) = 16" by (rule le_add_diff_inverse) (simp add: less_imp_le)
  finally show ?thesis by simp
qed

lemma pad_length:
  fixes n p :: nat
  assumes "(n + p) mod 16 = 0" and "0 < p" and "p \<le> 16"
  shows "16 - n mod 16 = p"
proof -
  define r where "r = n mod 16"
  have "r < 16" by (simp add: r_def)
  have "(r + p) mod 16 = 0" using assms(1) by (simp add: r_def mod_add_left_eq)
  then have "r + p = 16 * ((r + p) div 16)" by presburger
  moreover have "(r + p) div 16 < 2" and "0 < r + p" using \<open>r < 16\<close> assms by auto
  ultimately have "r + p = 16" by (cases "(r + p) div 16") auto
  then show ?thesis by (simp add: r_def)
qed

lemma unat_pad: "0 < p \<Longrightarrow> p \<le> 16 \<Longrightarrow> unat (word_of_nat p :: 8 word) = p"
  by (simp add: unat_of_nat)

definition padded :: "bytes \<Rightarrow> bytes" where
  "padded p = p @ replicate (16 - length p mod 16) (word_of_nat (16 - length p mod 16))"

lemma encrypt_padded: "encrypt_aes_128_ecb_pkcs7 enc p key = map_blocks (enc key) (padded p)"
proof -
  have "16 - length p mod 16 \<noteq> 0" by (simp add: not_le)
  then show ?thesis unfolding encrypt_aes_128_ecb_pkcs7_def padded_def Let_def by (simp only: if_False)
qed

text \<open>What is accepted after decryption is exactly what padding produces.\<close>

lemma unpadded:
  assumes "keeps_blocks (dec key)"
  shows "decrypt_aes_128_ecb_pkcs7 dec c key = Ok p \<longleftrightarrow> map_blocks (dec key) c = padded p"
proof
  let ?d = "map_blocks (dec key) c"
  assume ok: "decrypt_aes_128_ecb_pkcs7 dec c key = Ok p"
  define k where "k = unat (last ?d)"
  from ok have m: "length c mod 16 = 0" and k: "k \<noteq> 0" "k \<le> 16" "k \<le> length ?d"
    and all: "list_all (\<lambda>b. unat b = k) (drop (length ?d - k) ?d)" and p: "p = take (length ?d - k) ?d"
    by (auto simp: decrypt_aes_128_ecb_pkcs7_def Let_def k_def split: if_splits)
  from all have "list_all (\<lambda>b. b = word_of_nat k) (drop (length ?d - k) ?d)"
    by (auto simp: list_all_iff)
  from drop_replicate_tail [OF k(3) this] p have d: "p @ replicate k (word_of_nat k) = ?d" by simp
  then have "length p + k = length c" using assms by (metis length_append length_map_blocks length_replicate)
  with pad_length [of "length p" k] m k have "16 - length p mod 16 = k" by simp
  with d show "?d = padded p" by (simp add: padded_def)
next
  let ?d = "map_blocks (dec key) c"
  assume d: "?d = padded p"
  define k where "k = 16 - length p mod 16"
  have k: "0 < k" "k \<le> 16" by (simp_all add: k_def)
  have d': "?d = p @ replicate k (word_of_nat k)" using d by (simp add: padded_def k_def)
  have len: "length c = length p + k" using assms d' by (metis length_append length_map_blocks length_replicate)
  have "length c mod 16 = 0" using len padded_multiple [of "length p"] by (simp add: k_def)
  moreover have "c \<noteq> []" and "?d \<noteq> []" using len k d' by auto
  moreover have "unat (last ?d) = k" using d' k unat_pad [OF k] by (simp add: last_replicate)
  moreover have "drop (length p) ?d = replicate k (word_of_nat k)" and "take (length p) ?d = p"
    and "length ?d = length p + k" using d' by simp_all
  ultimately show "decrypt_aes_128_ecb_pkcs7 dec c key = Ok p"
    using k unat_pad [OF k] by (simp add: decrypt_aes_128_ecb_pkcs7_def Let_def list_all_iff)
qed

text \<open>Reading the answer of a send.\<close>

lemma judge_send_Ok:
  "judge_send_response v = Ok u \<longleftrightarrow> u = v \<and> as_i32 (or_else 0 (int_field v ''errcode'')) = 0 \<and>
     (or_else 0 (int_field v ''ret'') = 0 \<or> has_server_id v)"
  by (auto simp: judge_send_response_def Let_def)

text \<open>An error code is cut to 32 bits before it is looked at: 2 to the 32 counts as success.\<close>

lemma errcode_wraps: "judge_send_response (JObject [(''errcode'', JInt (2 ^ 32))]) = Ok (JObject [(''errcode'', JInt (2 ^ 32))])"
  by (simp add: judge_send_Ok as_i32_def or_else_def int_field_def is_i64_def i64_min_def i64_max_def)

text \<open>The classification of error codes does not know the code of an expired session.\<close>

lemma session_code_unknown: "ilink_error_code_from (- 14) = UnknownCode (- 14)"
  by (simp add: ilink_error_code_from_def)

text \<open>An expired session never comes back as a business error.\<close>

lemma business_not_expired: "get_updates_via_ilink hp cfg buf w = (Err (Business ret errcode errmsg), w') \<Longrightarrow> errcode \<noteq> - 14"
  by (auto simp: get_updates_via_ilink_def judge_updates_def or_else_def Let_def
      split: sum.splits prod.splits http_failure.splits if_splits option.splits)

lemma expired_is_expired: "get_updates_via_ilink hp cfg buf w = (Err (SessionExpired errcode errmsg), w') \<Longrightarrow> errcode = - 14"
  by (auto simp: get_updates_via_ilink_def judge_updates_def Let_def
      split: sum.splits prod.splits http_failure.splits if_splits)

lemma latest_token_Some:
  "latest_token peer ms = Some t \<Longrightarrow> \<exists>m\<in>set ms. im_context_token m = Some t \<and> trim t \<noteq> [] \<and>
     (peer = None \<or> im_from_user_id m = peer \<or> im_to_user_id m = peer)"
  by (induction ms) (auto split: option.splits if_splits)

section \<open>Properties\<close>

text \<open>
  C31. For any permutation of the 16-byte blocks as the cipher, decryption succeeds with a text
  exactly on the encryption of that text: encrypting and decrypting is the identity, and every
  other input (empty, of a length that is no multiple of 16, or wrongly padded) is an error.
\<close>

theorem aes_accepts_encryptions:
  assumes "\<And>b. length b = 16 \<Longrightarrow> length (enc key b) = 16 \<and> dec key (enc key b) = b"
    and "\<And>b. length b = 16 \<Longrightarrow> length (dec key b) = 16 \<and> enc key (dec key b) = b"
  shows "decrypt_aes_128_ecb_pkcs7 dec c key = Ok p \<longleftrightarrow> c = encrypt_aes_128_ecb_pkcs7 enc p key"
proof -
  have k: "keeps_blocks (enc key)" "keeps_blocks (dec key)" using assms by (simp_all add: keeps_blocks_def)
  have "map_blocks (dec key) c = padded p \<longleftrightarrow> c = map_blocks (enc key) (padded p)"
    using map_blocks_inverse [OF k(1), of "dec key"] map_blocks_inverse [OF k(2), of "enc key"] assms by metis
  with unpadded [of dec key c p] k(2) show ?thesis by (simp add: encrypt_padded)
qed

theorem aes_accepts_encryptions_witness:
  "decrypt_aes_128_ecb_pkcs7 (\<lambda>k b. rev b) (encrypt_aes_128_ecb_pkcs7 (\<lambda>k b. rev b) (as_bytes ''hello world'') []) [] =
   Ok (as_bytes ''hello world'')"
  using aes_accepts_encryptions [of "\<lambda>k b. rev b" "[]" "\<lambda>k b. rev b"
      "encrypt_aes_128_ecb_pkcs7 (\<lambda>k b. rev b) (as_bytes ''hello world'') []" "as_bytes ''hello world''"]
  by simp

end
