(* ===== verification/Wechat_Channel.thy ===== *)
theory Wechat_Channel
  imports Wechat_Ilink Wechat_Media Channels
begin

text \<open>
  \<open>src/channels/wechat/channel.rs\<close> and \<open>session.rs\<close>: the WeChat channel with its session of
  context tokens, its polling task and sending, and the buffer session over a persistent store.

  The state is the pair of the session the polling task and the senders share and the world
  \<open>'w\<close> of the stores and the platform. The stores are records of operations (the traits
  \<open>SyncBufStore\<close> and \<open>ContextTokenStore\<close>), the SQLite stores their instances. Handing a message
  to the inbound channel answers whether the receiver is still there. The polling task is cut
  after \<open>n\<close> turns.
\<close>

section \<open>Stores\<close>

record 'w sync_ops =
  sy_load :: "string \<Rightarrow> string \<Rightarrow> 'w \<Rightarrow> (store_error + bytes) \<times> 'w"
  sy_save :: "string \<Rightarrow> string \<Rightarrow> bytes \<Rightarrow> 'w \<Rightarrow> (store_error + unit) \<times> 'w"

record 'w token_ops =
  tk_set :: "string \<Rightarrow> string \<Rightarrow> string \<Rightarrow> 'w \<Rightarrow> (store_error + unit) \<times> 'w"
  tk_get_all :: "string \<Rightarrow> 'w \<Rightarrow> (store_error + (string \<rightharpoonup> string)) \<times> 'w"
  tk_delete_all :: "string \<Rightarrow> 'w \<Rightarrow> (store_error + unit) \<times> 'w"
  tk_delete :: "string \<Rightarrow> string \<Rightarrow> 'w \<Rightarrow> (store_error + unit) \<times> 'w"

definition sqlite_sync_store :: "env \<Rightarrow> 'w db_scheme sync_ops" where
  "sqlite_sync_store e = \<lparr> sy_load = sync_buf_load e, sy_save = sync_buf_save e \<rparr>"

definition sqlite_token_store :: "env \<Rightarrow> 'w db_scheme token_ops" where
  "sqlite_token_store e =
     \<lparr> tk_set = (\<lambda>a u t. token_set e (a, u) t), tk_get_all = token_get_all e, tk_delete_all = token_delete_all e,
       tk_delete = (\<lambda>a u. token_delete e (a, u)) \<rparr>"

section \<open>The buffer session\<close>

record wechat_session =
  wx_channel :: string
  wx_account :: string
  wx_sync_buf :: bytes
  wx_restored :: bool

definition session_new :: "'w sync_ops \<Rightarrow> string \<Rightarrow> string \<Rightarrow> 'w \<Rightarrow> (store_error + wechat_session) \<times> 'w" where
  "session_new ops channel account w =
     (case sy_load ops channel account w of
        (Err er, w1) \<Rightarrow> (Err er, w1)
      | (Ok buf, w1) \<Rightarrow>
          (Ok \<lparr> wx_channel = channel, wx_account = account, wx_sync_buf = buf, wx_restored = (buf \<noteq> []) \<rparr>, w1))"

definition was_restored :: "wechat_session \<Rightarrow> bool" where
  "was_restored s = wx_restored s"

definition update_sync_buf ::
  "'w sync_ops \<Rightarrow> bytes \<Rightarrow> wechat_session \<times> 'w \<Rightarrow> (store_error + unit) \<times> wechat_session \<times> 'w" where
  "update_sync_buf ops buf sw =
     (let (s, w) = sw in
      case sy_save ops (wx_channel s) (wx_account s) buf w of
        (Err er, w1) \<Rightarrow> (Err er, s, w1)
      | (Ok _, w1) \<Rightarrow> (Ok (), s\<lparr>wx_sync_buf := buf\<rparr>, w1))"

definition append_to_sync_buf ::
  "'w sync_ops \<Rightarrow> bytes \<Rightarrow> wechat_session \<times> 'w \<Rightarrow> (store_error + unit) \<times> wechat_session \<times> 'w" where
  "append_to_sync_buf ops data sw = update_sync_buf ops (wx_sync_buf (fst sw) @ data) sw"

section \<open>The channel and its session\<close>

record session_state =
  ss_context_tokens :: "string \<rightharpoonup> string"
  ss_sync_buf :: string

definition get_context_token :: "session_state \<Rightarrow> string \<Rightarrow> string option" where
  "get_context_token s user_id = ss_context_tokens s user_id"

definition set_context_token :: "string \<Rightarrow> string \<Rightarrow> session_state \<Rightarrow> session_state" where
  "set_context_token user_id token s = s\<lparr>ss_context_tokens := (ss_context_tokens s)(user_id \<mapsto> token)\<rparr>"

definition clear_context_tokens :: "session_state \<Rightarrow> session_state" where
  "clear_context_tokens s = s\<lparr>ss_context_tokens := Map.empty\<rparr>"

record 'w ilink_mode =
  il_config :: ilink_send_config
  il_sync_store :: "'w sync_ops option"
  il_token_store :: "'w token_ops option"
  il_account_id :: string

datatype 'w wechat_mode = WStub | WILink "'w ilink_mode"

record 'w wechat_channel =
  wch_mode :: "'w wechat_mode"
  wch_media_uploader :: "(file_media_source \<Rightarrow> 'w \<Rightarrow> (media_error + media_ref) \<times> 'w) option"
  wch_media_chunk_bytes :: nat
  wch_media_size_limit :: nat

definition wechat_new :: "'w wechat_channel" where
  "wechat_new =
     \<lparr> wch_mode = WStub, wch_media_uploader = None, wch_media_chunk_bytes = 65536, wch_media_size_limit = 0 \<rparr>"

definition with_media_uploader ::
  "(file_media_source \<Rightarrow> 'w \<Rightarrow> (media_error + media_ref) \<times> 'w) \<Rightarrow> nat \<Rightarrow> nat \<Rightarrow> 'w wechat_channel \<Rightarrow> 'w wechat_channel" where
  "with_media_uploader uploader chunk_bytes size_limit ch =
     ch\<lparr>wch_media_uploader := Some uploader, wch_media_chunk_bytes := max chunk_bytes 1, wch_media_size_limit := size_limit\<rparr>"

definition fresh_session :: "string \<Rightarrow> session_state" where
  "fresh_session buf = \<lparr> ss_context_tokens = Map.empty, ss_sync_buf = buf \<rparr>"

text \<open>The stub has no session; an empty one stands for it.\<close>

definition from_config_with_store ::
  "(bytes \<Rightarrow> string) \<Rightarrow> wechat_config \<Rightarrow> 'w sync_ops option \<Rightarrow> 'w token_ops option \<Rightarrow> 'w \<Rightarrow>
   'w wechat_channel \<times> session_state \<times> 'w" where
  "from_config_with_store lossy cfg sync_store token_store w =
     (case from_wechat_config cfg of
        None \<Rightarrow> (wechat_new, fresh_session [], w)
      | Some ilink_cfg \<Rightarrow>
          (let (buf, w1) = (case sync_store of
                 None \<Rightarrow> ([], w)
               | Some ops \<Rightarrow> (case sy_load ops ''wechat'' (wc_account_id cfg) w of
                                (Ok b, w1) \<Rightarrow> (lossy b, w1) | (Err _, w1) \<Rightarrow> ([], w1)))
           in (wechat_new\<lparr>wch_mode := WILink \<lparr> il_config = ilink_cfg, il_sync_store = sync_store,
                  il_token_store = token_store, il_account_id = wc_account_id cfg \<rparr>\<rparr>,
               fresh_session buf, w1)))"

section \<open>Polling\<close>

definition text_of_item :: "ilink_item \<Rightarrow> string option" where
  "text_of_item item =
     (case ii_text_item item of
        Some (Some t) \<Rightarrow> if trim t = [] then None else Some t
      | _ \<Rightarrow> None)"

fun find_text :: "ilink_item list \<Rightarrow> string option" where
  "find_text [] = None"
| "find_text (i # is) = (case text_of_item i of Some t \<Rightarrow> Some t | None \<Rightarrow> find_text is)"

definition polled_content :: "ilink_message \<Rightarrow> message_content" where
  "polled_content m =
     (let t = or_else [] (find_text (im_item_list m)) in if t = [] then Unknown else Text t)"

definition polled_route :: "string \<Rightarrow> ilink_message \<Rightarrow> route_key" where
  "polled_route from_user_id m =
     route_key_new (ChannelId ''wechat'') (or_else from_user_id (im_group_id m)) from_user_id
       (if im_group_id m \<noteq> None then Group else Direct)"

text \<open>The message for the inbound channel: its id is the context token, or a fresh one.\<close>

definition polled_message :: "'w ilink_http \<Rightarrow> string \<Rightarrow> ilink_message \<Rightarrow> 'w \<Rightarrow> message \<times> 'w" where
  "polled_message hp from_user_id m w =
     (let (i, w1) = (case im_context_token m of Some t \<Rightarrow> (t, w) | None \<Rightarrow> ih_uuid hp w);
          (now, w2) = ih_now_ms hp w1
      in (new_inbound i (polled_route from_user_id m) None now (polled_content m), w2))"

text \<open>The token of a message is cached for its user and written to the store, errors ignored.\<close>

definition cache_token ::
  "'w token_ops option \<Rightarrow> string \<Rightarrow> ilink_message \<Rightarrow> session_state \<times> 'w \<Rightarrow> session_state \<times> 'w" where
  "cache_token ts account m sw =
     (let (s, w) = sw;
          token_user_id = (if im_message_type m = Some 1 then im_from_user_id m else im_to_user_id m) in
      case token_user_id of
        None \<Rightarrow> (s, w)
      | Some user_id \<Rightarrow>
          (case extract_latest_context_token [m] (Some user_id) of
             None \<Rightarrow> (s, w)
           | Some ctx \<Rightarrow>
               (set_context_token user_id ctx s,
                case ts of None \<Rightarrow> w | Some ops \<Rightarrow> snd (tk_set ops account user_id ctx w))))"

text \<open>The loop over the messages of one update; \<open>False\<close> when the receiver was closed.\<close>

fun poll_messages ::
  "'w ilink_http \<Rightarrow> (message \<Rightarrow> 'w \<Rightarrow> bool \<times> 'w) \<Rightarrow> 'w token_ops option \<Rightarrow> string \<Rightarrow> ilink_message list \<Rightarrow>
   session_state \<times> 'w \<Rightarrow> bool \<times> session_state \<times> 'w" where
  "poll_messages hp tx ts account [] sw = (True, sw)"
| "poll_messages hp tx ts account (m # ms) (s, w) =
     (if im_message_type m \<noteq> Some 1 then poll_messages hp tx ts account ms (s, w)
      else (case im_from_user_id m of
              None \<Rightarrow> poll_messages hp tx ts account ms (s, w)
            | Some from_user_id \<Rightarrow>
                (let (msg, w1) = polled_message hp from_user_id m w;
                     (s2, w2) = cache_token ts account m (s, w1);
                     (received, w3) = tx msg w2
                 in if received then poll_messages hp tx ts account ms (s2, w3) else (False, s2, w3))))"

datatype poll_outcome = Polled | PausedSeconds nat | ReceiverClosed

text \<open>The part of a turn after the request: \<open>sync_buf\<close> is the task's own copy.\<close>

definition handle_updates ::
  "'w ilink_http \<Rightarrow> (message \<Rightarrow> 'w \<Rightarrow> bool \<times> 'w) \<Rightarrow> 'w ilink_mode \<Rightarrow> (get_updates_error + ilink_updates) \<Rightarrow> string \<Rightarrow>
   session_state \<times> 'w \<Rightarrow> poll_outcome \<times> string \<times> session_state \<times> 'w" where
  "handle_updates hp tx mode r sync_buf sw =
     (let (s, w) = sw in
      case r of
        Err (SessionExpired errcode errmsg) \<Rightarrow>
          (PausedSeconds 5, sync_buf, clear_context_tokens s,
           case il_token_store mode of None \<Rightarrow> w | Some ops \<Rightarrow> snd (tk_delete_all ops (il_account_id mode) w))
      | Err e \<Rightarrow> (PausedSeconds 1, sync_buf, s, w)
      | Ok updates \<Rightarrow>
          (let (buf', s1, w1) =
                 (case iu_get_updates_buf updates of
                    None \<Rightarrow> (sync_buf, s, w)
                  | Some buf \<Rightarrow>
                      (buf, s\<lparr>ss_sync_buf := buf\<rparr>,
                       case il_sync_store mode of
                         None \<Rightarrow> w | Some ops \<Rightarrow> snd (sy_save ops ''wechat'' (il_account_id mode) (as_bytes buf) w)));
               (more, s2, w2) = poll_messages hp tx (il_token_store mode) (il_account_id mode) (iu_msgs updates) (s1, w1)
           in (if more then Polled else ReceiverClosed, buf', s2, w2)))"

definition poll_turn ::
  "'w ilink_http \<Rightarrow> (message \<Rightarrow> 'w \<Rightarrow> bool \<times> 'w) \<Rightarrow> 'w ilink_mode \<Rightarrow> string \<Rightarrow> session_state \<times> 'w \<Rightarrow>
   poll_outcome \<times> string \<times> session_state \<times> 'w" where
  "poll_turn hp tx mode sync_buf sw =
     (let (s, w) = sw; (r, w1) = get_updates_via_ilink hp (il_config mode) sync_buf w
      in handle_updates hp tx mode r sync_buf (s, w1))"

fun poll_loop ::
  "'w ilink_http \<Rightarrow> (message \<Rightarrow> 'w \<Rightarrow> bool \<times> 'w) \<Rightarrow> 'w ilink_mode \<Rightarrow> nat \<Rightarrow> string \<Rightarrow> session_state \<times> 'w \<Rightarrow>
   session_state \<times> 'w" where
  "poll_loop hp tx mode 0 sync_buf sw = sw"
| "poll_loop hp tx mode (Suc n) sync_buf sw =
     (case poll_turn hp tx mode sync_buf sw of
        (ReceiverClosed, _, sw1) \<Rightarrow> sw1
      | (_, buf', sw1) \<Rightarrow> poll_loop hp tx mode n buf' sw1)"

text \<open>The persisted tokens join the session before the first poll.\<close>

definition load_tokens :: "'w ilink_mode \<Rightarrow> session_state \<times> 'w \<Rightarrow> session_state \<times> 'w" where
  "load_tokens mode sw =
     (let (s, w) = sw in
      case il_token_store mode of
        None \<Rightarrow> (s, w)
      | Some ops \<Rightarrow>
          (case tk_get_all ops (il_account_id mode) w of
             (Ok tokens, w1) \<Rightarrow> (s\<lparr>ss_context_tokens := ss_context_tokens s ++ tokens\<rparr>, w1)
           | (Err _, w1) \<Rightarrow> (s, w1)))"

definition wechat_start ::
  "'w ilink_http \<Rightarrow> (message \<Rightarrow> 'w \<Rightarrow> bool \<times> 'w) \<Rightarrow> 'w wechat_channel \<Rightarrow> nat \<Rightarrow> session_state \<times> 'w \<Rightarrow> session_state \<times> 'w" where
  "wechat_start hp tx ch n sw =
     (case wch_mode ch of
        WStub \<Rightarrow> sw
      | WILink mode \<Rightarrow> poll_loop hp tx mode n (ss_sync_buf (fst sw)) (load_tokens mode sw))"

section \<open>Sending\<close>

text \<open>A failure of the media stages, as the text the channel reports.\<close>

definition media_failure :: "media_error \<Rightarrow> string" where
  "media_failure er = ''media['' @ stage er @ '']: '' @ media_error_display er"

definition resolve_media ::
  "'w media_fs \<Rightarrow> (file_media_source \<Rightarrow> 'w \<Rightarrow> (media_error + media_ref) \<times> 'w) \<Rightarrow> 'w wechat_channel \<Rightarrow> string \<Rightarrow>
   string option \<Rightarrow> 'w \<Rightarrow> (string + media_ref) \<times> 'w" where
  "resolve_media fs uploader ch url media_id w =
     (case (case media_id of Some i \<Rightarrow> if trim i = [] then None else Some i | None \<Rightarrow> None) of
        Some i \<Rightarrow> (Ok \<lparr> mr_media_id = i, mr_url = Some url \<rparr>, w)
      | None \<Rightarrow>
          (case parse_location url of
             Err er \<Rightarrow> (Err (media_failure er), w)
           | Ok (RemoteUrl _) \<Rightarrow> (Err ''media[source]: remote URL upload requires a pre-uploaded media_id'', w)
           | Ok (LocalFile path) \<Rightarrow>
               (case file_media_source_new fs path (wch_media_chunk_bytes ch) (wch_media_size_limit ch) w of
                  (Err er, w1) \<Rightarrow> (Err (media_failure er), w1)
                | (Ok src, w1) \<Rightarrow>
                    (case uploader src w1 of
                       (Err er, w2) \<Rightarrow> (Err (media_failure er), w2)
                     | (Ok r, w2) \<Rightarrow> (Ok r, w2)))))"

definition send_media ::
  "'w ilink_http \<Rightarrow> 'w media_fs \<Rightarrow> 'w wechat_channel \<Rightarrow> string \<Rightarrow> string \<Rightarrow> string option \<Rightarrow> 'w \<Rightarrow>
   (channel_error + send_receipt) \<times> 'w" where
  "send_media hp fs ch dest url media_id w =
     (case wch_media_uploader ch of
        None \<Rightarrow> (Err (channel_error_from_string ''wechat media upload not enabled (no uploader configured)''), w)
      | Some uploader \<Rightarrow>
          (case resolve_media fs uploader ch url media_id w of
             (Err e, w1) \<Rightarrow> (Err (channel_error_from_string e), w1)
           | (Ok ref, w1) \<Rightarrow>
               (case wch_mode ch of
                  WStub \<Rightarrow>
                    (let (i, w2) = ih_uuid hp w1; (now, w3) = ih_now_ms hp w2
                     in (Ok \<lparr> sr_message_id = i, sr_platform_msg_id = Some (''wechat_media_'' @ mr_media_id ref),
                            sr_timestamp_ms = now \<rparr>, w3))
                | WILink _ \<Rightarrow>
                    (Err (channel_error_from_string
                       ''media[send]: ilink media send not yet implemented (pending media contract)''), w1))))"

definition send_body ::
  "'w ilink_http \<Rightarrow> 'w wechat_channel \<Rightarrow> string \<Rightarrow> string \<Rightarrow> session_state \<times> 'w \<Rightarrow> (channel_error + send_receipt) \<times> 'w" where
  "send_body hp ch dest body sw =
     (let (s, w) = sw in
      case wch_mode ch of
        WStub \<Rightarrow>
          (let (i, w1) = ih_uuid hp w; (t1, w2) = ih_now_ms hp w1; (t2, w3) = ih_now_ms hp w2
           in (Ok \<lparr> sr_message_id = i, sr_platform_msg_id = Some (''wechat_stub_'' @ show_int t1), sr_timestamp_ms = t2 \<rparr>, w3))
      | WILink mode \<Rightarrow>
          (case get_context_token s dest of
             None \<Rightarrow> (Err (channel_error_from_string (''wechat: no context_token cached for user '' @ dest)), w)
           | Some ctx \<Rightarrow>
               (case send_text_via_ilink hp ((il_config mode)\<lparr>ic_context_token := ctx\<rparr>) dest body w of
                  (Err e, w1) \<Rightarrow> (Err (channel_error_from_string e), w1)
                | (Ok resp, w1) \<Rightarrow>
                    (let (i, w2) = ih_uuid hp w1; (now, w3) = ih_now_ms hp w2
                     in (Ok \<lparr> sr_message_id = i, sr_platform_msg_id = server_id resp, sr_timestamp_ms = now \<rparr>, w3)))))"

definition wechat_send_message ::
  "'w ilink_http \<Rightarrow> 'w media_fs \<Rightarrow> 'w wechat_channel \<Rightarrow> string \<Rightarrow> message_content \<Rightarrow> session_state \<times> 'w \<Rightarrow>
   (channel_error + send_receipt) \<times> session_state \<times> 'w" where
  "wechat_send_message hp fs ch dest content sw =
     (let (s, w) = sw;
          (r, w1) = (case content of
             Text t \<Rightarrow> send_body hp ch dest t (s, w)
           | Image url media_id \<Rightarrow> send_media hp fs ch dest url media_id w
           | File url _ _ \<Rightarrow> send_media hp fs ch dest url None w
           | Unknown \<Rightarrow> (Err (channel_error_from_string ''wechat cannot send Unknown content''), w))
      in (r, s, w1))"

definition wechat_health :: "'w wechat_mode \<Rightarrow> health_status" where
  "wechat_health mode =
     \<lparr> hs_channel = ''wechat'', hs_healthy = True,
       hs_detail = (case mode of
          WStub \<Rightarrow> ''skeleton '' @ [CHR 0xE2, CHR 0x80, CHR 0x94] @ '' not connected to platform''
        | WILink _ \<Rightarrow> ''ilink configured (context refresh enabled)'') \<rparr>"

definition wechat_as_channel :: "'w ilink_http \<Rightarrow> 'w media_fs \<Rightarrow> 'w wechat_channel \<Rightarrow> (session_state \<times> 'w) channel" where
  "wechat_as_channel hp fs ch =
     \<lparr> ch_id = ChannelId ''wechat'', ch_send = wechat_send_message hp fs ch, ch_stop = (\<lambda>sw. (Ok (), sw)),
       ch_health = (\<lambda>sw. (Ok (wechat_health (wch_mode ch)), sw)) \<rparr>"

end
