(* ===== verification/Wechat_Polling.thy ===== *)
theory Wechat_Polling
  imports Wechat_Channel Inbound
begin

text \<open>
  What the WeChat channel promises about its tokens, its cursor and the messages it hands over.

  The locales state the contracts of the two stores and of the world the polling task runs in;
  they are interpreted on the SQLite stores, the inbound channel \<open>mpsc\<close> of the registry and any
  platform client on the rest of the world.
\<close>

section \<open>The contract of the stores\<close>

text \<open>A store of buffers: what was saved last is what is loaded.\<close>

locale sync_store =
  fixes ops :: "'w sync_ops"
    and saved :: "'w \<Rightarrow> string \<times> string \<Rightarrow> bytes"
  assumes load_law: "sy_load ops c a w = (r, w') \<Longrightarrow>
      saved w' = saved w \<and> (case r of Ok b \<Rightarrow> b = saved w (c, a) | Err _ \<Rightarrow> True)"
    and save_law: "sy_save ops c a b w = (ru, w') \<Longrightarrow>
      saved w' = (case ru of Ok _ \<Rightarrow> (saved w)((c, a) := b) | Err _ \<Rightarrow> saved w)"
begin

text \<open>A session holds what is saved for it, whether its updates succeed or fail.\<close>

lemma new_synced: "session_new ops c a w = (Ok s, w') \<Longrightarrow>
    wx_sync_buf s = saved w' (wx_channel s, wx_account s) \<and> saved w' = saved w \<and> wx_channel s = c \<and> wx_account s = a \<and>
    was_restored s = (wx_sync_buf s \<noteq> [])"
  by (auto simp: session_new_def was_restored_def dest!: load_law split: prod.splits sum.splits)

lemma update_synced:
  assumes "update_sync_buf ops buf (s, w) = (r, s', w')" and "wx_sync_buf s = saved w (wx_channel s, wx_account s)"
  shows "wx_sync_buf s' = saved w' (wx_channel s', wx_account s') \<and> wx_channel s' = wx_channel s \<and> wx_account s' = wx_account s \<and>
    wx_sync_buf s' = (if is_Ok r then buf else wx_sync_buf s)"
  using assms by (auto simp: update_sync_buf_def is_Ok_def dest!: save_law split: prod.splits sum.splits)

end

text \<open>A store of tokens by account and user.\<close>

locale token_store =
  fixes ops :: "'w token_ops"
    and invar :: "'w \<Rightarrow> bool"
    and stored :: "'w \<Rightarrow> string \<times> string \<rightharpoonup> string"
  assumes set_law: "invar w \<Longrightarrow> tk_set ops a u t w = (ru, w') \<Longrightarrow>
      invar w' \<and> stored w' = (case ru of Ok _ \<Rightarrow> (stored w)((a, u) \<mapsto> t) | Err _ \<Rightarrow> stored w)"
    and get_all_law: "invar w \<Longrightarrow> tk_get_all ops a w = (rm, w') \<Longrightarrow>
      invar w' \<and> stored w' = stored w \<and> (case rm of Ok m \<Rightarrow> m = (\<lambda>u. stored w (a, u)) | Err _ \<Rightarrow> True)"
    and delete_all_law: "invar w \<Longrightarrow> tk_delete_all ops a w = (ru, w') \<Longrightarrow>
      invar w' \<and> stored w' = (case ru of Ok _ \<Rightarrow> (\<lambda>k. if fst k = a then None else stored w k) | Err _ \<Rightarrow> stored w)"
    and delete_law: "invar w \<Longrightarrow> tk_delete ops a u w = (ru, w') \<Longrightarrow>
      invar w' \<and> stored w' = (case ru of Ok _ \<Rightarrow> (stored w)((a, u) := None) | Err _ \<Rightarrow> stored w)"

locale reliable_token_store = token_store +
  assumes set_ok: "is_Ok (fst (tk_set ops a u t w))"
    and get_all_ok: "is_Ok (fst (tk_get_all ops a w))"
    and delete_all_ok: "is_Ok (fst (tk_delete_all ops a w))"
begin

text \<open>Session and store have the same tokens for the account.\<close>

definition agree :: "string \<Rightarrow> session_state \<times> 'a \<Rightarrow> bool" where
  "agree a sw \<longleftrightarrow> invar (snd sw) \<and> ss_context_tokens (fst sw) = (\<lambda>u. stored (snd sw) (a, u))"

lemma Ok_unit: "is_Ok r \<Longrightarrow> r = Ok ()"
  by (auto simp: is_Ok_def split: sum.splits)

lemma set_agree:
  assumes "agree a (s, w)"
  shows "agree a (set_context_token u t s, snd (tk_set ops a u t w))"
proof -
  obtain r w' where s: "tk_set ops a u t w = (r, w')" by force
  then have "r = Ok ()" using set_ok [of a u t w] Ok_unit [of r] by simp
  with set_law [OF _ s] assms s show ?thesis by (auto simp: agree_def set_context_token_def fun_eq_iff)
qed

lemma delete_all_agree:
  assumes "agree a (s, w)"
  shows "agree a (clear_context_tokens s, snd (tk_delete_all ops a w))"
proof -
  obtain r w' where s: "tk_delete_all ops a w = (r, w')" by force
  then have "r = Ok ()" using delete_all_ok [of a w] Ok_unit [of r] by simp
  with delete_all_law [OF _ s] assms s show ?thesis by (auto simp: agree_def clear_context_tokens_def fun_eq_iff)
qed

lemma cache_agree:
  assumes "agree a (s, w)"
  shows "agree a (cache_token (Some ops) a m (s, w))"
  using assms set_agree [OF assms] by (auto simp: cache_token_def Let_def split: option.split)

text \<open>What a new session loads is what the old one had.\<close>

lemma load_agree:
  assumes "agree a (s, w)" and "il_token_store mode = Some ops" and "il_account_id mode = a"
  shows "ss_context_tokens (fst (load_tokens mode (fresh_session b, w))) = ss_context_tokens s"
proof -
  obtain r w' where g: "tk_get_all ops a w = (r, w')" by force
  with get_all_ok [of a w] obtain m where "r = Ok m" by (auto simp: is_Ok_def split: sum.splits)
  with get_all_law [OF _ g] assms g show ?thesis
    by (auto simp: load_tokens_def agree_def fresh_session_def fun_eq_iff map_add_def split: option.splits)
qed

end

text \<open>Polling in a world where the platform and the inbound channel leave the tokens alone.\<close>

locale polling = reliable_token_store +
  fixes hp :: "'a ilink_http" and tx :: "message \<Rightarrow> 'a \<Rightarrow> bool \<times> 'a" and sops :: "'a sync_ops option"
  assumes post_frame: "invar w \<Longrightarrow> invar (snd (ih_post hp url hs ms j w)) \<and> stored (snd (ih_post hp url hs ms j w)) = stored w"
    and random_frame: "invar w \<Longrightarrow> invar (snd (ih_random hp w)) \<and> stored (snd (ih_random hp w)) = stored w"
    and uuid_frame: "invar w \<Longrightarrow> invar (snd (ih_uuid hp w)) \<and> stored (snd (ih_uuid hp w)) = stored w"
    and now_frame: "invar w \<Longrightarrow> invar (snd (ih_now_ms hp w)) \<and> stored (snd (ih_now_ms hp w)) = stored w"
    and tx_frame: "invar w \<Longrightarrow> invar (snd (tx msg w)) \<and> stored (snd (tx msg w)) = stored w"
    and save_frame: "sops = Some so \<Longrightarrow> invar w \<Longrightarrow> invar (snd (sy_save so c a b w)) \<and> stored (snd (sy_save so c a b w)) = stored w"
begin

lemma agree_step: "agree a (s, w) \<Longrightarrow> invar w' \<and> stored w' = stored w \<Longrightarrow> agree a (s, w')"
  by (simp add: agree_def)

lemma polled_message_agree: "agree a (s, w) \<Longrightarrow> agree a (s, snd (polled_message hp u m w))"
  using uuid_frame [of w] now_frame [of w] now_frame [of "snd (ih_uuid hp w)"]
  by (auto simp: polled_message_def agree_def Let_def split_beta split: option.splits)

lemma poll_messages_agree:
  "agree a (s, w) \<Longrightarrow> agree a (snd (poll_messages hp tx (Some ops) a ms (s, w)))"
proof (induction ms arbitrary: s w)
  case (Cons m ms)
  show ?case
  proof (cases "im_message_type m = Some 1 \<and> im_from_user_id m \<noteq> None")
    case True
    then obtain u where u: "im_message_type m = Some 1" "im_from_user_id m = Some u" by blast
    obtain msg w1 where m: "polled_message hp u m w = (msg, w1)" by force
    obtain s2 w2 where c: "cache_token (Some ops) a m (s, w1) = (s2, w2)" by force
    obtain b w3 where t: "tx msg w2 = (b, w3)" by force
    have "agree a (s, w1)" using polled_message_agree [OF Cons.prems, of u m] m by simp
    then have a2: "agree a (s2, w2)" using cache_agree [of a s w1 m] c by simp
    then have "agree a (s2, w3)" using agree_step [OF a2] tx_frame [of w2 msg] t by (simp add: agree_def)
    with Cons.IH [of s2 w3] u m c t show ?thesis by simp
  next
    case False
    then show ?thesis using Cons by (auto split: option.splits)
  qed
qed simp

lemma handle_agree:
  assumes "agree a (s, w)" and "il_token_store mode = Some ops" and "il_account_id mode = a" and "il_sync_store mode = sops"
  shows "agree a (snd (snd (handle_updates hp tx mode r buf (s, w))))"
proof (cases r)
  case (Inl e)
  then show ?thesis using assms delete_all_agree [OF assms(1)] by (cases e) (simp_all add: handle_updates_def)
next
  case (Inr u)
  show ?thesis
  proof (cases "iu_get_updates_buf u")
    case None
    then show ?thesis using Inr assms poll_messages_agree [OF assms(1), of "iu_msgs u"]
      by (simp add: handle_updates_def split_beta Let_def)
  next
    case (Some b)
    define w1 where "w1 = (case sops of None \<Rightarrow> w | Some so \<Rightarrow> snd (sy_save so ''wechat'' (il_account_id mode) (as_bytes b) w))"
    have "agree a (s\<lparr>ss_sync_buf := b\<rparr>, w1)"
      using assms(1) save_frame [of _ w "''wechat''" "il_account_id mode" "as_bytes b"] unfolding w1_def
      by (auto simp: agree_def split: option.splits)
    from poll_messages_agree [OF this, of "iu_msgs u"] show ?thesis
      using Some Inr assms by (simp add: handle_updates_def split_beta Let_def w1_def)
  qed
qed

lemma turn_agree:
  assumes "agree a (s, w)" and "il_token_store mode = Some ops" and "il_account_id mode = a" and "il_sync_store mode = sops"
  shows "agree a (snd (snd (poll_turn hp tx mode buf (s, w))))"
proof -
  obtain r w1 where g: "get_updates_via_ilink hp (il_config mode) buf w = (r, w1)" by force
  have "invar w \<Longrightarrow> invar w1 \<and> stored w1 = stored w"
  proof -
    assume w: "invar w"
    obtain hs w2 where h: "build_headers hp (ic_token (il_config mode)) w = (hs, w2)" by force
    then have w2: "invar w2 \<and> stored w2 = stored w"
      using random_frame [OF w] by (auto simp: build_headers_def random_wechat_uin_def Let_def split_beta)
    from g h have "\<exists>url ms j. w1 = snd (ih_post hp url hs ms j w2)"
      by (auto simp: get_updates_via_ilink_def Let_def split: prod.splits sum.splits http_failure.splits if_splits) (metis snd_conv)+
    then show ?thesis using post_frame w2 by metis
  qed
  with agree_step [OF assms(1), of w1] assms(1) have "agree a (s, w1)" by (simp add: agree_def)
  from handle_agree [OF this assms(2-4), of r buf] g show ?thesis by (simp add: poll_turn_def)
qed

lemma loop_agree:
  assumes "agree a (s, w)" and "il_token_store mode = Some ops" and "il_account_id mode = a" and "il_sync_store mode = sops"
  shows "agree a (poll_loop hp tx mode n buf (s, w))"
  using assms(1)
proof (induction n arbitrary: buf s w)
  case (Suc n)
  obtain o1 buf' s1 w1 where t: "poll_turn hp tx mode buf (s, w) = (o1, buf', s1, w1)" by (metis prod.exhaust)
  with turn_agree [OF Suc.prems assms(2-4), of buf] Suc.IH [of s1 w1 buf'] show ?case by (cases o1) simp_all
qed simp

end

section \<open>The stores of the program\<close>

definition saved_buffer :: "'w db_scheme \<Rightarrow> string \<times> string \<Rightarrow> bytes" where
  "saved_buffer d k =
     (case tbl_find (\<lambda>r. (sb_channel r, sb_account r)) k (t_sync_buf d) of Some r \<Rightarrow> sb_buf r | None \<Rightarrow> [])"

interpretation sqs: sync_store "sqlite_sync_store e" saved_buffer for e
proof unfold_locales
  fix c a b and w w' :: "'a db_scheme" and r ru
  show "sy_load (sqlite_sync_store e) c a w = (r, w') \<Longrightarrow>
      saved_buffer w' = saved_buffer w \<and> (case r of Err _ \<Rightarrow> True | Ok b \<Rightarrow> b = saved_buffer w (c, a))"
    by (auto simp: sqlite_sync_store_def sync_buf_load_def sql_read_eq saved_buffer_def fun_eq_iff split: option.splits)
  show "sy_save (sqlite_sync_store e) c a b w = (ru, w') \<Longrightarrow>
      saved_buffer w' = (case ru of Err _ \<Rightarrow> saved_buffer w | Ok _ \<Rightarrow> (saved_buffer w)((c, a) := b))"
    by (auto simp: sqlite_sync_store_def sync_buf_save_def sql_write_eq saved_buffer_def fun_eq_iff tbl_find_insert_replace
        split: option.splits)
qed

definition tokens_ok :: "'w db_scheme \<Rightarrow> bool" where
  "tokens_ok d \<longleftrightarrow> distinct (map ct_key (t_context_tokens d))"

lemma fold_tokens:
  "distinct (map ct_key t) \<Longrightarrow>
   fold (\<lambda>r m. m(ct_user_id r \<mapsto> ct_token r)) (filter (\<lambda>r. ct_account_id r = a) t) m u =
   (case tbl_find ct_key (a, u) t of Some r \<Rightarrow> Some (ct_token r) | None \<Rightarrow> m u)"
proof (induction t arbitrary: m)
  case (Cons r t)
  have "tbl_find ct_key (a, u) t = None" if "ct_key r = (a, u)"
    using Cons.prems that by (auto simp: tbl_find_None image_iff)
  with Cons show ?case by (auto simp: ct_key_def split: option.splits)
qed simp

lemma get_all_view:
  assumes "tokens_ok d" and "token_get_all e a d = (Ok m, d')"
  shows "m = (\<lambda>u. token_view d (a, u))"
proof -
  have "fold (\<lambda>r m. m(ct_user_id r \<mapsto> ct_token r)) (filter (\<lambda>r. ct_account_id r = a) (t_context_tokens d)) Map.empty
      = (\<lambda>u. token_view d (a, u))"
    using fold_tokens [of "t_context_tokens d" a Map.empty] assms(1)
    by (auto simp: tokens_ok_def token_view_def fun_eq_iff split: option.splits)
  with assms(2) show ?thesis by (auto simp: token_get_all_def sql_read_eq split: option.splits)
qed

lemma failed_statement:
  "token_set e k t d = (Err er, d') \<Longrightarrow> token_view d' = token_view d"
  "token_delete e k d = (Err er, d') \<Longrightarrow> token_view d' = token_view d"
  "token_delete_all e a d = (Err er, d') \<Longrightarrow> token_view d' = token_view d"
  "token_get_all e a d = (rm, d') \<Longrightarrow> token_view d' = token_view d"
  by (auto simp: token_set_def token_delete_def token_delete_all_def token_get_all_def sql_write_eq sql_read_eq
      token_view_def fun_eq_iff split: option.splits)

lemma statements_keep_ok:
  assumes "tokens_ok d"
  shows "tokens_ok (snd (token_set e k t d))" "tokens_ok (snd (token_delete e k d))"
    "tokens_ok (snd (token_delete_all e a d))" "tokens_ok (snd (token_get_all e a d))"
  using assms
  by (auto simp: tokens_ok_def token_set_def token_delete_def token_delete_all_def token_get_all_def sql_write_eq sql_read_eq
      intro!: distinct_insert_replace Magiclaw_Prelude.distinct_delete split: option.splits)

interpretation sqt: token_store "sqlite_token_store e" tokens_ok token_view for e
proof unfold_locales
  fix a u t and w w' :: "'a db_scheme" and ru rm
  assume ok: "tokens_ok w"
  show "tk_set (sqlite_token_store e) a u t w = (ru, w') \<Longrightarrow> tokens_ok w' \<and>
      token_view w' = (case ru of Err _ \<Rightarrow> token_view w | Ok _ \<Rightarrow> (token_view w)((a, u) \<mapsto> t))"
    using statements_keep_ok(1) [OF ok, of e "(a, u)" t] tk.set_law [of e "(a, u)" t w ru w']
    by (auto simp: sqlite_token_store_def)
  show "tk_get_all (sqlite_token_store e) a w = (rm, w') \<Longrightarrow> tokens_ok w' \<and> token_view w' = token_view w \<and>
      (case rm of Err _ \<Rightarrow> True | Ok m \<Rightarrow> m = (\<lambda>u. token_view w (a, u)))"
    using statements_keep_ok(4) [OF ok, of e a] get_all_view [OF ok, of e a _ w'] failed_statement(4) [of e a w rm w']
    by (auto simp: sqlite_token_store_def split: sum.splits)
  show "tk_delete_all (sqlite_token_store e) a w = (ru, w') \<Longrightarrow> tokens_ok w' \<and>
      token_view w' = (case ru of Err _ \<Rightarrow> token_view w | Ok _ \<Rightarrow> (\<lambda>k. if fst k = a then None else token_view w k))"
    using statements_keep_ok(3) [OF ok, of e a] token_delete_all_view [of e a w w'] failed_statement(3) [of e a w _ w']
    by (auto simp: sqlite_token_store_def split: sum.splits)
  show "tk_delete (sqlite_token_store e) a u w = (ru, w') \<Longrightarrow> tokens_ok w' \<and>
      token_view w' = (case ru of Err _ \<Rightarrow> token_view w | Ok _ \<Rightarrow> (token_view w)((a, u) := None))"
    using statements_keep_ok(2) [OF ok, of e "(a, u)"] token_delete_view [of e "(a, u)" w w'] failed_statement(2) [of e "(a, u)" w _ w']
    by (auto simp: sqlite_token_store_def split: sum.splits)
qed

text \<open>An environment in which no statement fails.\<close>

definition faultless :: "env \<Rightarrow> env" where
  "faultless e = e\<lparr>env_fault := \<lambda>_. None\<rparr>"

lemma faultless_statements: "no_faults e \<Longrightarrow> faultless e = e"
  by (simp add: faultless_def no_faults_def fun_eq_iff)

interpretation sqr: reliable_token_store "sqlite_token_store (faultless e)" tokens_ok token_view for e
  by unfold_locales
    (simp_all add: sqlite_token_store_def faultless_def token_set_def token_get_all_def token_delete_all_def
      sql_write_eq sql_read_eq is_Ok_def)

text \<open>A platform client and the inbound channel work on the world beside the database.\<close>

definition lift_http :: "'m ilink_http \<Rightarrow> 'm db_scheme ilink_http" where
  "lift_http hp =
     \<lparr> ih_post = (\<lambda>url hs ms j. on_more (ih_post hp url hs ms j)), ih_get = (\<lambda>url hs. on_more (ih_get hp url hs)),
       ih_json = ih_json hp, ih_updates = ih_updates hp, ih_qrcode = ih_qrcode hp, ih_qrcode_status = ih_qrcode_status hp,
       ih_status_text = ih_status_text hp, ih_header_ok = ih_header_ok hp, ih_b64 = ih_b64 hp,
       ih_random = on_more (ih_random hp), ih_uuid = on_more (ih_uuid hp), ih_uuid_simple = on_more (ih_uuid_simple hp),
       ih_now_ms = on_more (ih_now_ms hp) \<rparr>"

lemma on_more_tokens [simp]:
  "t_context_tokens (snd (on_more f d)) = t_context_tokens d" "t_sync_buf (snd (on_more f d)) = t_sync_buf d"
  by (simp_all add: on_more_def split_beta Let_def)

lemma on_more_views [simp]:
  "tokens_ok (snd (on_more f d)) = tokens_ok d" "token_view (snd (on_more f d)) = token_view d"
  "saved_buffer (snd (on_more f d)) = saved_buffer d"
  by (simp_all add: tokens_ok_def token_view_def saved_buffer_def fun_eq_iff)

lemma sync_save_tokens [simp]:
  "t_context_tokens (snd (sync_buf_save e c a b d)) = t_context_tokens d"
  by (simp add: sync_buf_save_def sql_write_eq split: option.split)

interpretation wp: polling "sqlite_token_store (faultless e)" tokens_ok token_view "lift_http hp"
    "\<lambda>m. on_more (tx m)" "if persist then Some (sqlite_sync_store e') else None" for e hp tx persist e'
  by unfold_locales (auto simp: lift_http_def sqlite_sync_store_def tokens_ok_def token_view_def split: if_splits)

section \<open>What polling hands over\<close>

definition user_message :: "ilink_message \<Rightarrow> bool" where
  "user_message m \<longleftrightarrow> im_message_type m = Some 1 \<and> im_from_user_id m \<noteq> None"

text \<open>The inbound message \<open>x\<close> is the polled message \<open>m\<close>.\<close>

definition relays :: "ilink_message \<Rightarrow> message \<Rightarrow> bool" where
  "relays m x \<longleftrightarrow> m_route_key x = polled_route (or_else [] (im_from_user_id m)) m \<and> m_content x = polled_content m \<and>
     m_direction x = Inbound \<and> m_id x = or_else (m_id x) (im_context_token m)"

lemma polled_message_relays:
  "user_message m \<Longrightarrow> im_from_user_id m = Some u \<Longrightarrow> relays m (fst (polled_message hp u m w))"
  by (auto simp: relays_def polled_message_def new_inbound_def or_else_def Let_def split_beta split: option.splits)

lemma statement_more [simp]:
  "db.more (snd (token_set e k t d)) = db.more d" "db.more (snd (sync_buf_save e c a b d)) = db.more d"
  "db.more (snd (token_delete_all e a d)) = db.more d"
  by (simp_all add: token_set_def sync_buf_save_def token_delete_all_def sql_write_eq split: option.split)

text \<open>The token stores of a mode are SQLite's, under any faults, or absent.\<close>

definition sqlite_mode :: "'m db_scheme ilink_mode \<Rightarrow> bool" where
  "sqlite_mode mode \<longleftrightarrow> (il_token_store mode = None \<or> (\<exists>e. il_token_store mode = Some (sqlite_token_store e))) \<and>
     (il_sync_store mode = None \<or> (\<exists>e. il_sync_store mode = Some (sqlite_sync_store e)))"

lemma cache_token_more:
  "store_op = None \<or> (\<exists>e. store_op = Some (sqlite_token_store e)) \<Longrightarrow>
   db.more (snd (cache_token store_op a m (s, d))) = db.more d \<and> saved_buffer (snd (cache_token store_op a m (s, d))) = saved_buffer d"
  by (auto simp: cache_token_def sqlite_token_store_def saved_buffer_def token_set_def sql_write_eq Let_def
      split: option.splits)

lemma polled_message_more:
  fixes d :: "'m db_scheme"
  assumes "\<And>w. log (snd (ih_uuid hp w)) = log w" and "\<And>w. log (snd (ih_now_ms hp w)) = log w"
  shows "log (db.more (snd (polled_message (lift_http hp) u m d))) = log (db.more d) \<and>
    saved_buffer (snd (polled_message (lift_http hp) u m d)) = saved_buffer d"
  using assms by (auto simp: polled_message_def lift_http_def Let_def split_beta split: option.splits)

text \<open>One message of the loop.\<close>

lemma poll_messages_user:
  assumes "user_message m" and "im_from_user_id m = Some u" and "polled_message hp u m w = (msg, w1)"
    and "cache_token st a m (s, w1) = (s2, w2)" and "tx msg w2 = (b, w3)"
  shows "poll_messages hp tx st a (m # ms) (s, w) = (if b then poll_messages hp tx st a ms (s2, w3) else (False, s2, w3))"
  using assms by (simp add: user_message_def)

lemma poll_messages_other: "\<not> user_message m \<Longrightarrow> poll_messages hp tx st a (m # ms) (s, w) = poll_messages hp tx st a ms (s, w)"
  by (auto simp: user_message_def split: option.split)

declare poll_messages.simps(2) [simp del]

lemma poll_messages_log:
  fixes d :: "'m db_scheme"
  assumes "\<And>w. log (snd (ih_uuid hp w)) = log w" and "\<And>w. log (snd (ih_now_ms hp w)) = log w"
    and "\<And>x w. fst (tx x w) \<and> log (snd (tx x w)) = log w @ [x]"
    and "st = None \<or> (\<exists>e. st = Some (sqlite_token_store e))"
  shows "\<exists>new s' d'. poll_messages (lift_http hp) (\<lambda>x. on_more (tx x)) st a ms (s, d) = (True, s', d') \<and>
    log (db.more d') = log (db.more d) @ new \<and> list_all2 relays (filter user_message ms) new"
proof (induction ms arbitrary: s d)
  case (Cons m ms)
  show ?case
  proof (cases "user_message m")
    case False
    then show ?thesis using Cons by (simp add: poll_messages_other)
  next
    case True
    then obtain u where u: "im_from_user_id m = Some u" by (auto simp: user_message_def)
    obtain x d1 where m: "polled_message (lift_http hp) u m d = (x, d1)" by force
    obtain s2 d2 where c: "cache_token st a m (s, d1) = (s2, d2)" by force
    obtain b d3 where t: "on_more (tx x) d2 = (b, d3)" by force
    have "b" and d3: "log (db.more d3) = log (db.more d2) @ [x]"
      using assms(3) [of x "db.more d2"] t on_more_simps(1,2) [of "tx x" d2] by simp_all
    moreover have "log (db.more d2) = log (db.more d)"
      using cache_token_more [OF assms(4), of a m s d1] c polled_message_more [of log hp u m d] assms(1,2) m by simp
    moreover have "relays m x" using polled_message_relays [OF True u] m by (metis fst_conv)
    moreover obtain new s' d' where "poll_messages (lift_http hp) (\<lambda>x. on_more (tx x)) st a ms (s2, d3) = (True, s', d')"
      "log (db.more d') = log (db.more d3) @ new" "list_all2 relays (filter user_message ms) new"
      using Cons.IH [of s2 d3] by blast
    ultimately show ?thesis using poll_messages_user [where tx="\<lambda>x. on_more (tx x)", OF True u m c t] True
      by (intro exI [of _ "x # new"]) auto
  qed
qed simp

lemma poll_messages_closed:
  fixes d :: "'m db_scheme"
  assumes "\<And>w. log (snd (ih_uuid hp w)) = log w" and "\<And>w. log (snd (ih_now_ms hp w)) = log w"
    and "\<And>x w. \<not> fst (tx x w) \<and> log (snd (tx x w)) = log w"
    and "st = None \<or> (\<exists>e. st = Some (sqlite_token_store e))" and "filter user_message ms \<noteq> []"
  shows "\<exists>s' d'. poll_messages (lift_http hp) (\<lambda>x. on_more (tx x)) st a ms (s, d) = (False, s', d') \<and>
    log (db.more d') = log (db.more d) \<and> saved_buffer d' = saved_buffer d"
  using assms(5)
proof (induction ms arbitrary: s d)
  case (Cons m ms)
  show ?case
  proof (cases "user_message m")
    case False
    then show ?thesis using Cons by (simp add: poll_messages_other)
  next
    case True
    then obtain u where u: "im_from_user_id m = Some u" by (auto simp: user_message_def)
    obtain x d1 where m: "polled_message (lift_http hp) u m d = (x, d1)" by force
    obtain s2 d2 where c: "cache_token st a m (s, d1) = (s2, d2)" by force
    obtain b d3 where t: "on_more (tx x) d2 = (b, d3)" by force
    have "\<not> b" and "log (db.more d3) = log (db.more d2)" and "saved_buffer d3 = saved_buffer d2"
      using assms(3) [of x "db.more d2"] t on_more_simps(1,2) [of "tx x" d2] on_more_views(3) [of "tx x" d2] by simp_all
    moreover have "log (db.more d2) = log (db.more d)" "saved_buffer d2 = saved_buffer d"
      using cache_token_more [OF assms(4), of a m s d1] c polled_message_more [of log hp u m d] assms(1,2) m by simp_all
    ultimately show ?thesis using poll_messages_user [where tx="\<lambda>x. on_more (tx x)", OF True u m c t, of ms] by simp
  qed
qed simp

section \<open>Where cached tokens come from\<close>

definition token_from :: "ilink_message list \<Rightarrow> string \<Rightarrow> string \<Rightarrow> bool" where
  "token_from ms u t \<longleftrightarrow> (\<exists>m\<in>set ms. user_message m \<and> im_from_user_id m = Some u \<and> im_context_token m = Some t \<and> trim t \<noteq> [])"

lemma cache_token_from:
  "user_message m \<Longrightarrow> cache_token st a m (s, w) = (s', w') \<Longrightarrow> ss_context_tokens s' u = Some t \<Longrightarrow>
   ss_context_tokens s u = Some t \<or> token_from [m] u t"
  by (auto simp: cache_token_def user_message_def token_from_def extract_latest_context_token_def set_context_token_def
      Let_def split: option.splits if_splits)

lemma poll_messages_from:
  "poll_messages hp tx st a ms (s, w) = (b, s', w') \<Longrightarrow> ss_context_tokens s' u = Some t \<Longrightarrow>
   ss_context_tokens s u = Some t \<or> token_from ms u t"
proof (induction ms arbitrary: s w)
  case (Cons m ms)
  show ?case
  proof (cases "user_message m")
    case False
    then show ?thesis using Cons by (fastforce simp: poll_messages_other token_from_def)
  next
    case True
    then obtain v where v: "im_from_user_id m = Some v" by (auto simp: user_message_def)
    obtain x w1 where m: "polled_message hp v m w = (x, w1)" by force
    obtain s2 w2 where c: "cache_token st a m (s, w1) = (s2, w2)" by force
    obtain r w3 where t: "tx x w2 = (r, w3)" by force
    have "ss_context_tokens s2 u = Some t \<or> token_from ms u t"
      using Cons poll_messages_user [OF True v m c, where tx=tx, OF t] by (auto split: if_splits)
    then show ?thesis using cache_token_from [OF True c, of u t] by (auto simp: token_from_def)
  qed
qed simp

text \<open>
  The histories of a session: it starts with the tokens \<open>init\<close>; each poll adds its messages, an
  expired session forgets everything. Whatever else happens to the world in between is free.
\<close>

inductive wechat_history ::
  "'w ilink_http \<Rightarrow> (message \<Rightarrow> 'w \<Rightarrow> bool \<times> 'w) \<Rightarrow> 'w ilink_mode \<Rightarrow> (string \<rightharpoonup> string) \<Rightarrow> ilink_message list \<Rightarrow> session_state \<Rightarrow> bool"
  for hp tx mode where
  start: "ss_context_tokens s = init \<Longrightarrow> wechat_history hp tx mode init [] s"
| polled: "wechat_history hp tx mode init ms s \<Longrightarrow> handle_updates hp tx mode (Ok u) buf (s, w) = (o1, buf', s', w') \<Longrightarrow>
    wechat_history hp tx mode init (ms @ iu_msgs u) s'"
| expired: "wechat_history hp tx mode init ms s \<Longrightarrow>
    handle_updates hp tx mode (Err (SessionExpired c e)) buf (s, w) = (o1, buf', s', w') \<Longrightarrow>
    wechat_history hp tx mode Map.empty [] s'"
| failed: "wechat_history hp tx mode init ms s \<Longrightarrow> handle_updates hp tx mode (Err er) buf (s, w) = (o1, buf', s', w') \<Longrightarrow>
    wechat_history hp tx mode init ms s'"

lemma history_tokens:
  "wechat_history hp tx mode init ms s \<Longrightarrow> ss_context_tokens s u = Some t \<Longrightarrow> init u = Some t \<or> token_from ms u t"
proof (induction arbitrary: u t rule: wechat_history.induct)
  case (polled init ms s ua buf w o1 buf' s' w')
  define s1 where "s1 = (case iu_get_updates_buf ua of None \<Rightarrow> s | Some b \<Rightarrow> s\<lparr>ss_sync_buf := b\<rparr>)"
  have "ss_context_tokens s1 = ss_context_tokens s" by (simp add: s1_def split: option.split)
  moreover from polled(2) obtain w1 more where
    "poll_messages hp tx (il_token_store mode) (il_account_id mode) (iu_msgs ua) (s1, w1) = (more, s', w')"
    by (cases "iu_get_updates_buf ua") (auto simp: handle_updates_def s1_def Let_def split: prod.splits)
  ultimately have "ss_context_tokens s u = Some t \<or> token_from (iu_msgs ua) u t" using poll_messages_from polled(4) by metis
  with polled(3) [of u t] show ?case by (auto simp: token_from_def)
next
  case (failed init ms s er buf w o1 buf' s' w')
  then show ?case by (cases er) (auto simp: handle_updates_def clear_context_tokens_def)
qed (auto simp: handle_updates_def clear_context_tokens_def)

section \<open>Properties\<close>

text \<open>
  C16. After any number of polling turns, whatever the platform answers, a restarted channel
  loads exactly the tokens the running one has, provided the token store and the session agreed
  before and no statement on the tokens fails; saving the cursor may fail at any time.
\<close>

theorem tokens_survive_restart:
  assumes "no_faults e" and "tokens_ok d" and "ss_context_tokens s = (\<lambda>u. token_view d (il_account_id mode, u))"
    and "il_token_store mode = Some (sqlite_token_store e)"
    and "il_sync_store mode = (if persist then Some (sqlite_sync_store e') else None)"
  shows "let (s', d') = poll_loop (lift_http hp) (\<lambda>m. on_more (tx m)) mode n buf (s, d)
    in ss_context_tokens (fst (load_tokens mode (fresh_session b, d'))) = ss_context_tokens s'"
proof -
  have "sqr.agree (il_account_id mode) (s, d)" using assms(2,3) by (simp add: sqr.agree_def)
  from wp.loop_agree [of "il_account_id mode" s d mode e persist e' hp tx n buf, OF this] assms(4,5) faultless_statements [OF assms(1)]
  have "sqr.agree (il_account_id mode) (poll_loop (lift_http hp) (\<lambda>m. on_more (tx m)) mode n buf (s, d))" by simp
  then show ?thesis
    using sqr.load_agree [of "il_account_id mode" _ _ mode e b] assms(4) faultless_statements [OF assms(1)] by (auto split: prod.split)
qed

text \<open>A platform that answers every request with the same update.\<close>

definition sample_platform :: "ilink_updates \<Rightarrow> message list ilink_http" where
  "sample_platform u =
     \<lparr> ih_post = (\<lambda>url hs ms j w. (Ok (200, Ok ''{}''), w)), ih_get = (\<lambda>url hs w. (Err (OtherFailure ''none''), w)),
       ih_json = (\<lambda>s. Ok (JObject [(''ret'', JInt 0)])), ih_updates = (\<lambda>s. Ok u), ih_qrcode = (\<lambda>s. Err ''none''),
       ih_qrcode_status = (\<lambda>s. Err ''none''), ih_status_text = show_nat, ih_header_ok = (\<lambda>s. True), ih_b64 = (\<lambda>b. ''MQ==''),
       ih_random = (\<lambda>w. (1, w)), ih_uuid = (\<lambda>w. (''id'', w)), ih_uuid_simple = (\<lambda>w. (''id'', w)), ih_now_ms = (\<lambda>w. (5, w)) \<rparr>"

definition sample_message :: ilink_message where
  "sample_message =
     \<lparr> im_message_type = Some 1, im_from_user_id = Some ''u1'', im_to_user_id = None, im_group_id = None,
       im_context_token = Some ''t1'', im_item_list = [\<lparr> ii_item_type = Some 1, ii_text_item = Some (Some ''hi'') \<rparr>] \<rparr>"

definition sample_update :: ilink_updates where
  "sample_update =
     \<lparr> iu_ret = 0, iu_errcode = None, iu_errmsg = None, iu_msgs = [sample_message, sample_message\<lparr>im_message_type := Some 2\<rparr>],
       iu_get_updates_buf = Some ''b1'' \<rparr>"

definition sample_config :: ilink_send_config where
  "sample_config =
     \<lparr> ic_base_url = ''https://h'', ic_token = ''t'', ic_from_user_id = ''bot'', ic_context_token = [],
       ic_channel_version = [], ic_timeout_ms = 1, ic_keepalive_timeout_ms = 1 \<rparr>"

definition sample_mode :: "'m db_scheme ilink_mode" where
  "sample_mode =
      \<lparr> il_config = sample_config,
        il_sync_store = Some (sqlite_sync_store calm_env), il_token_store = Some (sqlite_token_store calm_env), il_account_id = ''bot'' \<rparr>"

definition no_rows :: "'m \<Rightarrow> 'm db_scheme" where
  "no_rows m = db.extend empty_db m"

lemma no_rows_tokens [simp]: "tokens_ok (no_rows m)" "token_view (no_rows m) = Map.empty"
  by (simp_all add: tokens_ok_def token_view_def no_rows_def empty_db_def db.extend_def fun_eq_iff)

theorem tokens_survive_restart_witness:
  "let (s', d') = poll_loop (lift_http (sample_platform sample_update)) (\<lambda>m. on_more (\<lambda>w. (True, w @ [m]))) sample_mode 2 []
       (fresh_session [], no_rows [])
   in ss_context_tokens (fst (load_tokens sample_mode (fresh_session [], d'))) = ss_context_tokens s'"
  by (rule tokens_survive_restart [where persist = True])
    (simp_all add: sample_mode_def no_faults_def calm_env_def fresh_session_def)

text \<open>
  C10. A poll hands over exactly the user messages of an update, in their order, each with the
  route, content and id made from it, and moves the cursor to the one of the update. This holds
  under any faults of the stores, as long as the receiver takes the messages.
\<close>

theorem polled_messages_in_order:
  assumes "sqlite_mode mode"
    and "\<And>w. log (snd (ih_uuid hp w)) = log w" and "\<And>w. log (snd (ih_now_ms hp w)) = log w"
    and "\<And>x w. fst (tx x w) \<and> log (snd (tx x w)) = log w @ [x]"
    and "handle_updates (lift_http hp) (\<lambda>x. on_more (tx x)) mode (Ok u) buf (s, d) = (o1, buf', s', d')"
  shows "o1 = Polled \<and> buf' = or_else buf (iu_get_updates_buf u) \<and>
    (\<exists>new. log (db.more d') = log (db.more d) @ new \<and> list_all2 relays (filter user_message (iu_msgs u)) new)"
proof -
  note polled = poll_messages_log [of log hp tx "il_token_store mode", OF assms(2-4)]
  have st: "il_token_store mode = None \<or> (\<exists>e. il_token_store mode = Some (sqlite_token_store e))"
    using assms(1) by (simp add: sqlite_mode_def)
  show ?thesis
  proof (cases "iu_get_updates_buf u")
    case None
    with polled [OF st, of "il_account_id mode" "iu_msgs u" s d] assms(5) show ?thesis
      by (auto simp: handle_updates_def or_else_def)
  next
    case (Some b)
    define d1 where "d1 = (case il_sync_store mode of None \<Rightarrow> d
      | Some ops \<Rightarrow> snd (sy_save ops ''wechat'' (il_account_id mode) (as_bytes b) d))"
    have "db.more d1 = db.more d" using assms(1) unfolding d1_def
      by (auto simp: sqlite_mode_def sqlite_sync_store_def)
    with polled [OF st, of "il_account_id mode" "iu_msgs u" "s\<lparr>ss_sync_buf := b\<rparr>" d1] assms(5) Some show ?thesis
      by (auto simp: handle_updates_def or_else_def d1_def)
  qed
qed

theorem polled_messages_in_order_witness:
  "let d' = snd (snd (snd (handle_updates (lift_http (sample_platform sample_update)) (\<lambda>x. on_more (\<lambda>w. (True, w @ [x])))
       sample_mode (Ok sample_update) [] (fresh_session [], no_rows []))))
   in \<exists>x. db.more d' = [x] \<and> relays sample_message x"
proof -
  let ?r = "handle_updates (lift_http (sample_platform sample_update)) (\<lambda>x. on_more (\<lambda>w. (True, w @ [x])))
       sample_mode (Ok sample_update) [] (fresh_session [], no_rows [])"
  obtain o1 b s d where r: "?r = (o1, b, s, d)" by (metis prod.exhaust)
  have "sqlite_mode sample_mode" by (auto simp: sqlite_mode_def sample_mode_def)
  from polled_messages_in_order [OF this, where log = "\<lambda>w. w" and tx = "\<lambda>x w. (True, w @ [x])", OF _ _ _ r]
  have "\<exists>new. db.more d = new \<and> list_all2 relays (filter user_message (iu_msgs sample_update)) new"
    by (simp add: sample_platform_def no_rows_def db.extend_def)
  moreover have "filter user_message (iu_msgs sample_update) = [sample_message]"
    by (simp add: sample_update_def sample_message_def user_message_def)
  ultimately show ?thesis using r by (auto simp: list_all2_Cons1)
qed

text \<open>
  The cursor is saved before the messages of the update are handed over: when the receiver
  is gone, nothing is handed over and the task ends, but the stored cursor already is behind the
  messages, so the next start does not get them again.
\<close>

theorem cursor_before_delivery:
  assumes "no_faults e" and "il_sync_store mode = Some (sqlite_sync_store e)" and "il_token_store mode = Some (sqlite_token_store e)"
    and "\<And>w. log (snd (ih_uuid hp w)) = log w" and "\<And>w. log (snd (ih_now_ms hp w)) = log w"
    and "\<And>x w. \<not> fst (tx x w) \<and> log (snd (tx x w)) = log w"
    and "filter user_message (iu_msgs u) \<noteq> []" and "iu_get_updates_buf u = Some b"
    and "handle_updates (lift_http hp) (\<lambda>x. on_more (tx x)) mode (Ok u) buf (s, d) = (o1, buf', s', d')"
  shows "o1 = ReceiverClosed \<and> log (db.more d') = log (db.more d) \<and> saved_buffer d' (''wechat'', il_account_id mode) = as_bytes b"
proof -
  obtain r d1 where s: "sy_save (sqlite_sync_store e) ''wechat'' (il_account_id mode) (as_bytes b) d = (r, d1)" by force
  moreover from s assms(1) have "r = Ok ()" and "db.more d1 = db.more d"
    by (auto simp: sqlite_sync_store_def sync_buf_save_def sql_write_eq)
  ultimately have d1: "saved_buffer d1 (''wechat'', il_account_id mode) = as_bytes b" "db.more d1 = db.more d"
    using sqs.save_law [OF s] by simp_all
  have "il_token_store mode = None \<or> (\<exists>e. il_token_store mode = Some (sqlite_token_store e))" using assms(3) by blast
  from poll_messages_closed [of log hp tx "il_token_store mode", OF assms(4-6) this assms(7),
      of "il_account_id mode" "s\<lparr>ss_sync_buf := b\<rparr>" d1] assms(2,3,8,9) s d1
  show ?thesis by (auto simp: handle_updates_def)
qed

theorem cursor_before_delivery_witness:
  "let d' = snd (snd (snd (handle_updates (lift_http (sample_platform sample_update)) (\<lambda>x. on_more (\<lambda>w. (False, w)))
       sample_mode (Ok sample_update) [] (fresh_session [], no_rows []))))
   in db.more d' = [] \<and> saved_buffer d' (''wechat'', ''bot'') = as_bytes ''b1''"
proof -
  let ?r = "handle_updates (lift_http (sample_platform sample_update)) (\<lambda>x. on_more (\<lambda>w. (False, w)))
       sample_mode (Ok sample_update) [] (fresh_session [], no_rows [])"
  obtain o1 b s d where r: "?r = (o1, b, s, d)" by (metis prod.exhaust)
  have e: "no_faults calm_env" by (simp add: no_faults_def calm_env_def)
  from cursor_before_delivery [OF e, where log = "\<lambda>w. w" and tx = "\<lambda>x w. (False, w)" and b = "''b1''", OF _ _ _ _ _ _ _ r]
  show ?thesis unfolding Let_def r
    by (simp add: sample_mode_def sample_platform_def sample_update_def sample_message_def user_message_def no_rows_def
        db.extend_def)
qed

text \<open>
  C11. A reply carries a token of its recipient: along every history of polls, a text is either
  not sent at all, or posted with a context token that its recipient sent in a message since the
  session last expired (or that was loaded for them at the start), never one of another user.
\<close>

theorem reply_uses_own_token:
  assumes "wechat_history hp tx mode init ms s" and "wch_mode ch = WILink mode"
    and "wechat_send_message hp fs ch dest (Text body) (s, w) = (r, s', w')"
  shows "\<not> is_Ok r \<and> s' = s \<and> w' = w \<or>
    (\<exists>t res w1. (init dest = Some t \<or> token_from ms dest t) \<and>
       send_text_via_ilink hp ((il_config mode)\<lparr>ic_context_token := t\<rparr>) dest body w = (res, w1) \<and> is_Ok r = is_Ok res)"
proof (cases "ss_context_tokens s dest")
  case None
  then show ?thesis using assms(2,3)
    by (auto simp: wechat_send_message_def send_body_def get_context_token_def is_Ok_def)
next
  case (Some t)
  from history_tokens [OF assms(1) Some] have "init dest = Some t \<or> token_from ms dest t" .
  moreover obtain res w1 where p: "send_text_via_ilink hp ((il_config mode)\<lparr>ic_context_token := t\<rparr>) dest body w = (res, w1)"
    by force
  moreover have "is_Ok r = is_Ok res" using assms(2,3) p Some
    by (cases res) (auto simp: wechat_send_message_def send_body_def get_context_token_def is_Ok_def Let_def split: prod.splits)
  ultimately show ?thesis by blast
qed

theorem reply_uses_own_token_witness:
  "\<exists>res w1. send_text_via_ilink (sample_platform sample_update)
     ((sample_config)\<lparr>ic_context_token := ''t0''\<rparr>) ''u1'' ''hello'' [] = (res, w1) \<and> is_Ok res"
proof -
  let ?hp = "sample_platform sample_update"
  let ?mode = "\<lparr> il_config = sample_config, il_sync_store = None, il_token_store = None, il_account_id = ''bot'' \<rparr>"
  let ?ch = "wechat_new\<lparr>wch_mode := WILink ?mode\<rparr>"
  let ?s = "\<lparr> ss_context_tokens = [''u1'' \<mapsto> ''t0''], ss_sync_buf = [] \<rparr>"
  have h: "wechat_history ?hp (\<lambda>m w. (True, w)) ?mode [''u1'' \<mapsto> ''t0''] [] ?s" by (rule wechat_history.start) simp
  obtain r s' w' where p: "wechat_send_message ?hp \<lparr> mf_metadata = \<lambda>p w. (Err [], w), mf_open = \<lambda>p w. (Err [], w) \<rparr>
      ?ch ''u1'' (Text ''hello'') (?s, []) = (r, s', w')" by (metis prod.exhaust)
  have "trim ''{}'' \<noteq> []" by code_simp
  then have ok: "is_Ok (fst (wechat_send_message ?hp \<lparr> mf_metadata = \<lambda>p w. (Err [], w), mf_open = \<lambda>p w. (Err [], w) \<rparr>
      ?ch ''u1'' (Text ''hello'') (?s, [])))"
    by (simp add: wechat_send_message_def send_body_def get_context_token_def wechat_new_def send_text_via_ilink_def
        sample_platform_def build_send_request_payload_def build_headers_def random_wechat_uin_def is_success_def
        judge_send_response_def int_field_def or_else_def as_i32_def is_i64_def i64_min_def i64_max_def is_Ok_def split_beta)
  have m: "wch_mode ?ch = WILink ?mode" by simp
  have "is_Ok r" using ok unfolding p by (simp only: fst_conv)
  with reply_uses_own_token [OF h m p, unfolded ilink_mode.select_convs] obtain t res w1 where
    t: "[''u1'' \<mapsto> ''t0''] ''u1'' = Some t \<or> token_from [] ''u1'' t"
    and sent: "send_text_via_ilink ?hp (sample_config\<lparr>ic_context_token := t\<rparr>) ''u1'' ''hello'' [] = (res, w1)"
    and res: "is_Ok res" by blast
  from t have "t = ''t0''" by (simp add: token_from_def)
  with sent have "send_text_via_ilink ?hp (sample_config\<lparr>ic_context_token := ''t0''\<rparr>) ''u1'' ''hello'' [] = (res, w1)"
    by simp
  with res show ?thesis by blast
qed

end
