(* ===== verification/Http_Api.thy ===== *)
theory Http_Api
  imports Wechat_Polling Feishu_Webhook Supervisor "HOL-Library.Char_ord" "HOL-Library.List_Lexorder"
begin

text \<open>
  The endpoints of \<open>src/infrastructure/runtime.rs\<close> around the WeChat tokens: the cache of peer
  tokens, the task that polls for them, \<open>/api/send\<close>, \<open>/api/token_status\<close>, \<open>/api/window_status\<close>
  and \<open>/api/health\<close>.

  The cache is an association list by peer, in the iteration order of the hash map. The clock of
  \<open>Instant\<close> counts milliseconds. Sends to one peer are serialised by a lock, but the polling task
  may change the cache while a request is under way: \<open>between\<close> is that change. The record
  \<open>api_deps\<close> holds what the handlers get from outside.
\<close>

section \<open>Peer tokens\<close>

record peer_token =
  pt_token :: string
  pt_observed_at :: nat
  pt_last_success_at :: "nat option"
  pt_send_count :: nat
  pt_stale :: bool

definition peer_token_new :: "string \<Rightarrow> nat \<Rightarrow> peer_token" where
  "peer_token_new token now =
     \<lparr> pt_token = token, pt_observed_at = now, pt_last_success_at = None, pt_send_count = 0, pt_stale = False \<rparr>"

definition should_refresh :: "nat \<Rightarrow> peer_token \<Rightarrow> bool" where
  "should_refresh now p \<longleftrightarrow> pt_stale p \<or> 25 * 60 * 1000 \<le> now - pt_observed_at p"

definition u32_saturating_inc :: "nat \<Rightarrow> nat" where
  "u32_saturating_inc n = min (2 ^ 32 - 1) (n + 1)"

definition mark_success :: "nat \<Rightarrow> string option \<Rightarrow> peer_token \<Rightarrow> peer_token" where
  "mark_success now next_token p =
     (let p1 = (case next_token of
                  Some token \<Rightarrow>
                    if trim token \<noteq> [] \<and> token \<noteq> pt_token p
                    then p\<lparr>pt_token := token, pt_send_count := 0, pt_observed_at := now\<rparr> else p
                | None \<Rightarrow> p)
      in p1\<lparr>pt_last_success_at := Some now, pt_send_count := u32_saturating_inc (pt_send_count p1), pt_stale := False\<rparr>)"

definition observed_age_secs :: "nat \<Rightarrow> peer_token \<Rightarrow> nat" where
  "observed_age_secs now p = (now - pt_observed_at p) div 1000"

definition last_success_age_secs :: "nat \<Rightarrow> peer_token \<Rightarrow> nat option" where
  "last_success_age_secs now p = map_option (\<lambda>t. (now - t) div 1000) (pt_last_success_at p)"

type_synonym token_cache = "(string \<times> peer_token) list"

text \<open>The persisted tokens that are not blank, in the iteration order of the loaded map.\<close>

fun initial_token_cache ::
  "('w \<Rightarrow> nat \<times> 'w) \<Rightarrow> (string \<times> string) list \<Rightarrow> token_cache \<times> 'w \<Rightarrow> token_cache \<times> 'w" where
  "initial_token_cache instant [] cw = cw"
| "initial_token_cache instant ((peer, token) # ts) (c, w) =
     (if trim token \<noteq> []
      then (let (now, w1) = instant w in initial_token_cache instant ts (AList.update peer (peer_token_new token now) c, w1))
      else initial_token_cache instant ts (c, w))"

section \<open>Stored tokens\<close>

text \<open>The display of a store error.\<close>

fun store_error_display :: "store_error \<Rightarrow> string" where
  "store_error_display (StoreIo s) = ''io error: '' @ s"
| "store_error_display (StoreDb s) = ''database error: '' @ s"

definition persist_context_token :: "'w token_ops \<Rightarrow> string \<Rightarrow> string \<Rightarrow> string \<Rightarrow> 'w \<Rightarrow> (string + unit) \<times> 'w" where
  "persist_context_token ts account peer token w =
     (let (r, w1) = tk_set ts account peer token w
      in (map_err (\<lambda>er. ''persist context token failed: '' @ store_error_display er) r, w1))"

definition load_persisted_context_tokens :: "'w token_ops \<Rightarrow> string \<Rightarrow> 'w \<Rightarrow> (string + (string \<rightharpoonup> string)) \<times> 'w" where
  "load_persisted_context_tokens ts account w =
     (let (r, w1) = tk_get_all ts account w
      in (map_err (\<lambda>er. ''load persisted context tokens failed: '' @ store_error_display er) r, w1))"

definition clear_persisted_context_tokens :: "'w token_ops \<Rightarrow> string \<Rightarrow> 'w \<Rightarrow> (string + unit) \<times> 'w" where
  "clear_persisted_context_tokens ts account w =
     (let (r, w1) = tk_delete_all ts account w
      in (map_err (\<lambda>er. ''clear persisted context tokens failed: '' @ store_error_display er) r, w1))"

section \<open>Helpers\<close>

definition env_flag_enabled :: "string option \<Rightarrow> bool" where
  "env_flag_enabled v = (case v of
      Some s \<Rightarrow> map ascii_lower (trim s) \<in> {''1'', ''true'', ''yes'', ''on''} | None \<Rightarrow> False)"

definition env_u64 :: "string option \<Rightarrow> nat \<Rightarrow> nat" where
  "env_u64 v default_value = (case v of
      Some s \<Rightarrow> (case parse_u64 (trim s) of Some n \<Rightarrow> n | None \<Rightarrow> default_value) | None \<Rightarrow> default_value)"

definition is_ret_minus_2_error :: "string \<Rightarrow> bool" where
  "is_ret_minus_2_error err \<longleftrightarrow> contains err ''ret=-2'' \<or> contains err ''ret=-2,'' \<or> contains err ''ret=-2 ''"

definition extract_context_token_from_send_response :: "json \<Rightarrow> string option" where
  "extract_context_token_from_send_response v =
     (case (case Option.bind (json_get v ''msg'') (\<lambda>m. str_field m ''context_token'') of
              Some s \<Rightarrow> Some s | None \<Rightarrow> str_field v ''context_token'') of
        Some s \<Rightarrow> if trim s = [] then None else Some s
      | None \<Rightarrow> None)"

text \<open>\<open>chars().count()\<close> and \<open>chars().take(n)\<close> on UTF-8: continuation bytes belong to their character.\<close>

definition continuation :: "char \<Rightarrow> bool" where
  "continuation c \<longleftrightarrow> 128 \<le> (of_char c :: nat) \<and> (of_char c :: nat) < 192"

definition char_count :: "string \<Rightarrow> nat" where
  "char_count s = length (filter (\<lambda>c. \<not> continuation c) s)"

fun take_chars :: "nat \<Rightarrow> string \<Rightarrow> string" where
  "take_chars n [] = []"
| "take_chars n (c # cs) =
     (if continuation c then c # take_chars n cs
      else (case n of 0 \<Rightarrow> [] | Suc m \<Rightarrow> c # take_chars m cs))"

section \<open>The token poller\<close>

record 'w api_deps =
  ad_wechat :: wechat_config
  ad_http :: "'w ilink_http"
  ad_tokens :: "'w token_ops"
  ad_sync :: "'w sync_ops"
  ad_instant :: "'w \<Rightarrow> nat \<times> 'w"
  ad_sleep :: "nat \<Rightarrow> 'w \<Rightarrow> 'w"
  ad_log_refresh :: "string \<Rightarrow> 'w \<Rightarrow> 'w"
  ad_audit :: "string option \<Rightarrow> string \<Rightarrow> string \<Rightarrow> 'w \<Rightarrow> 'w"
  ad_min_interval_ms :: nat
  ad_debug :: bool
  ad_fingerprint :: "string \<Rightarrow> string \<Rightarrow> nat option \<Rightarrow> string"

record poller =
  po_sync_buf :: string
  po_consecutive_failures :: nat
  po_session_retries :: nat
  po_retry_delay_ms :: nat
  po_keepalive_timeout_ms :: nat

definition poller_config :: "wechat_config \<Rightarrow> nat \<Rightarrow> ilink_send_config" where
  "poller_config wc keepalive =
     \<lparr> ic_base_url = wc_base_url wc, ic_token = wc_token wc, ic_from_user_id = wc_account_id wc, ic_context_token = [],
       ic_channel_version = wc_channel_version wc, ic_timeout_ms = wc_timeout_ms wc, ic_keepalive_timeout_ms = keepalive \<rparr>"

definition poller_start :: "(bytes \<Rightarrow> string) \<Rightarrow> 'w api_deps \<Rightarrow> 'w \<Rightarrow> poller \<times> 'w" where
  "poller_start lossy dp w =
     (let (r, w1) = sy_load (ad_sync dp) ''wechat'' (wc_account_id (ad_wechat dp)) w
      in (\<lparr> po_sync_buf = (case r of Ok b \<Rightarrow> lossy b | Err _ \<Rightarrow> []), po_consecutive_failures = 0, po_session_retries = 0,
            po_retry_delay_ms = 2000, po_keepalive_timeout_ms = max (wc_keepalive_timeout_ms (ad_wechat dp)) 40000 \<rparr>, w1))"

text \<open>A user message refreshes the token of its sender, other than the account itself.\<close>

definition refresh_token :: "'w api_deps \<Rightarrow> ilink_message \<Rightarrow> token_cache \<times> 'w \<Rightarrow> token_cache \<times> 'w" where
  "refresh_token dp m cw =
     (let (c, w) = cw in
      if im_message_type m \<noteq> Some 1 then (c, w)
      else (case im_context_token m of
              None \<Rightarrow> (c, w)
            | Some token \<Rightarrow>
                if trim token = [] then (c, w)
                else (case im_from_user_id m of
                        None \<Rightarrow> (c, w)
                      | Some uid \<Rightarrow>
                          if trim uid \<noteq> [] \<and> uid \<noteq> wc_account_id (ad_wechat dp) then
                            (let (now, w1) = ad_instant dp w;
                                 (r, w2) = persist_context_token (ad_tokens dp) (wc_account_id (ad_wechat dp)) uid token w1;
                                 w3 = ad_log_refresh dp uid w2;
                                 w4 = ad_audit dp None ''token_refresh'' (''source=long-poll,peer_id='' @ uid @ '',trigger=inbound'') w3
                             in (AList.update uid (peer_token_new token now) c, w4))
                          else (c, w))))"

datatype poller_outcome = PollerContinues | PollerStopped

text \<open>One turn after the request: the pauses are the calls of \<open>ad_sleep\<close>.\<close>

definition poller_handle ::
  "'w api_deps \<Rightarrow> (get_updates_error + ilink_updates) \<Rightarrow> poller \<Rightarrow> token_cache \<times> 'w \<Rightarrow>
   poller_outcome \<times> poller \<times> token_cache \<times> 'w" where
  "poller_handle dp r po cw =
     (let (c, w) = cw; account = wc_account_id (ad_wechat dp);
          failed =
            (let failures = po_consecutive_failures po + 1 in
             if 5 \<le> failures
             then (PollerContinues, po\<lparr>po_consecutive_failures := 0, po_retry_delay_ms := 2000\<rparr>, c, ad_sleep dp 300000 w)
             else (PollerContinues,
                   po\<lparr>po_consecutive_failures := failures,
                      po_retry_delay_ms := min (u64_saturating_mul (po_retry_delay_ms po) 2) 30000,
                      po_keepalive_timeout_ms := max (po_keepalive_timeout_ms po) 40000\<rparr>,
                   c, ad_sleep dp (po_retry_delay_ms po) w)) in
      case r of
        Ok updates \<Rightarrow>
          (let po1 = po\<lparr>po_consecutive_failures := 0, po_session_retries := 0, po_retry_delay_ms := 2000\<rparr>;
               (po2, w1) = (case iu_get_updates_buf updates of
                  None \<Rightarrow> (po1, w)
                | Some buf \<Rightarrow> (po1\<lparr>po_sync_buf := buf\<rparr>, snd (sy_save (ad_sync dp) ''wechat'' account (as_bytes buf) w)));
               (c2, w2) = fold (refresh_token dp) (iu_msgs updates) (c, w1)
           in (PollerContinues, po2, c2, w2))
      | Err (Business ret errcode errmsg) \<Rightarrow>
          if errcode = - 14 then
            (let retries = po_session_retries po + 1 in
             if 3 \<le> retries then (PollerStopped, po\<lparr>po_session_retries := retries\<rparr>, c, w)
             else (PollerContinues, po\<lparr>po_session_retries := retries\<rparr>, [],
                   ad_sleep dp 300000 (snd (clear_persisted_context_tokens (ad_tokens dp) account w))))
          else failed
      | Err _ \<Rightarrow> failed)"

definition poller_turn :: "'w api_deps \<Rightarrow> poller \<Rightarrow> token_cache \<times> 'w \<Rightarrow> poller_outcome \<times> poller \<times> token_cache \<times> 'w" where
  "poller_turn dp po cw =
     (let (c, w) = cw;
          (r, w1) = get_updates_via_ilink (ad_http dp) (poller_config (ad_wechat dp) (po_keepalive_timeout_ms po)) (po_sync_buf po) w
      in poller_handle dp r po (c, w1))"

text \<open>\<open>n\<close> turns of the task; senders may change the cache between turns.\<close>

fun poller_run ::
  "'w api_deps \<Rightarrow> (nat \<Rightarrow> token_cache \<Rightarrow> token_cache) \<Rightarrow> nat \<Rightarrow> poller \<Rightarrow> token_cache \<times> 'w \<Rightarrow>
   poller_outcome \<times> poller \<times> token_cache \<times> 'w" where
  "poller_run dp others 0 po cw = (PollerContinues, po, cw)"
| "poller_run dp others (Suc n) po cw =
     (case poller_turn dp po cw of
        (PollerStopped, po1, cw1) \<Rightarrow> (PollerStopped, po1, cw1)
      | (PollerContinues, po1, c1, w1) \<Rightarrow> poller_run dp (\<lambda>i. others (Suc i)) n po1 (others 0 c1, w1))"

section \<open>/api/send\<close>

record send_request =
  sr_to :: string
  sr_text :: string
  sr_context_token :: "string option"

record send_diagnostics =
  sd_token_cache_hit :: bool
  sd_request_token_supplied :: bool
  sd_lock_wait_ms :: nat
  sd_peer_fingerprint :: string
  sd_text_len :: nat
  sd_context_token_len :: "nat option"
  sd_ret :: "int option"
  sd_errcode :: "int option"
  sd_server_id :: "string option"
  sd_returned_token_prefix :: "string option"

record send_response =
  sp_ok :: bool
  sp_context_token :: "string option"
  sp_error :: "string option"
  sp_diagnostics :: "send_diagnostics option"

definition supplied_token :: "send_request \<Rightarrow> string option" where
  "supplied_token req =
     (case sr_context_token req of Some s \<Rightarrow> if trim s = [] then None else Some (trim s) | None \<Rightarrow> None)"

text \<open>A cached token comes before the one of the request.\<close>

definition selected_token :: "token_cache \<Rightarrow> send_request \<Rightarrow> string option" where
  "selected_token c req = (case map_of c (sr_to req) of Some p \<Rightarrow> Some (pt_token p) | None \<Rightarrow> supplied_token req)"

definition diagnostics ::
  "'w api_deps \<Rightarrow> token_cache \<Rightarrow> send_request \<Rightarrow> nat \<Rightarrow> nat option \<Rightarrow> int option \<Rightarrow> int option \<Rightarrow> string option \<Rightarrow> string option \<Rightarrow>
   send_diagnostics option" where
  "diagnostics dp c req lock_wait len ret errcode sid prefix =
     (if ad_debug dp
      then Some \<lparr> sd_token_cache_hit = (map_of c (sr_to req) \<noteq> None),
             sd_request_token_supplied = (supplied_token req \<noteq> None), sd_lock_wait_ms = lock_wait,
             sd_peer_fingerprint = ad_fingerprint dp (sr_to req) (sr_text req) len,
             sd_text_len = char_count (sr_text req), sd_context_token_len = len, sd_ret = ret, sd_errcode = errcode,
             sd_server_id = sid, sd_returned_token_prefix = prefix \<rparr>
      else None)"

text \<open>The wait before a send that follows a successful one too quickly.\<close>

definition pace :: "'w api_deps \<Rightarrow> peer_token option \<Rightarrow> 'w \<Rightarrow> 'w" where
  "pace dp entry w =
     (case Option.bind entry pt_last_success_at of
        None \<Rightarrow> w
      | Some t \<Rightarrow>
          (let (now, w1) = ad_instant dp w; elapsed = now - t
           in if elapsed < ad_min_interval_ms dp then ad_sleep dp (ad_min_interval_ms dp - elapsed) w1 else w1))"

definition send_config :: "wechat_config \<Rightarrow> string \<Rightarrow> ilink_send_config" where
  "send_config wc ctx =
     \<lparr> ic_base_url = wc_base_url wc, ic_token = wc_token wc, ic_from_user_id = wc_account_id wc, ic_context_token = ctx,
       ic_channel_version = wc_channel_version wc, ic_timeout_ms = wc_timeout_ms wc,
       ic_keepalive_timeout_ms = wc_keepalive_timeout_ms wc \<rparr>"

text \<open>After a successful send the entry is created if need be, updated and stored.\<close>

definition record_success_of ::
  "'w api_deps \<Rightarrow> string \<Rightarrow> string \<Rightarrow> string option \<Rightarrow> token_cache \<times> 'w \<Rightarrow> token_cache \<times> 'w" where
  "record_success_of dp peer ctx next_ctx cw =
     (let (c, w) = cw;
          (entry, w1) = (case map_of c peer of
             Some p \<Rightarrow> (p, w) | None \<Rightarrow> (let (now, w1) = ad_instant dp w in (peer_token_new ctx now, w1)));
          (now, w2) = ad_instant dp w1;
          entry' = mark_success now next_ctx entry
      in (AList.update peer entry' c,
          snd (persist_context_token (ad_tokens dp) (wc_account_id (ad_wechat dp)) peer (pt_token entry') w2)))"

definition api_send ::
  "'w api_deps \<Rightarrow> nat \<Rightarrow> (token_cache \<Rightarrow> token_cache) \<Rightarrow> send_request \<Rightarrow> token_cache \<times> 'w \<Rightarrow>
   (nat \<times> send_response) \<times> token_cache \<times> 'w" where
  "api_send dp lock_wait between req cw =
     (let (c, w) = cw; account = wc_account_id (ad_wechat dp); peer = sr_to req;
          diag = diagnostics dp c req lock_wait;
          w1 = pace dp (map_of c peer) w in
      case selected_token c req of
        None \<Rightarrow>
          ((412, \<lparr> sp_ok = False, sp_context_token = None,
             sp_error = Some ''no valid context_token for peer; wait for inbound user message then retry'',
             sp_diagnostics = diag None None None None None \<rparr>), c, w1)
      | Some ctx \<Rightarrow>
          (let len = Some (char_count ctx) in
           case send_text_via_ilink (ad_http dp) (send_config (ad_wechat dp) ctx) peer (sr_text req) w1 of
             (Ok resp, w2) \<Rightarrow>
               (let next_ctx = extract_context_token_from_send_response resp;
                    reply_ctx = or_else ctx next_ctx;
                    (c2, w3) = record_success_of dp peer ctx next_ctx (between c, w2)
                in ((200, \<lparr> sp_ok = True, sp_context_token = Some reply_ctx, sp_error = None,
                       sp_diagnostics = diag len (Some (or_else 0 (int_field resp ''ret'')))
                         (Some (or_else 0 (int_field resp ''errcode''))) (server_id resp) (Some (take_chars 16 reply_ctx)) \<rparr>),
                    c2, w3))
           | (Err e, w2) \<Rightarrow>
               if is_ret_minus_2_error e then
                 ((412, \<lparr> sp_ok = False, sp_context_token = None,
                    sp_error = Some ''upstream rejected context_token (ret=-2); wait for a new inbound user message, then retry'',
                    sp_diagnostics = diag len (Some (- 2)) (Some 0) None None \<rparr>),
                  AList.delete peer (between c), snd (tk_delete (ad_tokens dp) account peer w2))
               else
                 ((502, \<lparr> sp_ok = False, sp_context_token = None, sp_error = Some e,
                    sp_diagnostics = diag len None None None None \<rparr>), between c, w2)))"

section \<open>Status endpoints\<close>

record token_status_entry =
  te_peer_id :: string
  te_token_age_secs :: nat
  te_last_update_ts_secs :: int
  te_is_stale :: bool

definition token_status :: "nat \<Rightarrow> int \<Rightarrow> token_cache \<Rightarrow> token_status_entry list" where
  "token_status instant now c =
     sort_key te_peer_id
       (map (\<lambda>(peer, p). \<lparr> te_peer_id = peer, te_token_age_secs = observed_age_secs instant p,
              te_last_update_ts_secs = now, te_is_stale = pt_stale p \<rparr>) c)"

record window_status_entry =
  wi_peer_id :: string
  wi_observed_age_secs :: nat
  wi_last_success_age_secs :: "nat option"
  wi_send_count :: nat
  wi_stale :: bool
  wi_should_refresh :: bool

definition window_status :: "nat \<Rightarrow> token_cache \<Rightarrow> window_status_entry list" where
  "window_status instant c =
     sort_key wi_peer_id
       (map (\<lambda>(peer, p). \<lparr> wi_peer_id = peer, wi_observed_age_secs = observed_age_secs instant p,
              wi_last_success_age_secs = last_success_age_secs instant p, wi_send_count = pt_send_count p,
              wi_stale = pt_stale p, wi_should_refresh = should_refresh instant p \<rparr>) c)"

definition feishu_account_json :: "feishu_config \<Rightarrow> json" where
  "feishu_account_json cfg =
     (let verified = trim (fc_verification_token cfg) \<noteq> [] \<and> trim (fc_signing_secret cfg) \<noteq> [];
          app_auth = trim (fc_app_id cfg) \<noteq> [] \<and> trim (fc_app_secret cfg) \<noteq> [];
          preissued = trim (fc_tenant_access_token cfg) \<noteq> []
      in JObject [(''account_id'', JString (fc_account_id cfg)), (''receive_id_type'', JString (fc_receive_id_type cfg)),
           (''webhook_verified'', JBool verified),
           (''auth_method'', JString (if app_auth then ''app_credentials'' else if preissued then ''preissued_token'' else ''none''))])"

definition feishu_detail :: "feishu_config list \<Rightarrow> json" where
  "feishu_detail configs =
     (let enabled = filter fc_enabled configs in
      if 0 < length enabled
      then JObject [(''enabled'', JBool True), (''accounts'', JArray (map feishu_account_json enabled)),
             (''account_count'', JInt (int (length enabled)))]
      else JObject [(''enabled'', JBool False), (''accounts'', JArray [])])"

fun task_state_name :: "task_state \<Rightarrow> string" where
  "task_state_name TaskRunning = ''running''"
| "task_state_name Completed = ''completed''"
| "task_state_name (Failed _) = ''failed''"

definition tasks_json :: "task_supervisor \<Rightarrow> json \<times> task_supervisor" where
  "tasks_json sv =
     (let (finished, sv1) = poll_status sv
      in (JObject [(''running'', JArray (map JString (running_names sv1))),
            (''finished_count'', JInt (int (length finished))),
            (''finished'', JArray (map (\<lambda>s. JObject [(''name'', JString (ts_name s)),
               (''state'', JString (task_state_name (ts_state s)))]) finished))], sv1))"

fun circuit_state_name :: "circuit_state \<Rightarrow> string" where
  "circuit_state_name CClosed = ''closed''"
| "circuit_state_name COpen = ''open''"
| "circuit_state_name CHalfOpen = ''half_open''"

definition gate_json :: "gate \<Rightarrow> json" where
  "gate_json g =
     JObject [(''circuit_state'', JString (circuit_state_name (br_state (g_breaker g)))),
       (''failure_count'', JInt (int (unat (br_failure_count (g_breaker g))))),
       (''failure_threshold'', JInt (int (unat (failure_threshold (br_config (g_breaker g)))))),
       (''active'', JInt (int (bh_active_count (g_bulkhead g)))),
       (''max_concurrent'', JInt (int (bh_max_concurrent (g_bulkhead g))))]"

text \<open>A listing that fails counts as empty.\<close>

definition count_of :: "(repo_error + 'a list) \<Rightarrow> int" where
  "count_of r = (case r of Ok xs \<Rightarrow> int (length xs) | Err _ \<Rightarrow> 0)"

definition api_health ::
  "feishu_config list \<Rightarrow> gate \<Rightarrow> gate \<Rightarrow> 'w outbox_repo \<Rightarrow> 'w dead_letter_repo \<Rightarrow> task_supervisor \<times> 'w \<Rightarrow>
   (nat \<times> json) \<times> task_supervisor \<times> 'w" where
  "api_health configs send_gate ai_gate outbox dead_letters svw =
     (let (sv, w) = svw; (tasks, sv1) = tasks_json sv;
          (pending, w1) = or_fetch_pending outbox 1024 w; (letters, w2) = dlr_list dead_letters 1024 w1
      in ((200, JObject [(''ok'', JBool True), (''feishu'', feishu_detail configs), (''tasks'', tasks),
             (''resilience'', JObject [(''send_gate'', gate_json send_gate), (''ai_gate'', gate_json ai_gate),
                (''outbox_pending'', JInt (count_of pending)), (''dead_letter_count'', JInt (count_of letters))])]), sv1, w2))"

section \<open>Lemmas\<close>

text \<open>The code -20 is taken for -2.\<close>

lemma ret_minus_20_is_ret_minus_2: "is_ret_minus_2_error ''ilink send rejected: ret=-20, errcode=0, errmsg=busy''"
  by code_simp

text \<open>Nothing marks a token as stale.\<close>

definition none_stale :: "token_cache \<Rightarrow> bool" where
  "none_stale c \<longleftrightarrow> (\<forall>peer p. map_of c peer = Some p \<longrightarrow> \<not> pt_stale p)"

lemma mark_success_fields [simp]:
  "pt_stale (mark_success now t p) = False" "0 < pt_send_count (mark_success now t p)"
  by (auto simp: mark_success_def u32_saturating_inc_def Let_def split: option.split)

lemma none_stale_update: "none_stale c \<Longrightarrow> \<not> pt_stale p \<Longrightarrow> none_stale (AList.update peer p c)"
  by (auto simp: none_stale_def update_conv')

lemma refresh_none_stale: "none_stale c \<Longrightarrow> none_stale (fst (refresh_token dp m (c, w)))"
  by (auto simp: refresh_token_def Let_def split_beta peer_token_new_def intro!: none_stale_update split: option.split)

lemma record_none_stale: "none_stale c \<Longrightarrow> none_stale (fst (record_success_of dp peer ctx nxt (c, w)))"
  by (auto simp: record_success_of_def Let_def split_beta intro!: none_stale_update)

text \<open>The token of an entry after a success.\<close>

lemma mark_success_token:
  "pt_token (mark_success now t p) = (case t of Some s \<Rightarrow> if trim s = [] then pt_token p else s | None \<Rightarrow> pt_token p)"
  by (auto simp: mark_success_def Let_def split: option.split)

lemma extract_nonblank: "extract_context_token_from_send_response v = Some s \<Longrightarrow> trim s \<noteq> []"
  by (auto simp: extract_context_token_from_send_response_def split: option.splits if_splits)

lemma record_success_cache:
  assumes "record_success_of dp peer ctx nxt (c, w) = (c', w')" and "\<And>s. nxt = Some s \<Longrightarrow> trim s \<noteq> []"
  shows "(\<exists>p. map_of c' peer = Some p \<and> 0 < pt_send_count p \<and> \<not> pt_stale p \<and>
      pt_token p = or_else (or_else ctx (map_option pt_token (map_of c peer))) nxt) \<and>
    (\<forall>q. q \<noteq> peer \<longrightarrow> map_of c' q = map_of c q)"
  using assms
  by (auto simp: record_success_of_def Let_def split_beta update_conv' mark_success_token or_else_def peer_token_new_def
      split: option.splits)

text \<open>Both status lists have one entry per cached peer, in the order of the peers.\<close>

lemma window_status_peers:
  "mset (map wi_peer_id (window_status i c)) = mset (map fst c) \<and> sorted (map wi_peer_id (window_status i c))"
  by (simp add: window_status_def image_mset.compositionality comp_def split_beta)

lemma token_status_peers:
  "mset (map te_peer_id (token_status i t c)) = mset (map fst c) \<and> sorted (map te_peer_id (token_status i t c))"
  by (simp add: token_status_def image_mset.compositionality comp_def split_beta)

text \<open>The token poller adds peers and drops none.\<close>

lemma refresh_keeps_peers: "dom (map_of c) \<subseteq> dom (map_of (fst (refresh_token dp m (c, w))))"
  by (auto simp: refresh_token_def Let_def split_beta update_conv' split: option.split)

lemma refresh_all_keep_peers: "dom (map_of c) \<subseteq> dom (map_of (fst (fold (refresh_token dp) ms (c, w))))"
proof (induction ms arbitrary: c w)
  case (Cons m ms)
  obtain c1 w1 where r: "refresh_token dp m (c, w) = (c1, w1)" by force
  with refresh_keeps_peers [of c dp m w] Cons.IH [of c1 w1] show ?case by auto
qed simp

text \<open>A turn whose answer is not a business error with the session code.\<close>

lemma poller_handle_peers:
  assumes "\<And>ret m. r \<noteq> Err (Business ret (- 14) m)" and "poller_handle dp r po (c, w) = (o1, po', c', w')"
  shows "o1 = PollerContinues \<and> dom (map_of c) \<subseteq> dom (map_of c') \<and> (po_session_retries po = 0 \<longrightarrow> po_session_retries po' = 0)"
proof (cases r)
  case (Inl e)
  then show ?thesis using assms by (cases e) (auto simp: poller_handle_def Let_def split: if_splits)
next
  case (Inr u)
  with assms(2) obtain w1 where f: "fold (refresh_token dp) (iu_msgs u) (c, w1) = (c', w')"
    and "o1 = PollerContinues" "po_session_retries po' = 0"
    by (cases "iu_get_updates_buf u") (auto simp: poller_handle_def Let_def split: prod.splits)
  with refresh_all_keep_peers [of c dp "iu_msgs u" w1] show ?thesis by simp
qed

lemma poller_turn_peers:
  assumes "poller_turn dp po (c, w) = (o1, po', c', w')"
  shows "o1 = PollerContinues \<and> dom (map_of c) \<subseteq> dom (map_of c') \<and> (po_session_retries po = 0 \<longrightarrow> po_session_retries po' = 0)"
proof -
  obtain r w1 where g: "get_updates_via_ilink (ad_http dp) (poller_config (ad_wechat dp) (po_keepalive_timeout_ms po))
      (po_sync_buf po) w = (r, w1)" by force
  have "r \<noteq> Err (Business ret (- 14) m)" for ret m using business_not_expired g by metis
  moreover from assms g have "poller_handle dp r po (c, w1) = (o1, po', c', w')" by (simp add: poller_turn_def)
  ultimately show ?thesis using poller_handle_peers by metis
qed

text \<open>The backoff of the poller.\<close>

definition poller_ok :: "poller \<Rightarrow> bool" where
  "poller_ok po \<longleftrightarrow> po_consecutive_failures po < 5 \<and>
     po_retry_delay_ms po = min 30000 (2000 * 2 ^ po_consecutive_failures po) \<and> 40000 \<le> po_keepalive_timeout_ms po"

lemma poller_start_ok: "poller_ok (fst (poller_start lossy dp w))"
  by (simp add: poller_start_def poller_ok_def split_beta Let_def)

lemma poller_failed_ok:
  assumes "poller_ok po"
  shows "poller_ok (if 5 \<le> po_consecutive_failures po + 1 then po\<lparr>po_consecutive_failures := 0, po_retry_delay_ms := 2000\<rparr>
    else po\<lparr>po_consecutive_failures := po_consecutive_failures po + 1,
       po_retry_delay_ms := min (u64_saturating_mul (po_retry_delay_ms po) 2) 30000,
       po_keepalive_timeout_ms := max (po_keepalive_timeout_ms po) 40000\<rparr>)"
proof -
  have "po_consecutive_failures po \<in> {0, 1, 2, 3, 4}" using assms by (auto simp: poller_ok_def)
  with assms show ?thesis by (auto simp: poller_ok_def u64_saturating_mul_def u64_max_def)
qed

lemma poller_handle_ok:
  assumes "poller_ok po" and "poller_handle dp r po (c, w) = (o1, po', c', w')"
  shows "poller_ok po'"
proof (cases r)
  case (Inl e)
  then show ?thesis using assms poller_failed_ok [OF assms(1)]
    by (cases e) (auto simp: poller_handle_def Let_def poller_ok_def split: if_splits)
next
  case (Inr u)
  then show ?thesis using assms
    by (auto simp: poller_handle_def Let_def poller_ok_def split: option.splits prod.splits)
qed

section \<open>Properties\<close>

text \<open>
  The token poller never learns that the session expired: the client reports the code -14 as
  an error of its own, while the poller looks for it among the business errors. However many
  turns it makes and whatever the platform answers, the task does not stop, counts no expired
  session and keeps every cached token, the expired ones included.
\<close>

theorem expired_session_unnoticed:
  assumes "po_session_retries po = 0" and "\<And>i c. dom (map_of c) \<subseteq> dom (map_of (others i c))"
    and "poller_run dp others n po (c, w) = (o1, po', c', w')"
  shows "o1 = PollerContinues \<and> po_session_retries po' = 0 \<and> dom (map_of c) \<subseteq> dom (map_of c')"
  using assms
proof (induction n arbitrary: po c w others)
  case (Suc n)
  obtain o2 po1 c1 w1 where t: "poller_turn dp po (c, w) = (o2, po1, c1, w1)" by (metis prod.exhaust)
  note turn = poller_turn_peers [OF t]
  from Suc.prems(3) t turn have "poller_run dp (\<lambda>i. others (Suc i)) n po1 (others 0 c1, w1) = (o1, po', c', w')" by simp
  from Suc.IH [OF _ Suc.prems(2) this] turn Suc.prems(1) have
    "o1 = PollerContinues \<and> po_session_retries po' = 0 \<and> dom (map_of (others 0 c1)) \<subseteq> dom (map_of c')" by simp
  moreover have "dom (map_of c1) \<subseteq> dom (map_of (others 0 c1))" by (rule Suc.prems(2))
  ultimately show ?case using turn by (meson subset_trans)
qed simp

text \<open>Dependencies around a platform client, without a database.\<close>

definition sample_deps :: "message list ilink_http \<Rightarrow> message list api_deps" where
  "sample_deps hp =
     \<lparr> ad_wechat = wechat_config_default\<lparr>wc_enabled := True, wc_token := ''t''\<rparr>, ad_http = hp,
       ad_tokens = \<lparr> tk_set = (\<lambda>a u t w. (Ok (), w)), tk_get_all = (\<lambda>a w. (Ok Map.empty, w)), tk_delete_all = (\<lambda>a w. (Ok (), w)),
          tk_delete = (\<lambda>a u w. (Ok (), w)) \<rparr>,
       ad_sync = \<lparr> sy_load = (\<lambda>c a w. (Ok [], w)), sy_save = (\<lambda>c a b w. (Ok (), w)) \<rparr>,
       ad_instant = (\<lambda>w. (7, w)), ad_sleep = (\<lambda>n w. w), ad_log_refresh = (\<lambda>u w. w), ad_audit = (\<lambda>k a r w. w),
       ad_min_interval_ms = 500, ad_debug = False, ad_fingerprint = (\<lambda>a b n. []) \<rparr>"

theorem expired_session_unnoticed_witness:
  "let dp = sample_deps (sample_platform (sample_update\<lparr>iu_errcode := Some (- 14)\<rparr>));
       po = fst (poller_start (\<lambda>b. []) dp [])
   in fst (get_updates_via_ilink (ad_http dp) (poller_config (ad_wechat dp) 40000) [] []) = Err (SessionExpired (- 14) ''session expired'') \<and>
     ''u9'' \<in> dom (map_of (fst (snd (snd (poller_run dp (\<lambda>i c. c) 5 po ([(''u9'', peer_token_new ''t'' 0)], []))))))"
proof -
  let ?dp = "sample_deps (sample_platform (sample_update\<lparr>iu_errcode := Some (- 14)\<rparr>))"
  let ?po = "fst (poller_start (\<lambda>b. []) ?dp [])"
  obtain o1 po' c' w' where r: "poller_run ?dp (\<lambda>i c. c) 5 ?po ([(''u9'', peer_token_new ''t'' 0)], []) = (o1, po', c', w')"
    by (metis prod.exhaust)
  have "po_session_retries ?po = 0" by (simp add: poller_start_def split_beta Let_def)
  from expired_session_unnoticed [OF this _ r] have "''u9'' \<in> dom (map_of c')" by simp
  moreover have "trim ''{}'' \<noteq> []" by code_simp
  then have "fst (get_updates_via_ilink (ad_http ?dp) (poller_config (ad_wechat ?dp) 40000) [] []) =
      Err (SessionExpired (- 14) ''session expired'')"
    by (simp add: get_updates_via_ilink_def build_headers_def random_wechat_uin_def sample_deps_def sample_platform_def
        sample_update_def is_success_def judge_updates_def or_else_def split_beta Let_def)
  ultimately show ?thesis using r by simp
qed

text \<open>
  C9. What \<open>/api/send\<close> answers and what it leaves in the cache: 412 without a request when there
  is no token; 200 exactly when the platform accepted the text, with the entry of the peer
  counting the send and holding the token the platform returned, if any; 412 with the entry gone
  after a rejection that mentions ret=-2; 502 with the cache as the others left it after any
  other failure. The entries of other peers are never touched.
\<close>

theorem send_endpoint_contract:
  assumes "api_send dp lock between req (c, w) = ((status, resp), c', w')"
  shows "case selected_token c req of
      None \<Rightarrow> status = 412 \<and> \<not> sp_ok resp \<and> c' = c \<and> w' = pace dp (map_of c (sr_to req)) w
    | Some ctx \<Rightarrow>
        (\<forall>q. q \<noteq> sr_to req \<longrightarrow> map_of c' q = map_of (between c) q) \<and>
        (case fst (send_text_via_ilink (ad_http dp) (send_config (ad_wechat dp) ctx) (sr_to req) (sr_text req)
                (pace dp (map_of c (sr_to req)) w)) of
           Ok v \<Rightarrow> status = 200 \<and> sp_ok resp \<and>
             sp_context_token resp = Some (or_else ctx (extract_context_token_from_send_response v)) \<and>
             (\<exists>p. map_of c' (sr_to req) = Some p \<and> 0 < pt_send_count p \<and> \<not> pt_stale p \<and>
                pt_token p = or_else (or_else ctx (map_option pt_token (map_of (between c) (sr_to req))))
                  (extract_context_token_from_send_response v))
         | Err e \<Rightarrow> \<not> sp_ok resp \<and> sp_context_token resp = None \<and>
             (if is_ret_minus_2_error e then status = 412 \<and> map_of c' (sr_to req) = None
              else status = 502 \<and> sp_error resp = Some e \<and> c' = between c))"
proof (cases "selected_token c req")
  case None
  then show ?thesis using assms by (auto simp: api_send_def Let_def)
next
  case (Some ctx)
  obtain r w2 where s: "send_text_via_ilink (ad_http dp) (send_config (ad_wechat dp) ctx) (sr_to req) (sr_text req)
      (pace dp (map_of c (sr_to req)) w) = (r, w2)" by force
  show ?thesis
  proof (cases r)
    case (Inl e)
    then show ?thesis using assms Some s by (auto simp: api_send_def Let_def delete_conv' split: if_splits)
  next
    case (Inr v)
    obtain c2 w3 where rec: "record_success_of dp (sr_to req) ctx (extract_context_token_from_send_response v) (between c, w2) = (c2, w3)"
      by force
    from record_success_cache [OF rec] extract_nonblank assms Some s Inr rec show ?thesis
      by (auto simp: api_send_def Let_def)
  qed
qed

theorem send_endpoint_contract_witness:
  "let ((status, resp), c', w') = api_send (sample_deps (sample_platform sample_update)) 0 (\<lambda>c. c)
       \<lparr> sr_to = ''u1'', sr_text = ''hi'', sr_context_token = None \<rparr> ([(''u2'', peer_token_new ''t'' 0)], [])
   in status = 412 \<and> c' = [(''u2'', peer_token_new ''t'' 0)]"
proof -
  let ?req = "\<lparr> sr_to = ''u1'', sr_text = ''hi'', sr_context_token = None \<rparr>"
  obtain status resp c' w' where r: "api_send (sample_deps (sample_platform sample_update)) 0 (\<lambda>c. c) ?req
      ([(''u2'', peer_token_new ''t'' 0)], []) = ((status, resp), c', w')" by (metis prod.exhaust)
  from send_endpoint_contract [OF r] r show ?thesis by (simp add: selected_token_def supplied_token_def)
qed

text \<open>
  The pauses of the poller stay bounded: it is at its nth consecutive failure with the delay
  2000 * 2 ^ n ms, never more than half a minute, and it never reaches five.
\<close>

theorem poller_backoff:
  assumes "poller_ok po" and "poller_run dp others n po (c, w) = (o1, po', c', w')"
  shows "po_consecutive_failures po' < 5 \<and> po_retry_delay_ms po' = min 30000 (2000 * 2 ^ po_consecutive_failures po') \<and>
    40000 \<le> po_keepalive_timeout_ms po'"
proof -
  have "poller_ok po'" using assms
  proof (induction n arbitrary: po c w others)
    case (Suc n)
    obtain o2 po1 c1 w1 where t: "poller_turn dp po (c, w) = (o2, po1, c1, w1)" by (metis prod.exhaust)
    from t have "poller_ok po1" using poller_handle_ok [OF Suc.prems(1)] by (auto simp: poller_turn_def split: prod.splits)
    with Suc t show ?case by (auto split: poller_outcome.splits)
  qed simp
  then show ?thesis by (simp add: poller_ok_def)
qed

end
