(* ===== verification/Mcp_Transport.thy ===== *)
theory Mcp_Transport
  imports Json_Http
begin

text \<open>
  \<open>src/adapters/mcp/transport.rs\<close> and the messages of \<open>protocol.rs\<close>: reading framed JSON-RPC
  messages from standard input and framing responses.

  Standard input is the list of the bytes still to come, with the error that replaces its end, if
  any. Parsing JSON text is an argument; the reading of a JSON value as a message follows the
  declared structs (an array is read as the fields in their order, as the derived readers do).
\<close>

section \<open>UTF-8\<close>

text \<open>The check of \<open>String::from_utf8\<close> and of \<open>read_line\<close>.\<close>

definition cont_byte :: "nat \<Rightarrow> bool" where
  "cont_byte n \<longleftrightarrow> 128 \<le> n \<and> n \<le> 191"

fun utf8_seq :: "nat list \<Rightarrow> bool" where
  "utf8_seq [] = True"
| "utf8_seq (a # s) =
     (if a < 128 then utf8_seq s
      else if 194 \<le> a \<and> a \<le> 223 then (case s of b # s1 \<Rightarrow> cont_byte b \<and> utf8_seq s1 | _ \<Rightarrow> False)
      else if 224 \<le> a \<and> a \<le> 239 then
        (case s of b # c # s1 \<Rightarrow> (if a = 224 then 160 \<le> b \<and> b \<le> 191 else if a = 237 then 128 \<le> b \<and> b \<le> 159 else cont_byte b) \<and>
             cont_byte c \<and> utf8_seq s1
         | _ \<Rightarrow> False)
      else if 240 \<le> a \<and> a \<le> 244 then
        (case s of b # c # d # s1 \<Rightarrow> (if a = 240 then 144 \<le> b \<and> b \<le> 191 else if a = 244 then 128 \<le> b \<and> b \<le> 143 else cont_byte b) \<and>
             cont_byte c \<and> cont_byte d \<and> utf8_seq s1
         | _ \<Rightarrow> False)
      else False)"

definition valid_utf8 :: "string \<Rightarrow> bool" where
  "valid_utf8 s = utf8_seq (map of_char s)"

section \<open>Reading\<close>

record input =
  in_bytes :: string
  in_fault :: "string option"

datatype io_error = UnexpectedEof string | InvalidData string | IoFault string | CapacityPanic

text \<open>\<open>read_line\<close>: the bytes up to and including a newline, empty at the end of the input.\<close>

definition take_line :: "string \<Rightarrow> string" where
  "take_line s = (let l = takeWhile (\<lambda>c. c \<noteq> CHR 0x0A) s in if length l < length s then l @ [CHR 0x0A] else l)"

definition read_line :: "input \<Rightarrow> (io_error + string) \<times> input" where
  "read_line inp =
     (let l = take_line (in_bytes inp); inp1 = inp\<lparr>in_bytes := drop (length l) (in_bytes inp)\<rparr> in
      if (l = [] \<or> last l \<noteq> CHR 0x0A) \<and> in_fault inp \<noteq> None then (Err (IoFault (the (in_fault inp))), inp1)
      else if valid_utf8 l then (Ok l, inp1)
      else (Err (InvalidData ''stream did not contain valid UTF-8''), inp1))"

definition read_exact :: "nat \<Rightarrow> input \<Rightarrow> (io_error + string) \<times> input" where
  "read_exact n inp =
     (let inp1 = inp\<lparr>in_bytes := drop n (in_bytes inp)\<rparr> in
      if n \<le> length (in_bytes inp) then (Ok (take n (in_bytes inp)), inp1)
      else (Err (case in_fault inp of Some e \<Rightarrow> IoFault e | None \<Rightarrow> UnexpectedEof ''failed to fill whole buffer''), inp1))"

definition split_once_colon :: "string \<Rightarrow> (string \<times> string) option" where
  "split_once_colon s =
     (let l = takeWhile (\<lambda>c. c \<noteq> CHR '':'') s in if length l < length s then Some (l, drop (Suc (length l)) s) else None)"

text \<open>The length a header line announces.\<close>

definition content_length_of :: "string \<Rightarrow> nat option" where
  "content_length_of line =
     (case split_once_colon line of
        None \<Rightarrow> None
      | Some (name, value) \<Rightarrow> if to_lowercase name = ''content-length'' then parse_u64 (trim value) else None)"

lemma read_line_shorter: "read_line inp = (Ok l, inp1) \<Longrightarrow> l \<noteq> [] \<Longrightarrow> length (in_bytes inp1) < length (in_bytes inp)"
  by (auto simp: read_line_def Let_def take_line_def split: if_splits)

lemma read_line_bytes: "length (in_bytes (snd (read_line inp))) \<le> length (in_bytes inp)"
  by (simp add: read_line_def Let_def)

text \<open>The headers after the first, up to the empty line.\<close>

function skip_headers :: "input \<Rightarrow> (io_error + unit) \<times> input" where
  "skip_headers inp =
     (case read_line inp of
        (Err e, inp1) \<Rightarrow> (Err e, inp1)
      | (Ok l, inp1) \<Rightarrow>
          if l = [] then (Err (UnexpectedEof ''EOF while reading MCP headers''), inp1)
          else if l = [CHR 0x0D, CHR 0x0A] \<or> l = [CHR 0x0A] then (Ok (), inp1)
          else skip_headers inp1)"
  by pat_completeness auto
termination by (relation "measure (\<lambda>i. length (in_bytes i))") (auto dest!: read_line_shorter [OF sym])

declare skip_headers.simps [simp del]

text \<open>The body; a buffer of more than \<open>isize::MAX\<close> bytes cannot be allocated.\<close>

definition read_body :: "nat \<Rightarrow> input \<Rightarrow> (io_error + string) \<times> input" where
  "read_body n inp =
     (case skip_headers inp of
        (Err e, inp1) \<Rightarrow> (Err e, inp1)
      | (Ok _, inp1) \<Rightarrow>
          if 2 ^ 63 \<le> n then (Err CapacityPanic, inp1)
          else (case read_exact n inp1 of
                  (Err e, inp2) \<Rightarrow> (Err e, inp2)
                | (Ok body, inp2) \<Rightarrow>
                    if valid_utf8 body then (Ok body, inp2) else (Err (InvalidData ''invalid UTF-8 MCP body''), inp2)))"

function read_framed_or_json_line :: "input \<Rightarrow> (io_error + string option) \<times> input" where
  "read_framed_or_json_line inp =
     (case read_line inp of
        (Err e, inp1) \<Rightarrow> (Err e, inp1)
      | (Ok l, inp1) \<Rightarrow>
          if l = [] then (Ok None, inp1)
          else if trim l = [] then read_framed_or_json_line inp1
          else if hd (trim l) = CHR 0x7B then (Ok (Some (trim l)), inp1)
          else (case content_length_of (trim l) of
                  None \<Rightarrow> read_framed_or_json_line inp1
                | Some n \<Rightarrow> (case read_body n inp1 of (Err e, inp2) \<Rightarrow> (Err e, inp2) | (Ok b, inp2) \<Rightarrow> (Ok (Some b), inp2))))"
  by pat_completeness auto
termination by (relation "measure (\<lambda>i. length (in_bytes i))") (auto dest!: read_line_shorter [OF sym])

declare read_framed_or_json_line.simps [simp del]

section \<open>Messages\<close>

record json_rpc_request =
  rq_jsonrpc :: string
  rq_id :: json
  rq_method :: string
  rq_params :: "json option"

record json_rpc_notification =
  nt_jsonrpc :: string
  nt_method :: string
  nt_params :: "json option"

datatype json_rpc_message = Request json_rpc_request | Notification json_rpc_notification

definition opt_value :: "json option \<Rightarrow> json option" where
  "opt_value v = (case v of Some JNull \<Rightarrow> None | _ \<Rightarrow> v)"

definition request_of_json :: "json \<Rightarrow> json_rpc_request option" where
  "request_of_json v =
     (case struct_fields [''jsonrpc'', ''id'', ''method'', ''params''] v of
        Some [Some (JString j), Some i, Some (JString m), p] \<Rightarrow>
          Some \<lparr> rq_jsonrpc = j, rq_id = i, rq_method = m, rq_params = opt_value p \<rparr>
      | _ \<Rightarrow> None)"

definition notification_of_json :: "json \<Rightarrow> json_rpc_notification option" where
  "notification_of_json v =
     (case struct_fields [''jsonrpc'', ''method'', ''params''] v of
        Some [Some (JString j), Some (JString m), p] \<Rightarrow>
          Some \<lparr> nt_jsonrpc = j, nt_method = m, nt_params = opt_value p \<rparr>
      | _ \<Rightarrow> None)"

text \<open>The untagged enum: the first variant that fits.\<close>

definition message_of_json :: "json \<Rightarrow> json_rpc_message option" where
  "message_of_json v =
     (case request_of_json v of
        Some r \<Rightarrow> Some (Request r)
      | None \<Rightarrow> map_option Notification (notification_of_json v))"

text \<open>The messages the reading thread hands to the server before it ends; \<open>parse\<close> reads JSON text.\<close>

definition message_of_text :: "(string \<Rightarrow> json option) \<Rightarrow> string \<Rightarrow> json_rpc_message option" where
  "message_of_text parse raw = Option.bind (parse raw) message_of_json"

lemma skip_headers_shorter: "length (in_bytes (snd (skip_headers inp))) \<le> length (in_bytes inp)"
proof (induction inp rule: skip_headers.induct)
  case (1 inp)
  obtain r inp1 where l: "read_line inp = (r, inp1)" by force
  then have "length (in_bytes inp1) \<le> length (in_bytes inp)" using read_line_bytes [of inp] by simp
  with "1" l show ?case by (subst skip_headers.simps) (force split: sum.splits)
qed

lemma read_body_shorter: "length (in_bytes (snd (read_body n inp))) \<le> length (in_bytes inp)"
  using skip_headers_shorter [of inp] by (auto simp: read_body_def read_exact_def Let_def split: sum.splits prod.splits)

lemma read_framed_shorter:
  "read_framed_or_json_line inp = (Ok (Some raw), inp2) \<Longrightarrow> length (in_bytes inp2) < length (in_bytes inp)"
proof (induction inp rule: read_framed_or_json_line.induct)
  case (1 inp)
  obtain r inp1 where l: "read_line inp = (r, inp1)" by force
  show ?case
  proof (cases r)
    case (Inl e)
    with "1.prems" l show ?thesis by (subst (asm) read_framed_or_json_line.simps) simp
  next
    case (Inr s)
    show ?thesis
    proof (cases "s = []")
      case True
      with "1.prems" l Inr show ?thesis by (subst (asm) read_framed_or_json_line.simps) simp
    next
      case False
      then have s: "length (in_bytes inp1) < length (in_bytes inp)" using read_line_shorter l Inr by metis
      show ?thesis
      proof (cases "\<exists>n. content_length_of (trim s) = Some n \<and> trim s \<noteq> [] \<and> hd (trim s) \<noteq> CHR 0x7B")
        case True
        then obtain n where "content_length_of (trim s) = Some n" "trim s \<noteq> []" "hd (trim s) \<noteq> CHR 0x7B" by blast
        with "1.prems" l Inr False obtain b where "read_body n inp1 = (Ok b, inp2)"
          by (subst (asm) read_framed_or_json_line.simps) (auto split: prod.splits sum.splits)
        with read_body_shorter [of n inp1] s show ?thesis by simp
      next
        case False
        with "1.prems" "1.IH" l Inr \<open>s \<noteq> []\<close> s show ?thesis
          by (subst (asm) read_framed_or_json_line.simps) (force split: if_splits option.splits)
      qed
    qed
  qed
qed

function run_blocking :: "(string \<Rightarrow> json option) \<Rightarrow> input \<Rightarrow> json_rpc_message list" where
  "run_blocking parse inp =
     (case read_framed_or_json_line inp of
        (Ok (Some raw), inp1) \<Rightarrow>
          (case message_of_text parse raw of
             Some m \<Rightarrow> m # run_blocking parse inp1
           | None \<Rightarrow> run_blocking parse inp1)
      | _ \<Rightarrow> [])"
  by pat_completeness auto
termination by (relation "measure (\<lambda>(p, i). length (in_bytes i))") (auto dest!: read_framed_shorter [OF sym])

declare run_blocking.simps [simp del]

section \<open>Writing\<close>

text \<open>The bytes \<open>write_response\<close> puts on standard output for a body.\<close>

definition frame :: "string \<Rightarrow> string" where
  "frame body = ''Content-Length: '' @ show_nat (length body) @ [CHR 0x0D, CHR 0x0A, CHR 0x0D, CHR 0x0A] @ body"

section \<open>Lemmas\<close>

text \<open>Visible ASCII characters: no white space, and their own encoding.\<close>

definition visible :: "char \<Rightarrow> bool" where
  "visible c \<longleftrightarrow> 33 \<le> (of_char c :: nat) \<and> (of_char c :: nat) < 127"

lemma white_space_heads: "list_all (\<lambda>p. p \<noteq> [] \<and> \<not> visible (hd p)) (white_space @ map rev white_space)"
  by code_simp

lemma not_white: "visible c \<Longrightarrow> set ps \<subseteq> set (white_space @ map rev white_space) \<Longrightarrow> strip_any ps (c # s) = None"
proof -
  assume c: "visible c" and ps: "set ps \<subseteq> set (white_space @ map rev white_space)"
  have "\<not> starts_with (c # s) p" if "p \<in> set ps" for p
  proof -
    have "p \<noteq> [] \<and> \<not> visible (hd p)" using that ps white_space_heads unfolding list_all_iff by blast
    with c show ?thesis by (cases p) (auto simp: starts_with_def)
  qed
  then show ?thesis by (simp add: strip_any_None)
qed

lemma visible_not_white: "visible c \<Longrightarrow> strip_any white_space (c # s) = None"
  by (rule not_white) auto

lemma visible_not_white_rev: "visible c \<Longrightarrow> strip_any (map rev white_space) (c # s) = None"
  by (rule not_white) auto

lemma trim_start_visible: "visible c \<Longrightarrow> trim_start (c # s) = c # s"
  by (simp add: trim_start_def trim_by_id visible_not_white)

lemma trim_end_visible: "visible c \<Longrightarrow> trim_end (s @ [c]) = s @ [c]"
  by (simp add: trim_end_def trim_by_id visible_not_white_rev)

lemma trim_end_crlf: "visible c \<Longrightarrow> trim_end (s @ [c, CHR 0x0D, CHR 0x0A]) = s @ [c]"
proof -
  assume c: "visible c"
  have one: "strip_any (map rev white_space) (CHR 0x0A # r) = Some r" for r
    by (simp add: white_space_def starts_with_def)
  have two: "strip_any (map rev white_space) (CHR 0x0D # r) = Some r" for r
    by (simp add: white_space_def starts_with_def)
  have "trim_by (map rev white_space) (CHR 0x0A # CHR 0x0D # c # rev s) = c # rev s"
    using visible_not_white_rev [OF c, of "rev s"]
    by (subst trim_by.simps, simp only: one option.case) (subst trim_by.simps, simp only: two option.case, simp add: trim_by_id)
  then show ?thesis by (simp add: trim_end_def)
qed

lemma trim_space: "visible c \<Longrightarrow> visible d \<Longrightarrow> trim (CHR '' '' # c # s @ [d]) = c # s @ [d]"
proof -
  assume "visible c" "visible d"
  have "strip_any white_space (CHR '' '' # r) = Some r" for r
    by (simp add: white_space_def starts_with_def)
  then have "trim_start (CHR '' '' # c # s @ [d]) = c # s @ [d]"
    using visible_not_white [OF \<open>visible c\<close>, of "s @ [d]"]
    by (simp add: trim_start_def trim_by_id trim_by.simps [of white_space "CHR '' '' # c # s @ [d]"])
  moreover have "trim_end ((c # s) @ [d]) = (c # s) @ [d]" using \<open>visible d\<close> by (rule trim_end_visible)
  ultimately show ?thesis by (simp add: trim_def)
qed

lemma digits_visible: "c \<in> set (show_nat n) \<Longrightarrow> visible c \<and> c \<noteq> CHR '':'' \<and> c \<noteq> CHR 0x0A"
  using set_show_nat [of n] digit_char_eq [of c] by (auto simp: visible_def)

lemma show_nat_snoc: obtains s d where "show_nat n = s @ [d]" and "visible d"
  using that [of "butlast (show_nat n)" "last (show_nat n)"] digits_visible [of "last (show_nat n)" n] by simp

lemma trim_space_digits: "trim (CHR '' '' # show_nat n) = show_nat n"
proof (cases "show_nat n")
  case (Cons c cs)
  show ?thesis
  proof (cases cs rule: rev_cases)
    case Nil
    then have "visible c" using Cons digits_visible [of c n] by simp
    moreover have "strip_any white_space (CHR '' '' # r) = Some r" for r
      by (simp add: white_space_def starts_with_def)
    ultimately have "trim_start (CHR '' '' # [c]) = [c]"
      using visible_not_white [of c "[]"]
      by (simp add: trim_start_def trim_by_id trim_by.simps [of white_space "CHR '' '' # [c]"])
    with trim_end_visible [OF \<open>visible c\<close>, of "[]"] show ?thesis using Cons Nil by (simp add: trim_def)
  next
    case (snoc ys d)
    then show ?thesis using Cons trim_space [of c d ys] digits_visible [of c n] digits_visible [of d n] by simp
  qed
qed simp

lemma trim_header: "trim (''Content-Length: '' @ show_nat n @ [CHR 0x0D, CHR 0x0A]) = ''Content-Length: '' @ show_nat n"
proof -
  obtain s d where d: "show_nat n = s @ [d]" "visible d" by (rule show_nat_snoc)
  have "visible (CHR ''C'')" by (simp add: visible_def)
  from trim_start_visible [OF this, of "''ontent-Length: '' @ show_nat n @ [CHR 0x0D, CHR 0x0A]"]
    trim_end_crlf [OF d(2), of "''Content-Length: '' @ s"] d(1)
  show ?thesis by (simp add: trim_def)
qed

lemma takeWhile_at: "c \<notin> set l \<Longrightarrow> takeWhile (\<lambda>x. x \<noteq> c) (l @ c # r) = l"
  by (induction l) auto

lemma content_length_header: "n < 2 ^ 64 \<Longrightarrow> content_length_of (''Content-Length: '' @ show_nat n) = Some n"
proof -
  assume n: "n < 2 ^ 64"
  have "takeWhile (\<lambda>c. c \<noteq> CHR '':'') (''Content-Length'' @ CHR '':'' # CHR '' '' # show_nat n) = ''Content-Length''"
    by (rule takeWhile_at) simp
  then have "split_once_colon (''Content-Length: '' @ show_nat n) = Some (''Content-Length'', CHR '' '' # show_nat n)"
    by (simp add: split_once_colon_def)
  moreover have "to_lowercase ''Content-Length'' = ''content-length''" by code_simp
  ultimately show ?thesis using n by (simp add: content_length_of_def trim_space_digits parse_u64_show_nat)
qed

lemma take_line_at: "CHR 0x0A \<notin> set l \<Longrightarrow> take_line (l @ CHR 0x0A # r) = l @ [CHR 0x0A]"
  using takeWhile_at [of "CHR 0x0A" l r] by (simp add: take_line_def Let_def)

lemma ascii_valid: "\<forall>c\<in>set s. (of_char c :: nat) < 128 \<Longrightarrow> valid_utf8 s"
  unfolding valid_utf8_def by (induction s) auto

lemma read_line_at:
  assumes "CHR 0x0A \<notin> set l" and "\<forall>c\<in>set l. (of_char c :: nat) < 128" and "in_bytes inp = l @ CHR 0x0A # r"
  shows "read_line inp = (Ok (l @ [CHR 0x0A]), inp\<lparr>in_bytes := r\<rparr>)"
  using assms ascii_valid [of "l @ [CHR 0x0A]"] by (simp add: read_line_def take_line_at Let_def)

text \<open>A frame is read back, whatever follows it.\<close>

lemma read_frame:
  assumes "valid_utf8 body" and "length body < 2 ^ 63" and "in_bytes inp = frame body @ rest"
  shows "read_framed_or_json_line inp = (Ok (Some body), inp\<lparr>in_bytes := rest\<rparr>)"
proof -
  let ?h = "''Content-Length: '' @ show_nat (length body)"
  let ?l = "?h @ [CHR 0x0D, CHR 0x0A]"
  let ?r = "[CHR 0x0D] @ CHR 0x0A # body @ rest"
  have small: "(of_char c :: nat) < 128" if "c \<in> set (show_nat n)" for c n
    using digits_visible [OF that] by (simp add: visible_def)
  have "\<forall>c\<in>set (?h @ [CHR 0x0D]). (of_char c :: nat) < 128" using small by auto
  moreover have "CHR 0x0A \<notin> set (?h @ [CHR 0x0D])" using digits_visible [of "CHR 0x0A" "length body"] by auto
  moreover have "in_bytes inp = (?h @ [CHR 0x0D]) @ CHR 0x0A # ?r" using assms(3) by (simp add: frame_def)
  ultimately have l: "read_line inp = (Ok ?l, inp\<lparr>in_bytes := ?r\<rparr>)" using read_line_at [of "?h @ [CHR 0x0D]" inp ?r] by simp
  have "read_line (inp\<lparr>in_bytes := ?r\<rparr>) = (Ok [CHR 0x0D, CHR 0x0A], inp\<lparr>in_bytes := body @ rest\<rparr>)"
    using read_line_at [of "[CHR 0x0D]" "inp\<lparr>in_bytes := ?r\<rparr>" "body @ rest"] by simp
  then have "skip_headers (inp\<lparr>in_bytes := ?r\<rparr>) = (Ok (), inp\<lparr>in_bytes := body @ rest\<rparr>)"
    by (subst skip_headers.simps) simp
  then have b: "read_body (length body) (inp\<lparr>in_bytes := ?r\<rparr>) = (Ok body, inp\<lparr>in_bytes := rest\<rparr>)"
    using assms(1,2) by (simp add: read_body_def read_exact_def Let_def)
  have "length body < 2 ^ 64" using assms(2) by simp
  with l b trim_header [of "length body"] content_length_header [of "length body"] show ?thesis
    by (simp add: read_framed_or_json_line.simps [of inp])
qed

lemma read_nothing: "in_bytes inp = [] \<Longrightarrow> in_fault inp = None \<Longrightarrow> read_framed_or_json_line inp = (Ok None, inp)"
  by (simp add: read_framed_or_json_line.simps [of inp] read_line_def take_line_def valid_utf8_def Let_def)

section \<open>Properties\<close>

text \<open>
  C30. Framed bodies are read back one by one: on a concatenation of frames the reading thread
  sees exactly the bodies in their order (any UTF-8 texts, empty ones and ones that contain
  newlines or further headers included), hands over those that are messages and then ends.
\<close>

theorem framing_roundtrip:
  assumes "list_all (\<lambda>b. valid_utf8 b \<and> length b < 2 ^ 63) bodies" and "in_bytes inp = concat (map frame bodies)"
    and "in_fault inp = None"
  shows "run_blocking parse inp = List.map_filter (message_of_text parse) bodies"
  using assms
proof (induction bodies arbitrary: inp)
  case Nil
  then show ?case using read_nothing [of inp] by (simp add: run_blocking.simps [of parse inp] map_filter_simps)
next
  case (Cons b bs)
  then have "read_framed_or_json_line inp = (Ok (Some b), inp\<lparr>in_bytes := concat (map frame bs)\<rparr>)"
    using read_frame [of b inp "concat (map frame bs)"] by simp
  moreover have "run_blocking parse (inp\<lparr>in_bytes := concat (map frame bs)\<rparr>) = List.map_filter (message_of_text parse) bs"
    using Cons.prems by (intro Cons.IH) simp_all
  ultimately show ?case by (simp add: run_blocking.simps [of parse inp] map_filter_simps split: option.split)
qed

theorem framing_roundtrip_witness:
  "run_blocking (\<lambda>s. if s = ''x'' then Some (JArray [JString ''2.0'', JString ''ping'']) else None)
     \<lparr> in_bytes = frame ''x'' @ frame [] @ frame ''x'', in_fault = None \<rparr> =
   [Notification \<lparr> nt_jsonrpc = ''2.0'', nt_method = ''ping'', nt_params = None \<rparr>,
    Notification \<lparr> nt_jsonrpc = ''2.0'', nt_method = ''ping'', nt_params = None \<rparr>]"
proof -
  let ?p = "\<lambda>s. if s = ''x'' then Some (JArray [JString ''2.0'', JString ''ping'']) else None"
  have "message_of_text ?p ''x'' = Some (Notification \<lparr> nt_jsonrpc = ''2.0'', nt_method = ''ping'', nt_params = None \<rparr>)"
    and "message_of_text ?p [] = None"
    by (simp_all add: message_of_text_def message_of_json_def request_of_json_def notification_of_json_def opt_value_def
        numeral_2_eq_2)
  moreover have "valid_utf8 ''x''" "valid_utf8 []" by (simp_all add: valid_utf8_def)
  ultimately show ?thesis
    using framing_roundtrip [of "[''x'', [], ''x'']" "\<lparr> in_bytes = frame ''x'' @ frame [] @ frame ''x'', in_fault = None \<rparr>" ?p]
    by (simp add: map_filter_simps)
qed

end
