(* ===== verification/Mcp_Server.thy ===== *)
theory Mcp_Server
  imports Mcp_Transport Wechat_Channel Inbound
begin

text \<open>
  \<open>src/adapters/mcp/protocol.rs\<close> (responses), \<open>tools.rs\<close>, \<open>handler.rs\<close> and \<open>server.rs\<close>: the
  tools of the MCP server and the answers to its clients.

  What comes from outside is the record \<open>mcp_deps\<close>: environment variables, files, opening the
  token store, printing JSON, the texts of the derived readers' errors, and the order in which a
  hash map lists its keys. Standard output is the text written so far.
\<close>

section \<open>Responses\<close>

record json_rpc_error =
  re_code :: int
  re_message :: string
  re_data :: "json option"

record json_rpc_response =
  rs_jsonrpc :: string
  rs_id :: json
  rs_result :: "json option"
  rs_error :: "json_rpc_error option"

definition response_success :: "json \<Rightarrow> json \<Rightarrow> json_rpc_response" where
  "response_success i result = \<lparr> rs_jsonrpc = ''2.0'', rs_id = i, rs_result = Some result, rs_error = None \<rparr>"

definition response_error :: "json \<Rightarrow> int \<Rightarrow> string \<Rightarrow> json_rpc_response" where
  "response_error i code message =
     \<lparr> rs_jsonrpc = ''2.0'', rs_id = i, rs_result = None,
       rs_error = Some \<lparr> re_code = code, re_message = message, re_data = None \<rparr> \<rparr>"

definition METHOD_NOT_FOUND :: int where "METHOD_NOT_FOUND = - 32601"

definition INVALID_PARAMS :: int where "INVALID_PARAMS = - 32602"

text \<open>The derived serialisers: absent options are skipped.\<close>

definition error_json :: "json_rpc_error \<Rightarrow> json" where
  "error_json er =
     JObject ([(''code'', JInt (re_code er)), (''message'', JString (re_message er))]
       @ (case re_data er of Some d \<Rightarrow> [(''data'', d)] | None \<Rightarrow> []))"

definition response_json :: "json_rpc_response \<Rightarrow> json" where
  "response_json r =
     JObject ([(''jsonrpc'', JString (rs_jsonrpc r)), (''id'', rs_id r)]
       @ (case rs_result r of Some v \<Rightarrow> [(''result'', v)] | None \<Rightarrow> [])
       @ (case rs_error r of Some er \<Rightarrow> [(''error'', error_json er)] | None \<Rightarrow> []))"

section \<open>Tools\<close>

definition string_param :: "string \<Rightarrow> json" where
  "string_param description = JObject [(''type'', JString ''string''), (''description'', JString description)]"

definition tool_def :: "string \<Rightarrow> string \<Rightarrow> (string \<times> json) list \<Rightarrow> string list \<Rightarrow> json" where
  "tool_def name description properties required =
     JObject [(''name'', JString name), (''description'', JString description),
       (''inputSchema'', JObject [(''type'', JString ''object''), (''properties'', JObject properties),
          (''required'', JArray (map JString required))])]"

definition all_tools :: "json list" where
  "all_tools =
     [tool_def ''send'' ''Send a text message to a conversation''
        [(''channel'', string_param ''Channel: wechat, dingtalk, feishu''), (''conversation_id'', string_param ''Conversation ID''),
         (''peer_id'', string_param ''Peer user or group ID''),
         (''conversation_type'', JObject [(''type'', JString ''string''),
            (''enum'', JArray (map JString [''direct'', ''group'', ''thread'', ''bot_session'']))]),
         (''content'', string_param ''Text content to send'')]
        [''channel'', ''conversation_id'', ''peer_id'', ''conversation_type'', ''content''],
      tool_def ''list_peers'' ''List peers discovered from the local WeChat channel directory''
        [(''channel'', string_param ''Channel: wechat, dingtalk, feishu'')] [''channel''],
      tool_def ''login'' ''Inspect the configured WeChat account and login readiness''
        [(''channel'', string_param ''Channel: wechat, dingtalk, feishu''), (''account'', string_param ''Account identifier'')]
        [''channel'', ''account'']]"

record send_args =
  sa_channel :: string
  sa_conversation_id :: string
  sa_peer_id :: string
  sa_conversation_type :: string
  sa_content :: string

text \<open>Required string fields of the arguments, in the order of the struct.\<close>

fun all_strings :: "json option list \<Rightarrow> string list option" where
  "all_strings [] = Some []"
| "all_strings (Some (JString s) # vs) = map_option (\<lambda>ss. s # ss) (all_strings vs)"
| "all_strings _ = None"

definition string_args :: "string list \<Rightarrow> json \<Rightarrow> string list option" where
  "string_args names v = Option.bind (struct_fields names v) all_strings"

definition send_args_of :: "json \<Rightarrow> send_args option" where
  "send_args_of v =
     (case string_args [''channel'', ''conversation_id'', ''peer_id'', ''conversation_type'', ''content''] v of
        Some [c, cid, p, ty, body] \<Rightarrow>
          Some \<lparr> sa_channel = c, sa_conversation_id = cid, sa_peer_id = p, sa_conversation_type = ty, sa_content = body \<rparr>
      | _ \<Rightarrow> None)"

record project_wechat_account =
  pa_base_url :: string
  pa_account_id :: string
  pa_user_id :: "string option"

record 'w mcp_deps =
  md_env :: "string \<Rightarrow> string option"
  md_read_file :: "string \<Rightarrow> 'w \<Rightarrow> (string + string) \<times> 'w"
  md_account :: "string \<Rightarrow> string + project_wechat_account"
  md_open_tokens :: "string \<Rightarrow> 'w \<Rightarrow> (store_error + 'w token_ops) \<times> 'w"
  md_store_error :: "store_error \<Rightarrow> string"
  md_keys :: "(string \<rightharpoonup> string) \<Rightarrow> string list"
  md_outbox :: "'w outbox_repo"
  md_uuid :: "'w \<Rightarrow> string \<times> 'w"
  md_now_s :: "'w \<Rightarrow> int \<times> 'w"
  md_key_json :: "route_key \<Rightarrow> string + string"
  md_content_json :: "message_content \<Rightarrow> string + string"
  md_send_error :: "send_error \<Rightarrow> string"
  md_arg_error :: "string \<Rightarrow> json \<Rightarrow> string"
  md_show :: "json \<Rightarrow> string"

text \<open>\<open>Path::join\<close> with a relative path.\<close>

definition path_join :: "string \<Rightarrow> string \<Rightarrow> string" where
  "path_join a b = (if a = [] \<or> last a = CHR ''/'' then a @ b else a @ ''/'' @ b)"

definition resolve_wechat_data_dir :: "'w mcp_deps \<Rightarrow> string" where
  "resolve_wechat_data_dir dp =
     (case md_env dp ''WECHAT_CHANNEL_DIR'' of
        Some dir \<Rightarrow> dir
      | None \<Rightarrow>
          (case md_env dp ''HOME'' of
             Some home \<Rightarrow> path_join (path_join (path_join home ''.claude'') ''channels'') ''wechat''
           | None \<Rightarrow> ''.claude/channels/wechat''))"

definition load_project_wechat_account ::
  "'w mcp_deps \<Rightarrow> string \<Rightarrow> 'w \<Rightarrow> (string + project_wechat_account) \<times> 'w" where
  "load_project_wechat_account dp data_dir w =
     (let path = path_join data_dir ''account.json'' in
      case md_read_file dp path w of
        (Err e, w1) \<Rightarrow> (Err (''failed to read '' @ path @ '': '' @ e), w1)
      | (Ok content, w1) \<Rightarrow>
          (map_err (\<lambda>e. ''failed to parse '' @ path @ '': '' @ e) (md_account dp content), w1))"

definition open_context_token_store :: "'w mcp_deps \<Rightarrow> 'w \<Rightarrow> (string + 'w token_ops) \<times> 'w" where
  "open_context_token_store dp w =
     (let path = (case md_env dp ''MAGICLAW_DB_PATH'' of
                    Some v \<Rightarrow> if trim v = [] then ''data/magiclaw.db'' else trim v
                  | None \<Rightarrow> ''data/magiclaw.db'');
          (r, w1) = md_open_tokens dp path w
      in (map_err (\<lambda>er. ''failed to open context token store: '' @ md_store_error dp er) r, w1))"

text \<open>The tokens of the account, through the store just opened.\<close>

definition stored_tokens :: "'w mcp_deps \<Rightarrow> string \<Rightarrow> 'w \<Rightarrow> (string + (string \<rightharpoonup> string)) \<times> 'w" where
  "stored_tokens dp account w =
     (case open_context_token_store dp w of
        (Err e, w1) \<Rightarrow> (Err e, w1)
      | (Ok ops, w1) \<Rightarrow>
          (let (r, w2) = tk_get_all ops account w1
           in (map_err (\<lambda>er. ''failed to load context tokens: '' @ md_store_error dp er) r, w2)))"

definition conversation_type_of :: "string \<Rightarrow> conversation_type option" where
  "conversation_type_of s =
     (if s = ''direct'' then Some Direct else if s = ''group'' then Some Group
      else if s = ''thread'' then Some Thread else if s = ''bot_session'' then Some BotSession else None)"

definition handle_send :: "'w mcp_deps \<Rightarrow> send_args \<Rightarrow> 'w \<Rightarrow> (string + json) \<times> 'w" where
  "handle_send dp a w =
     (case conversation_type_of (sa_conversation_type a) of
        None \<Rightarrow> (Err (''unknown conversation_type: '' @ sa_conversation_type a), w)
      | Some ty \<Rightarrow>
          (case submit_text_for_delivery (md_outbox dp) (md_uuid dp) (md_now_s dp) (md_key_json dp) (md_content_json dp)
                  (sa_channel a) (sa_conversation_id a) (sa_peer_id a) ty (sa_content a) w of
             (Err er, w1) \<Rightarrow> (Err (''send failed: '' @ md_send_error dp er), w1)
           | (Ok message_id, w1) \<Rightarrow>
               (Ok (JObject [(''status'', JString ''pending''), (''message_id'', JString message_id),
                  (''channel'', JString (sa_channel a)), (''conversation_id'', JString (sa_conversation_id a))]), w1)))"

definition peer_json :: "string \<Rightarrow> bool \<Rightarrow> string \<Rightarrow> json" where
  "peer_json channel has peer =
     JObject [(''peer_id'', JString peer), (''channel'', JString channel), (''has_context_token'', JBool has)]"

definition handle_list_peers :: "'w mcp_deps \<Rightarrow> string \<Rightarrow> 'w \<Rightarrow> (string + json) \<times> 'w" where
  "handle_list_peers dp channel w =
     (if channel \<noteq> ''wechat'' then (Err (''unsupported channel: '' @ channel), w)
      else (case load_project_wechat_account dp (resolve_wechat_data_dir dp) w of
              (Err e, w1) \<Rightarrow> (Err e, w1)
            | (Ok account, w1) \<Rightarrow>
                (case stored_tokens dp (pa_account_id account) w1 of
                   (Err e, w2) \<Rightarrow> (Err e, w2)
                 | (Ok tokens, w2) \<Rightarrow>
                     (let listed = map (peer_json channel True) (md_keys dp tokens);
                          fallback = (case pa_user_id account of
                             Some u \<Rightarrow> if trim u = [] then pa_account_id account else u | None \<Rightarrow> pa_account_id account);
                          peers = (if listed = [] then [peer_json channel False fallback] else listed)
                      in (Ok (JObject [(''status'', JString ''ok''), (''channel'', JString channel),
                             (''account_id'', JString (pa_account_id account)), (''base_url'', JString (pa_base_url account)),
                             (''peer_count'', JInt (int (length peers))), (''peers'', JArray peers)]), w2)))))"

definition handle_login :: "'w mcp_deps \<Rightarrow> string \<Rightarrow> string \<Rightarrow> 'w \<Rightarrow> (string + json) \<times> 'w" where
  "handle_login dp channel requested w =
     (if channel \<noteq> ''wechat'' then (Err (''unsupported channel: '' @ channel), w)
      else (let data_dir = resolve_wechat_data_dir dp in
            case load_project_wechat_account dp data_dir w of
              (Err e, w1) \<Rightarrow> (Err e, w1)
            | (Ok account, w1) \<Rightarrow>
                if pa_account_id account \<noteq> requested
                then (Err (''account mismatch: requested '' @ requested @ '', configured '' @ pa_account_id account), w1)
                else (case stored_tokens dp (pa_account_id account) w1 of
                        (Err e, w2) \<Rightarrow> (Err e, w2)
                      | (Ok tokens, w2) \<Rightarrow>
                          (let has = list_ex (\<lambda>k. case tokens k of Some t \<Rightarrow> trim t \<noteq> [] | None \<Rightarrow> False) (md_keys dp tokens)
                           in (Ok (JObject [(''status'', JString ''ok''), (''channel'', JString channel),
                                  (''account_id'', JString (pa_account_id account)), (''base_url'', JString (pa_base_url account)),
                                  (''has_context_token'', JBool has), (''data_dir'', JString data_dir)]), w2)))))"

definition dispatch :: "'w mcp_deps \<Rightarrow> string \<Rightarrow> json \<Rightarrow> 'w \<Rightarrow> (string + json) \<times> 'w" where
  "dispatch dp tool_name args w =
     (let invalid = (Err (''invalid arguments: '' @ md_arg_error dp tool_name args), w) in
      if tool_name = ''send'' then (case send_args_of args of Some a \<Rightarrow> handle_send dp a w | None \<Rightarrow> invalid)
      else if tool_name = ''list_peers'' then
        (case string_args [''channel''] args of Some [c] \<Rightarrow> handle_list_peers dp c w | _ \<Rightarrow> invalid)
      else if tool_name = ''login'' then
        (case string_args [''channel'', ''account''] args of Some [c, a] \<Rightarrow> handle_login dp c a w | _ \<Rightarrow> invalid)
      else (Err (''unknown tool: '' @ tool_name), w))"

section \<open>The protocol handler\<close>

record protocol_handler =
  ph_server_name :: string
  ph_server_version :: string

definition handle_initialize :: "protocol_handler \<Rightarrow> json \<Rightarrow> json_rpc_response" where
  "handle_initialize ph i =
     response_success i (JObject [(''protocolVersion'', JString ''2024-11-05''),
       (''capabilities'', JObject [(''tools'', JObject [])]),
       (''serverInfo'', JObject [(''name'', JString (ph_server_name ph)), (''version'', JString (ph_server_version ph))])])"

definition handle_tools_list :: "json \<Rightarrow> json_rpc_response" where
  "handle_tools_list i = response_success i (JObject [(''tools'', JArray all_tools)])"

definition text_content :: "string \<Rightarrow> json" where
  "text_content s = JArray [JObject [(''type'', JString ''text''), (''text'', JString s)]]"

definition handle_tools_call :: "'w mcp_deps \<Rightarrow> json \<Rightarrow> json option \<Rightarrow> 'w \<Rightarrow> json_rpc_response \<times> 'w" where
  "handle_tools_call dp i params w =
     (case params of
        None \<Rightarrow> (response_error i INVALID_PARAMS ''missing params'', w)
      | Some p \<Rightarrow>
          (case str_field p ''name'' of
             None \<Rightarrow> (response_error i INVALID_PARAMS ''missing tool name'', w)
           | Some tool_name \<Rightarrow>
               (case dispatch dp tool_name (or_else JNull (json_get p ''arguments'')) w of
                  (Ok result, w1) \<Rightarrow> (response_success i (JObject [(''content'', text_content (md_show dp result))]), w1)
                | (Err e, w1) \<Rightarrow>
                    (response_success i (JObject [(''content'', text_content (''error: '' @ e)), (''isError'', JBool True)]), w1))))"

definition handle_request ::
  "'w mcp_deps \<Rightarrow> protocol_handler \<Rightarrow> json_rpc_request \<Rightarrow> 'w \<Rightarrow> json_rpc_response \<times> 'w" where
  "handle_request dp ph req w =
     (if rq_method req = ''initialize'' then (handle_initialize ph (rq_id req), w)
      else if rq_method req = ''tools/list'' then (handle_tools_list (rq_id req), w)
      else if rq_method req = ''tools/call'' then handle_tools_call dp (rq_id req) (rq_params req) w
      else (response_error (rq_id req) METHOD_NOT_FOUND (''unknown method: '' @ rq_method req), w))"

text \<open>\<open>write_response\<close> puts the framed response on standard output.\<close>

definition write_response :: "'w mcp_deps \<Rightarrow> json_rpc_response \<Rightarrow> string" where
  "write_response dp r = frame (md_show dp (response_json r))"

section \<open>The server\<close>

text \<open>The loop of \<open>run\<close> over the messages of the reading thread; notifications get no answer.\<close>

fun server_loop ::
  "'w mcp_deps \<Rightarrow> protocol_handler \<Rightarrow> json_rpc_message list \<Rightarrow> string \<times> 'w \<Rightarrow> string \<times> 'w" where
  "server_loop dp ph [] ow = ow"
| "server_loop dp ph (Request req # ms) (out, w) =
     (let (r, w1) = handle_request dp ph req w in server_loop dp ph ms (out @ write_response dp r, w1))"
| "server_loop dp ph (Notification nt # ms) (out, w) = server_loop dp ph ms (out, w)"

definition mcp_run ::
  "(string \<Rightarrow> json option) \<Rightarrow> 'w mcp_deps \<Rightarrow> protocol_handler \<Rightarrow> input \<Rightarrow> 'w \<Rightarrow> string \<times> 'w" where
  "mcp_run parse dp ph inp w = server_loop dp ph (run_blocking parse inp) ([], w)"

section \<open>Answers\<close>

text \<open>What JSON-RPC asks of the answer to one request.\<close>

definition answers :: "json_rpc_request \<Rightarrow> json_rpc_response \<Rightarrow> bool" where
  "answers req r \<longleftrightarrow> rs_jsonrpc r = ''2.0'' \<and> rs_id r = rq_id req \<and>
     (case rs_error r of
        None \<Rightarrow> rs_result r \<noteq> None \<and> rq_method req \<in> {''initialize'', ''tools/list'', ''tools/call''}
      | Some er \<Rightarrow> rs_result r = None \<and> re_code er =
          (if rq_method req = ''tools/call'' then INVALID_PARAMS else METHOD_NOT_FOUND))"

lemmas response_defs = response_success_def response_error_def

lemma handle_request_answers: "answers req (fst (handle_request dp ph req w))"
  by (simp add: handle_request_def handle_tools_call_def handle_initialize_def handle_tools_list_def answers_def
      response_defs split: option.split prod.split sum.split)

definition requests_of :: "json_rpc_message list \<Rightarrow> json_rpc_request list" where
  "requests_of = List.map_filter (\<lambda>m. case m of Request req \<Rightarrow> Some req | Notification nt \<Rightarrow> None)"

lemma requests_of_simps [simp]:
  "requests_of [] = []" "requests_of (Request req # ms) = req # requests_of ms"
  "requests_of (Notification nt # ms) = requests_of ms"
  by (simp_all add: requests_of_def map_filter_simps)

text \<open>The requests of a session, one after the other, with their answers.\<close>

fun handle_all ::
  "'w mcp_deps \<Rightarrow> protocol_handler \<Rightarrow> json_rpc_request list \<Rightarrow> 'w \<Rightarrow> json_rpc_response list \<times> 'w" where
  "handle_all dp ph [] w = ([], w)"
| "handle_all dp ph (req # reqs) w =
     (let (r, w1) = handle_request dp ph req w; (rs, w2) = handle_all dp ph reqs w1 in (r # rs, w2))"

lemma server_loop_handle_all:
  "server_loop dp ph ms (out, w) =
     (let (rs, w') = handle_all dp ph (requests_of ms) w in (out @ concat (map (write_response dp) rs), w'))"
proof (induction ms arbitrary: out w)
  case Nil
  then show ?case by simp
next
  case (Cons m ms)
  then show ?case by (cases m) (auto simp: split_beta Let_def)
qed

lemma handle_all_answers: "list_all2 answers reqs (fst (handle_all dp ph reqs w))"
  by (induction reqs arbitrary: w) (auto simp: split_beta handle_request_answers)

section \<open>The outbox of a session\<close>

text \<open>Steps that leave the outbox alone; ticks only grow.\<close>

definition keeps_outbox :: "'m db_scheme \<Rightarrow> 'm db_scheme \<Rightarrow> bool" where
  "keeps_outbox d d' \<longleftrightarrow> t_outbox d' = t_outbox d \<and> db_tick d \<le> db_tick d'"

lemma keeps_outbox_refl [simp]: "keeps_outbox d d"
  by (simp add: keeps_outbox_def)

lemma keeps_outbox_trans [trans]: "keeps_outbox d1 d2 \<Longrightarrow> keeps_outbox d2 d3 \<Longrightarrow> keeps_outbox d1 d3"
  by (simp add: keeps_outbox_def)

lemma token_get_all_keeps [simp]: "keeps_outbox d (snd (tk_get_all (sqlite_token_store e) a d))"
  by (simp add: sqlite_token_store_def token_get_all_def sql_read_eq keeps_outbox_def repo_def split: option.split)

text \<open>
  The server of \<open>main\<close> on a database: its outbox, clock and identifiers are those of the
  environment, reading a file or opening the token store does not write to the outbox.
\<close>

definition on_database :: "env \<Rightarrow> 'm db_scheme mcp_deps \<Rightarrow> bool" where
  "on_database e dp \<longleftrightarrow> md_outbox dp = sqlite_outbox e \<and> md_uuid dp = new_uuid e \<and> md_now_s dp = clock_s e \<and>
     (\<forall>p d. keeps_outbox d (snd (md_read_file dp p d))) \<and> (\<forall>p d. keeps_outbox d (snd (md_open_tokens dp p d))) \<and>
     (\<forall>p d d' ops. md_open_tokens dp p d = (Ok ops, d') \<longrightarrow> ops = sqlite_token_store e)"

definition fresh_uuids :: "env \<Rightarrow> 'm db_scheme \<Rightarrow> bool" where
  "fresh_uuids e d \<longleftrightarrow> inj (env_uuid e) \<and> (\<forall>n \<ge> db_tick d. env_uuid e n \<notin> ob_id ` set (t_outbox d))"

lemma on_databaseD:
  assumes "on_database e dp"
  shows "keeps_outbox d (snd (md_read_file dp p d))" and "keeps_outbox d (snd (md_open_tokens dp p d))"
    and "md_open_tokens dp p d = (Ok ops, d') \<Longrightarrow> ops = sqlite_token_store e"
    and "md_outbox dp = sqlite_outbox e" and "md_uuid dp = new_uuid e" and "md_now_s dp = clock_s e"
  using assms unfolding on_database_def by blast+

lemma account_keeps:
  assumes "on_database e dp" shows "keeps_outbox d (snd (load_project_wechat_account dp dir d))"
  using on_databaseD(1) [OF assms, of d "path_join dir ''account.json''"]
  by (cases "md_read_file dp (path_join dir ''account.json'') d")
    (simp add: load_project_wechat_account_def Let_def split: sum.split)

lemma stored_tokens_keeps:
  assumes "on_database e dp" shows "keeps_outbox d (snd (stored_tokens dp a d))"
proof -
  obtain r d1 where o: "open_context_token_store dp d = (r, d1)" by force
  let ?path = "case md_env dp ''MAGICLAW_DB_PATH'' of Some v \<Rightarrow> if trim v = [] then ''data/magiclaw.db'' else trim v
    | None \<Rightarrow> ''data/magiclaw.db''"
  obtain q where q: "md_open_tokens dp ?path d = (q, d1)" and r: "r = map_err (\<lambda>er. ''failed to open context token store: '' @ md_store_error dp er) q"
    using o by (cases "md_open_tokens dp ?path d") (simp add: open_context_token_store_def)
  have k: "keeps_outbox d d1" using on_databaseD(2) [OF assms, of d ?path] q by simp
  show ?thesis
  proof (cases q)
    case (Inl m)
    then show ?thesis using k o r by (simp add: stored_tokens_def map_err_def)
  next
    case (Inr ops)
    then have "ops = sqlite_token_store e" using on_databaseD(3) [OF assms] q by blast
    with Inr show ?thesis using k o r keeps_outbox_trans [OF k token_get_all_keeps]
      by (simp add: stored_tokens_def split_beta map_err_def)
  qed
qed

lemma list_peers_keeps:
  assumes "on_database e dp" shows "keeps_outbox d (snd (handle_list_peers dp c d))"
proof -
  note a = account_keeps [OF assms, of d "resolve_wechat_data_dir dp"]
  note s = keeps_outbox_trans [OF _ stored_tokens_keeps [OF assms]]
  show ?thesis
    using a s [OF a] by (auto simp: handle_list_peers_def Let_def split: prod.split sum.split)
      (metis snd_conv)+
qed

lemma login_keeps:
  assumes "on_database e dp" shows "keeps_outbox d (snd (handle_login dp c a d))"
proof -
  note a = account_keeps [OF assms, of d "resolve_wechat_data_dir dp"]
  note s = keeps_outbox_trans [OF _ stored_tokens_keeps [OF assms]]
  show ?thesis
    using a s [OF a] by (auto simp: handle_login_def Let_def split: prod.split sum.split)
      (metis snd_conv)+
qed


text \<open>What a \<open>send\<close> call queues: one pending row for its text, under the identifier it answers with.\<close>

definition send_route :: "send_args \<Rightarrow> conversation_type \<Rightarrow> route_key" where
  "send_route a ty = route_key_new (ChannelId (sa_channel a)) (sa_conversation_id a) (sa_peer_id a) ty"

definition pending_answer :: "send_args \<Rightarrow> string \<Rightarrow> json" where
  "pending_answer a i =
     JObject [(''status'', JString ''pending''), (''message_id'', JString i),
       (''channel'', JString (sa_channel a)), (''conversation_id'', JString (sa_conversation_id a))]"

definition queued_row :: "'w mcp_deps \<Rightarrow> send_args \<Rightarrow> string \<Rightarrow> outbox_row \<Rightarrow> bool" where
  "queued_row dp a i row \<longleftrightarrow>
     (\<exists>ty k p now. conversation_type_of (sa_conversation_type a) = Some ty \<and> md_key_json dp (send_route a ty) = Ok k \<and>
        md_content_json dp (Text (sa_content a)) = Ok p \<and> row = entry_to_row (outbox_entry_new i k p now))"

lemma fresh_uuids_mono: "fresh_uuids e d \<Longrightarrow> keeps_outbox d d' \<Longrightarrow> fresh_uuids e d'"
  by (auto simp: fresh_uuids_def keeps_outbox_def)

lemma handle_send_effect:
  assumes "on_database e dp" and "fresh_uuids e d" and "handle_send dp a d = (r, d')"
  shows "case r of
      Ok v \<Rightarrow> \<exists>i row. v = pending_answer a i \<and> queued_row dp a i row \<and> t_outbox d' = t_outbox d @ [row] \<and>
        fresh_uuids e d'
    | Err _ \<Rightarrow> keeps_outbox d d'"
proof (cases "conversation_type_of (sa_conversation_type a)")
  case None
  then show ?thesis using assms(3) by (auto simp: handle_send_def)
next
  case (Some ty)
  let ?rk = "send_route a ty" and ?i = "env_uuid e (db_tick d)"
  note defs = handle_send_def Some submit_text_for_delivery_def submit_outbound_for_delivery_def on_databaseD(4-6) [OF assms(1)]
    new_uuid_def clock_s_def clock_ms_def sqlite_outbox_def outbox_insert_def sql_write_eq repo_def map_err_def
  have fresh: "?i \<notin> ob_id ` set (t_outbox d)" and
    later: "\<And>n. db_tick d < n \<Longrightarrow> env_uuid e n \<notin> insert ?i (ob_id ` set (t_outbox d))"
    using assms(2) by (auto simp: fresh_uuids_def dest: injD)
  show ?thesis
  proof (cases "md_key_json dp ?rk")
    case (Inl m)
    then show ?thesis using assms(3) by (auto simp: defs send_route_def keeps_outbox_def)
  next
    case k: (Inr k)
    show ?thesis
    proof (cases "md_content_json dp (Text (sa_content a))")
      case (Inl m)
      then show ?thesis using assms(3) k by (auto simp: defs send_route_def keeps_outbox_def)
    next
      case p: (Inr p)
      let ?row = "entry_to_row (outbox_entry_new ?i k p (env_now_ms e (Suc (db_tick d)) div 1000))"
      show ?thesis
      proof (cases "env_fault e (Suc (Suc (db_tick d)))")
        case None
        with assms(3) k p fresh have r: "r = Ok (pending_answer a ?i)"
          and t: "t_outbox d' = t_outbox d @ [?row]" and n: "db_tick d < db_tick d'"
          by (auto simp: defs send_route_def pending_answer_def tbl_insert_ignore_def entry_to_row_def
              outbox_entry_new_def)
        have "queued_row dp a ?i ?row" using Some k p by (auto simp: queued_row_def)
        moreover have "fresh_uuids e d'" using assms(2) t n later
          by (auto simp: fresh_uuids_def entry_to_row_def outbox_entry_new_def)
        ultimately show ?thesis using r t by auto
      next
        case (Some m)
        with assms(3) k p show ?thesis by (auto simp: defs send_route_def keeps_outbox_def)
      qed
    qed
  qed
qed


text \<open>The arguments of a request that calls the tool \<open>send\<close>.\<close>

definition send_call :: "json_rpc_request \<Rightarrow> send_args option" where
  "send_call req =
     (if rq_method req \<noteq> ''tools/call'' then None
      else Option.bind (rq_params req)
        (\<lambda>p. if str_field p ''name'' = Some ''send'' then send_args_of (or_else JNull (json_get p ''arguments'')) else None))"

definition tool_result :: "string \<Rightarrow> bool \<Rightarrow> json" where
  "tool_result s failed = JObject ((''content'', text_content s) # (if failed then [(''isError'', JBool True)] else []))"

text \<open>
  A session: each request gets its answer. A call of \<open>send\<close> is answered with an identifier and adds
  the row of that identifier, or is answered with an error and adds nothing; no other request adds
  a row.
\<close>

inductive session :: "'w mcp_deps \<Rightarrow> json_rpc_request list \<Rightarrow> json_rpc_response list \<Rightarrow> outbox_row list \<Rightarrow> bool" for dp where
  finished: "session dp [] [] []"
| sent: "send_call req = Some a \<Longrightarrow> rs_result r = Some (tool_result (md_show dp (pending_answer a i)) False) \<Longrightarrow>
    queued_row dp a i row \<Longrightarrow> session dp reqs rs rows \<Longrightarrow> session dp (req # reqs) (r # rs) (row # rows)"
| send_failed: "send_call req = Some a \<Longrightarrow> rs_result r = Some (tool_result (''error: '' @ m) True) \<Longrightarrow>
    session dp reqs rs rows \<Longrightarrow> session dp (req # reqs) (r # rs) rows"
| other: "send_call req = None \<Longrightarrow> session dp reqs rs rows \<Longrightarrow> session dp (req # reqs) (r # rs) rows"

inductive_cases session_consE: "session dp (req # reqs) rs rows"
inductive_simps session_nil [simp]: "session dp [] rs rows"

lemma dispatch_other_keeps:
  assumes "on_database e dp" and "tool \<noteq> ''send'' \<or> send_args_of args = None"
  shows "keeps_outbox d (snd (dispatch dp tool args d))"
  using assms(2) list_peers_keeps [OF assms(1)] login_keeps [OF assms(1)]
  by (auto simp: dispatch_def Let_def split: option.split list.split)

lemma request_other_keeps:
  assumes "on_database e dp" and "send_call req = None"
  shows "keeps_outbox d (snd (handle_request dp ph req d))"
proof (cases "rq_method req = ''tools/call''")
  case False
  then show ?thesis by (simp add: handle_request_def)
next
  case call: True
  show ?thesis
  proof (cases "rq_params req")
    case None
    then show ?thesis using call by (simp add: handle_request_def handle_tools_call_def)
  next
    case (Some p)
    show ?thesis
    proof (cases "str_field p ''name''")
      case None
      then show ?thesis using call Some by (simp add: handle_request_def handle_tools_call_def)
    next
      case tool: (Some tool)
      let ?args = "or_else JNull (json_get p ''arguments'')"
      have "keeps_outbox d (snd (dispatch dp tool ?args d))"
        using assms(2) call Some tool by (intro dispatch_other_keeps [OF assms(1)]) (auto simp: send_call_def split: if_splits)
      then show ?thesis using call Some tool
        by (cases "dispatch dp tool ?args d") (simp add: handle_request_def handle_tools_call_def split: sum.split)
    qed
  qed
qed

lemma request_send:
  assumes "send_call req = Some a"
  shows "handle_request dp ph req d =
    (case handle_send dp a d of
       (Ok v, d') \<Rightarrow> (response_success (rq_id req) (tool_result (md_show dp v) False), d')
     | (Err m, d') \<Rightarrow> (response_success (rq_id req) (tool_result (''error: '' @ m) True), d'))"
proof -
  obtain p where "rq_method req = ''tools/call''" and "rq_params req = Some p"
    and "str_field p ''name'' = Some ''send''" and "send_args_of (or_else JNull (json_get p ''arguments'')) = Some a"
    using assms by (cases "rq_params req") (simp_all add: send_call_def split: if_splits)
  then show ?thesis
    by (cases "handle_send dp a d") (simp add: handle_request_def handle_tools_call_def dispatch_def tool_result_def
        split: sum.split)
qed

lemma handle_all_session:
  assumes "on_database e dp" and "fresh_uuids e d" and "handle_all dp ph reqs d = (rs, d')"
  shows "\<exists>rows. session dp reqs rs rows \<and> t_outbox d' = t_outbox d @ rows"
  using assms(2,3)
proof (induction reqs arbitrary: d rs)
  case Nil
  then show ?case by simp
next
  case (Cons req reqs)
  obtain r d1 where one: "handle_request dp ph req d = (r, d1)" by force
  obtain rs' where rest: "handle_all dp ph reqs d1 = (rs', d')" and rs: "rs = r # rs'"
    using Cons.prems(2) one by (cases "handle_all dp ph reqs d1") simp
  show ?case
  proof (cases "send_call req")
    case None
    then have k: "keeps_outbox d d1" using request_other_keeps [OF assms(1), of req d ph] one by simp
    from Cons.IH [OF fresh_uuids_mono [OF Cons.prems(1) k] rest]
    obtain rows where "session dp reqs rs' rows" and "t_outbox d' = t_outbox d1 @ rows" by blast
    with session.other [OF None] rs k show ?thesis by (auto simp: keeps_outbox_def)
  next
    case (Some a)
    obtain q where q: "handle_send dp a d = (q, d1)" using one
      by (cases "handle_send dp a d") (simp add: request_send [OF Some] split: sum.splits)
    note effect = handle_send_effect [OF assms(1) Cons.prems(1) q]
    show ?thesis
    proof (cases q)
      case (Inl m)
      with effect have k: "keeps_outbox d d1" by simp
      have res: "rs_result r = Some (tool_result (''error: '' @ m) True)"
        using one q Inl by (auto simp: request_send [OF Some] response_success_def)
      from Cons.IH [OF fresh_uuids_mono [OF Cons.prems(1) k] rest]
      obtain rows where "session dp reqs rs' rows" and "t_outbox d' = t_outbox d1 @ rows" by blast
      with session.send_failed [OF Some res] rs k show ?thesis by (auto simp: keeps_outbox_def)
    next
      case (Inr v)
      with effect obtain i row where v: "v = pending_answer a i" and row: "queued_row dp a i row"
        and t: "t_outbox d1 = t_outbox d @ [row]" and f: "fresh_uuids e d1" by auto
      have res: "rs_result r = Some (tool_result (md_show dp (pending_answer a i)) False)"
        using one q Inr v by (auto simp: request_send [OF Some] response_success_def)
      from Cons.IH [OF f rest]
      obtain rows where s: "session dp reqs rs' rows" and "t_outbox d' = t_outbox d1 @ rows" by blast
      with t have "t_outbox d' = t_outbox d @ row # rows" by simp
      with session.sent [OF Some res row s] rs show ?thesis by blast
    qed
  qed
qed

lemma server_loop_answers:
  "\<exists>rs. list_all2 answers (requests_of ms) rs \<and>
     fst (server_loop dp ph ms ([], w)) = concat (map (write_response dp) rs)"
  using handle_all_answers [of "requests_of ms" dp ph w]
  by (auto simp: server_loop_handle_all split_beta Let_def)

lemma server_loop_session:
  assumes "on_database e dp" and "fresh_uuids e d" and "server_loop dp ph ms ([], d) = (out, d')"
  shows "\<exists>rs rows. session dp (requests_of ms) rs rows \<and>
    out = concat (map (write_response dp) rs) \<and> t_outbox d' = t_outbox d @ rows"
proof -
  obtain rs d'' where h: "handle_all dp ph (requests_of ms) d = (rs, d'')" by force
  with assms(3) have "out = concat (map (write_response dp) rs)" and "d'' = d'"
    by (simp_all add: server_loop_handle_all)
  with handle_all_session [OF assms(1,2) h] show ?thesis by blast
qed

section \<open>Properties\<close>

text \<open>
  C13. Whatever arrives on standard input, and whatever the store, the files and the tools do, what the
  MCP server writes is the concatenation of framed responses, one for each request that was read,
  in the order of the requests, and none for a notification. Each carries version 2.0 and the
  identifier of its request, and either a result (for the three methods of the server) or an error:
  \<open>INVALID_PARAMS\<close> for a tool call, \<open>METHOD_NOT_FOUND\<close> for any other method.
\<close>

theorem mcp_answers_requests:
  "\<exists>rs. list_all2 answers (requests_of (run_blocking parse inp)) rs \<and>
     fst (mcp_run parse dp ph inp w) = concat (map (write_response dp) rs)"
  unfolding mcp_run_def by (rule server_loop_answers)

text \<open>
  C12. On a database with fresh identifiers the only effect of an MCP session on the outbox is to append
  the rows of its successful \<open>send\<close> calls, in order: each such call is answered \<open>pending\<close> with the
  identifier of its one pending row, which has the route and the text of the call; a \<open>send\<close> call that
  is answered with an error, and every other request, adds nothing.
\<close>

theorem mcp_session_queues_sends:
  assumes "on_database e dp" and "fresh_uuids e d" and "mcp_run parse dp ph inp d = (out, d')"
  shows "\<exists>rs rows. session dp (requests_of (run_blocking parse inp)) rs rows \<and>
    out = concat (map (write_response dp) rs) \<and> t_outbox d' = t_outbox d @ rows"
  using assms(3) unfolding mcp_run_def by (rule server_loop_session [OF assms(1,2)])


text \<open>A client that sends one text, then names a method the server does not have.\<close>

definition sample_env :: env where
  "sample_env = \<lparr> env_fault = \<lambda>n. None, env_now_ms = \<lambda>n. 1000 * int n, env_rank = \<lambda>n s. 0, env_uuid = show_nat \<rparr>"

definition sample_deps :: "db mcp_deps" where
  "sample_deps = \<lparr> md_env = (\<lambda>v. None), md_read_file = (\<lambda>p d. (Err ''no file'', d)), md_account = (\<lambda>s. Err ''no account''),
     md_open_tokens = (\<lambda>p d. (Ok (sqlite_token_store sample_env), d)), md_store_error = (\<lambda>er. ''store''),
     md_keys = (\<lambda>m. []), md_outbox = sqlite_outbox sample_env, md_uuid = new_uuid sample_env,
     md_now_s = clock_s sample_env, md_key_json = (\<lambda>k. Ok (rk_peer_id k)), md_content_json = (\<lambda>c. Ok ''body''),
     md_send_error = (\<lambda>er. ''send''), md_arg_error = (\<lambda>s v. ''args''), md_show = (\<lambda>v. ''json'') \<rparr>"

definition sample_args :: send_args where
  "sample_args = \<lparr> sa_channel = ''wechat'', sa_conversation_id = ''c'', sa_peer_id = ''u'',
     sa_conversation_type = ''direct'', sa_content = ''hi'' \<rparr>"

definition sample_call :: json where
  "sample_call = JArray [JString ''2.0'', JInt 1, JString ''tools/call'',
     JObject [(''name'', JString ''send''),
       (''arguments'', JArray (map JString [''wechat'', ''c'', ''u'', ''direct'', ''hi'']))]]"

definition sample_parse :: "string \<Rightarrow> json option" where
  "sample_parse s = (if s = ''x'' then Some sample_call
     else if s = ''y'' then Some (JArray [JString ''2.0'', JInt 2, JString ''ping'', JNull]) else None)"

definition sample_input :: input where
  "sample_input = \<lparr> in_bytes = frame ''x'' @ frame ''y'', in_fault = None \<rparr>"

definition sample_handler :: protocol_handler where
  "sample_handler = \<lparr> ph_server_name = ''magiclaw'', ph_server_version = ''0.1.0'' \<rparr>"

lemma sample_requests:
  "\<exists>r1 r2. requests_of (run_blocking sample_parse sample_input) = [r1, r2] \<and> send_call r1 = Some sample_args \<and>
     send_call r2 = None"
proof -
  have v: "valid_utf8 ''x''" "valid_utf8 ''y''" by (simp_all add: valid_utf8_def)
  note defs = message_of_text_def message_of_json_def request_of_json_def opt_value_def sample_parse_def sample_call_def
    numeral_2_eq_2
  have "message_of_text sample_parse ''x'' = Some (Request \<lparr> rq_jsonrpc = ''2.0'', rq_id = JInt 1, rq_method = ''tools/call'',
      rq_params = Some (JObject [(''name'', JString ''send''),
       (''arguments'', JArray (map JString [''wechat'', ''c'', ''u'', ''direct'', ''hi'']))]) \<rparr>)"
    and "message_of_text sample_parse ''y'' =
      Some (Request \<lparr> rq_jsonrpc = ''2.0'', rq_id = JInt 2, rq_method = ''ping'', rq_params = None \<rparr>)"
    by (simp_all add: defs)
  moreover have "read_framed_or_json_line sample_input = (Ok (Some ''x''), sample_input\<lparr>in_bytes := frame ''y''\<rparr>)"
    using read_frame [OF v(1), of sample_input "frame ''y''"] by (simp add: sample_input_def)
  moreover have "read_framed_or_json_line (sample_input\<lparr>in_bytes := frame ''y''\<rparr>) = (Ok (Some ''y''), sample_input\<lparr>in_bytes := []\<rparr>)"
    using read_frame [OF v(2), of "sample_input\<lparr>in_bytes := frame ''y''\<rparr>" "[]"] by simp
  moreover have "read_framed_or_json_line (sample_input\<lparr>in_bytes := []\<rparr>) = (Ok None, sample_input\<lparr>in_bytes := []\<rparr>)"
    by (intro read_nothing) (simp_all add: sample_input_def)
  ultimately show ?thesis
    by (simp add: run_blocking.simps [of sample_parse sample_input] run_blocking.simps [of sample_parse "sample_input\<lparr>in_bytes := []\<rparr>"]
        run_blocking.simps [of sample_parse "sample_input\<lparr>in_bytes := frame ''y''\<rparr>"]
        send_call_def str_field_def send_args_of_def string_args_def sample_args_def or_else_def)
qed

lemma sample_on_database: "on_database sample_env sample_deps"
  by (simp add: on_database_def sample_deps_def)

lemma sample_fresh: "fresh_uuids sample_env empty_db"
  by (auto simp: fresh_uuids_def sample_env_def empty_db_def inj_def show_nat_inj)

theorem mcp_session_queues_sends_witness:
  "\<exists>r1 r2 rows. fst (mcp_run sample_parse sample_deps sample_handler sample_input empty_db) =
       write_response sample_deps r1 @ write_response sample_deps r2 \<and>
     t_outbox (snd (mcp_run sample_parse sample_deps sample_handler sample_input empty_db)) = rows \<and>
     (rs_result r1 = Some (tool_result ''json'' False) \<and> length rows = 1 \<or>
      rs_result r1 \<noteq> Some (tool_result ''json'' False) \<and> rows = [])"
proof -
  obtain out d' where run: "mcp_run sample_parse sample_deps sample_handler sample_input empty_db = (out, d')" by force
  obtain q1 q2 where q: "requests_of (run_blocking sample_parse sample_input) = [q1, q2]" "send_call q1 = Some sample_args"
    "send_call q2 = None" using sample_requests by blast
  obtain rs rows where "session sample_deps [q1, q2] rs rows" and out: "out = concat (map (write_response sample_deps) rs)"
    and t: "t_outbox d' = rows"
    using mcp_session_queues_sends [OF sample_on_database sample_fresh run] q(1) by (auto simp: empty_db_def)
  then obtain r1 r2 where "rs = [r1, r2]" and
    "rs_result r1 = Some (tool_result ''json'' False) \<and> length rows = 1 \<or>
     rs_result r1 \<noteq> Some (tool_result ''json'' False) \<and> rows = []"
    using q(2,3) by (auto elim!: session_consE simp: sample_deps_def tool_result_def)
  then show ?thesis using run out t by auto
qed

end
