(* ===== verification/Cli_Parser.thy ===== *)
theory Cli_Parser
  imports Json_Http
begin

text \<open>
  \<open>src/cli/commands.rs\<close> and \<open>src/cli/parser.rs\<close>: the commands of the program and the reading of its
  arguments.

  \<open>args[0]\<close> is the program's name. The crate \<open>uuid\<close> is the argument \<open>parse_uuid\<close>: the version, the
  variant and the canonical text of an identifier it accepts. Each loop over flags runs over the
  list of arguments and fills a record with the loop's variables.
\<close>

section \<open>Commands\<close>

datatype send_channel = WechatChannel | FeishuChannel

definition send_channel_parse :: "string \<Rightarrow> string + send_channel" where
  "send_channel_parse value =
     (let v = map ascii_lower (trim value) in
      if v \<in> {''wechat'', ''weixin'', ''wx''} then Ok WechatChannel
      else if v \<in> {''feishu'', ''lark''} then Ok FeishuChannel
      else Err (''unknown channel: '' @ [CHR 0x27] @ v @ [CHR 0x27] @ '' (expected: wechat | feishu)''))"

record send_command =
  sc_channel :: send_channel
  sc_data_dir :: string
  sc_to :: "string option"
  sc_context_token :: "string option"
  sc_receive_id_type :: "string option"
  sc_delivery_result_json_v1 :: bool
  sc_invocation_id :: "string option"
  sc_message :: string

datatype import_format = Jsonl | Csv

record import_command =
  ic_format :: import_format
  ic_path :: string

record auth_issue_command =
  ai_project_id :: string
  ai_client_name :: string
  ai_scopes :: "string list"
  ai_ttl_secs :: int

datatype auth_command = Issue auth_issue_command | ListTokens "string option" | Revoke string

record wechat_login_command =
  wl_data_dir :: "string option"
  wl_account_id :: "string option"

datatype cli_command =
    Daemon
  | Mcp
  | Send send_command
  | Auth auth_command
  | WeChat wechat_login_command
  | BindImport import_command
  | PushImport import_command
  | PushRun string
  | ProjectList
  | BindingList string

section \<open>Texts\<close>

definition nl :: string where "nl = [CHR 0x0A]"

definition usage :: string where
  "usage = concat (map (\<lambda>l. l @ nl)
    [''Usage:'',
     ''  magiclaw                Start daemon mode'',
     ''  magiclaw --mcp          Start MCP server mode'',
     ''  magiclaw send --message <text> [--channel <wechat|feishu>] [--to <recipient>] [--receive-id-type <type>] [--context-token <token>] [--data-dir <wechat-dir>]'',
     ''  magiclaw auth issue --project <project_id> --name <client_name> --scopes send,window_status --ttl-secs <secs>'',
     ''  magiclaw auth list [--project <project_id>]'',
     ''  magiclaw auth revoke --token <raw_token>'',
     ''  magiclaw wechat login [--data-dir <dir>] [--account-id <id>]'',
     ''  magiclaw bind import (--jsonl <path> | --csv <path>)'',
     ''  magiclaw push import (--jsonl <path> | --csv <path>)'',
     ''  magiclaw push run --job <job_id>'',
     ''  magiclaw project list'',
     ''  magiclaw binding list --project <project_key>'',
     [],
     ''Channels:'',
     ''  --channel wechat (default)  Send via WeChat (ilink). Recipient inferred from context tokens if omitted.'',
     ''  --channel feishu            Send via Feishu OpenAPI. --to is required (open_id/chat_id/...).'',
     ''                              receive_id_type auto-detected from prefix (oc_->chat_id, ou_->open_id) or via --receive-id-type.'',
     [],
     ''Environment:'',
     ''  MAGICLAW_DB_PATH      SQLite database path shared by daemon and auth commands'',
     ''  WECHAT_CHANNEL_DIR    Default WeChat data directory (fallback: ~/.claude/channels/wechat)'',
     ''  MAGICLAW_API_TOKEN    Optional bearer token for localhost daemon /api/send and /api/window_status'',
     ''  MAGICLAW_API_SEND_DEBUG  Set to 1/true to include diagnostics in /api/send responses''])
    @ ''  FEISHU_*              Feishu channel config (APP_ID, APP_SECRET, RECEIVE_ID_TYPE, ...)''"

definition with_usage :: "string \<Rightarrow> string" where
  "with_usage s = s @ nl @ usage"

definition missing_value :: "string \<Rightarrow> string" where
  "missing_value flag = with_usage (''missing value for '' @ flag)"

definition missing_flag :: "string \<Rightarrow> string" where
  "missing_flag flag = with_usage (''missing required flag: '' @ flag)"

definition unknown_flag :: "string \<Rightarrow> string" where
  "unknown_flag flag = with_usage (''unknown flag: '' @ flag)"

text \<open>The display of \<open>ParseIntError\<close> for a text that is not a 64-bit number.\<close>

fun digits_error :: "bool \<Rightarrow> int \<Rightarrow> string \<Rightarrow> string" where
  "digits_error neg acc [] = []"
| "digits_error neg acc (c # cs) =
     (let n = of_char c :: nat; v = 10 * acc + int (n - 48) in
      if \<not> (48 \<le> n \<and> n \<le> 57) then ''invalid digit found in string''
      else if neg \<and> v > 2 ^ 63 then ''number too small to fit in target type''
      else if \<not> neg \<and> v \<ge> 2 ^ 63 then ''number too large to fit in target type''
      else digits_error neg v cs)"

definition parse_int_error :: "string \<Rightarrow> string" where
  "parse_int_error s =
     (case s of
        [] \<Rightarrow> ''cannot parse integer from empty string''
      | c # cs \<Rightarrow>
          if cs = [] \<and> c \<in> {CHR ''+'', CHR ''-''} then ''invalid digit found in string''
          else if c = CHR ''-'' then digits_error True 0 cs
          else digits_error False 0 (if c = CHR ''+'' then cs else s))"

section \<open>Flags\<close>

text \<open>The value after a flag.\<close>

definition flag_value :: "string \<Rightarrow> string list \<Rightarrow> string + string \<times> string list" where
  "flag_value missing rest = (case rest of [] \<Rightarrow> Err missing | v # rest' \<Rightarrow> Ok (v, rest'))"

lemma flag_value_shorter: "flag_value m rest = Ok b \<Longrightarrow> (v, rest') = b \<Longrightarrow> length rest' < Suc (length rest)"
  by (auto simp: flag_value_def split: list.splits)

definition parse_scopes :: "string \<Rightarrow> string + string list" where
  "parse_scopes value =
     (let scopes = filter (\<lambda>p. p \<noteq> []) (map trim (split_on (CHR '','') value))
      in if scopes = [] then Err ''scopes cannot be empty'' else Ok scopes)"

record send_flags =
  sf_data_dir :: "string option"
  sf_to :: "string option"
  sf_context_token :: "string option"
  sf_message :: "string option"
  sf_channel :: "send_channel option"
  sf_receive_id_type :: "string option"
  sf_delivery :: bool
  sf_invocation_id :: "string option"

definition no_send_flags :: send_flags where
  "no_send_flags = \<lparr> sf_data_dir = None, sf_to = None, sf_context_token = None, sf_message = None, sf_channel = None,
     sf_receive_id_type = None, sf_delivery = False, sf_invocation_id = None \<rparr>"

function send_loop :: "string list \<Rightarrow> send_flags \<Rightarrow> string + send_flags" where
  "send_loop [] f = Ok f"
| "send_loop (a # rest) f =
     (if a = ''--delivery-result-json-v1'' then send_loop rest (f\<lparr>sf_delivery := True\<rparr>)
      else if a = ''--invocation-id'' then
        (case flag_value ''missing --invocation-id value'' rest of
           Err e \<Rightarrow> Err e | Ok (v, r) \<Rightarrow> send_loop r (f\<lparr>sf_invocation_id := Some v\<rparr>))
      else if a = ''--channel'' then
        (case flag_value (missing_value ''--channel'') rest of
           Err e \<Rightarrow> Err e
         | Ok (v, r) \<Rightarrow>
             (case send_channel_parse v of
                Err e \<Rightarrow> Err (with_usage e)
              | Ok c \<Rightarrow> send_loop r (f\<lparr>sf_channel := Some c\<rparr>)))
      else if a = ''--receive-id-type'' then
        (case flag_value (missing_value ''--receive-id-type'') rest of
           Err e \<Rightarrow> Err e | Ok (v, r) \<Rightarrow> send_loop r (f\<lparr>sf_receive_id_type := Some v\<rparr>))
      else if a = ''--data-dir'' then
        (case flag_value (missing_value ''--data-dir'') rest of
           Err e \<Rightarrow> Err e | Ok (v, r) \<Rightarrow> send_loop r (f\<lparr>sf_data_dir := Some v\<rparr>))
      else if a = ''--to'' then
        (case flag_value (missing_value ''--to'') rest of
           Err e \<Rightarrow> Err e | Ok (v, r) \<Rightarrow> send_loop r (f\<lparr>sf_to := Some v\<rparr>))
      else if a = ''--message'' \<or> a = ''--text'' then
        (case flag_value (missing_value ''--message'') rest of
           Err e \<Rightarrow> Err e | Ok (v, r) \<Rightarrow> send_loop r (f\<lparr>sf_message := Some v\<rparr>))
      else if a = ''--context-token'' then
        (case flag_value (missing_value ''--context-token'') rest of
           Err e \<Rightarrow> Err e | Ok (v, r) \<Rightarrow> send_loop r (f\<lparr>sf_context_token := Some v\<rparr>))
      else if a = ''--help'' \<or> a = ''-h'' then Err usage
      else Err (unknown_flag a))"
  by pat_completeness (clarify, (rule refl | simp only: list.simps list.distinct prod.inject))+
termination by (relation "measure (\<lambda>(as, f). length as)") (simp, (simp, erule (1) flag_value_shorter | simp)+)

record uuid_info =
  uu_version :: nat
  uu_rfc4122 :: bool
  uu_text :: string

definition check_invocation ::
  "(string \<Rightarrow> uuid_info option) \<Rightarrow> send_flags \<Rightarrow> string + unit" where
  "check_invocation parse_uuid f =
     (if \<not> sf_delivery f \<and> sf_invocation_id f = None then Ok ()
      else if \<not> sf_delivery f \<or> sf_channel f \<noteq> Some FeishuChannel
      then Err ''delivery-result-json-v1 requires feishu and --invocation-id''
      else (case sf_invocation_id f of
              None \<Rightarrow> Err ''missing --invocation-id''
            | Some i \<Rightarrow>
                (case parse_uuid i of
                   None \<Rightarrow> Err ''invocation-id must be a canonical UUIDv4''
                 | Some u \<Rightarrow>
                     if uu_version u \<noteq> 4 \<or> \<not> uu_rfc4122 u \<or> uu_text u \<noteq> i
                     then Err ''invocation-id must be a canonical UUIDv4'' else Ok ())))"

definition parse_send_args :: "(string \<Rightarrow> uuid_info option) \<Rightarrow> string list \<Rightarrow> string + cli_command" where
  "parse_send_args parse_uuid args =
     (case send_loop args no_send_flags of
        Err e \<Rightarrow> Err e
      | Ok f \<Rightarrow>
          (case sf_message f of
             None \<Rightarrow> Err (missing_flag ''--message'')
           | Some msg \<Rightarrow>
               (case check_invocation parse_uuid f of
                  Err e \<Rightarrow> Err e
                | Ok _ \<Rightarrow>
                    Ok (Send \<lparr> sc_channel = (case sf_channel f of Some c \<Rightarrow> c | None \<Rightarrow> WechatChannel),
                         sc_data_dir = (case sf_data_dir f of Some dir \<Rightarrow> dir | None \<Rightarrow> []), sc_to = sf_to f,
                         sc_context_token = sf_context_token f, sc_receive_id_type = sf_receive_id_type f,
                         sc_delivery_result_json_v1 = sf_delivery f, sc_invocation_id = sf_invocation_id f,
                         sc_message = msg \<rparr>))))"

section \<open>The other commands\<close>

function import_loop ::
  "string list \<Rightarrow> (import_format \<times> string) option \<Rightarrow> string + (import_format \<times> string) option" where
  "import_loop [] f = Ok f"
| "import_loop (a # rest) f =
     (if a = ''--jsonl'' \<or> a = ''--csv'' then
        (case flag_value (with_usage (''missing path for '' @ a)) rest of
           Err e \<Rightarrow> Err e
         | Ok (v, r) \<Rightarrow> import_loop r (Some (if a = ''--jsonl'' then Jsonl else Csv, v)))
      else Err (unknown_flag a))"
  by pat_completeness (clarify, (rule refl | simp only: list.simps list.distinct prod.inject))+
termination by (relation "measure (\<lambda>(as, f). length as)") (simp, (simp, erule (1) flag_value_shorter | simp)+)

definition parse_import_command :: "string list \<Rightarrow> string + import_command" where
  "parse_import_command args =
     (case args of
        [] \<Rightarrow> Err (with_usage ''expected `import` subcommand'')
      | a # rest \<Rightarrow>
          if a \<noteq> ''import'' then Err (with_usage ''expected `import` subcommand'')
          else (case import_loop rest None of
                  Err e \<Rightarrow> Err e
                | Ok None \<Rightarrow> Err (with_usage ''missing --jsonl or --csv'')
                | Ok (Some (f, p)) \<Rightarrow> Ok \<lparr> ic_format = f, ic_path = p \<rparr>))"

definition map_ok :: "('a \<Rightarrow> 'b) \<Rightarrow> 'e + 'a \<Rightarrow> 'e + 'b" where
  "map_ok f r = (case r of Err e \<Rightarrow> Err e | Ok x \<Rightarrow> Ok (f x))"

definition parse_bind_args :: "string list \<Rightarrow> string + cli_command" where
  "parse_bind_args args = map_ok BindImport (parse_import_command args)"

definition parse_push_args :: "string list \<Rightarrow> string + cli_command" where
  "parse_push_args args =
     (case args of
        [] \<Rightarrow> Err (with_usage ''usage: magiclaw push (import ... | run --job <id>)'')
      | a # rest \<Rightarrow>
          if a = ''import'' then map_ok PushImport (parse_import_command args)
          else if a = ''run'' then
            (case rest of
               [flag, job] \<Rightarrow> if flag = ''--job'' then Ok (PushRun job)
                 else Err (with_usage ''usage: magiclaw push run --job <job_id>'')
             | _ \<Rightarrow> Err (with_usage ''usage: magiclaw push run --job <job_id>''))
          else Err (with_usage ''usage: magiclaw push (import ... | run --job <id>)''))"

definition parse_binding_args :: "string list \<Rightarrow> string + cli_command" where
  "parse_binding_args args =
     (case args of
        [a, b, key] \<Rightarrow> if a = ''list'' \<and> b = ''--project'' then Ok (BindingList key)
          else Err (with_usage ''usage: magiclaw binding list --project <project_key>'')
      | _ \<Rightarrow> Err (with_usage ''usage: magiclaw binding list --project <project_key>''))"

record issue_flags =
  is_project_id :: "string option"
  is_client_name :: "string option"
  is_scopes :: "string list option"
  is_ttl_secs :: int

function issue_loop :: "string list \<Rightarrow> issue_flags \<Rightarrow> string + issue_flags" where
  "issue_loop [] f = Ok f"
| "issue_loop (a # rest) f =
     (if a = ''--project'' then
        (case flag_value (missing_value ''--project'') rest of
           Err e \<Rightarrow> Err e | Ok (v, r) \<Rightarrow> issue_loop r (f\<lparr>is_project_id := Some v\<rparr>))
      else if a = ''--name'' then
        (case flag_value (missing_value ''--name'') rest of
           Err e \<Rightarrow> Err e | Ok (v, r) \<Rightarrow> issue_loop r (f\<lparr>is_client_name := Some v\<rparr>))
      else if a = ''--scopes'' then
        (case flag_value (missing_value ''--scopes'') rest of
           Err e \<Rightarrow> Err e
         | Ok (v, r) \<Rightarrow>
             (case parse_scopes v of
                Err e \<Rightarrow> Err e | Ok ss \<Rightarrow> issue_loop r (f\<lparr>is_scopes := Some ss\<rparr>)))
      else if a = ''--ttl-secs'' then
        (case flag_value (missing_value ''--ttl-secs'') rest of
           Err e \<Rightarrow> Err e
         | Ok (v, r) \<Rightarrow>
             (case parse_i64 v of
                None \<Rightarrow> Err (''invalid --ttl-secs value: '' @ parse_int_error v)
              | Some n \<Rightarrow> issue_loop r (f\<lparr>is_ttl_secs := n\<rparr>)))
      else if a = ''--help'' \<or> a = ''-h'' then Err usage
      else Err (unknown_flag a))"
  by pat_completeness (clarify, (rule refl | simp only: list.simps list.distinct prod.inject))+
termination by (relation "measure (\<lambda>(as, f). length as)") (simp, (simp, erule (1) flag_value_shorter | simp)+)

text \<open>The loops of \<open>auth list\<close> and \<open>auth revoke\<close>, which know one flag, and of \<open>wechat login\<close>.\<close>

function one_flag_loop :: "string \<Rightarrow> string list \<Rightarrow> string option \<Rightarrow> string + string option" where
  "one_flag_loop flag [] f = Ok f"
| "one_flag_loop flag (a # rest) f =
     (if a = flag then
        (case flag_value (missing_value flag) rest of Err e \<Rightarrow> Err e | Ok (v, r) \<Rightarrow> one_flag_loop flag r (Some v))
      else if a = ''--help'' \<or> a = ''-h'' then Err usage
      else Err (unknown_flag a))"
  by pat_completeness (clarify, (rule refl | simp only: list.simps list.distinct prod.inject))+
termination by (relation "measure (\<lambda>(fl, as, f). length as)") (simp, (simp, erule (1) flag_value_shorter | simp)+)

function login_loop :: "string list \<Rightarrow> wechat_login_command \<Rightarrow> string + wechat_login_command" where
  "login_loop [] f = Ok f"
| "login_loop (a # rest) f =
     (if a = ''--data-dir'' then
        (case flag_value (missing_value ''--data-dir'') rest of
           Err e \<Rightarrow> Err e | Ok (v, r) \<Rightarrow> login_loop r (f\<lparr>wl_data_dir := Some v\<rparr>))
      else if a = ''--account-id'' then
        (case flag_value (missing_value ''--account-id'') rest of
           Err e \<Rightarrow> Err e | Ok (v, r) \<Rightarrow> login_loop r (f\<lparr>wl_account_id := Some v\<rparr>))
      else if a = ''--help'' \<or> a = ''-h''
      then Err ''usage: magiclaw wechat login [--data-dir <dir>] [--account-id <id>]''
      else Err (unknown_flag a))"
  by pat_completeness (clarify, (rule refl | simp only: list.simps list.distinct prod.inject))+
termination by (relation "measure (\<lambda>(as, f). length as)") (simp, (simp, erule (1) flag_value_shorter | simp)+)

definition issue_command :: "issue_flags \<Rightarrow> string + auth_issue_command" where
  "issue_command f =
     (case is_project_id f of
        None \<Rightarrow> Err (missing_flag ''--project'')
      | Some p \<Rightarrow>
          (case is_client_name f of
             None \<Rightarrow> Err (missing_flag ''--name'')
           | Some c \<Rightarrow>
               (case is_scopes f of
                  None \<Rightarrow> Err (missing_flag ''--scopes'')
                | Some ss \<Rightarrow> Ok \<lparr> ai_project_id = p, ai_client_name = c, ai_scopes = ss, ai_ttl_secs = is_ttl_secs f \<rparr>)))"

definition parse_auth_args :: "string list \<Rightarrow> string + auth_command" where
  "parse_auth_args args =
     (case args of
        [] \<Rightarrow> Err (with_usage ''usage: magiclaw auth (issue|list|revoke)'')
      | a # rest \<Rightarrow>
          if a = ''issue'' then
            (case issue_loop rest
                    \<lparr> is_project_id = None, is_client_name = None, is_scopes = None, is_ttl_secs = 86400 \<rparr> of
               Err e \<Rightarrow> Err e
             | Ok f \<Rightarrow> map_ok Issue (issue_command f))
          else if a = ''list'' then map_ok ListTokens (one_flag_loop ''--project'' rest None)
          else if a = ''revoke'' then
            (case one_flag_loop ''--token'' rest None of
               Err e \<Rightarrow> Err e
             | Ok None \<Rightarrow> Err (missing_flag ''--token'')
             | Ok (Some t) \<Rightarrow> Ok (Revoke t))
          else Err (with_usage ''usage: magiclaw auth (issue|list|revoke)''))"

definition parse_wechat_args :: "string list \<Rightarrow> string + wechat_login_command" where
  "parse_wechat_args args =
     (case args of
        [] \<Rightarrow> Err (with_usage ''usage: magiclaw wechat (login)'')
      | a # rest \<Rightarrow>
          if a = ''login'' then login_loop rest \<lparr> wl_data_dir = None, wl_account_id = None \<rparr>
          else Err (with_usage ''usage: magiclaw wechat (login)''))"

definition parse_cli_args :: "(string \<Rightarrow> uuid_info option) \<Rightarrow> string list \<Rightarrow> string + cli_command" where
  "parse_cli_args parse_uuid args =
     (case args of
        program # a # rest \<Rightarrow>
          if a = ''--mcp'' \<or> a = ''mcp'' then
            (if rest \<noteq> [] then Err (with_usage ''--mcp does not accept extra arguments'') else Ok Mcp)
          else if a = ''bind'' then parse_bind_args rest
          else if a = ''push'' then parse_push_args rest
          else if a = ''auth'' then map_ok Auth (parse_auth_args rest)
          else if a = ''project'' then
            (if rest = [''list''] then Ok ProjectList else Err (with_usage ''usage: magiclaw project list''))
          else if a = ''binding'' then parse_binding_args rest
          else if a = ''wechat'' then map_ok WeChat (parse_wechat_args rest)
          else if a \<noteq> ''send'' then Err (with_usage (''unknown command: '' @ a))
          else parse_send_args parse_uuid rest
      | _ \<Rightarrow> Ok Daemon)"

declare send_loop.simps(2) [simp del] import_loop.simps(2) [simp del] issue_loop.simps(2) [simp del]
  one_flag_loop.simps(2) [simp del] login_loop.simps(2) [simp del]

section \<open>Writing commands as arguments\<close>

text \<open>The commands the parser is meant to produce.\<close>

definition canonical_v4 :: "(string \<Rightarrow> uuid_info option) \<Rightarrow> string \<Rightarrow> bool" where
  "canonical_v4 parse_uuid i \<longleftrightarrow> parse_uuid i = Some \<lparr> uu_version = 4, uu_rfc4122 = True, uu_text = i \<rparr>"

definition scope_ok :: "string \<Rightarrow> bool" where
  "scope_ok s \<longleftrightarrow> s \<noteq> [] \<and> trim s = s \<and> CHR '','' \<notin> set s"

fun command_ok :: "(string \<Rightarrow> uuid_info option) \<Rightarrow> cli_command \<Rightarrow> bool" where
  "command_ok parse_uuid (Send c) \<longleftrightarrow>
     (case sc_invocation_id c of
        None \<Rightarrow> \<not> sc_delivery_result_json_v1 c
      | Some i \<Rightarrow> sc_delivery_result_json_v1 c \<and> sc_channel c = FeishuChannel \<and> canonical_v4 parse_uuid i)"
| "command_ok parse_uuid (Auth (Issue c)) \<longleftrightarrow> ai_scopes c \<noteq> [] \<and> list_all scope_ok (ai_scopes c) \<and> is_i64 (ai_ttl_secs c)"
| "command_ok parse_uuid _ \<longleftrightarrow> True"

fun opt_flag :: "string \<Rightarrow> string option \<Rightarrow> string list" where
  "opt_flag flag None = []"
| "opt_flag flag (Some v) = [flag, v]"

fun join_commas :: "string list \<Rightarrow> string" where
  "join_commas [] = []"
| "join_commas [s] = s"
| "join_commas (s # t # ss) = s @ CHR '','' # join_commas (t # ss)"

definition import_args :: "import_command \<Rightarrow> string list" where
  "import_args c = [''import'', if ic_format c = Jsonl then ''--jsonl'' else ''--csv'', ic_path c]"

definition send_command_args :: "send_command \<Rightarrow> string list" where
  "send_command_args c =
     (if sc_delivery_result_json_v1 c then [''--delivery-result-json-v1''] else [])
     @ opt_flag ''--invocation-id'' (sc_invocation_id c)
     @ [''--channel'', if sc_channel c = FeishuChannel then ''feishu'' else ''wechat'', ''--data-dir'', sc_data_dir c]
     @ opt_flag ''--receive-id-type'' (sc_receive_id_type c) @ opt_flag ''--to'' (sc_to c)
     @ opt_flag ''--context-token'' (sc_context_token c) @ [''--message'', sc_message c]"

fun command_args :: "cli_command \<Rightarrow> string list" where
  "command_args Daemon = []"
| "command_args Mcp = [''--mcp'']"
| "command_args (Send c) = ''send'' # send_command_args c"
| "command_args (Auth (Issue c)) =
     [''auth'', ''issue'', ''--project'', ai_project_id c, ''--name'', ai_client_name c,
      ''--scopes'', join_commas (ai_scopes c), ''--ttl-secs'', show_int (ai_ttl_secs c)]"
| "command_args (Auth (ListTokens p)) = [''auth'', ''list''] @ opt_flag ''--project'' p"
| "command_args (Auth (Revoke t)) = [''auth'', ''revoke'', ''--token'', t]"
| "command_args (WeChat c) =
     [''wechat'', ''login''] @ opt_flag ''--data-dir'' (wl_data_dir c) @ opt_flag ''--account-id'' (wl_account_id c)"
| "command_args (BindImport c) = ''bind'' # import_args c"
| "command_args (PushImport c) = ''push'' # import_args c"
| "command_args (PushRun j) = [''push'', ''run'', ''--job'', j]"
| "command_args ProjectList = [''project'', ''list'']"
| "command_args (BindingList p) = [''binding'', ''list'', ''--project'', p]"

section \<open>Lemmas\<close>

lemma flag_value_Cons [simp]: "flag_value m (v # r) = Ok (v, r)"
  by (simp add: flag_value_def)

lemma flag_value_cases:
  obtains "flag_value m rest = Err m" | v r where "rest = v # r" "flag_value m rest = Ok (v, r)"
  by (cases rest) (simp_all add: flag_value_def)

text \<open>One step of each loop per flag.\<close>

lemma send_loop_flags [simp]:
  "send_loop (''--delivery-result-json-v1'' # r) f = send_loop r (f\<lparr>sf_delivery := True\<rparr>)"
  "send_loop (''--invocation-id'' # v # r) f = send_loop r (f\<lparr>sf_invocation_id := Some v\<rparr>)"
  "send_loop (''--receive-id-type'' # v # r) f = send_loop r (f\<lparr>sf_receive_id_type := Some v\<rparr>)"
  "send_loop (''--data-dir'' # v # r) f = send_loop r (f\<lparr>sf_data_dir := Some v\<rparr>)"
  "send_loop (''--to'' # v # r) f = send_loop r (f\<lparr>sf_to := Some v\<rparr>)"
  "send_loop (''--message'' # v # r) f = send_loop r (f\<lparr>sf_message := Some v\<rparr>)"
  "send_loop (''--context-token'' # v # r) f = send_loop r (f\<lparr>sf_context_token := Some v\<rparr>)"
  by (simp_all add: send_loop.simps(2))

lemma channel_names: "send_channel_parse ''feishu'' = Ok FeishuChannel" "send_channel_parse ''wechat'' = Ok WechatChannel"
  by code_simp+

lemma send_loop_channel [simp]:
  "send_loop (''--channel'' # ''feishu'' # r) f = send_loop r (f\<lparr>sf_channel := Some FeishuChannel\<rparr>)"
  "send_loop (''--channel'' # ''wechat'' # r) f = send_loop r (f\<lparr>sf_channel := Some WechatChannel\<rparr>)"
  by (simp_all add: send_loop.simps(2) channel_names)

lemma send_loop_opt [simp]:
  "send_loop (opt_flag ''--invocation-id'' v @ r) f = send_loop r (case v of None \<Rightarrow> f | Some i \<Rightarrow> f\<lparr>sf_invocation_id := v\<rparr>)"
  "send_loop (opt_flag ''--receive-id-type'' v @ r) f = send_loop r (case v of None \<Rightarrow> f | Some i \<Rightarrow> f\<lparr>sf_receive_id_type := v\<rparr>)"
  "send_loop (opt_flag ''--to'' v @ r) f = send_loop r (case v of None \<Rightarrow> f | Some i \<Rightarrow> f\<lparr>sf_to := v\<rparr>)"
  "send_loop (opt_flag ''--context-token'' v @ r) f = send_loop r (case v of None \<Rightarrow> f | Some i \<Rightarrow> f\<lparr>sf_context_token := v\<rparr>)"
  by (cases v; simp)+

definition flags_of :: "send_command \<Rightarrow> send_flags" where
  "flags_of c = \<lparr> sf_data_dir = Some (sc_data_dir c), sf_to = sc_to c, sf_context_token = sc_context_token c,
     sf_message = Some (sc_message c), sf_channel = Some (sc_channel c), sf_receive_id_type = sc_receive_id_type c,
     sf_delivery = sc_delivery_result_json_v1 c, sf_invocation_id = sc_invocation_id c \<rparr>"

lemma send_loop_args: "send_loop (send_command_args c) no_send_flags = Ok (flags_of c)"
  by (cases "sc_channel c")
    (simp_all add: send_command_args_def no_send_flags_def flags_of_def split: option.split)

lemma check_invocation_flags:
  "check_invocation parse_uuid (flags_of c) = Ok () \<longleftrightarrow> command_ok parse_uuid (Send c)"
  by (auto simp: check_invocation_def flags_of_def canonical_v4_def split: option.splits)


lemma split_on_plain: "c \<notin> set s \<Longrightarrow> split_on c s = [s]"
  by (induction s) auto

lemma split_on_sep: "c \<notin> set s \<Longrightarrow> split_on c (s @ c # t) = s # split_on c t"
  by (induction s) auto

lemma split_join_commas: "ss \<noteq> [] \<Longrightarrow> list_all scope_ok ss \<Longrightarrow> split_on (CHR '','') (join_commas ss) = ss"
  by (induction ss rule: join_commas.induct) (auto simp: scope_ok_def split_on_plain split_on_sep)

lemma parse_scopes_join: "ss \<noteq> [] \<Longrightarrow> list_all scope_ok ss \<Longrightarrow> parse_scopes (join_commas ss) = Ok ss"
proof -
  assume ss: "ss \<noteq> []" "list_all scope_ok ss"
  then have "map trim ss = ss" and "filter (\<lambda>p. p \<noteq> []) ss = ss"
    by (auto simp: list_all_iff scope_ok_def intro!: map_idI filter_True)
  with ss show ?thesis by (simp add: parse_scopes_def split_join_commas)
qed

lemma split_on_free: "p \<in> set (split_on c s) \<Longrightarrow> c \<notin> set p"
  by (induction s arbitrary: p) (auto split: if_splits list.splits)

lemma parse_scopes_ok: "parse_scopes v = Ok ss \<Longrightarrow> ss \<noteq> [] \<and> list_all scope_ok ss"
  using split_on_free set_trim
  by (fastforce simp: parse_scopes_def Let_def list_all_iff scope_ok_def split: if_splits)

text \<open>Printing and parsing 64-bit numbers.\<close>

lemma show_nat_head: obtains c cs where "show_nat n = c # cs" and "c \<noteq> CHR ''-''" and "c \<noteq> CHR ''+''"
proof -
  obtain c cs where s: "show_nat n = c # cs" by (cases "show_nat n") auto
  then have "c \<in> digit_char ` {0..<10}" using set_show_nat [of n] by auto
  then have "c \<noteq> CHR ''+''" "c \<noteq> CHR ''-''" unfolding digit_char_eq by auto
  with s show thesis by (intro that)
qed

lemma parse_i64_show_int: "is_i64 n \<Longrightarrow> parse_i64 (show_int n) = Some n"
proof (cases "n < 0")
  case True
  assume "is_i64 n"
  with True show ?thesis using parse_digits_show_nat [of "nat (- n)"]
    by (simp add: parse_i64_def show_int_def)
next
  case False
  assume "is_i64 n"
  obtain c cs where "show_nat (nat n) = c # cs" and "c \<noteq> CHR ''-''" and "c \<noteq> CHR ''+''" by (rule show_nat_head)
  with False \<open>is_i64 n\<close> show ?thesis using parse_digits_show_nat [of "nat n"]
    by (simp add: parse_i64_def show_int_def)
qed

lemma parse_i64_range: "parse_i64 s = Some n \<Longrightarrow> is_i64 n"
  by (auto simp: parse_i64_def Let_def split: prod.splits if_splits option.splits)

text \<open>One step of the other loops per flag.\<close>

lemma issue_loop_flags [simp]:
  "issue_loop (''--project'' # v # r) f = issue_loop r (f\<lparr>is_project_id := Some v\<rparr>)"
  "issue_loop (''--name'' # v # r) f = issue_loop r (f\<lparr>is_client_name := Some v\<rparr>)"
  "issue_loop (''--scopes'' # v # r) f =
     (case parse_scopes v of Err e \<Rightarrow> Err e | Ok ss \<Rightarrow> issue_loop r (f\<lparr>is_scopes := Some ss\<rparr>))"
  "issue_loop (''--ttl-secs'' # v # r) f =
     (case parse_i64 v of None \<Rightarrow> Err (''invalid --ttl-secs value: '' @ parse_int_error v)
      | Some n \<Rightarrow> issue_loop r (f\<lparr>is_ttl_secs := n\<rparr>))"
  by (simp_all add: issue_loop.simps(2))

lemma other_loop_flags [simp]:
  "one_flag_loop flag (flag # v # r) f = one_flag_loop flag r (Some v)"
  "login_loop (''--data-dir'' # v # r) g = login_loop r (g\<lparr>wl_data_dir := Some v\<rparr>)"
  "login_loop (''--account-id'' # v # r) g = login_loop r (g\<lparr>wl_account_id := Some v\<rparr>)"
  "import_loop (''--jsonl'' # v # r) h = import_loop r (Some (Jsonl, v))"
  "import_loop (''--csv'' # v # r) h = import_loop r (Some (Csv, v))"
  by (simp_all add: one_flag_loop.simps(2) login_loop.simps(2) import_loop.simps(2))

lemma login_loop_opt:
  "login_loop (opt_flag ''--data-dir'' d @ opt_flag ''--account-id'' a) \<lparr> wl_data_dir = None, wl_account_id = None \<rparr> =
     Ok \<lparr> wl_data_dir = d, wl_account_id = a \<rparr>"
  by (cases d; cases a; simp)

lemma one_flag_opt: "one_flag_loop flag (opt_flag flag v) None = Ok v"
  by (cases v; simp)

lemma import_args_read: "parse_import_command (import_args c) = Ok c"
  by (cases "ic_format c") (simp_all add: import_args_def parse_import_command_def)

text \<open>What the loops of \<open>auth issue\<close> let through.\<close>

definition issue_flags_ok :: "issue_flags \<Rightarrow> bool" where
  "issue_flags_ok f \<longleftrightarrow> is_i64 (is_ttl_secs f) \<and>
     (case is_scopes f of None \<Rightarrow> True | Some ss \<Rightarrow> ss \<noteq> [] \<and> list_all scope_ok ss)"

lemma issue_loop_step:
  assumes "issue_loop (a # v # r) f = Ok g" and "issue_flags_ok f"
  obtains f' where "issue_loop r f' = Ok g" and "issue_flags_ok f'"
proof -
  consider "a = ''--project''" | "a = ''--name''" | (scopes) "a = ''--scopes''" | (ttl) "a = ''--ttl-secs''"
    | (other) "a \<notin> {''--project'', ''--name'', ''--scopes'', ''--ttl-secs''}" by blast
  then show thesis
  proof cases
    case 1
    with assms show thesis by (intro that [of "f\<lparr>is_project_id := Some v\<rparr>"]) (simp_all add: issue_flags_ok_def)
  next
    case 2
    with assms show thesis by (intro that [of "f\<lparr>is_client_name := Some v\<rparr>"]) (simp_all add: issue_flags_ok_def)
  next
    case scopes
    with assms(1) obtain ss where "parse_scopes v = Ok ss" and "issue_loop r (f\<lparr>is_scopes := Some ss\<rparr>) = Ok g"
      by (auto split: sum.splits)
    with assms(2) parse_scopes_ok show thesis by (intro that [of "f\<lparr>is_scopes := Some ss\<rparr>"]) (simp_all add: issue_flags_ok_def)
  next
    case ttl
    with assms(1) obtain n where "parse_i64 v = Some n" and "issue_loop r (f\<lparr>is_ttl_secs := n\<rparr>) = Ok g"
      by (auto split: option.splits)
    with assms(2) parse_i64_range show thesis by (intro that [of "f\<lparr>is_ttl_secs := n\<rparr>"]) (simp_all add: issue_flags_ok_def)
  next
    case other
    with assms(1) show thesis by (simp add: issue_loop.simps(2) split: if_splits)
  qed
qed

lemma issue_loop_alone: "issue_loop [a] f \<noteq> Ok g"
  by (simp add: issue_loop.simps(2) flag_value_def)

lemma issue_loop_ok: "issue_loop as f = Ok g \<Longrightarrow> issue_flags_ok f \<Longrightarrow> issue_flags_ok g"
proof (induction as arbitrary: f rule: induct_list012)
  case 1
  then show ?case by simp
next
  case (2 a)
  then show ?case by (simp add: issue_loop_alone)
next
  case (3 a v r)
  then show ?case by (metis issue_loop_step)
qed

text \<open>Only commands that fit are produced.\<close>

lemma send_ok: "parse_send_args parse_uuid as = Ok c \<Longrightarrow> command_ok parse_uuid c"
  by (auto simp: parse_send_args_def check_invocation_def canonical_v4_def split: sum.splits option.splits if_splits)

lemma issue_ok: "parse_auth_args as = Ok c \<Longrightarrow> command_ok parse_uuid (Auth c)"
  using issue_loop_ok [of "tl as" "\<lparr> is_project_id = None, is_client_name = None, is_scopes = None, is_ttl_secs = 86400 \<rparr>"]
  by (auto simp: parse_auth_args_def issue_command_def map_ok_def issue_flags_ok_def is_i64_def i64_min_def i64_max_def
      split: list.splits sum.splits option.splits if_splits)

lemma push_import_read: "parse_push_args (import_args c) = Ok (PushImport c)"
  using import_args_read [of c] by (simp add: parse_push_args_def map_ok_def import_args_def)

lemma command_args_read:
  assumes "command_ok parse_uuid c" shows "parse_cli_args parse_uuid (p # command_args c) = Ok c"
proof (cases c)
  case (Send s)
  then have "check_invocation parse_uuid (flags_of s) = Ok ()" using assms by (simp add: check_invocation_flags)
  then have "parse_send_args parse_uuid (send_command_args s) = Ok (Send s)"
    by (simp add: parse_send_args_def send_loop_args) (simp add: flags_of_def)
  then show ?thesis using Send by (simp add: parse_cli_args_def)
next
  case (Auth a)
  show ?thesis
  proof (cases a)
    case (Issue i)
    with assms Auth show ?thesis
      by (simp add: parse_cli_args_def parse_auth_args_def parse_scopes_join parse_i64_show_int issue_command_def map_ok_def)
  qed (use Auth in \<open>simp_all add: parse_cli_args_def parse_auth_args_def one_flag_opt map_ok_def\<close>)
qed (simp_all add: parse_cli_args_def parse_wechat_args_def login_loop_opt map_ok_def parse_bind_args_def
    parse_push_args_def [of "_ # _ # _"] parse_binding_args_def import_args_read push_import_read)


lemma parsed_ok: "parse_cli_args parse_uuid args = Ok c \<Longrightarrow> command_ok parse_uuid c"
  using send_ok issue_ok
  by (auto simp: parse_cli_args_def parse_bind_args_def parse_push_args_def parse_binding_args_def map_ok_def
      split: list.splits sum.splits if_splits)

section \<open>Properties\<close>

text \<open>
  C14. The command line produces exactly the commands that fit: delivery results only for Feishu and
  only together with an invocation id that is a canonical UUID of version 4, tokens only with at
  least one scope (trimmed, not empty, without a comma) and a 64-bit lifetime; all other commands are
  unrestricted. Each of them is read back from the arguments it is written as, whatever its
  strings are (they may look like flags), and a command that does not fit is not.
\<close>

theorem cli_commands_roundtrip:
  "((\<exists>args. parse_cli_args parse_uuid args = Ok c) \<longleftrightarrow> command_ok parse_uuid c) \<and>
   (parse_cli_args parse_uuid (p # command_args c) = Ok c \<longleftrightarrow> command_ok parse_uuid c)"
  using parsed_ok command_args_read by blast

end
