(* ===== verification/Config.thy ===== *)
theory Config
  imports Wechat_Ilink Feishu_Webhook Cli_Agent "HOL-Library.Monad_Syntax"
begin

text \<open>
  \<open>src/infrastructure/config.rs\<close>: the configuration of the program, its defaults, and reading and
  writing it as JSON the way the derived implementations of \<open>serde\<close> do. The records of the
  accounts and agents are in the theories of the components they configure.

  A hash map is the list of its entries without repeated keys. Parsing the text and the texts of
  errors are arguments.
\<close>

section \<open>The configuration\<close>

record ai_config =
  ai_backend :: string
  ai_claude_code :: claude_code_config
  ai_agents :: "(string \<times> cli_agent_config) list"
  ai_rate_limit_min_interval_ms :: nat

record full_config =
  co_backpressure :: backpressure_config
  co_dedup_ttl_secs :: nat
  co_dedup_max_capacity :: nat
  co_reorder_window_ms :: nat
  co_idle_timeout_secs :: nat
  co_gc_scan_interval_secs :: nat
  co_db_path :: string
  co_wechat :: wechat_config
  co_feishu :: feishu_config
  co_feishu_accounts :: "feishu_config list"
  co_ai :: ai_config
  co_agent :: agent_config

definition claude_code_default :: claude_code_config where
  "claude_code_default = \<lparr> cc_binary_path = ''claude'', cc_timeout_secs = 60, cc_max_output_bytes = 16384,
     cc_extra_args = [''--permission-mode'', ''plan''] \<rparr>"

definition cli_agent_default :: cli_agent_config where
  "cli_agent_default = \<lparr> ca_binary_path = ''echo'', ca_args = [], ca_timeout_secs = 120, ca_max_output_bytes = 16384,
     ca_result_json_pointer = None, ca_read_output_file = False \<rparr>"

definition agent_config_default :: agent_config where
  "agent_config_default = \<lparr> ag_enable_user_preferences = True, ag_aliases = default_agent_aliases \<rparr>"

definition ai_config_default :: ai_config where
  "ai_config_default = \<lparr> ai_backend = ''echo'', ai_claude_code = claude_code_default, ai_agents = [],
     ai_rate_limit_min_interval_ms = 3000 \<rparr>"

definition full_config_default :: full_config where
  "full_config_default = \<lparr> co_backpressure = backpressure_default, co_dedup_ttl_secs = 300,
     co_dedup_max_capacity = 2000000, co_reorder_window_ms = 200, co_idle_timeout_secs = 1800,
     co_gc_scan_interval_secs = 60, co_db_path = ''data/magiclaw.db'', co_wechat = wechat_config_default,
     co_feishu = feishu_config_default, co_feishu_accounts = [], co_ai = ai_config_default,
     co_agent = agent_config_default \<rparr>"

section \<open>Reading JSON\<close>

text \<open>Values of the field types; \<open>None\<close> is an error.\<close>

fun read_bool :: "json \<Rightarrow> bool option" where
  "read_bool (JBool b) = Some b"
| "read_bool _ = None"

fun read_opt_str :: "json \<Rightarrow> string option option" where
  "read_opt_str JNull = Some None"
| "read_opt_str v = map_option Some (json_as_str v)"

fun read_list :: "(json \<Rightarrow> 'a option) \<Rightarrow> json \<Rightarrow> 'a list option" where
  "read_list rd (JArray vs) = those (map rd vs)"
| "read_list rd _ = None"

text \<open>A later entry of a map replaces an earlier one with the same key.\<close>

fun read_map :: "(json \<Rightarrow> 'a option) \<Rightarrow> json \<Rightarrow> (string \<times> 'a) list option" where
  "read_map rd (JObject fs) =
     map_option (\<lambda>es. fold (\<lambda>(k, x) m. AList.update k x m) es [])
       (those (map (\<lambda>(k, v). map_option (Pair k) (rd v)) fs))"
| "read_map rd _ = None"

text \<open>A field with its default, when it has one.\<close>

definition field :: "(json \<Rightarrow> 'a option) \<Rightarrow> 'a option \<Rightarrow> json option \<Rightarrow> 'a option" where
  "field rd dflt v = (case v of None \<Rightarrow> dflt | Some j \<Rightarrow> rd j)"

definition fields_of :: "string list \<Rightarrow> json \<Rightarrow> (string \<Rightarrow> json option) option" where
  "fields_of names v = map_option (\<lambda>vs k. Option.bind (map_of (zip names vs) k) id) (struct_fields names v)"

definition backpressure_of_json :: "json \<Rightarrow> backpressure_config option" where
  "backpressure_of_json v = do {
     g \<leftarrow> fields_of [''per_route_buffer'', ''inbound_channel_capacity''] v;
     a \<leftarrow> field json_as_u64 None (g ''per_route_buffer'');
     b \<leftarrow> field json_as_u64 None (g ''inbound_channel_capacity'');
     Some \<lparr> per_route_buffer = a, inbound_channel_capacity = b \<rparr> }"

definition wechat_of_json :: "json \<Rightarrow> wechat_config option" where
  "wechat_of_json v = do {
     g \<leftarrow> fields_of [''enabled'', ''base_url'', ''token'', ''context_token'', ''channel_version'', ''account_id'',
       ''timeout_ms'', ''keepalive_timeout_ms''] v;
     a \<leftarrow> field read_bool (Some False) (g ''enabled'');
     b \<leftarrow> field json_as_str (Some []) (g ''base_url'');
     c \<leftarrow> field json_as_str (Some []) (g ''token'');
     d \<leftarrow> field json_as_str (Some []) (g ''context_token'');
     e \<leftarrow> field json_as_str (Some ''0.1.0'') (g ''channel_version'');
     f \<leftarrow> field json_as_str (Some ''default'') (g ''account_id'');
     t \<leftarrow> field json_as_u64 (Some 15000) (g ''timeout_ms'');
     k \<leftarrow> field json_as_u64 (Some 4000) (g ''keepalive_timeout_ms'');
     Some \<lparr> wc_enabled = a, wc_base_url = b, wc_token = c, wc_context_token = d, wc_channel_version = e,
       wc_account_id = f, wc_timeout_ms = t, wc_keepalive_timeout_ms = k \<rparr> }"

definition feishu_of_json :: "json \<Rightarrow> feishu_config option" where
  "feishu_of_json v = do {
     g \<leftarrow> fields_of [''enabled'', ''account_id'', ''base_url'', ''app_id'', ''app_secret'', ''tenant_access_token'',
       ''receive_id_type'', ''verification_token'', ''signing_secret'', ''timeout_ms''] v;
     a \<leftarrow> field read_bool (Some False) (g ''enabled'');
     b \<leftarrow> field json_as_str (Some ''default'') (g ''account_id'');
     c \<leftarrow> field json_as_str (Some ''https://open.feishu.cn'') (g ''base_url'');
     d \<leftarrow> field json_as_str (Some []) (g ''app_id'');
     e \<leftarrow> field json_as_str (Some []) (g ''app_secret'');
     f \<leftarrow> field json_as_str (Some []) (g ''tenant_access_token'');
     r \<leftarrow> field json_as_str (Some ''open_id'') (g ''receive_id_type'');
     h \<leftarrow> field json_as_str (Some []) (g ''verification_token'');
     s \<leftarrow> field json_as_str (Some []) (g ''signing_secret'');
     t \<leftarrow> field json_as_u64 (Some 15000) (g ''timeout_ms'');
     Some \<lparr> fc_enabled = a, fc_account_id = b, fc_base_url = c, fc_app_id = d, fc_app_secret = e,
       fc_tenant_access_token = f, fc_receive_id_type = r, fc_verification_token = h, fc_signing_secret = s,
       fc_timeout_ms = t \<rparr> }"

definition claude_code_of_json :: "json \<Rightarrow> claude_code_config option" where
  "claude_code_of_json v = do {
     g \<leftarrow> fields_of [''binary_path'', ''timeout_secs'', ''max_output_bytes'', ''extra_args''] v;
     a \<leftarrow> field json_as_str (Some ''claude'') (g ''binary_path'');
     b \<leftarrow> field json_as_u64 (Some 60) (g ''timeout_secs'');
     c \<leftarrow> field json_as_u64 (Some 16384) (g ''max_output_bytes'');
     d \<leftarrow> field (read_list json_as_str) (Some [''--permission-mode'', ''plan'']) (g ''extra_args'');
     Some \<lparr> cc_binary_path = a, cc_timeout_secs = b, cc_max_output_bytes = c, cc_extra_args = d \<rparr> }"

definition cli_agent_of_json :: "json \<Rightarrow> cli_agent_config option" where
  "cli_agent_of_json v = do {
     g \<leftarrow> fields_of [''binary_path'', ''args'', ''timeout_secs'', ''max_output_bytes'', ''result_json_pointer'',
       ''read_output_file''] v;
     a \<leftarrow> field json_as_str (Some ''echo'') (g ''binary_path'');
     b \<leftarrow> field (read_list json_as_str) (Some []) (g ''args'');
     c \<leftarrow> field json_as_u64 (Some 120) (g ''timeout_secs'');
     d \<leftarrow> field json_as_u64 (Some 16384) (g ''max_output_bytes'');
     e \<leftarrow> field read_opt_str (Some None) (g ''result_json_pointer'');
     f \<leftarrow> field read_bool (Some False) (g ''read_output_file'');
     Some \<lparr> ca_binary_path = a, ca_args = b, ca_timeout_secs = c, ca_max_output_bytes = d,
       ca_result_json_pointer = e, ca_read_output_file = f \<rparr> }"

definition ai_of_json :: "json \<Rightarrow> ai_config option" where
  "ai_of_json v = do {
     g \<leftarrow> fields_of [''backend'', ''claude_code'', ''agents'', ''rate_limit_min_interval_ms''] v;
     a \<leftarrow> field json_as_str (Some ''echo'') (g ''backend'');
     b \<leftarrow> field claude_code_of_json (Some claude_code_default) (g ''claude_code'');
     c \<leftarrow> field (read_map cli_agent_of_json) (Some []) (g ''agents'');
     d \<leftarrow> field json_as_u64 (Some 3000) (g ''rate_limit_min_interval_ms'');
     Some \<lparr> ai_backend = a, ai_claude_code = b, ai_agents = c, ai_rate_limit_min_interval_ms = d \<rparr> }"

definition agent_of_json :: "json \<Rightarrow> agent_config option" where
  "agent_of_json v = do {
     g \<leftarrow> fields_of [''enable_user_preferences'', ''aliases''] v;
     a \<leftarrow> field read_bool (Some True) (g ''enable_user_preferences'');
     b \<leftarrow> field (read_map (read_list json_as_str)) (Some default_agent_aliases) (g ''aliases'');
     Some \<lparr> ag_enable_user_preferences = a, ag_aliases = b \<rparr> }"

definition full_config_of_json :: "json \<Rightarrow> full_config option" where
  "full_config_of_json v = do {
     g \<leftarrow> fields_of [''backpressure'', ''dedup_ttl_secs'', ''dedup_max_capacity'', ''reorder_window_ms'',
       ''idle_timeout_secs'', ''gc_scan_interval_secs'', ''db_path'', ''wechat'', ''feishu'', ''feishu_accounts'', ''ai'',
       ''agent''] v;
     a \<leftarrow> field backpressure_of_json (Some backpressure_default) (g ''backpressure'');
     b \<leftarrow> field json_as_u64 (Some 300) (g ''dedup_ttl_secs'');
     c \<leftarrow> field json_as_u64 (Some 2000000) (g ''dedup_max_capacity'');
     d \<leftarrow> field json_as_u64 (Some 200) (g ''reorder_window_ms'');
     e \<leftarrow> field json_as_u64 (Some 1800) (g ''idle_timeout_secs'');
     f \<leftarrow> field json_as_u64 (Some 60) (g ''gc_scan_interval_secs'');
     h \<leftarrow> field json_as_str (Some ''data/magiclaw.db'') (g ''db_path'');
     i \<leftarrow> field wechat_of_json (Some wechat_config_default) (g ''wechat'');
     j \<leftarrow> field feishu_of_json (Some feishu_config_default) (g ''feishu'');
     k \<leftarrow> field (read_list feishu_of_json) (Some []) (g ''feishu_accounts'');
     l \<leftarrow> field ai_of_json (Some ai_config_default) (g ''ai'');
     m \<leftarrow> field agent_of_json (Some agent_config_default) (g ''agent'');
     Some \<lparr> co_backpressure = a, co_dedup_ttl_secs = b, co_dedup_max_capacity = c, co_reorder_window_ms = d,
       co_idle_timeout_secs = e, co_gc_scan_interval_secs = f, co_db_path = h, co_wechat = i, co_feishu = j,
       co_feishu_accounts = k, co_ai = l, co_agent = m \<rparr> }"

text \<open>\<open>AppConfig::load\<close>; \<open>parse_json\<close> reads JSON text, \<open>de_error\<close> is the text of a type error.\<close>

definition load_config ::
  "(string \<Rightarrow> string + string) \<Rightarrow> (string \<Rightarrow> string + json) \<Rightarrow> (json \<Rightarrow> string) \<Rightarrow> string \<Rightarrow> string + full_config" where
  "load_config read_file parse_json de_error path =
     (case read_file path of
        Err e \<Rightarrow> Err e
      | Ok content \<Rightarrow>
          (case parse_json content of
             Err e \<Rightarrow> Err e
           | Ok v \<Rightarrow> (case full_config_of_json v of Some c \<Rightarrow> Ok c | None \<Rightarrow> Err (de_error v))))"

section \<open>Writing JSON\<close>

fun json_of_opt :: "string option \<Rightarrow> json" where
  "json_of_opt None = JNull"
| "json_of_opt (Some s) = JString s"

definition json_of_nat :: "nat \<Rightarrow> json" where
  "json_of_nat n = JInt (int n)"

definition json_of_strings :: "string list \<Rightarrow> json" where
  "json_of_strings ss = JArray (map JString ss)"

definition backpressure_json :: "backpressure_config \<Rightarrow> json" where
  "backpressure_json c = JObject
     [(''per_route_buffer'', json_of_nat (per_route_buffer c)),
      (''inbound_channel_capacity'', json_of_nat (inbound_channel_capacity c))]"

definition wechat_json :: "wechat_config \<Rightarrow> json" where
  "wechat_json c = JObject
     [(''enabled'', JBool (wc_enabled c)), (''base_url'', JString (wc_base_url c)), (''token'', JString (wc_token c)),
      (''context_token'', JString (wc_context_token c)), (''channel_version'', JString (wc_channel_version c)),
      (''account_id'', JString (wc_account_id c)), (''timeout_ms'', json_of_nat (wc_timeout_ms c)),
      (''keepalive_timeout_ms'', json_of_nat (wc_keepalive_timeout_ms c))]"

definition feishu_json :: "feishu_config \<Rightarrow> json" where
  "feishu_json c = JObject
     [(''enabled'', JBool (fc_enabled c)), (''account_id'', JString (fc_account_id c)), (''base_url'', JString (fc_base_url c)),
      (''app_id'', JString (fc_app_id c)), (''app_secret'', JString (fc_app_secret c)),
      (''tenant_access_token'', JString (fc_tenant_access_token c)), (''receive_id_type'', JString (fc_receive_id_type c)),
      (''verification_token'', JString (fc_verification_token c)), (''signing_secret'', JString (fc_signing_secret c)),
      (''timeout_ms'', json_of_nat (fc_timeout_ms c))]"

definition claude_code_json :: "claude_code_config \<Rightarrow> json" where
  "claude_code_json c = JObject
     [(''binary_path'', JString (cc_binary_path c)), (''timeout_secs'', json_of_nat (cc_timeout_secs c)),
      (''max_output_bytes'', json_of_nat (cc_max_output_bytes c)), (''extra_args'', json_of_strings (cc_extra_args c))]"

definition cli_agent_json :: "cli_agent_config \<Rightarrow> json" where
  "cli_agent_json c = JObject
     [(''binary_path'', JString (ca_binary_path c)), (''args'', json_of_strings (ca_args c)),
      (''timeout_secs'', json_of_nat (ca_timeout_secs c)), (''max_output_bytes'', json_of_nat (ca_max_output_bytes c)),
      (''result_json_pointer'', json_of_opt (ca_result_json_pointer c)), (''read_output_file'', JBool (ca_read_output_file c))]"

definition ai_json :: "ai_config \<Rightarrow> json" where
  "ai_json c = JObject
     [(''backend'', JString (ai_backend c)), (''claude_code'', claude_code_json (ai_claude_code c)),
      (''agents'', JObject (map (\<lambda>(k, a). (k, cli_agent_json a)) (ai_agents c))),
      (''rate_limit_min_interval_ms'', json_of_nat (ai_rate_limit_min_interval_ms c))]"

definition agent_json :: "agent_config \<Rightarrow> json" where
  "agent_json c = JObject
     [(''enable_user_preferences'', JBool (ag_enable_user_preferences c)),
      (''aliases'', JObject (map (\<lambda>(k, ss). (k, json_of_strings ss)) (ag_aliases c)))]"

definition full_config_json :: "full_config \<Rightarrow> json" where
  "full_config_json c = JObject
     [(''backpressure'', backpressure_json (co_backpressure c)), (''dedup_ttl_secs'', json_of_nat (co_dedup_ttl_secs c)),
      (''dedup_max_capacity'', json_of_nat (co_dedup_max_capacity c)),
      (''reorder_window_ms'', json_of_nat (co_reorder_window_ms c)),
      (''idle_timeout_secs'', json_of_nat (co_idle_timeout_secs c)),
      (''gc_scan_interval_secs'', json_of_nat (co_gc_scan_interval_secs c)), (''db_path'', JString (co_db_path c)),
      (''wechat'', wechat_json (co_wechat c)), (''feishu'', feishu_json (co_feishu c)),
      (''feishu_accounts'', JArray (map feishu_json (co_feishu_accounts c))), (''ai'', ai_json (co_ai c)),
      (''agent'', agent_json (co_agent c))]"

section \<open>Lemmas\<close>

text \<open>An object with all its fields, and the empty one.\<close>

lemma fields_of_object:
  assumes "map fst fs = names" and "distinct names"
  shows "fields_of names (JObject fs) = Some (map_of fs)"
proof -
  have "filter (\<lambda>k. k \<in> set names) (map fst fs) = names" using assms(1) by simp
  moreover have "Option.bind (map_of (zip names (map (map_of fs) names)) k) id = map_of fs k" for k
  proof (cases "k \<in> set names")
    case False
    then have "map_of fs k = None" using assms(1) by (simp add: map_of_eq_None_iff flip: set_map)
    with False show ?thesis by (simp add: map_of_zip_map)
  qed (simp add: map_of_zip_map)
  ultimately show ?thesis using assms(2) by (simp add: fields_of_def fun_eq_iff)
qed

lemma fields_of_empty [simp]: "fields_of names (JObject []) = Some (\<lambda>k. None)"
  by (auto simp: fields_of_def map_of_zip_map fun_eq_iff Option.bind_eq_None_conv)

lemma field_simps [simp]: "field rd dflt None = dflt" "field rd dflt (Some j) = rd j"
  by (simp_all add: field_def)

lemma read_json_of_nat [simp]: "n < 2 ^ 64 \<Longrightarrow> json_as_u64 (json_of_nat n) = Some n"
  by (simp add: json_of_nat_def)

lemma read_json_of_opt [simp]: "read_opt_str (json_of_opt s) = Some s"
  by (cases s) simp_all

lemma those_map_Some [simp]: "(\<And>x. x \<in> set xs \<Longrightarrow> f x = Some (g x)) \<Longrightarrow> those (map f xs) = Some (map g xs)"
  by (induction xs) auto

lemma read_json_of_strings [simp]: "read_list json_as_str (json_of_strings ss) = Some ss"
  by (simp add: json_of_strings_def comp_def)

lemma fold_update_fresh:
  "distinct (map fst (m @ es)) \<Longrightarrow> fold (\<lambda>(k, x) m. AList.update k x m) es m = m @ es"
proof (induction es arbitrary: m)
  case (Cons e es)
  obtain k x where e: "e = (k, x)" by force
  have "AList.update k x m = m @ [(k, x)]" using Cons.prems e
    by (induction m) auto
  with Cons e show ?case by (simp add: Cons.IH [of "m @ [(k, x)]"])
qed simp

lemma read_map_written:
  assumes "distinct (map fst es)" and "\<And>k x. (k, x) \<in> set es \<Longrightarrow> rd (wr x) = Some x"
  shows "read_map rd (JObject (map (\<lambda>(k, x). (k, wr x)) es)) = Some es"
proof -
  have "those (map ((\<lambda>(k, v). map_option (Pair k) (rd v)) \<circ> (\<lambda>(k, x). (k, wr x))) es) = Some (map id es)"
    using assms(2) by (intro those_map_Some) auto
  then show ?thesis using assms(1) fold_update_fresh [of "[]" es] by simp
qed

text \<open>Numbers that fit their fields, maps without repeated keys.\<close>

definition fits :: "nat \<Rightarrow> bool" where "fits n \<longleftrightarrow> n < 2 ^ 64"

definition cli_agent_fits :: "cli_agent_config \<Rightarrow> bool" where
  "cli_agent_fits c \<longleftrightarrow> fits (ca_timeout_secs c) \<and> fits (ca_max_output_bytes c)"

definition config_fits :: "full_config \<Rightarrow> bool" where
  "config_fits c \<longleftrightarrow>
     list_all fits [per_route_buffer (co_backpressure c), inbound_channel_capacity (co_backpressure c),
       co_dedup_ttl_secs c, co_dedup_max_capacity c, co_reorder_window_ms c, co_idle_timeout_secs c,
       co_gc_scan_interval_secs c, wc_timeout_ms (co_wechat c), wc_keepalive_timeout_ms (co_wechat c),
       cc_timeout_secs (ai_claude_code (co_ai c)), cc_max_output_bytes (ai_claude_code (co_ai c)),
       ai_rate_limit_min_interval_ms (co_ai c)] \<and>
     list_all (\<lambda>f. fits (fc_timeout_ms f)) (co_feishu c # co_feishu_accounts c) \<and>
     list_all (\<lambda>(k, a). cli_agent_fits a) (ai_agents (co_ai c)) \<and>
     distinct (map fst (ai_agents (co_ai c))) \<and> distinct (map fst (ag_aliases (co_agent c)))"

lemma read_backpressure:
  "fits (per_route_buffer c) \<Longrightarrow> fits (inbound_channel_capacity c) \<Longrightarrow> backpressure_of_json (backpressure_json c) = Some c"
  by (simp add: backpressure_of_json_def backpressure_json_def fields_of_object fits_def)

lemma read_wechat:
  "fits (wc_timeout_ms c) \<Longrightarrow> fits (wc_keepalive_timeout_ms c) \<Longrightarrow> wechat_of_json (wechat_json c) = Some c"
  by (simp add: wechat_of_json_def wechat_json_def fields_of_object fits_def)

lemma read_feishu: "fits (fc_timeout_ms c) \<Longrightarrow> feishu_of_json (feishu_json c) = Some c"
  by (simp add: feishu_of_json_def feishu_json_def fields_of_object fits_def)

lemma read_claude_code:
  "fits (cc_timeout_secs c) \<Longrightarrow> fits (cc_max_output_bytes c) \<Longrightarrow> claude_code_of_json (claude_code_json c) = Some c"
  by (simp add: claude_code_of_json_def claude_code_json_def fields_of_object fits_def)

lemma read_cli_agent: "cli_agent_fits c \<Longrightarrow> cli_agent_of_json (cli_agent_json c) = Some c"
  by (simp add: cli_agent_of_json_def cli_agent_json_def fields_of_object fits_def cli_agent_fits_def)

lemma read_agent: "distinct (map fst (ag_aliases c)) \<Longrightarrow> agent_of_json (agent_json c) = Some c"
  by (simp add: agent_of_json_def agent_json_def fields_of_object read_map_written del: read_map.simps)

lemma read_ai:
  assumes "list_all (\<lambda>(k, a). cli_agent_fits a) (ai_agents c)" and "distinct (map fst (ai_agents c))"
    and "fits (cc_timeout_secs (ai_claude_code c))" and "fits (cc_max_output_bytes (ai_claude_code c))"
    and "fits (ai_rate_limit_min_interval_ms c)"
  shows "ai_of_json (ai_json c) = Some c"
proof -
  have "read_map cli_agent_of_json (JObject (map (\<lambda>(k, a). (k, cli_agent_json a)) (ai_agents c))) = Some (ai_agents c)"
    using assms(1,2) by (intro read_map_written) (auto simp: list_all_iff intro: read_cli_agent)
  with assms show ?thesis
    by (simp add: ai_of_json_def ai_json_def fields_of_object read_claude_code fits_def del: read_map.simps)
qed

section \<open>Properties\<close>

text \<open>
  C22. A configuration written as JSON is read back unchanged, for all field values that fit their
  widths; an object without any field is read as the default configuration.
\<close>

theorem config_roundtrip:
  assumes "config_fits c"
  shows "full_config_of_json (full_config_json c) = Some c \<and> full_config_of_json (JObject []) = Some full_config_default"
proof
  have "read_list feishu_of_json (JArray (map feishu_json (co_feishu_accounts c))) = Some (co_feishu_accounts c)"
    using assms by (simp add: config_fits_def list_all_iff read_feishu comp_def)
  with assms show "full_config_of_json (full_config_json c) = Some c"
    by (simp add: full_config_of_json_def full_config_json_def fields_of_object read_backpressure read_wechat
        read_feishu read_ai read_agent config_fits_def fits_def)
  show "full_config_of_json (JObject []) = Some full_config_default"
    by (simp add: full_config_of_json_def full_config_default_def)
qed

theorem config_roundtrip_witness:
  "full_config_of_json (full_config_json full_config_default) = Some full_config_default"
proof -
  have "config_fits full_config_default"
    by (simp add: config_fits_def fits_def full_config_default_def backpressure_default_def wechat_config_default_def
        feishu_config_default_def ai_config_default_def claude_code_default_def agent_config_default_def
        default_agent_aliases_def)
  then show ?thesis using config_roundtrip by blast
qed

end
