(* ===== verification/Cli_Config.thy ===== *)
theory Cli_Config
  imports Config Http_Api Mcp_Server
begin

text \<open>
  The configuration part of \<open>src/main.rs\<close>: paths, the account file, the check of a Feishu account and
  the configuration the daemon and the MCP server start with.

  Environment, files and the token store come from outside through the record \<open>cli_deps\<close>. A panic
  is an error that carries its text.
\<close>

section \<open>What the commands use\<close>

record wechat_account =
  wa_token :: string
  wa_base_url :: string
  wa_account_id :: string
  wa_user_id :: "string option"
  wa_saved_at :: "string option"

record 'w cli_deps =
  cd_env :: "string \<Rightarrow> string option"
  cd_exists :: "string \<Rightarrow> 'w \<Rightarrow> bool"
  cd_is_dir :: "string \<Rightarrow> 'w \<Rightarrow> bool"
  cd_read_file :: "string \<Rightarrow> 'w \<Rightarrow> (string + string) \<times> 'w"
  cd_account :: "string \<Rightarrow> string + wechat_account"
  cd_open_tokens :: "string \<Rightarrow> 'w \<Rightarrow> (store_error + 'w token_ops) \<times> 'w"
  cd_keys :: "(string \<rightharpoonup> string) \<Rightarrow> string list"
  cd_parse :: "string \<Rightarrow> string + json"

section \<open>Paths\<close>

text \<open>
  \<open>Path::components\<close> and \<open>Path::parent\<close>: empty components and inner dots do not count, the root is
  a component of its own. Paths are equal when their components are.
\<close>

definition path_components :: "string \<Rightarrow> string list" where
  "path_components s =
     (let ps = split_on (CHR ''/'') s; inner = (\<lambda>cs. filter (\<lambda>c. c \<noteq> [] \<and> c \<noteq> ''.'') cs) in
      if starts_with s ''/'' then ''/'' # inner ps
      else if hd ps = ''.'' then ''.'' # inner (tl ps)
      else inner ps)"

definition path_parent :: "string \<Rightarrow> string option" where
  "path_parent s =
     (let cs = path_components s in
      if cs = [] \<or> cs = [''/''] then None else Some (foldl path_join [] (butlast cs)))"

definition resolve_db_path :: "'w cli_deps \<Rightarrow> string" where
  "resolve_db_path dp = or_else ''data/magiclaw.db'' (nonblank (cd_env dp ''MAGICLAW_DB_PATH''))"

definition default_wechat_data_dir :: "'w cli_deps \<Rightarrow> 'w \<Rightarrow> string" where
  "default_wechat_data_dir dp w =
     (case cd_env dp ''WECHAT_CHANNEL_DIR'' of
        Some dir \<Rightarrow> dir
      | None \<Rightarrow>
          (let legacy = map_option (\<lambda>home. path_join (path_join (path_join home ''.claude'') ''channels'') ''wechat'')
                          (cd_env dp ''HOME'');
               beside = (case path_parent (resolve_db_path dp) of
                  Some parent \<Rightarrow> path_join parent ''wechat'' | None \<Rightarrow> ''.claude/channels/wechat'')
           in case legacy of
                Some dir \<Rightarrow> if cd_exists dp dir w then dir else beside
              | None \<Rightarrow> beside))"

definition data_dir_of :: "'w cli_deps \<Rightarrow> string option \<Rightarrow> 'w \<Rightarrow> string" where
  "data_dir_of dp path w =
     (case path of
        Some v \<Rightarrow>
          if trim v = [] then default_wechat_data_dir dp w
          else if cd_is_dir dp v w then v
          else or_else v (path_parent v)
      | None \<Rightarrow> default_wechat_data_dir dp w)"

definition load_account :: "'w cli_deps \<Rightarrow> string \<Rightarrow> 'w \<Rightarrow> (string + wechat_account) \<times> 'w" where
  "load_account dp data_dir w =
     (case cd_read_file dp (path_join data_dir ''account.json'') w of
        (Err e, w1) \<Rightarrow> (Err e, w1)
      | (Ok content, w1) \<Rightarrow> (cd_account dp content, w1))"

definition open_tokens :: "'w cli_deps \<Rightarrow> 'w \<Rightarrow> (string + 'w token_ops) \<times> 'w" where
  "open_tokens dp w = (let (r, w1) = cd_open_tokens dp (resolve_db_path dp) w in (map_err store_error_display r, w1))"

text \<open>The first value a hash map lists.\<close>

definition first_value :: "'w cli_deps \<Rightarrow> (string \<rightharpoonup> string) \<Rightarrow> string option" where
  "first_value dp tokens = (case cd_keys dp tokens of [] \<Rightarrow> None | k # _ \<Rightarrow> tokens k)"

section \<open>The check of a Feishu account\<close>

definition receive_id_types :: "string list" where
  "receive_id_types = [''open_id'', ''user_id'', ''chat_id'', ''union_id'', ''email'']"

definition validate_feishu_config :: "feishu_config \<Rightarrow> string + unit" where
  "validate_feishu_config cfg =
     (if \<not> fc_enabled cfg then Ok ()
      else if fc_receive_id_type cfg \<notin> set receive_id_types
      then Err (''invalid feishu receive_id_type: '' @ quoted (fc_receive_id_type cfg) @
             '' (must be one of: open_id, user_id, chat_id, union_id, email)'')
      else (let preissued = trim (fc_tenant_access_token cfg) \<noteq> [];
                credentials = trim (fc_app_id cfg) \<noteq> [] \<or> trim (fc_app_secret cfg) \<noteq> [] in
            if \<not> preissued \<and> \<not> credentials
            then Err ''feishu enabled but no authentication: set either FEISHU_TENANT_ACCESS_TOKEN or both APP_ID + APP_SECRET''
            else if credentials \<and> (trim (fc_app_id cfg) = [] \<or> trim (fc_app_secret cfg) = [])
            then Err ''feishu: if using app-based token exchange, both FEISHU_APP_ID and FEISHU_APP_SECRET must be set''
            else Ok ()))"

section \<open>The configuration of the runtime\<close>

definition wechat_runtime ::
  "'w cli_deps \<Rightarrow> 'w token_ops option \<Rightarrow> wechat_account \<Rightarrow> wechat_config \<Rightarrow> 'w \<Rightarrow> wechat_config \<times> 'w" where
  "wechat_runtime dp ts account c w =
     (let (tokens, w1) = (case ts of
             None \<Rightarrow> (Map.empty, w)
           | Some ops \<Rightarrow>
               (let (r, w1) = tk_get_all ops (wa_account_id account) w
                in ((case r of Ok m \<Rightarrow> m | Err _ \<Rightarrow> Map.empty), w1)));
          own = Option.bind (wa_user_id account) tokens;
          token = (case own of Some t \<Rightarrow> t | None \<Rightarrow> or_else [] (first_value dp tokens))
      in (c\<lparr>wc_enabled := True, wc_base_url := wa_base_url account, wc_token := wa_token account,
            wc_account_id := wa_account_id account, wc_context_token := token\<rparr>, w1))"

text \<open>A variable of the environment that is not blank replaces a setting.\<close>

definition override :: "string option \<Rightarrow> (string \<Rightarrow> 'c \<Rightarrow> 'c) \<Rightarrow> 'c \<Rightarrow> 'c" where
  "override v set_it c = (case nonblank v of Some s \<Rightarrow> set_it s c | None \<Rightarrow> c)"

definition feishu_from_env :: "(string \<Rightarrow> string option) \<Rightarrow> feishu_config \<Rightarrow> feishu_config" where
  "feishu_from_env env c0 =
     (let c1 = (if env ''FEISHU_ENABLED'' = None then c0
                else c0\<lparr>fc_enabled := env_flag_enabled (env ''FEISHU_ENABLED'')\<rparr>);
          c2 = override (env ''FEISHU_ACCOUNT_ID'') (\<lambda>s c. c\<lparr>fc_account_id := s\<rparr>) c1;
          c3 = override (env ''FEISHU_BASE_URL'') (\<lambda>s c. c\<lparr>fc_base_url := s\<rparr>) c2;
          c4 = override (env ''FEISHU_APP_ID'') (\<lambda>s c. c\<lparr>fc_app_id := s\<rparr>) c3;
          c5 = override (env ''FEISHU_APP_SECRET'') (\<lambda>s c. c\<lparr>fc_app_secret := s\<rparr>) c4;
          c6 = override (env ''FEISHU_TENANT_ACCESS_TOKEN'') (\<lambda>s c. c\<lparr>fc_tenant_access_token := s\<rparr>) c5;
          c7 = override (env ''FEISHU_RECEIVE_ID_TYPE'') (\<lambda>s c. c\<lparr>fc_receive_id_type := s\<rparr>) c6;
          c8 = override (env ''FEISHU_VERIFICATION_TOKEN'') (\<lambda>s c. c\<lparr>fc_verification_token := s\<rparr>) c7
      in override (env ''FEISHU_SIGNING_SECRET'') (\<lambda>s c. c\<lparr>fc_signing_secret := s\<rparr>) c8)"

definition accounts_from_env :: "'w cli_deps \<Rightarrow> feishu_config list" where
  "accounts_from_env dp =
     (case nonblank (cd_env dp ''FEISHU_ACCOUNTS_JSON'') of
        None \<Rightarrow> []
      | Some s \<Rightarrow>
          (case cd_parse dp s of
             Err _ \<Rightarrow> []
           | Ok v \<Rightarrow> or_else [] (read_list feishu_of_json v)))"

text \<open>The first account that is not valid, with its index.\<close>

fun first_invalid :: "nat \<Rightarrow> feishu_config list \<Rightarrow> (nat \<times> string) option" where
  "first_invalid i [] = None"
| "first_invalid i (c # cs) =
     (case validate_feishu_config c of Err e \<Rightarrow> Some (i, e) | Ok _ \<Rightarrow> first_invalid (Suc i) cs)"

definition load_runtime_config :: "'w cli_deps \<Rightarrow> 'w \<Rightarrow> (string + full_config) \<times> 'w" where
  "load_runtime_config dp w =
     (let data_dir = data_dir_of dp None w;
          (ts, w1) = open_tokens dp w;
          (account, w2) = load_account dp data_dir w1;
          (wechat, w3) = (case account of
             Ok a \<Rightarrow> wechat_runtime dp (case ts of Ok ops \<Rightarrow> Some ops | Err _ \<Rightarrow> None) a wechat_config_default w2
           | Err _ \<Rightarrow> (wechat_config_default, w2));
          feishu = feishu_from_env (cd_env dp) feishu_config_default;
          accounts = accounts_from_env dp;
          backend = or_else ''echo'' (nonblank (cd_env dp ''MAGICLAW_AI_BACKEND'')) in
      case validate_feishu_config feishu of
        Err e \<Rightarrow> (Err (''feishu config validation failed: '' @ e), w3)
      | Ok _ \<Rightarrow>
          (case first_invalid 0 accounts of
             Some (i, e) \<Rightarrow> (Err (''feishu multi-account['' @ show_nat i @ ''] config validation failed: '' @ e), w3)
           | None \<Rightarrow>
               (Ok (full_config_default\<lparr>co_db_path := resolve_db_path dp, co_wechat := wechat, co_feishu := feishu,
                      co_feishu_accounts := accounts, co_ai := ai_config_default\<lparr>ai_backend := backend\<rparr>\<rparr>), w3)))"

section \<open>Lemmas\<close>

text \<open>What an enabled account has once it passed the check.\<close>

definition usable_account :: "feishu_config \<Rightarrow> bool" where
  "usable_account c \<longleftrightarrow> fc_receive_id_type c \<in> {''open_id'', ''user_id'', ''chat_id'', ''union_id'', ''email''} \<and>
     (trim (fc_tenant_access_token c) \<noteq> [] \<or> trim (fc_app_id c) \<noteq> [] \<and> trim (fc_app_secret c) \<noteq> []) \<and>
     (trim (fc_app_id c) = [] \<longleftrightarrow> trim (fc_app_secret c) = [])"

lemma validate_ok: "validate_feishu_config c = Ok () \<longleftrightarrow> \<not> fc_enabled c \<or> usable_account c"
  by (auto simp: validate_feishu_config_def usable_account_def receive_id_types_def Let_def)

lemma first_invalid_None: "first_invalid i cs = None \<longleftrightarrow> list_all (\<lambda>c. \<not> fc_enabled c \<or> usable_account c) cs"
proof (induction cs arbitrary: i)
  case (Cons c cs)
  then show ?case using validate_ok [of c] by (cases "validate_feishu_config c") auto
qed simp

lemma wechat_runtime_fields:
  "wechat_runtime dp ts account c w = (c', w') \<Longrightarrow>
   wc_enabled c' \<and> wc_base_url c' = wa_base_url account \<and> wc_token c' = wa_token account \<and> wc_account_id c' = wa_account_id account"
  by (auto simp: wechat_runtime_def Let_def split: prod.splits)

text \<open>What the environment says of the main account: a variable that is not blank, trimmed, or the default.\<close>

definition feishu_settings :: "(string \<Rightarrow> string option) \<Rightarrow> feishu_config \<Rightarrow> feishu_config \<Rightarrow> bool" where
  "feishu_settings env c0 c \<longleftrightarrow>
     fc_enabled c = (case env ''FEISHU_ENABLED'' of None \<Rightarrow> fc_enabled c0 | Some v \<Rightarrow> env_flag_enabled (Some v)) \<and>
     fc_account_id c = or_else (fc_account_id c0) (nonblank (env ''FEISHU_ACCOUNT_ID'')) \<and>
     fc_base_url c = or_else (fc_base_url c0) (nonblank (env ''FEISHU_BASE_URL'')) \<and>
     fc_app_id c = or_else (fc_app_id c0) (nonblank (env ''FEISHU_APP_ID'')) \<and>
     fc_app_secret c = or_else (fc_app_secret c0) (nonblank (env ''FEISHU_APP_SECRET'')) \<and>
     fc_tenant_access_token c = or_else (fc_tenant_access_token c0) (nonblank (env ''FEISHU_TENANT_ACCESS_TOKEN'')) \<and>
     fc_receive_id_type c = or_else (fc_receive_id_type c0) (nonblank (env ''FEISHU_RECEIVE_ID_TYPE'')) \<and>
     fc_verification_token c = or_else (fc_verification_token c0) (nonblank (env ''FEISHU_VERIFICATION_TOKEN'')) \<and>
     fc_signing_secret c = or_else (fc_signing_secret c0) (nonblank (env ''FEISHU_SIGNING_SECRET'')) \<and>
     fc_timeout_ms c = fc_timeout_ms c0"

lemma override_other: "(\<And>s x. fld (f s x) = fld x) \<Longrightarrow> fld (override v f c) = fld c"
  by (simp add: override_def split: option.split)

lemma override_this: "(\<And>s x. fld (f s x) = s) \<Longrightarrow> fld (override v f c) = or_else (fld c) (nonblank v)"
  by (simp add: override_def or_else_def split: option.split)

lemmas override_fields = override_other [of fc_enabled] override_other [of fc_account_id]
  override_other [of fc_base_url] override_other [of fc_app_id] override_other [of fc_app_secret]
  override_other [of fc_tenant_access_token] override_other [of fc_receive_id_type]
  override_other [of fc_verification_token] override_other [of fc_signing_secret] override_other [of fc_timeout_ms]
  override_this [of fc_account_id] override_this [of fc_base_url] override_this [of fc_app_id]
  override_this [of fc_app_secret] override_this [of fc_tenant_access_token] override_this [of fc_receive_id_type]
  override_this [of fc_verification_token] override_this [of fc_signing_secret]

lemma feishu_from_env_settings: "feishu_settings env c (feishu_from_env env c)"
  by (cases "env ''FEISHU_ENABLED''") (simp_all add: feishu_settings_def feishu_from_env_def Let_def override_fields)

lemma sample_paths:
  "path_parent ''data/magiclaw.db'' = Some ''data''" "path_parent ''magiclaw.db'' = Some []"
  "path_parent ''/'' = None" "path_parent ''/a//b/./c/'' = Some ''/a/b''"
  by code_simp+

section \<open>Properties\<close>

text \<open>
  C18. The daemon and the MCP server only start with a usable configuration. If they start, the main Feishu
  account has the settings of the environment (each variable that is not blank, or the default), the additional accounts
  are all those of the environment's list, and every enabled account has a known kind of receiver and a way to
  authenticate (a token, or an app id with its secret, never one without the other); WeChat is
  enabled exactly when the account file could be read, with the data of that file; the database path
  and the backend are those of the environment; everything else is the default. If one of the accounts of the environment
  is enabled and not usable the start is stopped with an error, and only then.
\<close>

theorem startup_config_usable:
  assumes "load_runtime_config dp w = (r, w')"
    and "load_account dp (data_dir_of dp None w) (snd (open_tokens dp w)) = (account, w2)"
  shows "case r of
      Ok c \<Rightarrow> list_all (\<lambda>f. \<not> fc_enabled f \<or> usable_account f) (co_feishu c # co_feishu_accounts c) \<and>
        feishu_settings (cd_env dp) feishu_config_default (co_feishu c) \<and>
        co_feishu_accounts c = (case nonblank (cd_env dp ''FEISHU_ACCOUNTS_JSON'') of
            None \<Rightarrow> []
          | Some s \<Rightarrow> (case cd_parse dp s of Err _ \<Rightarrow> [] | Ok v \<Rightarrow> or_else [] (read_list feishu_of_json v))) \<and>
        co_db_path c = resolve_db_path dp \<and>
        ai_backend (co_ai c) = or_else ''echo'' (nonblank (cd_env dp ''MAGICLAW_AI_BACKEND'')) \<and>
        (case account of
           Ok a \<Rightarrow> wc_enabled (co_wechat c) \<and> wc_base_url (co_wechat c) = wa_base_url a \<and>
             wc_token (co_wechat c) = wa_token a \<and> wc_account_id (co_wechat c) = wa_account_id a
         | Err _ \<Rightarrow> co_wechat c = wechat_config_default) \<and>
        c = full_config_default\<lparr>co_db_path := co_db_path c, co_wechat := co_wechat c, co_feishu := co_feishu c,
              co_feishu_accounts := co_feishu_accounts c, co_ai := ai_config_default\<lparr>ai_backend := ai_backend (co_ai c)\<rparr>\<rparr>
    | Err _ \<Rightarrow> \<not> list_all (\<lambda>f. \<not> fc_enabled f \<or> usable_account f)
        (feishu_from_env (cd_env dp) feishu_config_default # accounts_from_env dp)"
proof -
  let ?f = "feishu_from_env (cd_env dp) feishu_config_default" and ?as = "accounts_from_env dp"
  obtain ts w1 where t: "open_tokens dp w = (ts, w1)" by force
  obtain wc w3 where wc: "(case account of
      Ok a \<Rightarrow> wechat_runtime dp (case ts of Ok ops \<Rightarrow> Some ops | Err _ \<Rightarrow> None) a wechat_config_default w2
    | Err _ \<Rightarrow> (wechat_config_default, w2)) = (wc, w3)" by force
  note load = assms(1) [unfolded load_runtime_config_def Let_def t prod.case] assms(2) [unfolded t snd_conv]
  show ?thesis
  proof (cases "list_all (\<lambda>f. \<not> fc_enabled f \<or> usable_account f) (?f # ?as)")
    case True
    then have "validate_feishu_config ?f = Ok ()" and "first_invalid 0 ?as = None"
      by (simp_all add: validate_ok first_invalid_None)
    with load wc have "r = Ok (full_config_default\<lparr>co_db_path := resolve_db_path dp, co_wechat := wc, co_feishu := ?f,
        co_feishu_accounts := ?as, co_ai := ai_config_default\<lparr>ai_backend := or_else ''echo'' (nonblank (cd_env dp ''MAGICLAW_AI_BACKEND''))\<rparr>\<rparr>)"
      by simp
    with True wc show ?thesis
      by (auto simp: feishu_from_env_settings accounts_from_env_def dest: wechat_runtime_fields split: sum.splits)
  next
    case False
    then have "validate_feishu_config ?f \<noteq> Ok () \<or> first_invalid 0 ?as \<noteq> None"
      by (simp add: validate_ok first_invalid_None)
    with load wc have "\<not> is_Ok r" by (auto simp: is_Ok_def split: sum.splits option.splits)
    with False show ?thesis by (cases r) (simp_all add: is_Ok_def)
  qed
qed


definition sample_cli :: "unit cli_deps" where
  "sample_cli = \<lparr> cd_env = (\<lambda>v. if v = ''FEISHU_ENABLED'' then Some ''on''
       else if v = ''FEISHU_TENANT_ACCESS_TOKEN'' then Some ''t'' else None),
     cd_exists = (\<lambda>p w. False), cd_is_dir = (\<lambda>p w. False), cd_read_file = (\<lambda>p w. (Err ''no file'', w)),
     cd_account = (\<lambda>s. Err ''no account''), cd_open_tokens = (\<lambda>p w. (Err (StoreDb ''locked''), w)), cd_keys = (\<lambda>m. []),
     cd_parse = (\<lambda>s. Err ''no json'') \<rparr>"

lemma sample_feishu:
  "feishu_from_env (cd_env sample_cli) feishu_config_default =
   feishu_config_default\<lparr>fc_enabled := True, fc_tenant_access_token := ''t''\<rparr>"
proof -
  have "env_flag_enabled (Some ''on'')" and "nonblank (Some ''t'') = Some ''t''" by code_simp+
  moreover have "nonblank None = None" by (simp add: nonblank_def)
  ultimately show ?thesis by (simp add: feishu_from_env_def sample_cli_def override_def Let_def)
qed

theorem startup_config_usable_witness:
  "\<exists>c. fst (load_runtime_config sample_cli ()) = Ok c \<and> usable_account (co_feishu c) \<and>
     co_wechat c = wechat_config_default \<and> co_db_path c = ''data/magiclaw.db''"
proof -
  obtain r where run: "load_runtime_config sample_cli () = (r, ())"
    by (cases "load_runtime_config sample_cli ()") simp
  have l: "load_account sample_cli (data_dir_of sample_cli None ()) (snd (open_tokens sample_cli ())) = (Err ''no file'', ())"
    by (simp add: load_account_def sample_cli_def)
  have "trim ''t'' = ''t''" by code_simp
  then have u: "usable_account (feishu_config_default\<lparr>fc_enabled := True, fc_tenant_access_token := ''t''\<rparr>)"
    by (simp add: usable_account_def feishu_config_default_def)
  have a: "accounts_from_env sample_cli = []" and d: "resolve_db_path sample_cli = ''data/magiclaw.db''"
    by (simp_all add: accounts_from_env_def resolve_db_path_def sample_cli_def nonblank_def or_else_def)
  have "co_feishu c = feishu_config_default\<lparr>fc_enabled := True, fc_tenant_access_token := ''t''\<rparr>" if "r = Ok c" for c
    using run that by (auto simp: load_runtime_config_def sample_feishu Let_def split: prod.splits sum.splits option.splits)
  with u show ?thesis using startup_config_usable [OF run l] run a d
    by (cases r) (simp_all add: sample_feishu)
qed

end
