(* ===== verification/Cli_Send.thy ===== *)
theory Cli_Send
  imports Cli_Config Cli_Parser Feishu_Channel
begin

text \<open>
  The command \<open>send\<close> of \<open>src/main.rs\<close>: a WeChat text goes to the daemon on this machine first and
  directly to the platform when there is no daemon that takes it; a Feishu text goes to the platform.

  Requests to the daemon are answered by the field \<open>dh_post\<close>, which gets the URL, the body and the
  bearer token. Progress on the log is not modelled, the lines on standard output are.
\<close>

section \<open>Texts\<close>

text \<open>The Chinese texts, in UTF-8.\<close>

definition to_empty_text :: string where
  "to_empty_text =
    ''--to ''  @ [CHR 0xE4, CHR 0xB8, CHR 0x8D, CHR 0xE8, CHR 0x83, CHR 0xBD, CHR 0xE4, CHR 0xB8, CHR 0xBA, CHR 0xE7,
     CHR 0xA9, CHR 0xBA]"

definition no_recipient_text :: string where
  "no_recipient_text =
    [CHR 0xE6, CHR 0x97, CHR 0xA0, CHR 0xE6, CHR 0xB3, CHR 0x95, CHR 0xE4, CHR 0xBB, CHR 0x8E]  @
     '' context token store ''  @ [CHR 0xE6, CHR 0x88, CHR 0x96]  @ '' account.json ''  @ [CHR 0xE6, CHR 0x8E, CHR 0xA8, CHR 0xE6, CHR
     0x96, CHR 0xAD, CHR 0xE6, CHR 0x94, CHR 0xB6, CHR 0xE4, CHR 0xBB, CHR 0xB6, CHR 0xE4, CHR 0xBA, CHR 0xBA, CHR
     0xEF, CHR 0xBC, CHR 0x8C, CHR 0xE8, CHR 0xAF, CHR 0xB7, CHR 0xE5, CHR 0x85, CHR 0x88, CHR 0xE5, CHR 0x9C, CHR
     0xA8, CHR 0xE5, CHR 0xBE, CHR 0xAE, CHR 0xE4, CHR 0xBF, CHR 0xA1, CHR 0xE9, CHR 0x87, CHR 0x8C, CHR 0xE7, CHR
     0xBB, CHR 0x99]  @ '' ClawBot ''  @ [CHR 0xE5, CHR 0x8F, CHR 0x91, CHR 0xE4, CHR 0xB8, CHR 0x80, CHR 0xE6, CHR
     0x9D, CHR 0xA1, CHR 0xE6, CHR 0xB6, CHR 0x88, CHR 0xE6, CHR 0x81, CHR 0xAF, CHR 0xE5, CHR 0x90, CHR 0x8E, CHR
     0xE9, CHR 0x87, CHR 0x8D, CHR 0xE8, CHR 0xAF, CHR 0x95]"

definition feishu_needs_to_text :: string where
  "feishu_needs_to_text =
    [CHR 0xE9, CHR 0xA3, CHR 0x9E, CHR 0xE4, CHR 0xB9, CHR 0xA6, CHR 0xE5, CHR 0x8F, CHR 0x91, CHR 0xE9, CHR 0x80,
     CHR 0x81, CHR 0xE5, CHR 0xBF, CHR 0x85, CHR 0xE9, CHR 0xA1, CHR 0xBB, CHR 0xE6, CHR 0x8C, CHR 0x87, CHR 0xE5,
     CHR 0xAE, CHR 0x9A]  @ '' --to''  @ [CHR 0xEF, CHR 0xBC, CHR 0x88]  @ 
     ''open_id / chat_id / user_id / union_id / email''  @ [CHR 0xEF, CHR 0xBC, CHR 0x89]"

definition feishu_invalid_text :: string where
  "feishu_invalid_text =
    [CHR 0xE9, CHR 0xA3, CHR 0x9E, CHR 0xE4, CHR 0xB9, CHR 0xA6, CHR 0xE9, CHR 0x85, CHR 0x8D, CHR 0xE7, CHR 0xBD,
     CHR 0xAE, CHR 0xE6, CHR 0x97, CHR 0xA0, CHR 0xE6, CHR 0x95, CHR 0x88]  @ '': ''"

section \<open>The daemon\<close>

record 'w daemon_http =
  dh_client :: "string + unit"
  dh_post :: "string \<Rightarrow> json \<Rightarrow> string option \<Rightarrow> 'w \<Rightarrow> (http_failure + response) \<times> 'w"
  dh_status_text :: "nat \<Rightarrow> string"
  dh_sleep :: "nat \<Rightarrow> 'w \<Rightarrow> 'w"
  dh_print :: "string \<Rightarrow> 'w \<Rightarrow> 'w"

datatype daemon_send_error = Unreachable string | Rejected string

record api_reply =
  ar_ok :: bool
  ar_context_token :: "string option"
  ar_error :: "string option"

definition api_reply_of_json :: "json \<Rightarrow> api_reply option" where
  "api_reply_of_json v = do {
     g \<leftarrow> fields_of [''ok'', ''context_token'', ''error''] v;
     a \<leftarrow> field read_bool None (g ''ok'');
     b \<leftarrow> field read_opt_str (Some None) (g ''context_token'');
     c \<leftarrow> field read_opt_str (Some None) (g ''error'');
     Some \<lparr> ar_ok = a, ar_context_token = b, ar_error = c \<rparr> }"

definition api_reply_of_text :: "'w cli_deps \<Rightarrow> string \<Rightarrow> api_reply option" where
  "api_reply_of_text dp s = (case cd_parse dp s of Ok v \<Rightarrow> api_reply_of_json v | Err _ \<Rightarrow> None)"

definition api_send_body :: "string \<Rightarrow> string \<Rightarrow> string option \<Rightarrow> json" where
  "api_send_body dest msg token =
     JObject ([(''to'', JString dest), (''text'', JString msg)]
       @ (case token of Some t \<Rightarrow> [(''context_token'', JString t)] | None \<Rightarrow> []))"

text \<open>At most \<open>n\<close> attempts; a timeout ends them, any other failure is followed by a pause.\<close>

fun daemon_attempts ::
  "'w daemon_http \<Rightarrow> string \<Rightarrow> json \<Rightarrow> string option \<Rightarrow> nat \<Rightarrow> string \<Rightarrow> 'w \<Rightarrow> (daemon_send_error + response) \<times> 'w" where
  "daemon_attempts dh url body bearer 0 last_err w = (Err (Unreachable (''daemon unreachable: '' @ last_err)), w)"
| "daemon_attempts dh url body bearer (Suc n) last_err w =
     (case dh_post dh url body bearer w of
        (Ok resp, w1) \<Rightarrow> (Ok resp, w1)
      | (Err (http_failure.TimedOut e), w1) \<Rightarrow> (Err (Rejected ''daemon send timed out while waiting for inbound token''), w1)
      | (Err (ConnectFailed e), w1) \<Rightarrow> daemon_attempts dh url body bearer n e (dh_sleep dh 150 w1)
      | (Err (OtherFailure e), w1) \<Rightarrow> daemon_attempts dh url body bearer n e (dh_sleep dh 150 w1))"

definition judge_daemon_response ::
  "'w cli_deps \<Rightarrow> 'w daemon_http \<Rightarrow> string \<Rightarrow> response \<Rightarrow> daemon_send_error + string \<times> string option" where
  "judge_daemon_response dp dh dest resp =
     (case resp of
        (status, Err e) \<Rightarrow> Err (Rejected (''daemon bad response: '' @ e))
      | (status, Ok text) \<Rightarrow>
          (case api_reply_of_text dp text of
             None \<Rightarrow> Err (Rejected (if trim text = []
                 then ''daemon returned status '' @ dh_status_text dh status @ '' with empty body''
                 else ''daemon returned status '' @ dh_status_text dh status @ '': '' @ trim text))
           | Some reply \<Rightarrow>
               if is_success status \<and> ar_ok reply then Ok (''message_id=<daemon>, to='' @ dest, ar_context_token reply)
               else Err (Rejected (or_else (''daemon returned status '' @ dh_status_text dh status) (ar_error reply)))))"

definition try_daemon_api_send ::
  "'w cli_deps \<Rightarrow> 'w daemon_http \<Rightarrow> string \<Rightarrow> string \<Rightarrow> string \<Rightarrow> string option \<Rightarrow> string option \<Rightarrow> 'w \<Rightarrow>
   (daemon_send_error + string \<times> string option) \<times> 'w" where
  "try_daemon_api_send dp dh api_addr dest msg token api_token w =
     (case dh_client dh of
        Err e \<Rightarrow> (Err (Unreachable e), w)
      | Ok _ \<Rightarrow>
          (case daemon_attempts dh (''http://'' @ api_addr @ ''/api/send'') (api_send_body dest msg token)
                  (nonblank api_token) 3 [] w of
             (Err e, w1) \<Rightarrow> (Err e, w1)
           | (Ok resp, w1) \<Rightarrow> (judge_daemon_response dp dh dest resp, w1)))"

section \<open>WeChat\<close>

text \<open>The receiver: the flag, else the first peer with a token, else the owner of the account.\<close>

definition recipient_of ::
  "'w cli_deps \<Rightarrow> send_command \<Rightarrow> wechat_account \<Rightarrow> (string \<rightharpoonup> string) \<Rightarrow> string + string" where
  "recipient_of dp cmd account tokens =
     (case sc_to cmd of
        Some dest \<Rightarrow> if trim dest = [] then Err to_empty_text else Ok dest
      | None \<Rightarrow>
          (case cd_keys dp tokens of
             k # _ \<Rightarrow> Ok k
           | [] \<Rightarrow>
               (case wa_user_id account of
                  Some u \<Rightarrow> Ok u
                | None \<Rightarrow> Err no_recipient_text)))"

definition context_token_for :: "'w cli_deps \<Rightarrow> send_command \<Rightarrow> (string \<rightharpoonup> string) \<Rightarrow> string \<Rightarrow> string" where
  "context_token_for dp cmd tokens recipient =
     (case nonblank (sc_context_token cmd) of
        Some t \<Rightarrow> t
      | None \<Rightarrow> (case tokens recipient of Some t \<Rightarrow> t | None \<Rightarrow> or_else [] (first_value dp tokens)))"

definition keep_token :: "'w token_ops \<Rightarrow> string \<Rightarrow> string \<Rightarrow> string option \<Rightarrow> 'w \<Rightarrow> 'w" where
  "keep_token ops account peer token w = (case token of Some t \<Rightarrow> snd (tk_set ops account peer t w) | None \<Rightarrow> w)"

definition direct_config :: "wechat_account \<Rightarrow> string \<Rightarrow> ilink_send_config" where
  "direct_config account token =
     \<lparr> ic_base_url = wa_base_url account, ic_token = wa_token account, ic_from_user_id = wa_account_id account,
       ic_context_token = token, ic_channel_version = ''0.1.0'', ic_timeout_ms = 15000, ic_keepalive_timeout_ms = 4000 \<rparr>"

definition returned_token :: "json \<Rightarrow> string option" where
  "returned_token v =
     nonblank (case Option.bind (json_get v ''msg'') (\<lambda>m. str_field m ''context_token'') of
        Some s \<Rightarrow> Some s | None \<Rightarrow> str_field v ''context_token'')"

definition direct_send ::
  "'w daemon_http \<Rightarrow> 'w ilink_http \<Rightarrow> wechat_account \<Rightarrow> 'w token_ops \<Rightarrow> string \<Rightarrow> string \<Rightarrow> string \<Rightarrow> 'w \<Rightarrow>
   (string + unit) \<times> 'w" where
  "direct_send dh hp account ops recipient msg token w =
     (case send_text_via_ilink hp (direct_config account token) recipient msg w of
        (Err e, w1) \<Rightarrow> (Err (''wechat send failed: '' @ e), w1)
      | (Ok v, w1) \<Rightarrow>
          (let w2 = keep_token ops (wa_account_id account) recipient (returned_token v) w1;
               (i, w3) = ih_uuid hp w2; (now, w4) = ih_now_ms hp w3
           in (Ok (), dh_print dh (''send ok: message_id='' @ i @ '', platform_msg_id='' @ or_else ''<none>'' (server_id v)) w4)))"

definition deliver_wechat ::
  "'w cli_deps \<Rightarrow> 'w daemon_http \<Rightarrow> 'w ilink_http \<Rightarrow> send_command \<Rightarrow> wechat_account \<Rightarrow> 'w token_ops \<Rightarrow> string \<Rightarrow> string \<Rightarrow>
   'w \<Rightarrow> (string + unit) \<times> 'w" where
  "deliver_wechat dp dh hp cmd account ops recipient token w =
     (let api_addr = or_else ''127.0.0.1:18011'' (cd_env dp ''MAGICLAW_API_ADDR'');
          api_token = nonblank (cd_env dp ''MAGICLAW_API_TOKEN'');
          keep = keep_token ops (wa_account_id account) recipient;
          direct = direct_send dh hp account ops recipient (sc_message cmd) token in
      case try_daemon_api_send dp dh api_addr recipient (sc_message cmd) (if token = [] then None else Some token) api_token w of
        (Ok (result, ctx), w1) \<Rightarrow>
          (let w2 = (case nonblank ctx of Some t \<Rightarrow> keep (Some t) w1 | None \<Rightarrow> keep (nonblank (sc_context_token cmd)) w1)
           in (Ok (), dh_print dh (''send ok (via daemon): '' @ result) w2))
      | (Err (Rejected e), w1) \<Rightarrow>
          (let lower = map ascii_lower e in
           if contains lower ''unauthorized'' \<or> contains lower ''401'' then direct w1
           else (Err (''daemon send failed: '' @ e), w1))
      | (Err (Unreachable e), w1) \<Rightarrow> direct w1)"

definition run_send_wechat ::
  "'w cli_deps \<Rightarrow> 'w daemon_http \<Rightarrow> 'w ilink_http \<Rightarrow> send_command \<Rightarrow> 'w \<Rightarrow> (string + unit) \<times> 'w" where
  "run_send_wechat dp dh hp cmd w =
     (let data_dir = data_dir_of dp (if sc_data_dir cmd = [] then None else Some (sc_data_dir cmd)) w in
      case load_account dp data_dir w of
        (Err e, w1) \<Rightarrow> (Err e, w1)
      | (Ok account, w1) \<Rightarrow>
          (case open_tokens dp w1 of
             (Err e, w2) \<Rightarrow> (Err e, w2)
           | (Ok ops, w2) \<Rightarrow>
               (case tk_get_all ops (wa_account_id account) w2 of
                  (Err er, w3) \<Rightarrow> (Err (store_error_display er), w3)
                | (Ok tokens, w3) \<Rightarrow>
                    (case recipient_of dp cmd account tokens of
                       Err e \<Rightarrow> (Err e, w3)
                     | Ok recipient \<Rightarrow>
                         deliver_wechat dp dh hp cmd account ops recipient (context_token_for dp cmd tokens recipient) w3))))"

section \<open>Feishu\<close>

definition load_feishu_config_from_env :: "(string \<Rightarrow> string option) \<Rightarrow> feishu_config" where
  "load_feishu_config_from_env env =
     (let set_it = (\<lambda>v f c. case v of Some s \<Rightarrow> f (trim s) c | None \<Rightarrow> c);
          c0 = feishu_config_default\<lparr>fc_enabled := True\<rparr>;
          c1 = override (env ''FEISHU_ACCOUNT_ID'') (\<lambda>s c. c\<lparr>fc_account_id := s\<rparr>) c0;
          c2 = override (env ''FEISHU_BASE_URL'') (\<lambda>s c. c\<lparr>fc_base_url := s\<rparr>) c1;
          c3 = set_it (env ''FEISHU_APP_ID'') (\<lambda>s c. c\<lparr>fc_app_id := s\<rparr>) c2;
          c4 = set_it (env ''FEISHU_APP_SECRET'') (\<lambda>s c. c\<lparr>fc_app_secret := s\<rparr>) c3;
          c5 = set_it (env ''FEISHU_TENANT_ACCESS_TOKEN'') (\<lambda>s c. c\<lparr>fc_tenant_access_token := s\<rparr>) c4
      in override (env ''FEISHU_RECEIVE_ID_TYPE'') (\<lambda>s c. c\<lparr>fc_receive_id_type := s\<rparr>) c5)"

definition detect_feishu_receive_id_type :: "string \<Rightarrow> string option" where
  "detect_feishu_receive_id_type recipient =
     (let r = trim recipient in
      if starts_with r ''oc_'' then Some ''chat_id''
      else if starts_with r ''ou_'' then Some ''open_id''
      else if starts_with r ''on_'' then Some ''union_id''
      else if CHR ''@'' \<in> set r then Some ''email''
      else None)"

definition feishu_send_config :: "(string \<Rightarrow> string option) \<Rightarrow> send_command \<Rightarrow> string \<Rightarrow> feishu_config" where
  "feishu_send_config env cmd recipient =
     (let cfg = load_feishu_config_from_env env in
      case nonblank (sc_receive_id_type cmd) of
        Some t \<Rightarrow> cfg\<lparr>fc_receive_id_type := t\<rparr>
      | None \<Rightarrow>
          (case detect_feishu_receive_id_type recipient of
             Some t \<Rightarrow> cfg\<lparr>fc_receive_id_type := t\<rparr>
           | None \<Rightarrow> cfg))"

text \<open>
  The typed result is printed as a line of JSON by \<open>show\<close>; \<open>auth\<close> is the token request without
  redirects, \<open>valid_id\<close> the check of local ids.
\<close>

definition run_send_feishu ::
  "'w cli_deps \<Rightarrow> 'w daemon_http \<Rightarrow> ('w, 'p) feishu_http \<Rightarrow> 'w token_request option \<Rightarrow> digest \<Rightarrow> (string \<Rightarrow> bool) \<Rightarrow>
   (feishu_delivery_result \<Rightarrow> string) \<Rightarrow> send_command \<Rightarrow> 'w \<Rightarrow> (string + unit) \<times> 'w" where
  "run_send_feishu dp dh fh auth sha valid_id show_result cmd w =
     (case nonblank (sc_to cmd) of
        None \<Rightarrow> (Err feishu_needs_to_text, w)
      | Some recipient \<Rightarrow>
          (let cfg = feishu_send_config (cd_env dp) cmd recipient; ch = feishu_from_config cfg in
           if sc_delivery_result_json_v1 cmd then
             (case sc_invocation_id cmd of
                None \<Rightarrow> (Err ''parser validates opt-in invocation'', w)
              | Some i \<Rightarrow>
                  (let binding = delivery_result_new sha i cfg recipient (sc_message cmd);
                       (output, w1) = (case validate_feishu_config cfg of
                          Err _ \<Rightarrow> (binding, w)
                        | Ok _ \<Rightarrow>
                            (let (ev, w1) = send_text_with_delivery_evidence fh auth ch recipient (sc_message cmd) w
                             in (finish valid_id ev binding, w1)));
                       w2 = dh_print dh (show_result output) w1
                   in (if result_accepted output then Ok () else Err ''typed feishu delivery unsuccessful'', w2)))
           else
             (case validate_feishu_config cfg of
                Err e \<Rightarrow> (Err (feishu_invalid_text @ e), w)
              | Ok _ \<Rightarrow>
                  (case ch_send (feishu_as_channel fh ch) recipient (Text (sc_message cmd)) w of
                     (Err er, w1) \<Rightarrow> (Err (''feishu send failed: '' @ channel_error_display er), w1)
                   | (Ok r, w1) \<Rightarrow>
                       (Ok (), dh_print dh (''send ok (feishu): message_id='' @ sr_message_id r @ '', platform_msg_id='' @
                          or_else ''<none>'' (sr_platform_msg_id r)) w1)))))"

definition run_send_command ::
  "'w cli_deps \<Rightarrow> 'w daemon_http \<Rightarrow> 'w ilink_http \<Rightarrow> ('w, 'p) feishu_http \<Rightarrow> 'w token_request option \<Rightarrow> digest \<Rightarrow>
   (string \<Rightarrow> bool) \<Rightarrow> (feishu_delivery_result \<Rightarrow> string) \<Rightarrow> send_command \<Rightarrow> 'w \<Rightarrow> (string + unit) \<times> 'w" where
  "run_send_command dp dh hp fh auth sha valid_id show_result cmd w =
     (case sc_channel cmd of
        WechatChannel \<Rightarrow> run_send_wechat dp dh hp cmd w
      | FeishuChannel \<Rightarrow> run_send_feishu dp dh fh auth sha valid_id show_result cmd w)"

section \<open>The requests of a run\<close>

text \<open>
  To speak about the requests a command makes, its world gets the list of them with their answers;
  everything else works on the original world.
\<close>

datatype post = ToDaemon json "http_failure + response" | ToPlatform json "http_failure + response"

definition beside :: "('v \<Rightarrow> 'r \<times> 'v) \<Rightarrow> 'l \<times> 'v \<Rightarrow> 'r \<times> 'l \<times> 'v" where
  "beside f lw = (let (r, v) = f (snd lw) in (r, fst lw, v))"

lemma beside_eq [simp]: "beside f (l, v) = (fst (f v), l, snd (f v))"
  by (simp add: beside_def split_beta)

definition logged_tokens :: "'v token_ops \<Rightarrow> (post list \<times> 'v) token_ops" where
  "logged_tokens ops = \<lparr> tk_set = (\<lambda>a u t. beside (tk_set ops a u t)), tk_get_all = (\<lambda>a. beside (tk_get_all ops a)),
     tk_delete_all = (\<lambda>a. beside (tk_delete_all ops a)), tk_delete = (\<lambda>a u. beside (tk_delete ops a u)) \<rparr>"

definition logged_cli :: "'v cli_deps \<Rightarrow> (post list \<times> 'v) cli_deps" where
  "logged_cli dp = \<lparr> cd_env = cd_env dp, cd_exists = (\<lambda>p w. cd_exists dp p (snd w)),
     cd_is_dir = (\<lambda>p w. cd_is_dir dp p (snd w)), cd_read_file = (\<lambda>p. beside (cd_read_file dp p)),
     cd_account = cd_account dp,
     cd_open_tokens = (\<lambda>p w. let (r, w1) = beside (cd_open_tokens dp p) w in
        ((case r of Ok ops \<Rightarrow> Ok (logged_tokens ops) | Err e \<Rightarrow> Err e), w1)),
     cd_keys = cd_keys dp, cd_parse = cd_parse dp \<rparr>"

definition logged_daemon :: "'v daemon_http \<Rightarrow> (post list \<times> 'v) daemon_http" where
  "logged_daemon dh = \<lparr> dh_client = dh_client dh,
     dh_post = (\<lambda>url body bearer w. let (r, v) = dh_post dh url body bearer (snd w) in (r, fst w @ [ToDaemon body r], v)),
     dh_status_text = dh_status_text dh, dh_sleep = (\<lambda>n w. (fst w, dh_sleep dh n (snd w))),
     dh_print = (\<lambda>s w. (fst w, dh_print dh s (snd w))) \<rparr>"

definition logged_ilink :: "'v ilink_http \<Rightarrow> (post list \<times> 'v) ilink_http" where
  "logged_ilink hp = \<lparr>
     ih_post = (\<lambda>url hs t body w. let (r, v) = ih_post hp url hs t body (snd w) in (r, fst w @ [ToPlatform body r], v)),
     ih_get = (\<lambda>url hs. beside (ih_get hp url hs)), ih_json = ih_json hp, ih_updates = ih_updates hp,
     ih_qrcode = ih_qrcode hp, ih_qrcode_status = ih_qrcode_status hp, ih_status_text = ih_status_text hp,
     ih_header_ok = ih_header_ok hp, ih_b64 = ih_b64 hp, ih_random = beside (ih_random hp), ih_uuid = beside (ih_uuid hp),
     ih_uuid_simple = beside (ih_uuid_simple hp), ih_now_ms = beside (ih_now_ms hp) \<rparr>"

text \<open>An answer by which the daemon, or the platform, takes the text.\<close>

definition accepted :: "'v cli_deps \<Rightarrow> 'v ilink_http \<Rightarrow> post \<Rightarrow> bool" where
  "accepted dp hp p =
     (case p of
        ToDaemon body (Ok (status, Ok text)) \<Rightarrow>
          is_success status \<and> (case api_reply_of_text dp text of Some reply \<Rightarrow> ar_ok reply | None \<Rightarrow> False)
      | ToPlatform body (Ok (status, Ok text)) \<Rightarrow>
          is_success status \<and> trim text \<noteq> [] \<and>
          (case ih_json hp (trim text) of Ok v \<Rightarrow> is_Ok (judge_send_response v) | Err _ \<Rightarrow> False)
      | _ \<Rightarrow> False)"

text \<open>Receiver and text of a request.\<close>

fun addressed :: "string \<Rightarrow> string \<Rightarrow> post \<Rightarrow> bool" where
  "addressed dest msg (ToDaemon body r) \<longleftrightarrow> str_field body ''to'' = Some dest \<and> str_field body ''text'' = Some msg"
| "addressed dest msg (ToPlatform body r) \<longleftrightarrow> (\<exists>cfg i. body = send_payload cfg i dest msg)"

fun to_daemon :: "post \<Rightarrow> bool" where
  "to_daemon (ToDaemon body r) \<longleftrightarrow> True"
| "to_daemon (ToPlatform body r) \<longleftrightarrow> False"

section \<open>Lemmas\<close>

lemma api_reply_logged [simp]: "api_reply_of_text (logged_cli dp) = api_reply_of_text dp"
  by (simp add: api_reply_of_text_def logged_cli_def fun_eq_iff)

lemma logged_simps [simp]:
  "dh_sleep (logged_daemon dh) n (ps, v) = (ps, dh_sleep dh n v)"
  "dh_print (logged_daemon dh) s (ps, v) = (ps, dh_print dh s v)"
  "dh_client (logged_daemon dh) = dh_client dh" "cd_env (logged_cli dp) = cd_env dp" "cd_keys (logged_cli dp) = cd_keys dp"
  "cd_is_dir (logged_cli dp) f (ps, v) = cd_is_dir dp f v" "cd_exists (logged_cli dp) f (ps, v) = cd_exists dp f v"
  "ih_uuid (logged_ilink hp) = beside (ih_uuid hp)" "ih_now_ms (logged_ilink hp) = beside (ih_now_ms hp)"
  by (simp_all add: logged_daemon_def logged_cli_def logged_ilink_def)

lemma accepted_failed [simp]: "\<not> accepted dp hp (ToDaemon b (Err e))" "\<not> accepted dp hp (ToPlatform b (Err e))"
  by (simp_all add: accepted_def)

text \<open>The attempts: all but the last failed, and the last one did unless it is the result.\<close>

lemma daemon_attempts_log:
  assumes "daemon_attempts (logged_daemon dh) url body bearer n e (ps, v) = (r, ps', v')"
  shows "\<exists>fs. length fs \<le> n \<and> list_all (\<lambda>p. \<exists>e. p = ToDaemon body (Err e)) fs \<and>
    (case r of
       Ok resp \<Rightarrow> length fs < n \<and> ps' = ps @ fs @ [ToDaemon body (Ok resp)]
     | Err _ \<Rightarrow> ps' = ps @ fs)"
  using assms
proof (induction n arbitrary: e ps v)
  case 0
  then show ?case by (auto simp: logged_daemon_def)
next
  case (Suc n)
  obtain a v1 where a: "dh_post dh url body bearer v = (a, v1)" by force
  have post: "dh_post (logged_daemon dh) url body bearer (ps, v) = (a, ps @ [ToDaemon body a], v1)"
    by (simp add: logged_daemon_def a)
  have again: ?case if "a = Err x" "daemon_attempts (logged_daemon dh) url body bearer n e1 (ps @ [ToDaemon body a], v2) = (r, ps', v')"
    for x e1 v2
  proof -
    from Suc.IH [OF that(2)] obtain fs where fs: "length fs \<le> n" "list_all (\<lambda>p. \<exists>e. p = ToDaemon body (Err e)) fs"
      "case r of Ok resp \<Rightarrow> length fs < n \<and> ps' = (ps @ [ToDaemon body a]) @ fs @ [ToDaemon body (Ok resp)]
        | Err _ \<Rightarrow> ps' = (ps @ [ToDaemon body a]) @ fs" by blast
    then show ?case using that(1) by (intro exI [of _ "ToDaemon body a # fs"]) (auto split: sum.splits)
  qed
  show ?case
  proof (cases a)
    case (Inr resp)
    then show ?thesis using Suc.prems by (intro exI [of _ "[]"]) (auto simp: post)
  next
    case (Inl x)
    show ?thesis
    proof (cases x)
      case (TimedOut m)
      then show ?thesis using Suc.prems Inl by (intro exI [of _ "[ToDaemon body a]"]) (auto simp: post)
    qed (use Suc.prems Inl in \<open>auto simp: post intro!: again\<close>)
  qed
qed


lemma judge_daemon_accepted:
  "is_Ok (judge_daemon_response (logged_cli dp) dh dest resp) \<longleftrightarrow> accepted dp hp (ToDaemon body (Ok resp))"
  by (auto simp: judge_daemon_response_def accepted_def is_Ok_def split: prod.splits sum.splits option.splits)

lemma failed_not_accepted: "list_all (\<lambda>p. \<exists>e. p = ToDaemon body (Err e)) fs \<Longrightarrow> list_all (\<lambda>p. \<not> accepted dp hp p) fs"
  by (auto simp: list_all_iff)

lemma try_daemon_log:
  assumes "try_daemon_api_send (logged_cli dp) (logged_daemon dh) addr dest msg token bearer (ps, v) = (r, ps', v')"
  shows "\<exists>ds. ps' = ps @ ds \<and> length ds \<le> 3 \<and> list_all (\<lambda>p. to_daemon p \<and> addressed dest msg p) ds \<and>
    list_all (\<lambda>p. \<not> accepted dp hp p) (butlast ds) \<and> (is_Ok r \<longleftrightarrow> ds \<noteq> [] \<and> accepted dp hp (last ds))"
proof (cases "dh_client dh")
  case (Inl e)
  then show ?thesis using assms by (auto simp: try_daemon_api_send_def is_Ok_def)
next
  case (Inr u)
  let ?body = "api_send_body dest msg token"
  obtain a ps1 v1 where a: "daemon_attempts (logged_daemon dh) (''http://'' @ addr @ ''/api/send'') ?body (nonblank bearer) 3 [] (ps, v)
      = (a, ps1, v1)" by (metis prod.exhaust)
  obtain fs where fs: "length fs \<le> 3" "list_all (\<lambda>p. \<exists>e. p = ToDaemon ?body (Err e)) fs"
    "case a of Ok resp \<Rightarrow> length fs < 3 \<and> ps1 = ps @ fs @ [ToDaemon ?body (Ok resp)] | Err _ \<Rightarrow> ps1 = ps @ fs"
    using daemon_attempts_log [OF a] by blast
  have adr: "addressed dest msg (ToDaemon ?body x)" for x by (simp add: api_send_body_def str_field_def)
  then have ads: "list_all (\<lambda>p. to_daemon p \<and> addressed dest msg p) fs" using fs(2) by (auto simp: list_all_iff)
  note no = failed_not_accepted [OF fs(2), of dp hp]
  show ?thesis
  proof (cases a)
    case (Inl e)
    have "list_all (\<lambda>p. \<not> accepted dp hp p) (butlast fs)" and "fs \<noteq> [] \<Longrightarrow> \<not> accepted dp hp (last fs)"
      using no last_in_set [of fs] by (auto simp: list_all_iff dest: in_set_butlastD)
    with Inl Inr assms a fs ads show ?thesis
      by (intro exI [of _ fs]) (auto simp: try_daemon_api_send_def is_Ok_def)
  next
    case (Inr resp)
    with \<open>dh_client dh = Ok u\<close> assms a have "r = judge_daemon_response (logged_cli dp) (logged_daemon dh) dest resp" "ps' = ps1"
      by (simp_all add: try_daemon_api_send_def)
    with judge_daemon_accepted [of dp "logged_daemon dh" dest resp hp ?body] Inr fs ads no adr show ?thesis
      by (intro exI [of _ "fs @ [ToDaemon ?body (Ok resp)]"]) auto
  qed
qed

lemma ilink_log:
  assumes "send_text_via_ilink (logged_ilink hp) cfg dest msg (ps, v) = (r, ps', v')"
  shows "\<exists>p. ps' = ps @ [p] \<and> \<not> to_daemon p \<and> addressed dest msg p \<and> (is_Ok r \<longleftrightarrow> accepted dp hp p)"
proof -
  obtain i now v1 where payload: "build_send_request_payload (logged_ilink hp) cfg dest msg (ps, v) =
      (send_payload cfg (''wechat-channel:'' @ show_int now @ ''-'' @ i) dest msg, ps, v1)" (is "_ = (?p, _, _)")
    by (auto simp: build_send_request_payload_def logged_ilink_def split_beta)
  have "fst (snd (build_headers (logged_ilink hp) (ic_token cfg) (ps, v1))) = ps"
    by (simp add: build_headers_def random_wechat_uin_def logged_ilink_def split_beta Let_def)
  then obtain hs v2 where hs: "build_headers (logged_ilink hp) (ic_token cfg) (ps, v1) = (hs, ps, v2)"
    by (metis prod.collapse)
  let ?url = "with_slash (ic_base_url cfg) @ ''ilink/bot/sendmessage''"
  obtain a v3 where post: "ih_post (logged_ilink hp) ?url hs (ic_timeout_ms cfg) ?p (ps, v2) = (a, ps @ [ToPlatform ?p a], v3)"
    by (simp add: logged_ilink_def split_beta)
  have json: "ih_json (logged_ilink hp) = ih_json hp" by (simp add: logged_ilink_def)
  have "ps' = ps @ [ToPlatform ?p a] \<and> (is_Ok r \<longleftrightarrow> accepted dp hp (ToPlatform ?p a))"
  proof (cases a)
    case (Inl e)
    with post assms show ?thesis by (auto simp: send_text_via_ilink_def payload hs is_Ok_def)
  next
    case (Inr resp)
    obtain status reply where "resp = (status, reply)" by force
    with Inr post have run: "(r, ps', v') = (case reply of
        Err e \<Rightarrow> (Err (''failed to read ilink response: '' @ e), ps @ [ToPlatform ?p a], v3)
      | Ok t \<Rightarrow> if \<not> is_success status
          then (Err (''ilink HTTP '' @ ih_status_text (logged_ilink hp) status @ '': '' @ t), ps @ [ToPlatform ?p a], v3)
          else if trim t = [] then (Err ''ilink empty response body (session may be expired)'', ps @ [ToPlatform ?p a], v3)
          else (case ih_json hp (trim t) of
                  Err e \<Rightarrow> (Err (''invalid ilink JSON response: '' @ e), ps @ [ToPlatform ?p a], v3)
                | Ok j \<Rightarrow> (judge_send_response j, ps @ [ToPlatform ?p a], v3)))"
      unfolding assms [symmetric] by (simp add: send_text_via_ilink_def payload hs json split: sum.split)
    show ?thesis
    proof (cases reply)
      case (Inl e)
      with run \<open>a = Ok resp\<close> \<open>resp = (status, reply)\<close> show ?thesis by (auto simp: accepted_def is_Ok_def)
    next
      case (Inr t)
      then have acc: "accepted dp hp (ToPlatform ?p a) \<longleftrightarrow> is_success status \<and> trim t \<noteq> [] \<and>
          (case ih_json hp (trim t) of Ok v \<Rightarrow> is_Ok (judge_send_response v) | Err _ \<Rightarrow> False)"
        by (simp add: \<open>a = Ok resp\<close> \<open>resp = (status, reply)\<close> accepted_def)
      show ?thesis
      proof (cases "is_success status \<and> trim t \<noteq> []")
        case True
        with run Inr acc show ?thesis by (cases "ih_json hp (trim t)") (auto simp: is_Ok_def)
      next
        case False
        with run Inr acc show ?thesis by (auto simp: is_Ok_def split: if_splits)
      qed
    qed
  qed
  then show ?thesis by (intro exI [of _ "ToPlatform ?p a"]) auto
qed

lemma keep_token_logged [simp]: "keep_token (logged_tokens ops) a p t (ps, v) = (ps, keep_token ops a p t v)"
  by (cases t) (simp_all add: keep_token_def logged_tokens_def)

lemma direct_send_log:
  assumes "direct_send (logged_daemon dh) (logged_ilink hp) account (logged_tokens ops) dest msg token (ps, v) = (r, ps', v')"
  shows "\<exists>p. ps' = ps @ [p] \<and> \<not> to_daemon p \<and> addressed dest msg p \<and> (is_Ok r \<longleftrightarrow> accepted dp hp p)"
proof -
  obtain q ps1 v1 where s: "send_text_via_ilink (logged_ilink hp) (direct_config account token) dest msg (ps, v) = (q, ps1, v1)"
    by (metis prod.exhaust)
  from ilink_log [OF s] obtain p where p: "ps1 = ps @ [p]" "\<not> to_daemon p" "addressed dest msg p" "is_Ok q \<longleftrightarrow> accepted dp hp p"
    by blast
  have "ps' = ps1 \<and> (is_Ok r \<longleftrightarrow> is_Ok q)"
  proof (cases q)
    case (Inr j)
    with s assms show ?thesis by (auto simp: direct_send_def is_Ok_def Let_def split_beta)
  qed (use s assms in \<open>auto simp: direct_send_def is_Ok_def\<close>)
  with p show ?thesis by blast
qed

text \<open>What is asked of a delivery: the requests it adds, and what they say.\<close>

definition honest_posts :: "'v cli_deps \<Rightarrow> 'v ilink_http \<Rightarrow> string \<Rightarrow> string \<Rightarrow> bool \<Rightarrow> post list \<Rightarrow> bool" where
  "honest_posts dp hp dest msg ok posts \<longleftrightarrow>
     (ok \<longleftrightarrow> posts \<noteq> [] \<and> accepted dp hp (last posts)) \<and>
     list_all (\<lambda>p. \<not> accepted dp hp p) (butlast posts) \<and> list_all (addressed dest msg) posts \<and>
     (\<exists>ds ps. posts = ds @ ps \<and> list_all to_daemon ds \<and> length ds \<le> 3 \<and> length ps \<le> 1 \<and> \<not> list_ex to_daemon ps)"

lemma deliver_wechat_log:
  assumes run: "deliver_wechat (logged_cli dp) (logged_daemon dh) (logged_ilink hp) cmd account (logged_tokens ops) dest token
    (ps, v) = (r, ps', v')"
  shows "\<exists>posts. ps' = ps @ posts \<and> honest_posts dp hp dest (sc_message cmd) (is_Ok r) posts"
proof -
  let ?tok = "if token = [] then None else Some token"
  obtain a ps1 v1 where t: "try_daemon_api_send (logged_cli dp) (logged_daemon dh)
      (or_else ''127.0.0.1:18011'' (cd_env dp ''MAGICLAW_API_ADDR'')) dest (sc_message cmd) ?tok
      (nonblank (cd_env dp ''MAGICLAW_API_TOKEN'')) (ps, v) = (a, ps1, v1)" by (metis prod.exhaust)
  from try_daemon_log [OF t, of hp] obtain ds where ds: "ps1 = ps @ ds" "length ds \<le> 3"
    "list_all (\<lambda>p. to_daemon p \<and> addressed dest (sc_message cmd) p) ds"
    "list_all (\<lambda>p. \<not> accepted dp hp p) (butlast ds)" "is_Ok a \<longleftrightarrow> ds \<noteq> [] \<and> accepted dp hp (last ds)" by blast
  have honest: "honest_posts dp hp dest (sc_message cmd) (is_Ok a) ds"
    unfolding honest_posts_def
    by (intro conjI exI [of _ ds] exI [of _ "[]"]) (use ds in \<open>auto simp: list_all_iff\<close>)
  have direct: ?thesis if no: "\<not> is_Ok a" and d: "direct_send (logged_daemon dh) (logged_ilink hp) account (logged_tokens ops) dest
      (sc_message cmd) token (ps1, v1) = (r, ps', v')"
  proof -
    from direct_send_log [OF d, of dp] obtain p where p: "ps' = ps1 @ [p]" "\<not> to_daemon p"
      "addressed dest (sc_message cmd) p" "is_Ok r \<longleftrightarrow> accepted dp hp p" by blast
    have "list_all (\<lambda>p. \<not> accepted dp hp p) ds"
      using no ds(4,5) by (cases ds rule: rev_cases) (auto simp: list_all_iff)
    with ds p have "honest_posts dp hp dest (sc_message cmd) (is_Ok r) (ds @ [p])"
      unfolding honest_posts_def
      by (intro conjI exI [of _ ds] exI [of _ "[p]"]) (auto simp: list_all_iff)
    with p ds show ?thesis by simp
  qed
  show ?thesis
  proof (cases a)
    case (Inr res)
    obtain x ctx where res: "res = (x, ctx)" by force
    have "ps' = ps1 \<and> is_Ok r"
      using run t Inr res
      by (auto simp: deliver_wechat_def Let_def is_Ok_def split: option.splits)
    with ds honest Inr show ?thesis by (auto simp: is_Ok_def)
  next
    case (Inl x)
    then have no: "\<not> is_Ok a" by (simp add: is_Ok_def)
    show ?thesis
    proof (cases x)
      case (Unreachable e)
      with run t Inl show ?thesis by (intro direct [OF no]) (simp add: deliver_wechat_def Let_def)
    next
      case (Rejected e)
      show ?thesis
      proof (cases "contains (map ascii_lower e) ''unauthorized'' \<or> contains (map ascii_lower e) ''401''")
        case True
        with run t Inl Rejected show ?thesis by (intro direct [OF no]) (simp add: deliver_wechat_def Let_def)
      next
        case False
        with run t Inl Rejected have "ps' = ps1 \<and> \<not> is_Ok r" by (auto simp: deliver_wechat_def Let_def is_Ok_def)
        with ds honest no show ?thesis by auto
      qed
    qed
  qed
qed

lemma load_account_logged: "load_account (logged_cli dp) d (ps, v) = (fst (load_account dp d v), ps, snd (load_account dp d v))"
  by (simp add: load_account_def logged_cli_def split: prod.splits sum.splits)

lemma data_dir_logged: "data_dir_of (logged_cli dp) p (ps, v) = data_dir_of dp p v"
  by (simp add: data_dir_of_def default_wechat_data_dir_def resolve_db_path_def Let_def split: option.split)

lemma open_tokens_logged:
  "open_tokens (logged_cli dp) (ps, v) =
     ((case fst (open_tokens dp v) of Ok ops \<Rightarrow> Ok (logged_tokens ops) | Err e \<Rightarrow> Err e), ps, snd (open_tokens dp v))"
  by (simp add: open_tokens_def resolve_db_path_def logged_cli_def map_err_def split_beta split: sum.splits)

lemma recipient_logged: "recipient_of (logged_cli dp) = recipient_of dp"
  by (simp add: recipient_of_def fun_eq_iff split: option.split)

lemma context_token_logged: "context_token_for (logged_cli dp) = context_token_for dp"
  by (simp add: context_token_for_def first_value_def fun_eq_iff split: option.split)

lemma recipient_of_flag: "recipient_of dp cmd account tokens = Ok dest \<Longrightarrow> sc_to cmd = Some t \<Longrightarrow> dest = t"
  by (simp add: recipient_of_def split: if_splits)

text \<open>
  Without a flag the receiver is the first key the hash map lists, and the context token may belong to
  another peer: the fallback is any stored token.
\<close>

lemma token_of_other_peer:
  assumes "nonblank (sc_context_token cmd) = None" "tokens dest = None" "cd_keys dp tokens = p # ks" "tokens p = Some t"
  shows "context_token_for dp cmd tokens dest = t"
  using assms by (simp add: context_token_for_def first_value_def or_else_def)

text \<open>
  C17. The command \<open>send\<close> for WeChat is honest: it ends well if and only if the daemon or the platform
  took the text with the answer to its last request, after an answer that takes the text it makes no
  further request, and every request carries the message for one receiver, the one of \<open>--to\<close> when
  there is one. The requests are at most three to the daemon followed by at most one to the platform.
\<close>

theorem cli_send_honest:
  assumes run: "run_send_wechat (logged_cli dp) (logged_daemon dh) (logged_ilink hp) cmd ([], v) = (r, posts, v')"
  shows "(is_Ok r \<longleftrightarrow> posts \<noteq> [] \<and> accepted dp hp (last posts)) \<and>
    list_all (\<lambda>p. \<not> accepted dp hp p) (butlast posts) \<and>
    (\<exists>dest. list_all (addressed dest (sc_message cmd)) posts \<and> sc_to cmd \<in> {None, Some dest}) \<and>
    (\<exists>ds ps. posts = ds @ ps \<and> list_all to_daemon ds \<and> length ds \<le> 3 \<and> length ps \<le> 1 \<and> \<not> list_ex to_daemon ps)"
proof -
  have quiet: ?thesis if "posts = []" "\<not> is_Ok r"
    using that by (cases "sc_to cmd") auto
  let ?dir = "data_dir_of dp (if sc_data_dir cmd = [] then None else Some (sc_data_dir cmd)) v"
  obtain a v1 where a: "load_account dp ?dir v = (a, v1)" by force
  obtain t v2 where t: "open_tokens dp v1 = (t, v2)" by force
  note load = run [unfolded run_send_wechat_def Let_def data_dir_logged load_account_logged a fst_conv snd_conv]
  show ?thesis
  proof (cases a)
    case (Inl e)
    with load show ?thesis by (intro quiet) (auto simp: is_Ok_def)
  next
    case (Inr account)
    note opened = load [unfolded Inr prod.case sum.case open_tokens_logged t fst_conv snd_conv]
    show ?thesis
    proof (cases t)
      case (Inl e)
      with opened show ?thesis by (intro quiet) (auto simp: is_Ok_def)
    next
      case (Inr ops)
      obtain m v3 where m: "tk_get_all ops (wa_account_id account) v2 = (m, v3)" by force
      then have "tk_get_all (logged_tokens ops) (wa_account_id account) ([], v2) = (m, [], v3)"
        by (simp add: logged_tokens_def)
      note listed = opened [unfolded Inr prod.case sum.case this]
      show ?thesis
      proof (cases "\<exists>tokens dest. m = Ok tokens \<and> recipient_of dp cmd account tokens = Ok dest")
        case True
        then obtain tokens dest where d: "m = Ok tokens" "recipient_of dp cmd account tokens = Ok dest" by blast
        with listed have "deliver_wechat (logged_cli dp) (logged_daemon dh) (logged_ilink hp) cmd account (logged_tokens ops) dest
            (context_token_for (logged_cli dp) cmd tokens dest) ([], v3) = (r, posts, v')" by (simp add: recipient_logged)
        from deliver_wechat_log [OF this] have h: "honest_posts dp hp dest (sc_message cmd) (is_Ok r) posts" by auto
        moreover have "sc_to cmd \<in> {None, Some dest}" using recipient_of_flag [OF d(2)] by (cases "sc_to cmd") auto
        ultimately show ?thesis unfolding honest_posts_def by blast
      next
        case False
        with listed show ?thesis by (intro quiet) (auto simp: is_Ok_def recipient_logged split: sum.splits)
      qed
    qed
  qed
qed

text \<open>No daemon answers, the platform takes the text: three requests that fail and one that is the result.\<close>

definition sample_tokens :: "unit token_ops" where
  "sample_tokens = \<lparr> tk_set = (\<lambda>a u t w. (Ok (), w)), tk_get_all = (\<lambda>a w. (Ok Map.empty, w)),
     tk_delete_all = (\<lambda>a w. (Ok (), w)), tk_delete = (\<lambda>a u w. (Ok (), w)) \<rparr>"

definition sample_home :: "unit cli_deps" where
  "sample_home = \<lparr> cd_env = (\<lambda>v. None), cd_exists = (\<lambda>f w. False), cd_is_dir = (\<lambda>f w. False),
     cd_read_file = (\<lambda>f w. (Ok ''{}'', w)),
     cd_account = (\<lambda>s. Ok \<lparr> wa_token = ''t'', wa_base_url = ''https://i/'', wa_account_id = ''b'', wa_user_id = Some ''u'',
        wa_saved_at = None \<rparr>),
     cd_open_tokens = (\<lambda>f w. (Ok sample_tokens, w)), cd_keys = (\<lambda>m. []), cd_parse = (\<lambda>s. Err ''no json'') \<rparr>"

definition sample_daemon :: "unit daemon_http" where
  "sample_daemon = \<lparr> dh_client = Ok (), dh_post = (\<lambda>url body t w. (Err (ConnectFailed ''refused''), w)),
     dh_status_text = (\<lambda>n. ''200 OK''), dh_sleep = (\<lambda>n w. w), dh_print = (\<lambda>s w. w) \<rparr>"

definition sample_ilink_site :: "unit ilink_http" where
  "sample_ilink_site = \<lparr> ih_post = (\<lambda>url hs t body w. (Ok (200, Ok ''{}''), w)), ih_get = (\<lambda>url hs w. (Ok (200, Ok []), w)),
     ih_json = (\<lambda>s. Ok (JObject [])), ih_updates = (\<lambda>s. Err []), ih_qrcode = (\<lambda>s. Err []),
     ih_qrcode_status = (\<lambda>s. Err []), ih_status_text = (\<lambda>n. []), ih_header_ok = (\<lambda>s. True), ih_b64 = (\<lambda>b. ''b64''),
     ih_random = (\<lambda>w. (7, w)), ih_uuid = (\<lambda>w. (''id'', w)), ih_uuid_simple = (\<lambda>w. (''id'', w)),
     ih_now_ms = (\<lambda>w. (0, w)) \<rparr>"

definition sample_command :: send_command where
  "sample_command = \<lparr> sc_channel = WechatChannel, sc_data_dir = [], sc_to = None, sc_context_token = None,
     sc_receive_id_type = None, sc_delivery_result_json_v1 = False, sc_invocation_id = None, sc_message = ''hi'' \<rparr>"

definition sample_run :: "(string + unit) \<times> post list \<times> unit" where
  "sample_run = run_send_wechat (logged_cli sample_home) (logged_daemon sample_daemon) (logged_ilink sample_ilink_site)
     sample_command ([], ())"

lemma sample_daemon_posts:
  "try_daemon_api_send (logged_cli sample_home) (logged_daemon sample_daemon) addr dest msg token bearer ([], ()) =
     (Err (Unreachable ''daemon unreachable: refused''),
      replicate 3 (ToDaemon (api_send_body dest msg token) (Err (ConnectFailed ''refused''))), ())"
  by (simp add: try_daemon_api_send_def numeral_3_eq_3 logged_daemon_def sample_daemon_def)

lemma sample_direct:
  "\<exists>p. \<not> to_daemon p \<and> direct_send (logged_daemon sample_daemon) (logged_ilink sample_ilink_site) account (logged_tokens ops) dest msg token (ps, ()) =
     (Ok (), ps @ [p], ())"
proof -
  have "is_success 200" "trim ''{}'' = ''{}''" "judge_send_response (JObject []) = Ok (JObject [])" by code_simp+
  then have "is_Ok (fst (direct_send (logged_daemon sample_daemon) (logged_ilink sample_ilink_site) account (logged_tokens ops) dest msg token (ps, ())))"
    by (simp add: direct_send_def send_text_via_ilink_def build_send_request_payload_def build_headers_def random_wechat_uin_def
        logged_ilink_def sample_ilink_site_def is_Ok_def Let_def split_beta)
  then show ?thesis
    using direct_send_log [of sample_daemon sample_ilink_site account ops dest msg token ps "()"]
    by (cases "direct_send (logged_daemon sample_daemon) (logged_ilink sample_ilink_site) account (logged_tokens ops) dest msg token (ps, ())")
      (auto simp: is_Ok_def split: sum.splits)
qed

lemma sample_run_posts:
  "\<exists>posts. sample_run = (Ok (), posts, ()) \<and> map to_daemon posts = [True, True, True, False]"
proof -
  let ?acc = "\<lparr> wa_token = ''t'', wa_base_url = ''https://i/'', wa_account_id = ''b'', wa_user_id = Some ''u'', wa_saved_at = None \<rparr>"
  let ?ds = "replicate 3 (ToDaemon (api_send_body ''u'' ''hi'' None) (Err (ConnectFailed ''refused'')))"
  obtain p where p: "\<not> to_daemon p" "direct_send (logged_daemon sample_daemon) (logged_ilink sample_ilink_site) ?acc
      (logged_tokens sample_tokens) ''u'' ''hi'' [] (?ds, ()) = (Ok (), ?ds @ [p], ())"
    using sample_direct [of ?acc sample_tokens "''u''" "''hi''" "[]" ?ds] by blast
  have "load_account sample_home d () = (Ok ?acc, ())" "open_tokens sample_home () = (Ok sample_tokens, ())"
    "recipient_of sample_home sample_command ?acc Map.empty = Ok ''u''"
    "context_token_for sample_home sample_command Map.empty ''u'' = []"
    "tk_get_all (logged_tokens sample_tokens) a ([], ()) = (Ok Map.empty, [], ())" for d a
    by (simp_all add: load_account_def open_tokens_def sample_home_def recipient_of_def context_token_for_def first_value_def
        sample_command_def or_else_def map_err_def nonblank_def logged_tokens_def sample_tokens_def)
  then have "sample_run = deliver_wechat (logged_cli sample_home) (logged_daemon sample_daemon)
      (logged_ilink sample_ilink_site) sample_command ?acc (logged_tokens sample_tokens) ''u'' [] ([], ())"
    by (simp add: sample_run_def run_send_wechat_def load_account_logged open_tokens_logged recipient_logged context_token_logged)
  also have "\<dots> = (Ok (), ?ds @ [p], ())"
    by (simp add: deliver_wechat_def Let_def sample_daemon_posts) (use p in \<open>simp add: sample_command_def\<close>)
  finally show ?thesis using p(1) by (intro exI [of _ "?ds @ [p]"]) (simp add: numeral_3_eq_3)
qed

theorem cli_send_honest_witness:
  "\<exists>posts. sample_run = (Ok (), posts, ()) \<and> map to_daemon posts = [True, True, True, False] \<and>
   accepted sample_home sample_ilink_site (last posts) \<and>
   list_all (\<lambda>p. \<not> accepted sample_home sample_ilink_site p) (butlast posts)"
proof -
  from sample_run_posts obtain posts where r: "sample_run = (Ok (), posts, ()) \<and> map to_daemon posts = [True, True, True, False]"
    by (rule exE)
  note run = r [THEN conjunct1] r [THEN conjunct2]
  note honest = cli_send_honest [OF run(1) [unfolded sample_run_def]]
  have "accepted sample_home sample_ilink_site (last posts)"
    by (rule honest [THEN conjunct1, THEN iffD1, THEN conjunct2]) (simp add: is_Ok_def)
  moreover note honest [THEN conjunct2, THEN conjunct1]
  ultimately have "sample_run = (Ok (), posts, ()) \<and> map to_daemon posts = [True, True, True, False] \<and>
    accepted sample_home sample_ilink_site (last posts) \<and>
    list_all (\<lambda>p. \<not> accepted sample_home sample_ilink_site p) (butlast posts)"
    by (intro conjI run)
  then show ?thesis by (rule exI)
qed

end
