(* ===== verification/Cli_Login.thy ===== *)
theory Cli_Login
  imports Cli_Config Cli_Parser
begin

text \<open>
  The command \<open>wechat login\<close> of \<open>src/main.rs\<close>: it shows a QR code, asks the platform, with pauses of two seconds,
  whether the code was confirmed, until the pauses add up to five minutes, and writes the account file that the
  other commands read. The requests have no time limit of their own.

  Output, directories, files, the picture of the code, its window and the clock come from outside
  through the record \<open>cli_io\<close>. Writing to standard output does not fail.
\<close>

section \<open>What the command uses\<close>

record 'w cli_io =
  ci_out :: "string \<Rightarrow> 'w \<Rightarrow> 'w"
  ci_err :: "string \<Rightarrow> 'w \<Rightarrow> 'w"
  ci_mkdir :: "string \<Rightarrow> 'w \<Rightarrow> (string + unit) \<times> 'w"
  ci_init_db :: "string \<Rightarrow> 'w \<Rightarrow> (string + unit) \<times> 'w"
  ci_write_file :: "string \<Rightarrow> string \<Rightarrow> 'w \<Rightarrow> (string + unit) \<times> 'w"
  ci_qr_image :: "string \<Rightarrow> string \<Rightarrow> 'w \<Rightarrow> (string + unit) \<times> 'w"
  ci_popup :: "string \<Rightarrow> 'w \<Rightarrow> bool \<times> 'w"
  ci_close_popup :: "'w \<Rightarrow> 'w"
  ci_sleep :: "nat \<Rightarrow> 'w \<Rightarrow> 'w"
  ci_timestamp :: "'w \<Rightarrow> string \<times> 'w"
  ci_account_text :: "wechat_account \<Rightarrow> string"

definition println :: "'w cli_io \<Rightarrow> string \<Rightarrow> 'w \<Rightarrow> 'w" where
  "println io s w = ci_out io (s @ nl) w"

section \<open>Texts\<close>

text \<open>The Chinese texts, in UTF-8.\<close>

definition fetching_text :: string where
  "fetching_text =
    [CHR 0xE6, CHR 0xAD, CHR 0xA3, CHR 0xE5, CHR 0x9C, CHR 0xA8, CHR 0xE8, CHR 0x8E, CHR 0xB7, CHR 0xE5, CHR 0x8F,
     CHR 0x96, CHR 0xE4, CHR 0xBA, CHR 0x8C, CHR 0xE7, CHR 0xBB, CHR 0xB4, CHR 0xE7, CHR 0xA0, CHR 0x81] @ ''...''"

definition qr_saved_text :: string where
  "qr_saved_text =
    [CHR 0xE2, CHR 0x9C, CHR 0x93] @ '' '' @ [CHR 0xE4, CHR 0xBA, CHR 0x8C, CHR 0xE7, CHR 0xBB, CHR 0xB4, CHR 0xE7,
     CHR 0xA0, CHR 0x81, CHR 0xE5, CHR 0xB7, CHR 0xB2, CHR 0xE7, CHR 0x94, CHR 0x9F, CHR 0xE6, CHR 0x88, CHR 0x90] @
     '': ''"

definition popup_text :: string where
  "popup_text =
    [CHR 0xE2, CHR 0x9C, CHR 0x93] @ '' '' @ [CHR 0xE5, CHR 0xB7, CHR 0xB2, CHR 0xE5, CHR 0xBC, CHR 0xB9, CHR 0xE5,
     CHR 0x87, CHR 0xBA, CHR 0xE4, CHR 0xBA, CHR 0x8C, CHR 0xE7, CHR 0xBB, CHR 0xB4, CHR 0xE7, CHR 0xA0, CHR 0x81,
     CHR 0xE7, CHR 0xAA, CHR 0x97, CHR 0xE5, CHR 0x8F, CHR 0xA3, CHR 0xEF, CHR 0xBC, CHR 0x8C, CHR 0xE8, CHR 0xAF,
     CHR 0xB7, CHR 0xE5, CHR 0x9C, CHR 0xA8, CHR 0xE5, CHR 0xBE, CHR 0xAE, CHR 0xE4, CHR 0xBF, CHR 0xA1, CHR 0xE4,
     CHR 0xB8, CHR 0xAD, CHR 0xE6, CHR 0x89, CHR 0xAB, CHR 0xE6, CHR 0x8F, CHR 0x8F]"

definition scan_head_text :: string where
  "scan_head_text =
    [CHR 0x0A] @ ''========== '' @ [CHR 0xE8, CHR 0xAF, CHR 0xB7, CHR 0xE7, CHR 0x94, CHR 0xA8, CHR 0xE5, CHR 0xBE,
     CHR 0xAE, CHR 0xE4, CHR 0xBF, CHR 0xA1, CHR 0xE6, CHR 0x89, CHR 0xAB, CHR 0xE6, CHR 0x8F, CHR 0x8F, CHR 0xE4,
     CHR 0xBB, CHR 0xA5, CHR 0xE4, CHR 0xB8, CHR 0x8B, CHR 0xE4, CHR 0xBA, CHR 0x8C, CHR 0xE7, CHR 0xBB, CHR 0xB4,
     CHR 0xE7, CHR 0xA0, CHR 0x81, CHR 0xE7, CHR 0x99, CHR 0xBB, CHR 0xE5, CHR 0xBD, CHR 0x95] @ '' ==========''"

definition qr_id_text :: string where
  "qr_id_text =
    [CHR 0xE4, CHR 0xBA, CHR 0x8C, CHR 0xE7, CHR 0xBB, CHR 0xB4, CHR 0xE7, CHR 0xA0, CHR 0x81] @ '' ID: ''"

definition scan_link_text :: string where
  "scan_link_text =
    [CHR 0xE6, CHR 0x89, CHR 0xAB, CHR 0xE7, CHR 0xA0, CHR 0x81, CHR 0xE9, CHR 0x93, CHR 0xBE, CHR 0xE6, CHR 0x8E,
     CHR 0xA5] @ '': ''"

definition qr_path_text :: string where
  "qr_path_text =
    [CHR 0xE5, CHR 0x9B, CHR 0xBE, CHR 0xE7, CHR 0x89, CHR 0x87, CHR 0xE4, CHR 0xBD, CHR 0x8D, CHR 0xE7, CHR 0xBD,
     CHR 0xAE] @ '': ''"

definition scan_foot_text :: string where
  "scan_foot_text =
    ''============================================'' @ [CHR 0x0A]"

definition waiting_text :: string where
  "waiting_text =
    [CHR 0xE7, CHR 0xAD, CHR 0x89, CHR 0xE5, CHR 0xBE, CHR 0x85, CHR 0xE4, CHR 0xBA, CHR 0x8C, CHR 0xE7, CHR 0xBB,
     CHR 0xB4, CHR 0xE7, CHR 0xA0, CHR 0x81, CHR 0xE6, CHR 0x89, CHR 0xAB, CHR 0xE6, CHR 0x8F, CHR 0x8F] @ ''...''"

definition scanned_text :: string where
  "scanned_text =
    [CHR 0x0A, CHR 0xF0, CHR 0x9F, CHR 0x91, CHR 0x80] @ '' '' @ [CHR 0xE5, CHR 0xB7, CHR 0xB2, CHR 0xE6, CHR 0x89,
     CHR 0xAB, CHR 0xE7, CHR 0xA0, CHR 0x81, CHR 0xEF, CHR 0xBC, CHR 0x8C, CHR 0xE8, CHR 0xAF, CHR 0xB7, CHR 0xE5,
     CHR 0x9C, CHR 0xA8, CHR 0xE5, CHR 0xBE, CHR 0xAE, CHR 0xE4, CHR 0xBF, CHR 0xA1, CHR 0xE4, CHR 0xB8, CHR 0xAD,
     CHR 0xE7, CHR 0xA1, CHR 0xAE, CHR 0xE8, CHR 0xAE, CHR 0xA4] @ ''...''"

definition qr_expired_text :: string where
  "qr_expired_text =
    [CHR 0xE4, CHR 0xBA, CHR 0x8C, CHR 0xE7, CHR 0xBB, CHR 0xB4, CHR 0xE7, CHR 0xA0, CHR 0x81, CHR 0xE5, CHR 0xB7,
     CHR 0xB2, CHR 0xE8, CHR 0xBF, CHR 0x87, CHR 0xE6, CHR 0x9C, CHR 0x9F, CHR 0xEF, CHR 0xBC, CHR 0x8C, CHR 0xE8,
     CHR 0xAF, CHR 0xB7, CHR 0xE9, CHR 0x87, CHR 0x8D, CHR 0xE6, CHR 0x96, CHR 0xB0, CHR 0xE8, CHR 0xBF, CHR 0x90,
     CHR 0xE8, CHR 0xA1, CHR 0x8C, CHR 0xE7, CHR 0x99, CHR 0xBB, CHR 0xE5, CHR 0xBD, CHR 0x95, CHR 0xE5, CHR 0x91,
     CHR 0xBD, CHR 0xE4, CHR 0xBB, CHR 0xA4]"

definition no_bot_token_text :: string where
  "no_bot_token_text =
    [CHR 0xE7, CHR 0x99, CHR 0xBB, CHR 0xE5, CHR 0xBD, CHR 0x95, CHR 0xE7, CHR 0xA1, CHR 0xAE, CHR 0xE8, CHR 0xAE,
     CHR 0xA4, CHR 0xE4, CHR 0xBD, CHR 0x86, CHR 0xE6, CHR 0x9C, CHR 0xAA, CHR 0xE8, CHR 0xBF, CHR 0x94, CHR 0xE5,
     CHR 0x9B, CHR 0x9E] @ '' bot_token''"

definition scan_done_text :: string where
  "scan_done_text =
    [CHR 0x0A, CHR 0xE2, CHR 0x9C, CHR 0x93] @ '' '' @ [CHR 0xE4, CHR 0xBA, CHR 0x8C, CHR 0xE7, CHR 0xBB, CHR 0xB4,
     CHR 0xE7, CHR 0xA0, CHR 0x81, CHR 0xE6, CHR 0x89, CHR 0xAB, CHR 0xE6, CHR 0x8F, CHR 0x8F, CHR 0xE6, CHR 0x88,
     CHR 0x90, CHR 0xE5, CHR 0x8A, CHR 0x9F, CHR 0xEF, CHR 0xBC, CHR 0x81]"

definition status_text :: string where
  "status_text =
    [CHR 0x0A, CHR 0xE7, CHR 0x8A, CHR 0xB6, CHR 0xE6, CHR 0x80, CHR 0x81] @ '': ''"

definition login_timeout_text :: string where
  "login_timeout_text =
    [CHR 0xE4, CHR 0xBA, CHR 0x8C, CHR 0xE7, CHR 0xBB, CHR 0xB4, CHR 0xE7, CHR 0xA0, CHR 0x81, CHR 0xE7, CHR 0xAD,
     CHR 0x89, CHR 0xE5, CHR 0xBE, CHR 0x85, CHR 0xE8, CHR 0xB6, CHR 0x85, CHR 0xE6, CHR 0x97, CHR 0xB6] @ '' (300''
     @ [CHR 0xE7, CHR 0xA7, CHR 0x92] @ '')''"

definition login_done_text :: string where
  "login_done_text =
    [CHR 0xE2, CHR 0x9C, CHR 0x93] @ '' '' @ [CHR 0xE7, CHR 0x99, CHR 0xBB, CHR 0xE5, CHR 0xBD, CHR 0x95, CHR 0xE6,
     CHR 0x88, CHR 0x90, CHR 0xE5, CHR 0x8A, CHR 0x9F, CHR 0xEF, CHR 0xBC, CHR 0x81]"

definition account_saved_text :: string where
  "account_saved_text =
    [CHR 0xE8, CHR 0xB4, CHR 0xA6, CHR 0xE6, CHR 0x88, CHR 0xB7, CHR 0xE4, CHR 0xBF, CHR 0xA1, CHR 0xE6, CHR 0x81,
     CHR 0xAF, CHR 0xE5, CHR 0xB7, CHR 0xB2, CHR 0xE4, CHR 0xBF, CHR 0x9D, CHR 0xE5, CHR 0xAD, CHR 0x98, CHR 0xE5,
     CHR 0x88, CHR 0xB0] @ '': ''"

definition start_daemon_text :: string where
  "start_daemon_text =
    [CHR 0x0A, CHR 0xE7, CHR 0x8E, CHR 0xB0, CHR 0xE5, CHR 0x9C, CHR 0xA8, CHR 0xE5, CHR 0x8F, CHR 0xAF, CHR 0xE4,
     CHR 0xBB, CHR 0xA5, CHR 0xE8, CHR 0xBF, CHR 0x90, CHR 0xE8, CHR 0xA1, CHR 0x8C, CHR 0xE4, CHR 0xBB, CHR 0xA5,
     CHR 0xE4, CHR 0xB8, CHR 0x8B, CHR 0xE5, CHR 0x91, CHR 0xBD, CHR 0xE4, CHR 0xBB, CHR 0xA4, CHR 0xE5, CHR 0x90,
     CHR 0xAF, CHR 0xE5, CHR 0x8A, CHR 0xA8] @ '' daemon:''"

definition login_site :: string where
  "login_site = ''https://ilinkai.weixin.qq.com''"

section \<open>Waiting for the confirmation\<close>

record login_grant =
  lg_token :: string
  lg_base_url :: string
  lg_account_id :: "string option"
  lg_user_id :: "string option"

definition close_qr_popup :: "'w cli_io \<Rightarrow> bool \<Rightarrow> 'w \<Rightarrow> 'w" where
  "close_qr_popup io popup w = (if popup then ci_close_popup io w else w)"

text \<open>One answer: the end of the wait, or \<open>None\<close> to go on.\<close>

definition login_status ::
  "'w cli_io \<Rightarrow> bool \<Rightarrow> ilink_qrcode_status_response \<Rightarrow> 'w \<Rightarrow> (string + login_grant) option \<times> 'w" where
  "login_status io popup resp w =
     (let status = or_else ''wait'' (qs_status resp) in
      if status = ''wait'' \<or> status = ''waiting'' then (None, ci_out io ''.'' w)
      else if status = ''scaned'' \<or> status = ''scanned'' then (None, println io scanned_text w)
      else if status = ''expired'' then (Some (Err qr_expired_text), close_qr_popup io popup w)
      else if status = ''confirmed'' then
        (case qs_bot_token resp of
           None \<Rightarrow> (Some (Err no_bot_token_text), w)
         | Some t \<Rightarrow>
             (Some (Ok \<lparr> lg_token = t, lg_base_url = or_else login_site (qs_baseurl resp),
                lg_account_id = qs_ilink_bot_id resp, lg_user_id = qs_ilink_user_id resp \<rparr>),
              close_qr_popup io popup (println io scan_done_text w)))
      else (None, println io (status_text @ status) w))"

function login_wait ::
  "'w cli_io \<Rightarrow> 'w ilink_http \<Rightarrow> string \<Rightarrow> bool \<Rightarrow> nat \<Rightarrow> 'w \<Rightarrow> (string + login_grant) \<times> 'w" where
  "login_wait io hp qrcode popup elapsed w =
     (let (r, w1) = get_qrcode_status hp login_site qrcode (ci_sleep io 2 w);
          (d, w2) = (case r of Ok resp \<Rightarrow> login_status io popup resp w1 | Err _ \<Rightarrow> (None, w1))
      in case d of
           Some res \<Rightarrow> (res, w2)
         | None \<Rightarrow>
             if 300 \<le> elapsed + 2 then (Err login_timeout_text, close_qr_popup io popup w2)
             else login_wait io hp qrcode popup (elapsed + 2) w2)"
  by pat_completeness auto
termination by (relation "measure (\<lambda>(io, hp, qrcode, popup, elapsed, w). 300 - elapsed)") auto

declare login_wait.simps [simp del]

section \<open>The command\<close>

definition save_account ::
  "'w cli_io \<Rightarrow> string \<Rightarrow> wechat_login_command \<Rightarrow> login_grant \<Rightarrow> 'w \<Rightarrow> (string + unit) \<times> 'w" where
  "save_account io data_dir cmd g w =
     (let account_id = (case wl_account_id cmd of Some i \<Rightarrow> i | None \<Rightarrow> or_else ''unknown_account_id'' (lg_account_id g));
          (now, w1) = ci_timestamp io w;
          account = \<lparr> wa_token = lg_token g, wa_base_url = lg_base_url g, wa_account_id = account_id,
            wa_user_id = lg_user_id g, wa_saved_at = Some now \<rparr>;
          path = path_join data_dir ''account.json'';
          n = min 20 (length (lg_token g)) in
      case ci_write_file io path (ci_account_text io account @ nl) w1 of
        (Err e, w2) \<Rightarrow> (Err e, w2)
      | (Ok _, w2) \<Rightarrow>
          (let w3 = println io (account_saved_text @ path) (println io login_done_text w2) in
           if \<not> is_char_boundary (lg_token g) n then (Err ''byte index 20 is not a char boundary'', w3)
           else (Ok (), fold (println io)
             [''  token: '' @ take n (lg_token g) @ ''...'', ''  baseUrl: '' @ lg_base_url g, ''  accountId: '' @ account_id,
              start_daemon_text, ''  scripts/daemon-up.sh''] w3)))"

definition show_qr_code ::
  "'w cli_io \<Rightarrow> string \<Rightarrow> ilink_qrcode_response \<Rightarrow> 'w \<Rightarrow> (string + bool) \<times> 'w" where
  "show_qr_code io data_dir code w =
     (let scan_value = or_else (iq_qrcode code) (iq_qrcode_img_content code);
          path = path_join data_dir ''qrcode.png'' in
      case ci_qr_image io scan_value path w of
        (Err e, w1) \<Rightarrow> (Err e, w1)
      | (Ok _, w1) \<Rightarrow>
          (let (popup, w2) = ci_popup io path (println io (qr_saved_text @ path) w1);
               w3 = (if popup then println io popup_text w2 else w2)
           in (Ok popup, fold (println io)
                [scan_head_text, qr_id_text @ iq_qrcode code, scan_link_text @ scan_value, qr_path_text @ path,
                 scan_foot_text, waiting_text] w3)))"

definition login_dir :: "'w cli_deps \<Rightarrow> wechat_login_command \<Rightarrow> 'w \<Rightarrow> string" where
  "login_dir dp cmd w = (case wl_data_dir cmd of Some d \<Rightarrow> d | None \<Rightarrow> default_wechat_data_dir dp w)"

definition run_wechat_login ::
  "'w cli_deps \<Rightarrow> 'w cli_io \<Rightarrow> 'w ilink_http \<Rightarrow> wechat_login_command \<Rightarrow> 'w \<Rightarrow> (string + unit) \<times> 'w" where
  "run_wechat_login dp io hp cmd w =
     (let data_dir = login_dir dp cmd w in
      case ci_mkdir io data_dir w of
        (Err e, w1) \<Rightarrow> (Err e, w1)
      | (Ok _, w1) \<Rightarrow>
          (case get_bot_qrcode hp login_site (println io fetching_text w1) of
             (Err e, w2) \<Rightarrow> (Err e, w2)
           | (Ok code, w2) \<Rightarrow>
               (case show_qr_code io data_dir code w2 of
                  (Err e, w3) \<Rightarrow> (Err e, w3)
                | (Ok popup, w3) \<Rightarrow>
                    (case login_wait io hp (iq_qrcode code) popup 0 w3 of
                       (Err e, w4) \<Rightarrow> (Err e, w4)
                     | (Ok g, w4) \<Rightarrow> save_account io data_dir cmd g (println io nl w4)))))"

section \<open>Lemmas\<close>

lemma println_files: "(\<And>s w. files (ci_out io s w) = files w) \<Longrightarrow> files (println io s w) = files w"
  by (simp add: println_def)

lemma fold_println_files: "(\<And>s w. files (ci_out io s w) = files w) \<Longrightarrow> files (fold (println io) ss w) = files w"
  by (induction ss arbitrary: w) (simp_all add: println_def)

text \<open>A grant comes from an answer that confirms the code.\<close>

definition granted_by :: "login_grant \<Rightarrow> ilink_qrcode_status_response \<Rightarrow> bool" where
  "granted_by g resp \<longleftrightarrow> qs_status resp = Some ''confirmed'' \<and> qs_bot_token resp = Some (lg_token g) \<and>
     lg_base_url g = or_else login_site (qs_baseurl resp) \<and> lg_account_id g = qs_ilink_bot_id resp \<and>
     lg_user_id g = qs_ilink_user_id resp"

lemma login_status_granted:
  assumes "login_status io popup resp w = (Some (Ok g), w')"
  shows "granted_by g resp"
proof -
  have "or_else ''wait'' (qs_status resp) = ''confirmed''"
    using assms by (auto simp: login_status_def Let_def split: if_splits)
  then have "qs_status resp = Some ''confirmed''" by (cases "qs_status resp") (simp_all add: or_else_def)
  with assms show ?thesis by (auto simp: login_status_def Let_def or_else_def granted_by_def split: option.splits)
qed

lemma login_wait_granted:
  "login_wait io hp qrcode popup elapsed w = (Ok g, w') \<Longrightarrow>
   \<exists>resp w1 w2. get_qrcode_status hp login_site qrcode w1 = (Ok resp, w2) \<and> granted_by g resp"
proof (induction io hp qrcode popup elapsed w rule: login_wait.induct)
  case (1 io hp qrcode popup elapsed w)
  obtain r w1 where r: "get_qrcode_status hp login_site qrcode (ci_sleep io 2 w) = (r, w1)" by force
  obtain d w2 where d: "(case r of Ok resp \<Rightarrow> login_status io popup resp w1 | Err _ \<Rightarrow> (None, w1)) = (d, w2)" by force
  note run = "1.prems" [unfolded login_wait.simps [of io hp qrcode popup elapsed w] r d Let_def prod.case]
  show ?case
  proof (cases d)
    case (Some res)
    with run d have "r = Ok resp \<Longrightarrow> login_status io popup resp w1 = (Some (Ok g), w2)" for resp by simp
    with d Some r show ?thesis by (cases r) (auto dest: login_status_granted)
  next
    case None
    with run show ?thesis using "1.IH" [OF r [symmetric] refl d [symmetric] refl None] by (simp split: if_splits)
  qed
qed

text \<open>The same input and output with two counters: the seconds of the pauses, and the requests.\<close>

definition counting_io :: "'w cli_io \<Rightarrow> (nat \<times> nat \<times> 'w) cli_io" where
  "counting_io io =
     \<lparr> ci_out = (\<lambda>s (p, q, w). (p, q, ci_out io s w)), ci_err = (\<lambda>s (p, q, w). (p, q, ci_err io s w)),
       ci_mkdir = (\<lambda>d (p, q, w). let (r, w') = ci_mkdir io d w in (r, p, q, w')),
       ci_init_db = (\<lambda>d (p, q, w). let (r, w') = ci_init_db io d w in (r, p, q, w')),
       ci_write_file = (\<lambda>f s (p, q, w). let (r, w') = ci_write_file io f s w in (r, p, q, w')),
       ci_qr_image = (\<lambda>s f (p, q, w). let (r, w') = ci_qr_image io s f w in (r, p, q, w')),
       ci_popup = (\<lambda>f (p, q, w). let (r, w') = ci_popup io f w in (r, p, q, w')),
       ci_close_popup = (\<lambda>(p, q, w). (p, q, ci_close_popup io w)),
       ci_sleep = (\<lambda>n (p, q, w). (p + n, q, ci_sleep io n w)),
       ci_timestamp = (\<lambda>(p, q, w). let (r, w') = ci_timestamp io w in (r, p, q, w')),
       ci_account_text = ci_account_text io \<rparr>"

definition counting_http :: "'w ilink_http \<Rightarrow> (nat \<times> nat \<times> 'w) ilink_http" where
  "counting_http hp =
     \<lparr> ih_post = (\<lambda>url hs t body (p, q, w). let (r, w') = ih_post hp url hs t body w in (r, p, Suc q, w')),
       ih_get = (\<lambda>url hs (p, q, w). let (r, w') = ih_get hp url hs w in (r, p, Suc q, w')),
       ih_json = ih_json hp, ih_updates = ih_updates hp, ih_qrcode = ih_qrcode hp, ih_qrcode_status = ih_qrcode_status hp,
       ih_status_text = ih_status_text hp, ih_header_ok = ih_header_ok hp, ih_b64 = ih_b64 hp,
       ih_random = (\<lambda>(p, q, w). let (r, w') = ih_random hp w in (r, p, q, w')),
       ih_uuid = (\<lambda>(p, q, w). let (r, w') = ih_uuid hp w in (r, p, q, w')),
       ih_uuid_simple = (\<lambda>(p, q, w). let (r, w') = ih_uuid_simple hp w in (r, p, q, w')),
       ih_now_ms = (\<lambda>(p, q, w). let (r, w') = ih_now_ms hp w in (r, p, q, w')) \<rparr>"

lemma counting_http_same:
  "ih_status_text (counting_http hp) = ih_status_text hp" "ih_qrcode_status (counting_http hp) = ih_qrcode_status hp"
  by (simp_all add: counting_http_def)

lemma counting_status:
  "get_qrcode_status (counting_http hp) url code (p, q, w) =
     (fst (get_qrcode_status hp url code w), p, Suc q, snd (get_qrcode_status hp url code w))"
  unfolding get_qrcode_status_def qr_reply_def counting_http_same by (simp add: counting_http_def split_beta)

lemma counting_answer:
  "login_status (counting_io io) popup resp (p, q, w) =
     (fst (login_status io popup resp w), p, q, snd (login_status io popup resp w))"
  by (simp add: login_status_def counting_io_def println_def close_qr_popup_def Let_def split: option.split)

lemma login_status_no_timeout: "fst (login_status io popup resp w) \<noteq> Some (Err login_timeout_text)"
  by (auto simp: login_status_def Let_def qr_expired_text_def no_bot_token_text_def login_timeout_text_def split: option.split)

lemma counted_wait:
  assumes "elapsed < 300" and "even elapsed"
  shows "\<exists>n. 1 \<le> n \<and> elapsed + 2 * n \<le> 300 \<and>
    login_wait (counting_io io) (counting_http hp) qrcode popup elapsed (p, q, w) =
      (fst (login_wait io hp qrcode popup elapsed w), p + 2 * n, q + n, snd (login_wait io hp qrcode popup elapsed w)) \<and>
    (fst (login_wait io hp qrcode popup elapsed w) = Err login_timeout_text \<longrightarrow> elapsed + 2 * n = 300)"
  using assms
proof (induction "300 - elapsed" arbitrary: elapsed p q w rule: less_induct)
  case less
  obtain r w1 where r: "get_qrcode_status hp login_site qrcode (ci_sleep io 2 w) = (r, w1)" by force
  obtain d w2 where d: "(case r of Ok resp \<Rightarrow> login_status io popup resp w1 | Err _ \<Rightarrow> (None, w1)) = (d, w2)" by force
  note run = login_wait.simps [of io hp qrcode popup elapsed w, unfolded r d Let_def prod.case]
  have sleep: "ci_sleep (counting_io io) 2 (p, q, w) = (p + 2, q, ci_sleep io 2 w)" by (simp add: counting_io_def)
  have ask: "get_qrcode_status (counting_http hp) login_site qrcode (p + 2, q, ci_sleep io 2 w) = (r, p + 2, Suc q, w1)"
    by (simp add: counting_status r)
  have answer: "(case r of Ok resp \<Rightarrow> login_status (counting_io io) popup resp (p + 2, Suc q, w1) | Err _ \<Rightarrow> (None, p + 2, Suc q, w1)) =
      (d, p + 2, Suc q, w2)"
    using d by (cases r) (auto simp: counting_answer)
  have no_timeout: "d \<noteq> Some (Err login_timeout_text)"
    using d login_status_no_timeout [of io popup _ w1] by (cases r) (auto, metis fst_conv)
  note crun = login_wait.simps [of "counting_io io" "counting_http hp" qrcode popup elapsed "(p, q, w)",
      unfolded sleep ask answer Let_def prod.case]
  have room: "elapsed + 2 \<le> 300" using less.prems by presburger
  show ?case
  proof (cases d)
    case (Some res)
    with run crun room no_timeout show ?thesis by (intro exI [of _ 1]) simp
  next
    case None
    show ?thesis
    proof (cases "300 \<le> elapsed + 2")
      case True
      with None run crun room show ?thesis
        by (intro exI [of _ 1]) (simp add: close_qr_popup_def counting_io_def)
    next
      case False
      then have "300 - (elapsed + 2) < 300 - elapsed" "elapsed + 2 < 300" "even (elapsed + 2)" using less.prems by auto
      from less.hyps [OF this, of "p + 2" "Suc q" w2] obtain n where "1 \<le> n" "elapsed + 2 + 2 * n \<le> 300"
        "login_wait (counting_io io) (counting_http hp) qrcode popup (elapsed + 2) (p + 2, Suc q, w2) =
          (fst (login_wait io hp qrcode popup (elapsed + 2) w2), p + 2 + 2 * n, Suc q + n, snd (login_wait io hp qrcode popup (elapsed + 2) w2))"
        "fst (login_wait io hp qrcode popup (elapsed + 2) w2) = Err login_timeout_text \<longrightarrow> elapsed + 2 + 2 * n = 300" by blast
      with None False run crun show ?thesis by (intro exI [of _ "Suc n"]) simp
    qed
  qed
qed

section \<open>Properties\<close>

text \<open>
  C21. The login ends, whatever the platform answers: it asks at least once and at most 150 times, each time after
  a pause of two seconds, so that it pauses for at most five minutes, and it gives up with the timeout only when they are
  over. Counting pauses and requests changes nothing else. What the requests themselves take is not bounded.
\<close>

theorem login_wait_bounded:
  "\<exists>n. 1 \<le> n \<and> n \<le> 150 \<and>
    login_wait (counting_io io) (counting_http hp) qrcode popup 0 (p, q, w) =
      (fst (login_wait io hp qrcode popup 0 w), p + 2 * n, q + n, snd (login_wait io hp qrcode popup 0 w)) \<and>
    (if fst (login_wait io hp qrcode popup 0 w) = Err login_timeout_text then n = 150 else n \<le> 150)"
proof -
  obtain n where "1 \<le> n" "2 * n \<le> 300" "login_wait (counting_io io) (counting_http hp) qrcode popup 0 (p, q, w) =
      (fst (login_wait io hp qrcode popup 0 w), p + 2 * n, q + n, snd (login_wait io hp qrcode popup 0 w))"
    "fst (login_wait io hp qrcode popup 0 w) = Err login_timeout_text \<longrightarrow> 2 * n = 300"
    using counted_wait [of 0 io hp qrcode popup p q w] by auto
  then show ?thesis by (intro exI [of _ n]) auto
qed

text \<open>A platform that gives one answer.\<close>

definition answering :: "ilink_qrcode_status_response \<Rightarrow> 'w ilink_http" where
  "answering resp = \<lparr> ih_post = (\<lambda>url hs t body w. (Err (OtherFailure ''x''), w)), ih_get = (\<lambda>url hs w. (Ok (200, Ok ''{}''), w)),
     ih_json = (\<lambda>s. Err ''x''), ih_updates = (\<lambda>s. Err ''x''),
     ih_qrcode = (\<lambda>s. Ok \<lparr> iq_ret = 0, iq_errcode = None, iq_errmsg = None, iq_qrcode = ''q'', iq_qrcode_img_content = None \<rparr>),
     ih_qrcode_status = (\<lambda>s. Ok resp), ih_status_text = (\<lambda>n. ''x''), ih_header_ok = (\<lambda>s. True), ih_b64 = (\<lambda>b. ''x''),
     ih_random = (\<lambda>w. (0, w)), ih_uuid = (\<lambda>w. (''x'', w)), ih_uuid_simple = (\<lambda>w. (''x'', w)), ih_now_ms = (\<lambda>w. (0, w)) \<rparr>"

definition qr_answer :: "string option \<Rightarrow> string option \<Rightarrow> ilink_qrcode_status_response" where
  "qr_answer status token = \<lparr> qs_ret = 0, qs_errcode = None, qs_errmsg = None, qs_status = status, qs_bot_token = token,
     qs_baseurl = None, qs_ilink_bot_id = Some ''b'', qs_ilink_user_id = Some ''u'' \<rparr>"

text \<open>
  C20. A login that succeeds was confirmed by the platform and is usable: the data directory then holds
  an account file, and reading it as the commands do gives the bot token, address and user of the
  answer that confirmed the code, with the account id of \<open>--account-id\<close> when there is one. The file
  system keeps what was written, output does not change it, and an account is read back as written.
\<close>

theorem login_saves_account:
  assumes reads: "\<And>p w c. files w p = Some c \<Longrightarrow> cd_read_file dp p w = (Ok c, w)"
    and writes: "\<And>p c w w1. ci_write_file io p c w = (Ok (), w1) \<Longrightarrow> files w1 p = Some c"
    and prints: "\<And>s w. files (ci_out io s w) = files w"
    and parses: "\<And>a. cd_account dp (ci_account_text io a @ nl) = Ok a"
    and run: "run_wechat_login dp io hp cmd w = (Ok (), w')"
  shows "\<exists>code resp w1 w2 a. get_qrcode_status hp login_site code w1 = (Ok resp, w2) \<and>
    qs_status resp = Some ''confirmed'' \<and> qs_bot_token resp = Some (wa_token a) \<and>
    wa_base_url a = or_else login_site (qs_baseurl resp) \<and> wa_user_id a = qs_ilink_user_id resp \<and>
    wa_account_id a = (case wl_account_id cmd of Some i \<Rightarrow> i | None \<Rightarrow> or_else ''unknown_account_id'' (qs_ilink_bot_id resp)) \<and>
    load_account dp (login_dir dp cmd w) w' = (Ok a, w')"
proof -
  from run obtain code :: ilink_qrcode_response and popup w3 g w4 where wait: "login_wait io hp (iq_qrcode code) popup 0 w3 = (Ok g, w4)"
    and save: "save_account io (login_dir dp cmd w) cmd g (println io nl w4) = (Ok (), w')"
    by (auto simp: run_wechat_login_def Let_def split: prod.splits sum.splits)
  from login_wait_granted [OF wait] obtain resp w1 w2 where resp:
    "get_qrcode_status hp login_site (iq_qrcode code) w1 = (Ok resp, w2)" "granted_by g resp" by blast
  let ?id = "case wl_account_id cmd of Some i \<Rightarrow> i | None \<Rightarrow> or_else ''unknown_account_id'' (lg_account_id g)"
  let ?path = "path_join (login_dir dp cmd w) ''account.json''"
  obtain now w5 where now: "ci_timestamp io (println io nl w4) = (now, w5)" by force
  let ?a = "\<lparr> wa_token = lg_token g, wa_base_url = lg_base_url g, wa_account_id = ?id, wa_user_id = lg_user_id g,
    wa_saved_at = Some now \<rparr>"
  obtain q w6 where q: "ci_write_file io ?path (ci_account_text io ?a @ nl) w5 = (q, w6)" by force
  note saved = save [unfolded save_account_def Let_def now q prod.case]
  from saved have "q = Ok ()" by (cases q) auto
  with q writes have w6: "files w6 ?path = Some (ci_account_text io ?a @ nl)" by blast
  have "files w' = files w6"
    using saved \<open>q = Ok ()\<close> by (auto simp: println_files [OF prints] fold_println_files [OF prints] simp del: fold.simps split: if_splits)
  with w6 reads have loaded: "load_account dp (login_dir dp cmd w) w' = (Ok ?a, w')"
    by (simp add: load_account_def parses)
  show ?thesis
    by (rule exI [of _ "iq_qrcode code"], rule exI [of _ resp], rule exI [of _ w1], rule exI [of _ w2], rule exI [of _ ?a])
      (use resp loaded in \<open>auto simp: granted_by_def split: option.split\<close>)
qed

text \<open>A map as the file system, a format for accounts, and a platform that confirms.\<close>

fun write_str :: "string \<Rightarrow> string" where
  "write_str [] = ''0''"
| "write_str (c # cs) = CHR ''1'' # c # write_str cs"

fun read_str :: "string \<Rightarrow> string \<times> string" where
  "read_str (x # c # r) = (if x = CHR ''1'' then (let (s, t) = read_str r in (c # s, t)) else ([], c # r))"
| "read_str _ = ([], [])"

lemma read_write_str [simp]: "read_str (write_str s @ t) = (s, t)"
proof (induction s)
  case Nil
  then show ?case by (cases t) simp_all
qed simp

definition write_opt :: "string option \<Rightarrow> string" where
  "write_opt v = (case v of None \<Rightarrow> write_str [] | Some s \<Rightarrow> write_str (CHR ''+'' # s))"

definition plain_account_text :: "wechat_account \<Rightarrow> string" where
  "plain_account_text a = write_str (wa_token a) @ write_str (wa_base_url a) @ write_str (wa_account_id a) @
     write_opt (wa_user_id a) @ write_opt (wa_saved_at a)"

definition plain_account :: "string \<Rightarrow> string + wechat_account" where
  "plain_account s =
     (let (t, s1) = read_str s; (b, s2) = read_str s1; (i, s3) = read_str s2; (u, s4) = read_str s3; (d, s5) = read_str s4;
          opt = (\<lambda>x. if x = [] then None else Some (tl x))
      in Ok \<lparr> wa_token = t, wa_base_url = b, wa_account_id = i, wa_user_id = opt u, wa_saved_at = opt d \<rparr>)"

lemma plain_account_roundtrip: "plain_account (plain_account_text a @ t) = Ok a"
  by (cases a) (simp add: plain_account_def plain_account_text_def write_opt_def del: write_str.simps split: option.split)

definition filing_io :: "(string \<rightharpoonup> string) cli_io" where
  "filing_io = \<lparr> ci_out = (\<lambda>s w. w), ci_err = (\<lambda>s w. w), ci_mkdir = (\<lambda>p w. (Ok (), w)), ci_init_db = (\<lambda>p w. (Ok (), w)),
     ci_write_file = (\<lambda>p s w. (Ok (), w(p \<mapsto> s))), ci_qr_image = (\<lambda>s p w. (Ok (), w)), ci_popup = (\<lambda>p w. (False, w)),
     ci_close_popup = (\<lambda>w. w), ci_sleep = (\<lambda>n w. w), ci_timestamp = (\<lambda>w. (''now'', w)),
     ci_account_text = plain_account_text \<rparr>"

definition filing_cli :: "(string \<rightharpoonup> string) cli_deps" where
  "filing_cli = \<lparr> cd_env = (\<lambda>v. None), cd_exists = (\<lambda>p w. False), cd_is_dir = (\<lambda>p w. True),
     cd_read_file = (\<lambda>p w. (case w p of Some c \<Rightarrow> Ok c | None \<Rightarrow> Err ''no file'', w)), cd_account = plain_account,
     cd_open_tokens = (\<lambda>p w. (Err (StoreDb ''locked''), w)), cd_keys = (\<lambda>m. []), cd_parse = (\<lambda>s. Err ''no json'') \<rparr>"

lemma filing_login:
  "fst (run_wechat_login filing_cli filing_io (answering (qr_answer (Some ''confirmed'') (Some ''tok'')))
     \<lparr> wl_data_dir = Some ''d'', wl_account_id = None \<rparr> Map.empty) = Ok ()"
  by code_simp

theorem login_saves_account_witness:
  "\<exists>a w'. run_wechat_login filing_cli filing_io (answering (qr_answer (Some ''confirmed'') (Some ''tok'')))
     \<lparr> wl_data_dir = Some ''d'', wl_account_id = None \<rparr> Map.empty = (Ok (), w') \<and>
     fst (load_account filing_cli ''d'' w') = Ok a \<and> wa_token a = ''tok'' \<and> wa_base_url a = login_site \<and> wa_account_id a = ''b''"
proof -
  let ?cmd = "\<lparr> wl_data_dir = Some ''d'', wl_account_id = None \<rparr>" and ?resp = "qr_answer (Some ''confirmed'') (Some ''tok'')"
  obtain w' where run: "run_wechat_login filing_cli filing_io (answering ?resp) ?cmd Map.empty = (Ok (), w')"
    using filing_login by (metis prod.collapse)
  have status: "get_qrcode_status (answering ?resp) url q w = (Ok resp, w1) \<Longrightarrow> resp = ?resp" for url q w resp w1
    by (auto simp: get_qrcode_status_def answering_def qr_reply_def qr_answer_def split: if_splits sum.splits)
  have dir: "login_dir filing_cli ?cmd w = ''d''" for w by (simp add: login_dir_def)
  have "\<exists>code resp (w1 :: string \<rightharpoonup> string) w2 a. get_qrcode_status (answering ?resp) login_site code w1 = (Ok resp, w2) \<and>
    qs_status resp = Some ''confirmed'' \<and> qs_bot_token resp = Some (wa_token a) \<and>
    wa_base_url a = or_else login_site (qs_baseurl resp) \<and> wa_user_id a = qs_ilink_user_id resp \<and>
    wa_account_id a = (case wl_account_id ?cmd of Some i \<Rightarrow> i | None \<Rightarrow> or_else ''unknown_account_id'' (qs_ilink_bot_id resp)) \<and>
    load_account filing_cli (login_dir filing_cli ?cmd Map.empty) w' = (Ok a, w')"
    by (rule login_saves_account [where files = id, OF _ _ _ _ run])
      (auto simp: filing_cli_def filing_io_def plain_account_roundtrip)
  then obtain code resp w2 and w1 :: "string \<rightharpoonup> string" and a :: wechat_account where
    a: "get_qrcode_status (answering ?resp) login_site code w1 = (Ok resp, w2)" "qs_bot_token resp = Some (wa_token a)"
      "wa_base_url a = or_else login_site (qs_baseurl resp)"
      "wa_account_id a = or_else ''unknown_account_id'' (qs_ilink_bot_id resp)"
      "load_account filing_cli ''d'' w' = (Ok a, w')"
    unfolding dir by auto
  from status [OF a(1)] a(2-4) have "wa_token a = ''tok''" "wa_base_url a = login_site" "wa_account_id a = ''b''"
    by (simp_all add: qr_answer_def or_else_def)
  with run a(5) show ?thesis by (intro exI [of _ a] exI [of _ w']) simp
qed

end
