(* ===== verification/Runtime.thy ===== *)
theory Runtime
  imports Cli_Config Cli_Parser Cli_Agent Dingtalk Channels
begin

text \<open>
  The parts of the daemon that are not a component of their own: \<open>src/daemon/singleton.rs\<close>,
  \<open>AppRuntime::new\<close> of \<open>src/infrastructure/runtime.rs\<close>, which opens the stores and assembles the
  components of the other theories, and \<open>src/infrastructure/daily_logger.rs\<close>.

  The operating system comes from outside: directories, advisory file locks, opening databases,
  files and clocks.
\<close>

section \<open>One instance\<close>

record 'w lock_io =
  lk_mkdir :: "string \<Rightarrow> 'w \<Rightarrow> (string + unit) \<times> 'w"
  lk_open :: "string \<Rightarrow> 'w \<Rightarrow> (string + unit) \<times> 'w"
  lk_try :: "string \<Rightarrow> 'w \<Rightarrow> (string + unit) \<times> 'w"
  lk_truncate :: "string \<Rightarrow> 'w \<Rightarrow> 'w"
  lk_append :: "string \<Rightarrow> string \<Rightarrow> 'w \<Rightarrow> 'w"
  lk_close :: "string \<Rightarrow> 'w \<Rightarrow> 'w"
  lk_pid :: nat
  lk_cwd :: "'w \<Rightarrow> string + string"

definition lock_dir :: "string \<Rightarrow> string" where
  "lock_dir db_path = (case path_parent db_path of Some p \<Rightarrow> if p = [] then ''.'' else p | None \<Rightarrow> ''.'')"

definition lock_path :: "string \<Rightarrow> string" where
  "lock_path db_path = path_join (lock_dir db_path) ''magiclaw.instance.lock''"

text \<open>
  The guard is the open file: it is closed, and its lock given up, when the function fails. The lines
  are written one after the other, the directory of the process is asked for in between.
\<close>

definition acquire_singleton :: "'w lock_io \<Rightarrow> string \<Rightarrow> string \<Rightarrow> 'w \<Rightarrow> (string + unit) \<times> 'w" where
  "acquire_singleton lk mode db_path w =
     (case lk_mkdir lk (lock_dir db_path) w of
        (Err e, w1) \<Rightarrow> (Err e, w1)
      | (Ok _, w1) \<Rightarrow>
          (let path = lock_path db_path in
           case lk_open lk path w1 of
             (Err e, w2) \<Rightarrow> (Err e, w2)
           | (Ok _, w2) \<Rightarrow>
               (case lk_try lk path w2 of
                  (Err e, w3) \<Rightarrow>
                    (Err (mode @ '' mode refused: another magiclaw instance is already running (lock: '' @ path @ '') ('' @ e @ '')''),
                     lk_close lk path w3)
                | (Ok _, w3) \<Rightarrow>
                    (let w4 = lk_append lk path (''pid='' @ show_nat (lk_pid lk) @ nl) (lk_truncate lk path w3);
                         w5 = lk_append lk path (''mode='' @ mode @ nl) w4 in
                     case lk_cwd lk w5 of
                       Err e \<Rightarrow> (Err e, lk_close lk path w5)
                     | Ok d \<Rightarrow> (Ok (), lk_append lk path (''cwd='' @ d @ nl) w5)))))"

section \<open>The runtime\<close>

definition pool_size :: "(string \<Rightarrow> string option) \<Rightarrow> nat option \<Rightarrow> nat" where
  "pool_size env threads =
     (case env ''MAGICLAW_DB_POOL_SIZE'' of
        Some s \<Rightarrow> max 1 (or_else 4 (parse_u64 s))
      | None \<Rightarrow> max 4 (or_else 4 threads))"

record 'w storage_io =
  st_mkdir :: "string \<Rightarrow> 'w \<Rightarrow> (string + unit) \<times> 'w"
  st_threads :: "nat option"
  st_pool :: "string \<Rightarrow> nat \<Rightarrow> 'w \<Rightarrow> (string + unit) \<times> 'w"
  st_sync :: "string \<Rightarrow> 'w \<Rightarrow> (store_error + 'w sync_ops) \<times> 'w"
  st_tokens :: "string \<Rightarrow> 'w \<Rightarrow> (store_error + 'w token_ops) \<times> 'w"

definition make_db_dir :: "(string \<Rightarrow> 'w \<Rightarrow> (string + unit) \<times> 'w) \<Rightarrow> string \<Rightarrow> 'w \<Rightarrow> (string + unit) \<times> 'w" where
  "make_db_dir mkdir db_path w =
     (if db_path = '':memory:'' then (Ok (), w)
      else (case path_parent db_path of
              Some p \<Rightarrow> if p = [] then (Ok (), w) else mkdir p w
            | None \<Rightarrow> (Ok (), w)))"

text \<open>A channel that does not use the WeChat session beside the rest of the world.\<close>

definition without_session :: "'w channel \<Rightarrow> (session_state \<times> 'w) channel" where
  "without_session c =
     \<lparr> ch_id = ch_id c, ch_send = (\<lambda>dest content (s, w). let (r, w1) = ch_send c dest content w in (r, s, w1)),
       ch_stop = (\<lambda>(s, w). let (r, w1) = ch_stop c w in (r, s, w1)),
       ch_health = (\<lambda>(s, w). let (r, w1) = ch_health c w in (r, s, w1)) \<rparr>"

text \<open>The DingTalk channel of the runtime is the one of \<open>DingtalkChannel::new\<close>, a skeleton.\<close>

definition dingtalk_skeleton :: "'w dingtalk_http \<Rightarrow> 'w channel" where
  "dingtalk_skeleton dk =
     \<lparr> ch_id = dch_id dingtalk_new, ch_send = (\<lambda>dest content. dingtalk_stub_send dk content), ch_stop = (\<lambda>w. (Ok (), w)),
       ch_health = (\<lambda>w. (Ok (dingtalk_health (dch_mode dingtalk_new)), w)) \<rparr>"

record 'w app_runtime =
  ru_config :: full_config
  ru_store :: conv_store
  ru_wechat :: "'w wechat_channel"
  ru_registry :: "(session_state \<times> 'w) registry"
  ru_backend :: "'w ai_backend"
  ru_backends :: "string \<rightharpoonup> 'w ai_backend"
  ru_ai_gate :: gate
  ru_send_gate :: gate
  ru_sync_store :: "'w sync_ops"
  ru_token_store :: "'w token_ops"

record ('w, 'p) runtime_deps =
  rd_storage :: "'w storage_io"
  rd_env :: "string \<Rightarrow> string option"
  rd_lossy :: "bytes \<Rightarrow> string"
  rd_ilink :: "'w ilink_http"
  rd_files :: "'w media_fs"
  rd_dingtalk :: "'w dingtalk_http"
  rd_feishu :: "('w, 'p) feishu_http"
  rd_agents :: "'w agent_deps"

definition assemble_runtime ::
  "('w, 'p) runtime_deps \<Rightarrow> full_config \<Rightarrow> 'w sync_ops \<Rightarrow> 'w token_ops \<Rightarrow> 'w wechat_channel \<Rightarrow> 'w app_runtime" where
  "assemble_runtime dp cfg sync tokens wechat =
     (let feishu = (\<lambda>c. without_session (feishu_as_channel (rd_feishu dp) (feishu_from_config c)));
          ai = co_ai cfg; agents = map_of (ai_agents ai) in
      \<lparr> ru_config = cfg,
        ru_store = conv_store_new (per_route_buffer (co_backpressure cfg)) (of_nat (co_reorder_window_ms cfg)),
        ru_wechat = wechat,
        ru_registry = runtime_registry (wechat_as_channel (rd_ilink dp) (rd_files dp) wechat)
          (without_session (dingtalk_skeleton (rd_dingtalk dp))) (feishu (co_feishu cfg)) (map feishu (co_feishu_accounts cfg)),
        ru_backend = create_backend (rd_agents dp) (ai_claude_code ai) agents (ai_backend ai),
        ru_backends = backend_map (rd_agents dp) (ai_claude_code ai) agents,
        ru_ai_gate = gate_ai_default, ru_send_gate = gate_send_default, ru_sync_store = sync, ru_token_store = tokens \<rparr>)"

definition app_runtime_new ::
  "('w, 'p) runtime_deps \<Rightarrow> full_config \<Rightarrow> 'w \<Rightarrow> (string + 'w app_runtime \<times> session_state) \<times> 'w" where
  "app_runtime_new dp cfg w =
     (let st = rd_storage dp; db_path = co_db_path cfg in
      case make_db_dir (st_mkdir st) db_path w of
        (Err e, w1) \<Rightarrow> (Err e, w1)
      | (Ok _, w1) \<Rightarrow>
          (case st_pool st db_path (pool_size (rd_env dp) (st_threads st)) w1 of
             (Err e, w2) \<Rightarrow> (Err (''init_db_pool failed: '' @ e), w2)
           | (Ok _, w2) \<Rightarrow>
               (case st_sync st db_path w2 of
                  (Err er, w3) \<Rightarrow> (Err (store_error_display er), w3)
                | (Ok sync, w3) \<Rightarrow>
                    (case st_tokens st db_path w3 of
                       (Err er, w4) \<Rightarrow> (Err (''failed to open context token store: '' @ store_error_display er), w4)
                     | (Ok tokens, w4) \<Rightarrow>
                         (let (wechat, session, w5) = from_config_with_store (rd_lossy dp) (co_wechat cfg) (Some sync) (Some tokens) w4
                          in (Ok (assemble_runtime dp cfg sync tokens wechat, session), w5))))))"

section \<open>The daily log\<close>

record daily_logger =
  dl_dir :: string
  dl_date :: string
  dl_file :: "string option"

record 'w log_io =
  lo_mkdir :: "string \<Rightarrow> 'w \<Rightarrow> (string + unit) \<times> 'w"
  lo_today :: "'w \<Rightarrow> string \<times> 'w"
  lo_time :: "'w \<Rightarrow> string \<times> 'w"
  lo_open :: "string \<Rightarrow> 'w \<Rightarrow> (string + unit) \<times> 'w"
  lo_write :: "string \<Rightarrow> string \<Rightarrow> 'w \<Rightarrow> 'w"

definition daily_logger_new :: "'w log_io \<Rightarrow> string \<Rightarrow> 'w \<Rightarrow> (string + daily_logger) \<times> 'w" where
  "daily_logger_new lo dir w =
     (case lo_mkdir lo dir w of
        (Err e, w1) \<Rightarrow> (Err e, w1)
      | (Ok _, w1) \<Rightarrow> (let (today, w2) = lo_today lo w1 in (Ok \<lparr> dl_dir = dir, dl_date = today, dl_file = None \<rparr>, w2)))"

definition log_path :: "string \<Rightarrow> string \<Rightarrow> string" where
  "log_path dir today = path_join dir (''magiclaw-'' @ today @ ''.log'')"

text \<open>The file of the day, opened when the day has changed or none is open.\<close>

definition get_file :: "'w log_io \<Rightarrow> daily_logger \<times> 'w \<Rightarrow> (string + string) \<times> daily_logger \<times> 'w" where
  "get_file lo lw =
     (let (l, w) = lw; (today, w1) = lo_today lo w;
          l1 = (if today \<noteq> dl_date l then l\<lparr>dl_date := today, dl_file := None\<rparr> else l) in
      case dl_file l1 of
        Some f \<Rightarrow> (Ok f, l1, w1)
      | None \<Rightarrow>
          (let path = log_path (dl_dir l1) today in
           case lo_open lo path w1 of
             (Err e, w2) \<Rightarrow> (Err (''failed to open log file: '' @ e), l1, w2)
           | (Ok _, w2) \<Rightarrow> (Ok path, l1\<lparr>dl_file := Some path\<rparr>, w2)))"

definition log_event :: "'w log_io \<Rightarrow> string \<Rightarrow> daily_logger \<times> 'w \<Rightarrow> daily_logger \<times> 'w" where
  "log_event lo event lw =
     (let (l, w) = lw; (ts, w1) = lo_time lo w in
      case get_file lo (l, w1) of
        (Err e, l2, w2) \<Rightarrow> (l2, w2)
      | (Ok f, l2, w2) \<Rightarrow> (l2, lo_write lo f (''['' @ ts @ ''] '' @ event @ nl) w2))"

definition log_token_refresh :: "'w log_io \<Rightarrow> string \<Rightarrow> nat \<Rightarrow> string \<Rightarrow> daily_logger \<times> 'w \<Rightarrow> daily_logger \<times> 'w" where
  "log_token_refresh lo peer_id old_age_secs source =
     log_event lo (''TOKEN_REFRESH peer_id='' @ peer_id @ '' old_age_secs='' @ show_nat old_age_secs @ '' source='' @ source)"

definition log_send_failure :: "'w log_io \<Rightarrow> string \<Rightarrow> int \<Rightarrow> string \<Rightarrow> daily_logger \<times> 'w \<Rightarrow> daily_logger \<times> 'w" where
  "log_send_failure lo peer_id error_code error_msg =
     log_event lo (''SEND_FAILURE peer_id='' @ peer_id @ '' errcode='' @ show_int error_code @ '' errmsg='' @ error_msg)"

definition log_session_expired :: "'w log_io \<Rightarrow> nat \<Rightarrow> nat \<Rightarrow> daily_logger \<times> 'w \<Rightarrow> daily_logger \<times> 'w" where
  "log_session_expired lo session_retries limit =
     log_event lo (''SESSION_EXPIRED retries='' @ show_nat session_retries @ ''/'' @ show_nat limit)"

definition log_probe_error :: "'w log_io \<Rightarrow> string \<Rightarrow> daily_logger \<times> 'w \<Rightarrow> daily_logger \<times> 'w" where
  "log_probe_error lo error = log_event lo (''PROBE_ERROR error='' @ error)"

section \<open>Lemmas\<close>

text \<open>
  What is known of advisory locks: a process gets a lock that no other one holds, a refusal changes
  nothing, and closing the file gives up the own lock. \<open>contents\<close> are the texts of the lock files.
\<close>

definition locks_ok :: "(nat \<Rightarrow> 'w lock_io) \<Rightarrow> ('w \<Rightarrow> string \<Rightarrow> nat option) \<Rightarrow> ('w \<Rightarrow> string \<Rightarrow> string) \<Rightarrow> bool" where
  "locks_ok lk owner contents \<longleftrightarrow> (\<forall>p path text w.
     (\<forall>r w1. lk_try (lk p) path w = (r, w1) \<longrightarrow> contents w1 = contents w \<and>
        (if is_Ok r then owner w path \<in> {None, Some p} \<and> owner w1 = (owner w)(path \<mapsto> p) else owner w1 = owner w)) \<and>
     owner (lk_close (lk p) path w) = (if owner w path = Some p then (owner w)(path := None) else owner w) \<and>
     contents (lk_close (lk p) path w) = contents w \<and>
     (\<forall>r w1. lk_mkdir (lk p) path w = (r, w1) \<or> lk_open (lk p) path w = (r, w1) \<longrightarrow>
        owner w1 = owner w \<and> contents w1 = contents w) \<and>
     owner (lk_truncate (lk p) path w) = owner w \<and> owner (lk_append (lk p) path text w) = owner w)"

lemma acquire_owner:
  assumes ok: "locks_ok lk owner contents" and run: "acquire_singleton (lk p) mode db w = (r, w')"
  shows "is_Ok r \<Longrightarrow> owner w' (lock_path db) = Some p"
    and "owner w (lock_path db) = Some q \<Longrightarrow> q \<noteq> p \<Longrightarrow> \<not> is_Ok r \<and> owner w' = owner w \<and> contents w' = contents w"
proof -
  let ?path = "lock_path db"
  have *: "(is_Ok r \<longrightarrow> owner w' ?path = Some p) \<and>
    (\<forall>q. owner w ?path = Some q \<and> q \<noteq> p \<longrightarrow> \<not> is_Ok r \<and> owner w' = owner w \<and> contents w' = contents w)"
  proof -
    obtain a w1 where a: "lk_mkdir (lk p) (lock_dir db) w = (a, w1)" by force
    obtain b w2 where b: "lk_open (lk p) ?path w1 = (b, w2)" by force
    obtain c w3 where c: "lk_try (lk p) ?path w2 = (c, w3)" by force
    have same: "owner w1 = owner w" "contents w1 = contents w" "owner w2 = owner w" "contents w2 = contents w"
      using ok a b unfolding locks_ok_def by metis+
    have tried: "contents w3 = contents w" "if is_Ok c then owner w ?path \<in> {None, Some p} \<and> owner w3 = (owner w)(?path \<mapsto> p)
        else owner w3 = owner w"
      using ok c same unfolding locks_ok_def by metis+
    have keep: "owner (lk_close (lk p) ?path v) = (if owner v ?path = Some p then (owner v)(?path := None) else owner v)"
      "contents (lk_close (lk p) ?path v) = contents v" "owner (lk_truncate (lk p) ?path v) = owner v"
      "owner (lk_append (lk p) ?path t v) = owner v" for v t
      using ok unfolding locks_ok_def by metis+
    note start = run [unfolded acquire_singleton_def a b c Let_def prod.case]
    show ?thesis
    proof (cases "is_Ok a \<and> is_Ok b")
      case False
      with start same show ?thesis by (auto simp: is_Ok_def split: sum.splits)
    next
      case True
      then have ab: "a = Ok ()" "b = Ok ()" by (auto simp: is_Ok_def split: sum.splits)
      show ?thesis
      proof (cases c)
        case (Inl e)
        with start ab tried keep same show ?thesis by (auto simp: is_Ok_def)
      next
        case (Inr u)
        then have u: "owner w ?path \<in> {None, Some p}" "owner w3 = (owner w)(?path \<mapsto> p)" using tried by (simp_all add: is_Ok_def)
        with start ab Inr keep show ?thesis by (auto simp: is_Ok_def split: sum.splits)
      qed
    qed
  qed
  show "is_Ok r \<Longrightarrow> owner w' (lock_path db) = Some p"
    and "owner w (lock_path db) = Some q \<Longrightarrow> q \<noteq> p \<Longrightarrow> \<not> is_Ok r \<and> owner w' = owner w \<and> contents w' = contents w"
    using * by auto
qed

text \<open>Starts of processes one after the other, each with its mode and database.\<close>

fun starts :: "(nat \<Rightarrow> 'w lock_io) \<Rightarrow> (nat \<times> string \<times> string) list \<Rightarrow> 'w \<Rightarrow> (string + unit) list \<times> 'w" where
  "starts lk [] w = ([], w)"
| "starts lk ((p, mode, db) # xs) w =
     (let (r, w1) = acquire_singleton (lk p) mode db w; (rs, w2) = starts lk xs w1 in (r # rs, w2))"

lemma starts_refused:
  assumes "locks_ok lk owner contents" and "starts lk xs w = (rs, w')" and "\<forall>(p, mode, db) \<in> set xs. lock_path db = path \<and> p \<noteq> q"
    and "owner w path = Some q"
  shows "list_all (\<lambda>r. \<not> is_Ok r) rs \<and> owner w' = owner w \<and> contents w' = contents w"
  using assms(2-)
proof (induction xs arbitrary: w rs)
  case (Cons x xs)
  obtain p mode db where x: "x = (p, mode, db)" by (cases x)
  obtain r w1 where r: "acquire_singleton (lk p) mode db w = (r, w1)" by force
  obtain rs1 where rs: "starts lk xs w1 = (rs1, w')" "rs = r # rs1" using Cons.prems(1) by (auto simp: x r split: prod.splits)
  have "\<not> is_Ok r \<and> owner w1 = owner w \<and> contents w1 = contents w"
    using acquire_owner(2) [OF assms(1) r, of q] Cons.prems(2,3) by (auto simp: x)
  with Cons.IH [OF rs(1)] Cons.prems show ?case by (auto simp: rs(2))
qed simp

text \<open>The log: a line goes to the file of the day on which it is written.\<close>

definition file_of_day :: "daily_logger \<Rightarrow> bool" where
  "file_of_day l \<longleftrightarrow> dl_file l \<in> {None, Some (log_path (dl_dir l) (dl_date l))}"

lemma daily_logger_new_ok: "daily_logger_new lo dir w = (Ok l, w') \<Longrightarrow> file_of_day l \<and> dl_dir l = dir"
  by (auto simp: daily_logger_new_def file_of_day_def split: prod.splits sum.splits)

lemma get_file_of_day:
  assumes "get_file lo (l, w) = (r, l', w')" and "file_of_day l"
  shows "file_of_day l' \<and> dl_dir l' = dl_dir l \<and> dl_date l' = fst (lo_today lo w) \<and>
    (\<forall>f. r = Ok f \<longrightarrow> f = log_path (dl_dir l) (fst (lo_today lo w)))"
  using assms by (auto simp: get_file_def file_of_day_def Let_def split: prod.splits option.splits sum.splits if_splits)

lemma log_event_of_day:
  assumes "log_event lo event (l, w) = (l', w')" and "file_of_day l"
  shows "file_of_day l' \<and> dl_dir l' = dl_dir l"
proof -
  obtain ts w1 where t: "lo_time lo w = (ts, w1)" by force
  obtain r l2 w2 where g: "get_file lo (l, w1) = (r, l2, w2)" by (metis prod.exhaust)
  from get_file_of_day [OF g assms(2)] assms(1) show ?thesis by (cases r) (auto simp: log_event_def t g)
qed

text \<open>The pool always has a connection.\<close>

lemma pool_size_pos: "0 < pool_size env threads"
  by (simp add: pool_size_def less_max_iff_disj split: option.split)

text \<open>
  Whatever the platform is: a text for DingTalk counts as sent, and the platform is not asked. The
  runtime has no other channel for it.
\<close>

lemma dingtalk_skeleton_silent:
  "ch_send (dingtalk_skeleton (dk\<lparr>dh_token := x, dh_send := y\<rparr>)) = ch_send (dingtalk_skeleton dk)"
  "is_Ok (fst (ch_send (dingtalk_skeleton dk) dest (Text t) w))"
  by (simp_all add: dingtalk_skeleton_def dingtalk_stub_send_def dingtalk_map_content_def is_Ok_def split_beta fun_eq_iff split: message_content.split)

lemma channel_ids [simp]:
  "ch_id (without_session c) = ch_id c" "ch_id (dingtalk_skeleton dk) = ChannelId ''dingtalk''"
  "ch_id (feishu_as_channel hp (feishu_from_config f)) = feishu_channel_id (fc_account_id f)"
  by (simp_all add: without_session_def dingtalk_skeleton_def dingtalk_new_def feishu_as_channel_def feishu_from_config_def)

lemma lookup_others: "\<forall>c \<in> set cs. ch_id c \<noteq> i \<Longrightarrow> map_of (fold register cs reg) i = map_of reg i"
  by (induction cs arbitrary: reg) (auto simp: lookup_register)

lemma runtime_dingtalk:
  "map_of (ru_registry (assemble_runtime dp cfg sync tokens wechat)) (ChannelId ''dingtalk'') =
     Some (without_session (dingtalk_skeleton (rd_dingtalk dp)))"
proof -
  have "feishu_channel_id a \<noteq> ChannelId ''dingtalk''" "ChannelId ''dingtalk'' \<noteq> feishu_channel_id a" for a
    by (simp_all add: feishu_channel_id_def Let_def)
  then show ?thesis
    by (simp add: assemble_runtime_def runtime_registry_def Let_def lookup_register lookup_others)
qed

section \<open>Properties\<close>

text \<open>
  C19. One instance at a time: when processes start one after the other with databases that have the
  same lock file, at most one of them gets the lock, and it is the one that holds it in the end;
  while a process outside holds it, all are refused and the lock file with the data of its owner
  stays as it is.
\<close>

theorem single_instance:
  assumes ok: "locks_ok lk owner contents" and "starts lk xs w = (rs, w')" and "distinct (map fst xs)"
    and "\<forall>(p, mode, db) \<in> set xs. lock_path db = path"
  shows "(\<forall>i < length xs. is_Ok (rs ! i) \<longrightarrow> owner w' path = Some (fst (xs ! i))) \<and>
    (owner w path \<notin> insert None (Some ` fst ` set xs) \<longrightarrow> list_all (\<lambda>r. \<not> is_Ok r) rs \<and> contents w' = contents w)"
proof
  show "\<forall>i < length xs. is_Ok (rs ! i) \<longrightarrow> owner w' path = Some (fst (xs ! i))"
    using assms(2-)
  proof (induction xs arbitrary: w rs)
    case (Cons x xs)
    obtain p mode db where x: "x = (p, mode, db)" by (cases x)
    obtain r w1 where r: "acquire_singleton (lk p) mode db w = (r, w1)" by force
    obtain rs1 where rs: "starts lk xs w1 = (rs1, w')" "rs = r # rs1" using Cons.prems(1) by (auto simp: x r split: prod.splits)
    have "owner w' path = Some p" if "is_Ok r"
    proof -
      have "owner w1 path = Some p" using acquire_owner(1) [OF ok r that] Cons.prems(3) by (simp add: x)
      with starts_refused [OF ok rs(1), of path p] Cons.prems(2,3) show ?thesis by (force simp: x)
    qed
    with Cons.IH [OF rs(1)] Cons.prems(2,3) show ?case by (auto simp: x rs(2) nth_Cons split: nat.split)
  qed simp
  show "owner w path \<notin> insert None (Some ` fst ` set xs) \<longrightarrow> list_all (\<lambda>r. \<not> is_Ok r) rs \<and> contents w' = contents w"
  proof
    assume "owner w path \<notin> insert None (Some ` fst ` set xs)"
    then obtain q where "owner w path = Some q" "q \<notin> fst ` set xs" by (cases "owner w path") auto
    with starts_refused [OF ok assms(2), of path q] assms(4) show "list_all (\<lambda>r. \<not> is_Ok r) rs \<and> contents w' = contents w"
      by force
  qed
qed

text \<open>Locks as a map from files to processes, with the texts of the files.\<close>

definition map_locks :: "nat \<Rightarrow> ((string \<Rightarrow> nat option) \<times> (string \<Rightarrow> string)) lock_io" where
  "map_locks p = \<lparr> lk_mkdir = (\<lambda>d w. (Ok (), w)), lk_open = (\<lambda>f w. (Ok (), w)),
     lk_try = (\<lambda>f (o1, c). if o1 f \<in> {None, Some p} then (Ok (), o1(f \<mapsto> p), c) else (Err ''busy'', o1, c)),
     lk_truncate = (\<lambda>f (o1, c). (o1, c(f := []))), lk_append = (\<lambda>f t (o1, c). (o1, c(f := c f @ t))),
     lk_close = (\<lambda>f (o1, c). (if o1 f = Some p then o1(f := None) else o1, c)), lk_pid = p, lk_cwd = (\<lambda>w. Ok ''/home'') \<rparr>"

lemma map_locks_ok: "locks_ok map_locks fst snd"
  by (auto simp: locks_ok_def map_locks_def is_Ok_def split: if_splits)

theorem single_instance_witness:
  "\<exists>rs w'. starts map_locks [(7, ''daemon'', ''data/a.db''), (8, ''mcp'', ''data/b.db'')] (Map.empty, (\<lambda>f. [])) = (rs, w') \<and>
     is_Ok (rs ! 0) \<and> fst w' (lock_path ''data/a.db'') = Some 7"
proof -
  let ?xs = "[(7 :: nat, ''daemon'', ''data/a.db''), (8, ''mcp'', ''data/b.db'')]"
  obtain rs w' where run: "starts map_locks ?xs (Map.empty, (\<lambda>f. [])) = (rs, w')"
    by (rule that [OF prod.collapse [symmetric]])
  have "path_parent ''data/a.db'' = Some ''data''" "path_parent ''data/b.db'' = Some ''data''" by code_simp+
  then have paths: "lock_path ''data/b.db'' = lock_path ''data/a.db''" by (simp add: lock_path_def lock_dir_def)
  have first: "is_Ok (rs ! 0)"
    using run by (auto simp: acquire_singleton_def map_locks_def is_Ok_def Let_def split: prod.splits)
  have "\<forall>i < length ?xs. is_Ok (rs ! i) \<longrightarrow> fst w' (lock_path ''data/a.db'') = Some (fst (?xs ! i))"
    by (rule single_instance [THEN conjunct1, OF map_locks_ok run]) (simp_all add: paths)
  with first run show ?thesis by force
qed

end
