(* ===== verification/Cli_Main.thy ===== *)
theory Cli_Main
  imports Cli_Send Cli_Login Runtime Bindings Push Api_Auth
begin

text \<open>
  The rest of \<open>src/main.rs\<close>: the commands on the database and \<open>main\<close> itself.

  The world of the commands is the database at the configured path with whatever lies beside it;
  opening it is an operation of \<open>cli_io\<close>. Starting and serving the runtime are operations of
  \<open>runtime_ops\<close>, whose parts are modelled in the theories of the components.
\<close>

section \<open>The commands on the database\<close>

record cli_data =
  cx_read_file :: "string \<Rightarrow> string + string"
  cx_binding :: "string \<Rightarrow> string + binding_import_record"
  cx_push :: push_deps
  cx_tokens :: token_deps

definition eprintln :: "'w cli_io \<Rightarrow> string \<Rightarrow> 'w \<Rightarrow> 'w" where
  "eprintln io s w = ci_err io (s @ nl) w"

definition open_db_pool :: "'w cli_deps \<Rightarrow> 'w cli_io \<Rightarrow> 'w \<Rightarrow> (string + unit) \<times> 'w" where
  "open_db_pool dp io w =
     (case make_db_dir (ci_mkdir io) (resolve_db_path dp) w of
        (Err e, w1) \<Rightarrow> (Err e, w1)
      | (Ok _, w1) \<Rightarrow> ci_init_db io (resolve_db_path dp) w1)"

text \<open>A command: the database is opened, the work done, and what it gives printed.\<close>

definition with_db ::
  "'w cli_deps \<Rightarrow> 'w cli_io \<Rightarrow> ('w \<Rightarrow> (string + 'a) \<times> 'w) \<Rightarrow> ('a \<Rightarrow> 'w \<Rightarrow> 'w) \<Rightarrow> 'w \<Rightarrow> (string + unit) \<times> 'w" where
  "with_db dp io work show_it w =
     (case open_db_pool dp io w of
        (Err e, w1) \<Rightarrow> (Err e, w1)
      | (Ok _, w1) \<Rightarrow>
          (case work w1 of
             (Err e, w2) \<Rightarrow> (Err e, w2)
           | (Ok x, w2) \<Rightarrow> (Ok (), show_it x w2)))"

definition print_import_summary :: "'w cli_io \<Rightarrow> string \<Rightarrow> import_summary \<Rightarrow> 'w \<Rightarrow> 'w" where
  "print_import_summary io label s w =
     fold (\<lambda>e. eprintln io (''  - '' @ e)) (im_errors s)
       (println io (label @ '': total='' @ show_nat (im_total s) @ '' success='' @ show_nat (im_success s) @
          '' failed='' @ show_nat (im_failed s)) w)"

definition run_bind_import ::
  "'m db_scheme cli_deps \<Rightarrow> 'm db_scheme cli_io \<Rightarrow> cli_data \<Rightarrow> env \<Rightarrow> import_command \<Rightarrow> 'm db_scheme \<Rightarrow>
   (string + unit) \<times> 'm db_scheme" where
  "run_bind_import dp io cx e cmd =
     with_db dp io
       (case ic_format cmd of
          Jsonl \<Rightarrow> import_bindings_jsonl e (cx_binding cx) (cx_read_file cx) (ic_path cmd)
        | Csv \<Rightarrow> import_bindings_csv e (cx_read_file cx) (ic_path cmd))
       (print_import_summary io ''bind import'')"

definition run_push_import ::
  "'m db_scheme cli_deps \<Rightarrow> 'm db_scheme cli_io \<Rightarrow> cli_data \<Rightarrow> env \<Rightarrow> import_command \<Rightarrow> 'm db_scheme \<Rightarrow>
   (string + unit) \<times> 'm db_scheme" where
  "run_push_import dp io cx e cmd =
     with_db dp io
       (\<lambda>d. let (records, tag) = (case ic_format cmd of
               Jsonl \<Rightarrow> (parse_pushes_jsonl (cx_push cx) (cx_read_file cx) (ic_path cmd), ''jsonl'')
             | Csv \<Rightarrow> (parse_pushes_csv (cx_read_file cx) (ic_path cmd), ''csv'')) in
          case records of
            Err m \<Rightarrow> (Err m, d)
          | Ok rs \<Rightarrow> import_pushes (cx_push cx) e tag (ic_path cmd) rs d)
       (\<lambda>(job_id, summary) w. println io (''run it with: magiclaw push run --job '' @ job_id)
          (println io (''job_id='' @ job_id) (print_import_summary io ''push import'' summary w)))"

definition run_push_run ::
  "'m db_scheme cli_deps \<Rightarrow> 'm db_scheme cli_io \<Rightarrow> cli_data \<Rightarrow> env \<Rightarrow> string \<Rightarrow> 'm db_scheme \<Rightarrow>
   (string + unit) \<times> 'm db_scheme" where
  "run_push_run dp io cx e job_id =
     with_db dp io (run_push_job (cx_push cx) e job_id)
       (\<lambda>s. println io (''push run: job='' @ rs_job_id s @ '' items='' @ show_nat (rs_total_items s) @ '' queued='' @
          show_nat (rs_queued_items s) @ '' failed='' @ show_nat (rs_failed_items s) @ '' enqueued_messages='' @
          show_nat (rs_enqueued_messages s)))"

definition tab :: string where "tab = [CHR 0x09]"

definition run_project_list ::
  "'m db_scheme cli_deps \<Rightarrow> 'm db_scheme cli_io \<Rightarrow> env \<Rightarrow> 'm db_scheme \<Rightarrow> (string + unit) \<times> 'm db_scheme" where
  "run_project_list dp io e =
     with_db dp io (list_projects e)
       (\<lambda>ps w. if ps = [] then println io ''(no projects)'' w
         else fold (\<lambda>p. println io (pl_project_key p @ tab @ pl_project_name p @ tab @ ''bindings='' @
                show_int (pl_binding_count p))) ps w)"

definition run_binding_list ::
  "'m db_scheme cli_deps \<Rightarrow> 'm db_scheme cli_io \<Rightarrow> env \<Rightarrow> string \<Rightarrow> 'm db_scheme \<Rightarrow> (string + unit) \<times> 'm db_scheme" where
  "run_binding_list dp io e project_key =
     with_db dp io (list_bindings e project_key)
       (\<lambda>bs w. if bs = [] then println io (''(no active bindings for '' @ project_key @ '')'') w
         else fold (\<lambda>b. println io (bl_channel b @ tab @ bl_peer_id b @ tab @ bl_conversation_id b @ tab @
                bl_conversation_type b @ tab @ ''source='' @ bl_bind_source b)) bs w)"

definition run_auth_issue ::
  "'m db_scheme cli_deps \<Rightarrow> 'm db_scheme cli_io \<Rightarrow> cli_data \<Rightarrow> env \<Rightarrow> auth_issue_command \<Rightarrow> 'm db_scheme \<Rightarrow>
   (string + unit) \<times> 'm db_scheme" where
  "run_auth_issue dp io cx e cmd =
     with_db dp io (issue_token (cx_tokens cx) e (ai_project_id cmd) (ai_client_name cmd) (ai_scopes cmd) (ai_ttl_secs cmd) None)
       (\<lambda>i w. println io (''token='' @ ic_raw_token i)
          (println io (''project_id='' @ ar_project_id (ic_record i) @ '' client_name='' @ ar_client_name (ic_record i) @
             '' expires_at='' @ show_int (ar_expires_at (ic_record i)) @ '' scopes='' @ join_with '','' (ar_scopes (ic_record i))) w))"

definition debug_opt_int :: "int option \<Rightarrow> string" where
  "debug_opt_int v = (case v of None \<Rightarrow> ''None'' | Some n \<Rightarrow> ''Some('' @ show_int n @ '')'')"

definition run_auth_list ::
  "'m db_scheme cli_deps \<Rightarrow> 'm db_scheme cli_io \<Rightarrow> cli_data \<Rightarrow> env \<Rightarrow> string option \<Rightarrow> 'm db_scheme \<Rightarrow>
   (string + unit) \<times> 'm db_scheme" where
  "run_auth_list dp io cx e project_id =
     with_db dp io (list_tokens (cx_tokens cx) e project_id)
       (\<lambda>rows w. if rows = [] then println io ''(no api clients)'' w
         else fold (\<lambda>r. println io (ar_project_id r @ tab @ ar_client_name r @ tab @ ar_id r @ tab @ ''expires_at='' @
                show_int (ar_expires_at r) @ tab @ ''revoked_at='' @ debug_opt_int (ar_revoked_at r) @ tab @ ''scopes='' @
                join_with '','' (ar_scopes r))) rows w)"

definition run_auth_revoke ::
  "'m db_scheme cli_deps \<Rightarrow> 'm db_scheme cli_io \<Rightarrow> cli_data \<Rightarrow> env \<Rightarrow> string \<Rightarrow> 'm db_scheme \<Rightarrow>
   (string + unit) \<times> 'm db_scheme" where
  "run_auth_revoke dp io cx e token =
     with_db dp io (revoke_token (cx_tokens cx) e token)
       (\<lambda>revoked. println io (''revoked='' @ (if revoked then ''true'' else ''false'')))"

section \<open>Main\<close>

record 'w runtime_ops =
  ro_new :: "full_config \<Rightarrow> 'w \<Rightarrow> (string + unit) \<times> 'w"
  ro_start_background :: "'w \<Rightarrow> (string + unit) \<times> 'w"
  ro_start_http_api :: "string \<Rightarrow> 'w \<Rightarrow> (string + unit) \<times> 'w"
  ro_ctrl_c :: "'w \<Rightarrow> (string + unit) \<times> 'w"
  ro_mcp_server :: "'w \<Rightarrow> 'w"

text \<open>
  A resident mode: configuration, then the lock of the instance, then the runtime with its background
  tasks, then \<open>serve\<close>. The lock is held until the process ends, so it is closed when a later step fails.
\<close>

definition run_resident ::
  "'w cli_deps \<Rightarrow> 'w lock_io \<Rightarrow> 'w runtime_ops \<Rightarrow> string \<Rightarrow> ('w \<Rightarrow> (string + unit) \<times> 'w) \<Rightarrow> 'w \<Rightarrow> (string + unit) \<times> 'w" where
  "run_resident dp lk ro mode serve w =
     (case load_runtime_config dp w of
        (Err e, w1) \<Rightarrow> (Err e, w1)
      | (Ok config, w1) \<Rightarrow>
          (case acquire_singleton lk mode (co_db_path config) w1 of
             (Err e, w2) \<Rightarrow> (Err e, w2)
           | (Ok _, w2) \<Rightarrow>
               (let (r, w3) = (case ro_new ro config w2 of
                       (Err e, w3) \<Rightarrow> (Err e, w3)
                     | (Ok _, w3) \<Rightarrow>
                         (case ro_start_background ro w3 of
                            (Err e, w4) \<Rightarrow> (Err e, w4)
                          | (Ok _, w4) \<Rightarrow> serve w4))
                in (r, lk_close lk (lock_path (co_db_path config)) w3))))"

definition serve_daemon :: "'w cli_deps \<Rightarrow> 'w runtime_ops \<Rightarrow> 'w \<Rightarrow> (string + unit) \<times> 'w" where
  "serve_daemon dp ro w =
     ro_ctrl_c ro (snd (ro_start_http_api ro (or_else ''127.0.0.1:18011'' (cd_env dp ''MAGICLAW_API_ADDR'')) w))"

datatype main_end = Completed | Failed string | ExitCode nat

definition main_of ::
  "'m db_scheme cli_deps \<Rightarrow> 'm db_scheme cli_io \<Rightarrow> cli_data \<Rightarrow> env \<Rightarrow> 'm db_scheme lock_io \<Rightarrow> 'm db_scheme runtime_ops \<Rightarrow>
   'm db_scheme ilink_http \<Rightarrow> (send_command \<Rightarrow> 'm db_scheme \<Rightarrow> (string + unit) \<times> 'm db_scheme) \<Rightarrow>
   cli_command \<Rightarrow> 'm db_scheme \<Rightarrow> (string + unit) \<times> 'm db_scheme" where
  "main_of dp io cx e lk ro hp send_it cmd =
     (case cmd of
        Daemon \<Rightarrow> run_resident dp lk ro ''daemon'' (serve_daemon dp ro)
      | Mcp \<Rightarrow> run_resident dp lk ro ''mcp'' (\<lambda>w. (Ok (), ro_mcp_server ro w))
      | Send c \<Rightarrow> send_it c
      | Auth (auth_command.Issue c) \<Rightarrow> run_auth_issue dp io cx e c
      | Auth (auth_command.ListTokens p) \<Rightarrow> run_auth_list dp io cx e p
      | Auth (auth_command.Revoke t) \<Rightarrow> run_auth_revoke dp io cx e t
      | WeChat c \<Rightarrow> run_wechat_login dp io hp c
      | BindImport c \<Rightarrow> run_bind_import dp io cx e c
      | PushImport c \<Rightarrow> run_push_import dp io cx e c
      | PushRun job_id \<Rightarrow> run_push_run dp io cx e job_id
      | ProjectList \<Rightarrow> run_project_list dp io e
      | BindingList k \<Rightarrow> run_binding_list dp io e k)"

definition main_run ::
  "'m db_scheme cli_deps \<Rightarrow> 'm db_scheme cli_io \<Rightarrow> cli_data \<Rightarrow> env \<Rightarrow> 'm db_scheme lock_io \<Rightarrow> 'm db_scheme runtime_ops \<Rightarrow>
   'm db_scheme ilink_http \<Rightarrow> (send_command \<Rightarrow> 'm db_scheme \<Rightarrow> (string + unit) \<times> 'm db_scheme) \<Rightarrow>
   (string \<Rightarrow> uuid_info option) \<Rightarrow> string list \<Rightarrow> 'm db_scheme \<Rightarrow> main_end \<times> 'm db_scheme" where
  "main_run dp io cx e lk ro hp send_it parse_uuid args d =
     (case parse_cli_args parse_uuid args of
        Err m \<Rightarrow> (ExitCode 1, eprintln io m d)
      | Ok cmd \<Rightarrow>
          (case main_of dp io cx e lk ro hp send_it cmd d of
             (Err m, d1) \<Rightarrow> (Failed m, d1)
           | (Ok _, d1) \<Rightarrow> (Completed, d1)))"

end
