(* ===== verification/Http_Server.thy ===== *)
theory Http_Server
  imports Http_Api Api_Auth Runtime
begin

text \<open>
  \<open>start_http_api\<close> of \<open>src/infrastructure/runtime.rs\<close>: the HTTP server as its clients see it, from
  the guard over the routes to the handlers of \<open>Http_Api\<close> and \<open>Feishu_Webhook\<close>, and its start.

  The world of the server is the database with the token cache and the supervisor beside the rest.
  The crate \<open>axum\<close> reads requests; its extractor \<open>Json\<close> is an argument that answers the request
  by itself when the body is not what the handler declares. A header is the text of its first
  value, if that is visible ASCII. The body of an answer to HEAD is dropped on the way.
\<close>

section \<open>The world of the server\<close>

type_synonym 'm server_world = "(Http_Api.token_cache \<times> task_supervisor \<times> 'm) db_scheme"

definition cache_of :: "'m server_world \<Rightarrow> Http_Api.token_cache" where
  "cache_of d = fst (db.more d)"

definition tasks_of :: "'m server_world \<Rightarrow> task_supervisor" where
  "tasks_of d = fst (snd (db.more d))"

definition rest_of :: "'m server_world \<Rightarrow> 'm db_scheme" where
  "rest_of d = db.extend (db.truncate d) (snd (snd (db.more d)))"

definition server_world_of :: "Http_Api.token_cache \<Rightarrow> task_supervisor \<Rightarrow> 'm db_scheme \<Rightarrow> 'm server_world" where
  "server_world_of c sv d = db.extend (db.truncate d) (c, sv, db.more d)"

definition on_rest_of :: "('m db_scheme \<Rightarrow> 'a \<times> 'm db_scheme) \<Rightarrow> 'm server_world \<Rightarrow> 'a \<times> 'm server_world" where
  "on_rest_of f d = (let (r, d1) = f (rest_of d) in (r, server_world_of (cache_of d) (tasks_of d) d1))"

section \<open>Requests and routes\<close>

datatype http_method = HttpGet | HttpHead | HttpPost | HttpOther string

record http_request =
  hq_method :: http_method
  hq_path :: string
  hq_header :: "string \<Rightarrow> string option"
  hq_body :: string

datatype http_answer = SendAnswer send_response | TokenStatusAnswer "token_status_entry list"
  | WindowStatusAnswer "window_status_entry list" | HealthAnswer json | WebhookAnswer feishu_webhook_response
  | TextAnswer string

record 'm http_state =
  hs_env :: env
  hs_api :: "'m db_scheme api_deps"
  hs_read_send :: "(string \<Rightarrow> string option) \<Rightarrow> string \<Rightarrow> nat \<times> string + send_request"
  hs_feishu :: "feishu_config list"
  hs_webhook :: webhook_deps
  hs_message_json :: "message \<Rightarrow> string"
  hs_dedup :: "'m dedup_cache"
  hs_enqueue :: "route_key \<Rightarrow> message \<Rightarrow> 'm \<Rightarrow> (enqueue_error + unit) \<times> 'm"
  hs_gates :: "'m \<Rightarrow> gate \<times> gate"

text \<open>What happens to a send from outside: its wait for the peer's lock and what others do to the cache.\<close>

record send_context =
  sx_lock_wait_ms :: nat
  sx_between :: "Http_Api.token_cache \<Rightarrow> Http_Api.token_cache"

definition route_send ::
  "'m http_state \<Rightarrow> send_context \<Rightarrow> http_request \<Rightarrow> 'm server_world \<Rightarrow> (nat \<times> http_answer) \<times> 'm server_world" where
  "route_send hs sx rq d =
     (case hs_read_send hs (hq_header rq) (hq_body rq) of
        Err (status, reason) \<Rightarrow> ((status, TextAnswer reason), d)
      | Ok req \<Rightarrow>
          (let ((status, resp), c, d1) = api_send (hs_api hs) (sx_lock_wait_ms sx) (sx_between sx) req (cache_of d, rest_of d)
           in ((status, SendAnswer resp), server_world_of c (tasks_of d) d1)))"

definition route_token_status :: "'m http_state \<Rightarrow> 'm server_world \<Rightarrow> (nat \<times> http_answer) \<times> 'm server_world" where
  "route_token_status hs d =
     (let (now, d1) = on_rest_of (clock_s (hs_env hs)) d; (instant, d2) = on_rest_of (ad_instant (hs_api hs)) d1
      in ((200, TokenStatusAnswer (token_status instant now (cache_of d))), d2))"

definition route_window_status :: "'m http_state \<Rightarrow> 'm server_world \<Rightarrow> (nat \<times> http_answer) \<times> 'm server_world" where
  "route_window_status hs d =
     (let (instant, d1) = on_rest_of (ad_instant (hs_api hs)) d
      in ((200, WindowStatusAnswer (window_status instant (cache_of d))), d1))"

definition route_health :: "'m http_state \<Rightarrow> 'm server_world \<Rightarrow> (nat \<times> http_answer) \<times> 'm server_world" where
  "route_health hs d =
     (let (send_gate, ai_gate) = hs_gates hs (db.more (rest_of d));
          ((status, body), sv, d1) = api_health (hs_feishu hs) send_gate ai_gate (sqlite_outbox (hs_env hs))
            (sqlite_dead_letter (hs_env hs)) (tasks_of d, rest_of d)
      in ((status, HealthAnswer body), server_world_of (cache_of d) sv d1))"

definition route_webhook ::
  "'m http_state \<Rightarrow> http_request \<Rightarrow> 'm server_world \<Rightarrow> (nat \<times> http_answer) \<times> 'm server_world" where
  "route_webhook hs rq d =
     (let ((status, resp), d1) = on_rest_of (webhook_handler (hs_webhook hs)
            (sqlite_ports (hs_env hs) (hs_message_json hs) (hs_dedup hs) (hs_enqueue hs)) (hs_feishu hs) (hq_header rq) (hq_body rq)) d
      in ((status, WebhookAnswer resp), d1))"

text \<open>The routing table. A path that has a route answers 405 to the methods it has no handler for.\<close>

definition http_routes ::
  "'m http_state \<Rightarrow> send_context \<Rightarrow> http_request \<Rightarrow> 'm server_world \<Rightarrow> (nat \<times> http_answer) \<times> 'm server_world" where
  "http_routes hs sx rq d =
     (let get = (\<lambda>h. if hq_method rq = HttpGet \<or> hq_method rq = HttpHead then h d else ((405, TextAnswer []), d));
          post = (\<lambda>h. if hq_method rq = HttpPost then h d else ((405, TextAnswer []), d)) in
      if hq_path rq = ''/api/send'' then post (route_send hs sx rq)
      else if hq_path rq = ''/api/token_status'' then get (route_token_status hs)
      else if hq_path rq = ''/api/health'' then get (route_health hs)
      else if hq_path rq = ''/api/feishu/webhook'' then post (route_webhook hs rq)
      else if hq_path rq = ''/api/window_status'' then get (route_window_status hs)
      else ((404, TextAnswer []), d))"

definition serve_request ::
  "token_deps \<Rightarrow> 'm http_state \<Rightarrow> send_context \<Rightarrow> http_request \<Rightarrow> 'm server_world \<Rightarrow>
   (nat \<times> http_answer) Api_Auth.response \<times> 'm server_world" where
  "serve_request td hs sx rq d =
     require_bearer_auth td (hs_env hs) (hq_path rq) (hq_header rq ''authorization'') (http_routes hs sx rq) d"

section \<open>Starting the server\<close>

record 'm server_io =
  so_open_tokens :: "string \<Rightarrow> 'm db_scheme \<Rightarrow> (store_error + 'm db_scheme token_ops) \<times> 'm db_scheme"
  so_entries :: "(string \<rightharpoonup> string) \<Rightarrow> (string \<times> string) list"
  so_instant :: "'m db_scheme \<Rightarrow> nat \<times> 'm db_scheme"
  so_log :: "'m db_scheme log_io"
  so_parse_addr :: "string \<Rightarrow> string + unit"

datatype 'm server_start = ApiStarted "'m db_scheme token_ops" daily_logger | ApiFailed string | ApiPanicked string

text \<open>The log goes beside the database, or else below the working directory.\<close>

definition open_server_log :: "'m server_io \<Rightarrow> string \<Rightarrow> 'm db_scheme \<Rightarrow> (string + daily_logger) \<times> 'm db_scheme" where
  "open_server_log io db_path d =
     (let dir = (case path_parent db_path of Some p \<Rightarrow> path_join p ''logs'' | None \<Rightarrow> ''logs'') in
      case daily_logger_new (so_log io) dir d of
        (Ok l, d1) \<Rightarrow> (Ok l, d1)
      | (Err _, d1) \<Rightarrow> daily_logger_new (so_log io) ''logs'' d1)"

definition start_http_api ::
  "'m server_io \<Rightarrow> full_config \<Rightarrow> string \<Rightarrow> 'm server_world \<Rightarrow> 'm server_start \<times> 'm server_world" where
  "start_http_api io cfg addr d =
     (case on_rest_of (so_open_tokens io (co_db_path cfg)) d of
        (Err er, d1) \<Rightarrow> (ApiFailed (''failed to open context token store: '' @ store_error_display er), d1)
      | (Ok tokens, d1) \<Rightarrow>
          (let account = wc_account_id (co_wechat cfg);
               (loaded, d2) = on_rest_of (load_persisted_context_tokens tokens account) d1;
               entries = (case loaded of Ok m \<Rightarrow> so_entries io m | Err _ \<Rightarrow> []);
               (cache, d3) = on_rest_of (\<lambda>w. initial_token_cache (so_instant io) entries ([], w)) d2 in
           case on_rest_of (open_server_log io (co_db_path cfg)) d3 of
             (Err e, d4) \<Rightarrow> (ApiPanicked e, d4)
           | (Ok logger, d4) \<Rightarrow>
               (let sv = (if wc_enabled (co_wechat cfg) \<and> trim (wc_token (co_wechat cfg)) \<noteq> []
                          then spawn_task ''wechat_token_poller'' (tasks_of d4) else tasks_of d4) in
                case so_parse_addr io addr of
                  Err e \<Rightarrow> (ApiFailed (''invalid HTTP API address '' @ [CHR 0x27] @ addr @ [CHR 0x27] @ '': '' @ e),
                            server_world_of cache sv (rest_of d4))
                | Ok _ \<Rightarrow> (ApiStarted tokens logger, server_world_of cache (spawn_task ''http_api'' sv) (rest_of d4)))))"

section \<open>Lemmas\<close>

lemma server_world_simps [simp]:
  "rest_of (server_world_of c sv d) = d" "cache_of (server_world_of c sv d) = c" "tasks_of (server_world_of c sv d) = sv"
  by (simp_all add: rest_of_def server_world_of_def cache_of_def tasks_of_def db.defs)

lemma rest_of_tick [simp]:
  "rest_of (d\<lparr>db_tick := n\<rparr>) = (rest_of d)\<lparr>db_tick := n\<rparr>" "cache_of (d\<lparr>db_tick := n\<rparr>) = cache_of d"
  "tasks_of (d\<lparr>db_tick := n\<rparr>) = tasks_of d"
  by (simp_all add: rest_of_def cache_of_def tasks_of_def db.defs)

lemma rest_of_tables [simp]: "t_api_clients (rest_of d) = t_api_clients d" "t_outbox (rest_of d) = t_outbox d"
  by (simp_all add: rest_of_def db.defs)

lemma on_rest_of_simps [simp]:
  "fst (on_rest_of f d) = fst (f (rest_of d))" "rest_of (snd (on_rest_of f d)) = snd (f (rest_of d))"
  "cache_of (snd (on_rest_of f d)) = cache_of d" "tasks_of (snd (on_rest_of f d)) = tasks_of d"
  by (simp_all add: on_rest_of_def split_beta Let_def)

text \<open>Nothing but the clock of the environment moves.\<close>

definition only_ticks :: "'w db_scheme \<Rightarrow> 'w db_scheme \<Rightarrow> bool" where
  "only_ticks d d' \<longleftrightarrow> (\<exists>n. d' = d\<lparr>db_tick := n\<rparr>)"

lemma only_ticks_refl [simp]: "only_ticks d d"
  by (auto simp: only_ticks_def intro: exI [of _ "db_tick d"])

lemma only_ticks_update [simp]: "only_ticks d (d\<lparr>db_tick := n\<rparr>)"
  by (auto simp: only_ticks_def)

lemma only_ticks_trans [trans]: "only_ticks d d1 \<Longrightarrow> only_ticks d1 d2 \<Longrightarrow> only_ticks d d2"
  by (auto simp: only_ticks_def)

lemma only_ticks_rest: "only_ticks d d' \<Longrightarrow> only_ticks (rest_of d) (rest_of d') \<and> cache_of d' = cache_of d"
  by (auto simp: only_ticks_def)

lemma load_only_ticks: "only_ticks d (snd (load_by_token_hash td e h d))"
  by (auto simp: load_by_token_hash_def sql_def Let_def split: option.split sum.split)

lemma authorize_only_ticks: "only_ticks d (snd (authorize_bearer td e hdr scope d))"
proof -
  have "only_ticks d (snd (clock_s e (snd (load_by_token_hash td e h d))))" for h
    using load_only_ticks [of d td e h] by (rule only_ticks_trans) (simp add: clock_s_def clock_ms_def)
  then show ?thesis
    using load_only_ticks [of d td e]
    by (auto simp: authorize_bearer_def Let_def split_beta split: option.split sum.split)
qed

lemma sql_read_only_ticks: "only_ticks d (snd (sql_read e f d))"
  by (simp add: sql_read_eq)

lemma route_health_only_ticks: "only_ticks (rest_of d) (rest_of (snd (route_health hs d))) \<and> cache_of (snd (route_health hs d)) = cache_of d"
  by (auto simp: route_health_def api_health_def sqlite_outbox_def sqlite_dead_letter_def outbox_fetch_pending_def
      dead_letter_list_def repo_def sql_read_eq map_err_def Let_def split_beta)

text \<open>What the guard lets a request do.\<close>

lemma serve_request_cases:
  assumes "serve_request td hs sx rq d = (resp, d')"
  obtains (refused) n t where "resp = Status n t" "n = 401 \<or> n = 403" "only_ticks d d'"
      "hq_path rq \<notin> {health_path, feishu_webhook_path}"
  | (public) "hq_path rq \<in> {health_path, feishu_webhook_path}" "(\<lambda>(r, d1). (Handled r, d1)) (http_routes hs sx rq d) = (resp, d')"
  | (authorised) scope x d1 where "auth_policy_for_path (hq_path rq) = Scoped scope"
      "authorize_bearer td (hs_env hs) (hq_header rq ''authorization'') scope d = (Ok x, d1)"
      "(\<lambda>(r, d1). (Handled r, d1)) (http_routes hs sx rq d1) = (resp, d')"
proof (cases "auth_policy_for_path (hq_path rq)")
  case Public
  with assms show thesis
    by (intro public) (auto simp: serve_request_def require_bearer_auth_def Let_def auth_policy_for_path_def split: if_splits)
next
  case (Scoped scope)
  then have p: "hq_path rq \<notin> {health_path, feishu_webhook_path}" by (auto simp: auth_policy_for_path_def)
  obtain r d1 where a: "authorize_bearer td (hs_env hs) (hq_header rq ''authorization'') scope d = (r, d1)"
    by (rule that [OF prod.collapse [symmetric]])
  from this have "only_ticks d d1" using authorize_only_ticks [of d td "hs_env hs" "hq_header rq ''authorization''" scope] by simp
  then consider (err) f where "r = Err f" "only_ticks d d1" | (ok) x where "r = Ok x"
    by (cases r) auto
  then show thesis
  proof cases
    case err
    then show ?thesis using assms Scoped a p
      by (cases f) (auto simp: serve_request_def require_bearer_auth_def Let_def intro: refused)
  next
    case ok
    then show ?thesis using assms Scoped a by (intro authorised) (auto simp: serve_request_def require_bearer_auth_def Let_def)
  qed
next
  case Deny
  with assms show thesis
    by (intro refused [of 401 "''unauthorized''"])
      (auto simp: serve_request_def require_bearer_auth_def auth_policy_for_path_def split: if_splits)
qed

text \<open>The inbox is all that taking in a message changes.\<close>

definition keeps_tables :: "'w db_scheme \<Rightarrow> 'w db_scheme \<Rightarrow> bool" where
  "keeps_tables d d' \<longleftrightarrow> t_outbox d' = t_outbox d \<and> t_api_clients d' = t_api_clients d"

lemma keeps_tables_refl [simp]: "keeps_tables d d"
  by (simp add: keeps_tables_def)

lemma keeps_tables_trans: "keeps_tables d d1 \<Longrightarrow> keeps_tables d1 d2 \<Longrightarrow> keeps_tables d d2"
  by (simp add: keeps_tables_def)

lemma inbox_keeps_tables:
  "keeps_tables d (snd (inbox_exists e i d))" "keeps_tables d (snd (inbox_insert e x d))"
  "keeps_tables d (snd (inbox_mark_status e i st d))" "keeps_tables d (snd (clock_s e d))"
  by (simp_all add: keeps_tables_def inbox_exists_def inbox_insert_def inbox_mark_status_def repo_def sql_read_eq sql_write_eq
      clock_s_def clock_ms_def split: option.split)

lemma process_inbound_keeps_tables:
  "keeps_tables d (snd (process_inbound (sqlite_inbox e) (clock_s e) json m d))"
  unfolding process_inbound_def sqlite_inbox_def inbox_repo.simps
  by (auto simp: Let_def split_beta split: sum.split bool.split intro!: inbox_keeps_tables
      intro: keeps_tables_trans [OF _ inbox_keeps_tables(1)] keeps_tables_trans [OF _ inbox_keeps_tables(2)]
        keeps_tables_trans [OF _ inbox_keeps_tables(3)] keeps_tables_trans [OF _ inbox_keeps_tables(4)])

lemma route_message_keeps_tables:
  "keeps_tables d (snd (route_message (\<lambda>c i. on_more (cache c i)) (\<lambda>k m. on_more (enq k m)) m d))"
  by (auto simp: keeps_tables_def route_message_def on_more_def Let_def split_beta split: sum.split enqueue_error.split bool.split)

lemma sqlite_ports_simps:
  "wp_uuid (sqlite_ports e json cache enq) = new_uuid e" "wp_now_ms (sqlite_ports e json cache enq) = clock_ms e"
  by (simp_all add: sqlite_ports_def)

lemma webhook_route_keeps_tables: "keeps_tables d (snd (webhook_route (sqlite_ports e json cache enq) m d))"
proof -
  obtain r d1 where p: "process_inbound (sqlite_inbox e) (clock_s e) json m d = (r, d1)"
    by (rule that [OF prod.collapse [symmetric]])
  then have k: "keeps_tables d d1" using process_inbound_keeps_tables [of d e json m] by simp
  obtain o1 d2 where q: "route_message (\<lambda>c i. on_more (cache c i)) (\<lambda>k m. on_more (enq k m)) m d1 = (o1, d2)"
    by (rule that [OF prod.collapse [symmetric]])
  then have "keeps_tables d d2" using keeps_tables_trans [OF k] route_message_keeps_tables [of d1 cache enq m] by simp
  with k p q show ?thesis
    by (auto simp: webhook_route_def sqlite_ports_def split: sum.split inbox_result.split route_outcome.split repo_error.split)
qed

lemma event_message_keeps_tables:
  "event_message dp (new_uuid e) (clock_ms e) cfg h b d = (m, d1) \<Longrightarrow> keeps_tables d d1"
  by (auto simp: keeps_tables_def event_message_def event_message_id_def event_timestamp_ms_def new_uuid_def clock_ms_def Let_def
      split: prod.splits option.splits if_splits)

text \<open>A request that may change something through the webhook.\<close>

definition verified_event :: "'m http_state \<Rightarrow> http_request \<Rightarrow> bool" where
  "verified_event hs rq \<longleftrightarrow> hq_path rq = feishu_webhook_path \<and> hq_method rq = HttpPost \<and>
     (\<exists>payload cfg env. wh_json (hs_webhook hs) (hq_body rq) = Ok payload \<and> cfg \<in> set (hs_feishu hs) \<and>
        wh_envelope (hs_webhook hs) payload = Ok env \<and> signature_ok (hs_webhook hs) (hq_header rq) (hq_body rq) cfg \<and>
        token_ok cfg env)"

lemma webhook_handler_effect:
  assumes "webhook_handler dp (sqlite_ports e json cache enq) configs headers body d = ((status, resp), d')"
  shows "d' = d \<or> (keeps_tables d d' \<and>
    (\<exists>payload cfg env. wh_json dp body = Ok payload \<and> cfg \<in> set configs \<and>
       wh_envelope dp payload = Ok env \<and> signature_ok dp headers body cfg \<and> token_ok cfg env))"
  using webhook_handler_cases [OF assms]
proof (elim disjE exE conjE)
  fix payload cfg disp d1
  assume h: "wh_json dp body = Ok payload" "select_feishu_config configs payload = Some cfg"
    "verify_webhook_signature dp headers body cfg = Ok ()"
    "parse_webhook_event dp (wp_uuid (sqlite_ports e json cache enq)) (wp_now_ms (sqlite_ports e json cache enq)) payload cfg d =
       (Ok disp, d1)"
    "case disp of WebhookMessage m \<Rightarrow> webhook_route (sqlite_ports e json cache enq) m d1 = ((status, resp), d') | _ \<Rightarrow> status = 200 \<and> d' = d1"
  from parse_event_Ok [OF h(4)] obtain env where env: "wh_envelope dp payload = Ok env" "token_ok cfg env"
      "case disp of WebhookMessage m \<Rightarrow> (\<exists>h b. we_header env = Some h \<and> we_event env = Some b \<and>
          event_message dp (new_uuid e) (clock_ms e) cfg h b d = (m, d1)) | _ \<Rightarrow> d1 = d"
    unfolding sqlite_ports_simps by blast
  have "keeps_tables d d'"
  proof (cases disp)
    case (WebhookMessage m)
    with env(3) event_message_keeps_tables have "keeps_tables d d1" by fastforce
    moreover have "keeps_tables d1 d'"
      using h(5) WebhookMessage webhook_route_keeps_tables [of d1 e json cache enq m] by simp
    ultimately show ?thesis by (rule keeps_tables_trans)
  qed (use env(3) h(5) in simp_all)
  with h(1) select_in [OF h(2)] env(1,2) verify_signature_ok [OF h(3)] show ?thesis by blast
qed simp

lemma routes_public:
  assumes "hq_path rq \<in> {health_path, feishu_webhook_path}" and "http_routes hs sx rq d = (r, d')"
  shows "cache_of d' = cache_of d"
    and "only_ticks (rest_of d) (rest_of d') \<or> (verified_event hs rq \<and> keeps_tables (rest_of d) (rest_of d'))"
proof -
  consider "d' = d" | "d' = snd (route_health hs d)" | "hq_path rq = feishu_webhook_path" "hq_method rq = HttpPost" "d' = snd (route_webhook hs rq d)"
    using assms by (auto simp: http_routes_def health_path_def feishu_webhook_path_def Let_def split: if_splits)
  then have "cache_of d' = cache_of d \<and>
    (only_ticks (rest_of d) (rest_of d') \<or> (verified_event hs rq \<and> keeps_tables (rest_of d) (rest_of d')))"
  proof cases
    case 2
    then show ?thesis using route_health_only_ticks [where hs = hs and d = d] by blast
  next
    case 3
    let ?h = "webhook_handler (hs_webhook hs) (sqlite_ports (hs_env hs) (hs_message_json hs) (hs_dedup hs) (hs_enqueue hs)) (hs_feishu hs)
      (hq_header rq) (hq_body rq)"
    from 3(3) have "d' = snd (on_rest_of ?h d)" by (simp add: route_webhook_def split_beta Let_def)
    then have "cache_of d' = cache_of d" and "rest_of d' = snd (?h (rest_of d))" by simp_all
    moreover obtain status resp d1 where "?h (rest_of d) = ((status, resp), d1)" by (metis prod.exhaust)
    ultimately show ?thesis using webhook_handler_effect 3(1,2) by (fastforce simp: verified_event_def)
  qed simp
  then show "cache_of d' = cache_of d"
    and "only_ticks (rest_of d) (rest_of d') \<or> (verified_event hs rq \<and> keeps_tables (rest_of d) (rest_of d'))" by auto
qed

text \<open>The request presents a token that may use the scope when the guard reads the clock.\<close>

definition bears_token :: "token_deps \<Rightarrow> env \<Rightarrow> http_request \<Rightarrow> string \<Rightarrow> 'w db_scheme \<Rightarrow> bool" where
  "bears_token td e rq scope d \<longleftrightarrow>
     (\<exists>tok. \<exists>row \<in> set (t_api_clients d). presents (hq_header rq ''authorization'') tok \<and>
        ac_token_hash row = hash_token td tok \<and> grants td row scope (check_time e d))"

section \<open>The start\<close>

text \<open>The tasks a start leaves behind: the poller runs as soon as the account is configured, even when the API does not.\<close>

lemma start_http_api_cases:
  assumes "start_http_api io cfg addr d = (r, d')"
  shows "let sv = (if wc_enabled (co_wechat cfg) \<and> trim (wc_token (co_wechat cfg)) \<noteq> []
                   then spawn_task ''wechat_token_poller'' (tasks_of d) else tasks_of d) in
    case r of
      ApiStarted tokens logger \<Rightarrow> tasks_of d' = spawn_task ''http_api'' sv \<and> so_parse_addr io addr = Ok ()
    | ApiFailed e \<Rightarrow> tasks_of d' = tasks_of d \<or> (tasks_of d' = sv \<and> (\<exists>e. so_parse_addr io addr = Err e))
    | ApiPanicked e \<Rightarrow> tasks_of d' = tasks_of d"
proof -
  obtain t d1 where 1: "on_rest_of (so_open_tokens io (co_db_path cfg)) d = (t, d1)" by force
  have sv1: "tasks_of d1 = tasks_of d" using on_rest_of_simps(4) [of "so_open_tokens io (co_db_path cfg)" d] 1 by simp
  show ?thesis
  proof (cases t)
    case (Inl er)
    with assms 1 sv1 show ?thesis by (auto simp: start_http_api_def Let_def)
  next
    case (Inr tokens)
    let ?load = "load_persisted_context_tokens tokens (wc_account_id (co_wechat cfg))"
    obtain l d2 where 2: "on_rest_of ?load d1 = (l, d2)" by force
    let ?entries = "case l of Ok m \<Rightarrow> so_entries io m | Err _ \<Rightarrow> []"
    obtain c d3 where 3: "on_rest_of (\<lambda>w. initial_token_cache (so_instant io) ?entries ([], w)) d2 = (c, d3)" by force
    obtain lg d4 where 4: "on_rest_of (open_server_log io (co_db_path cfg)) d3 = (lg, d4)" by force
    have sv: "tasks_of d4 = tasks_of d"
      using on_rest_of_simps(4) [of ?load d1] on_rest_of_simps(4) [of "\<lambda>w. initial_token_cache (so_instant io) ?entries ([], w)" d2]
        on_rest_of_simps(4) [of "open_server_log io (co_db_path cfg)" d3] 2 3 4 sv1 by simp
    show ?thesis
      using assms 1 2 3 4 sv Inr
      by (cases lg; cases "so_parse_addr io addr") (auto simp: start_http_api_def Let_def)
  qed
qed

section \<open>Properties\<close>

text \<open>
  C7. Without a token a client of the HTTP API reaches next to nothing, under any database faults:
  a request that does not carry a live token for the scope of its path leaves the cache of peer
  tokens, the outbox and the client table as they are; on every path but the two public ones it is
  answered 401 or 403 and nothing but the clock moves, and on those the tables change at
  most for a Feishu event whose signature and verification token are those of a configured account.
\<close>

theorem http_api_protected:
  assumes "serve_request td hs sx rq d = (resp, d')"
  shows "(\<exists>scope. auth_policy_for_path (hq_path rq) = Scoped scope \<and> bears_token td (hs_env hs) rq scope d) \<or>
    (cache_of d' = cache_of d \<and>
     (only_ticks (rest_of d) (rest_of d') \<or>
        (verified_event hs rq \<and> t_outbox d' = t_outbox d \<and> t_api_clients d' = t_api_clients d)) \<and>
     (hq_path rq \<in> {health_path, feishu_webhook_path} \<or>
        (only_ticks d d' \<and> (\<exists>text. resp = Status 401 text \<or> resp = Status 403 text))))"
  using assms
proof (cases rule: serve_request_cases)
  case refused
  then show ?thesis using only_ticks_rest by blast
next
  case public
  then have "http_routes hs sx rq d = (fst (http_routes hs sx rq d), d')" by (simp add: split_beta prod_eq_iff)
  from routes_public [OF public(1) this] show ?thesis using public(1) by (auto simp: keeps_tables_def)
next
  case authorised
  then show ?thesis using authorize_sound [of td "hs_env hs" "hq_header rq ''authorization''"] unfolding bears_token_def by blast
qed

definition sample_http_state :: "message list http_state" where
  "sample_http_state =
     \<lparr> hs_env = quiet_env,
       hs_api = \<lparr> ad_wechat = wechat_config_default\<lparr>wc_enabled := True, wc_token := ''t''\<rparr>,
         ad_http = lift_http (sample_platform sample_update), ad_tokens = sqlite_token_store quiet_env,
         ad_sync = sqlite_sync_store quiet_env, ad_instant = (\<lambda>d. (7, d)), ad_sleep = (\<lambda>n d. d), ad_log_refresh = (\<lambda>u d. d),
         ad_audit = (\<lambda>k a r d. d), ad_min_interval_ms = 500, ad_debug = False, ad_fingerprint = (\<lambda>a b n. []) \<rparr>,
       hs_read_send = (\<lambda>h b. Ok \<lparr> sr_to = ''u1'', sr_text = b, sr_context_token = None \<rparr>), hs_feishu = [secured_account],
       hs_webhook = plain_webhook, hs_message_json = (\<lambda>m. ''j''), hs_dedup = (\<lambda>c i w. (True, w)), hs_enqueue = (\<lambda>k m w. (Ok (), w)),
       hs_gates = (\<lambda>w. (gate_send_default, gate_ai_default)) \<rparr>"

definition sample_http_request :: "string option \<Rightarrow> http_request" where
  "sample_http_request auth =
     \<lparr> hq_method = HttpPost, hq_path = ''/api/send'', hq_header = (\<lambda>n. if n = ''authorization'' then auth else None), hq_body = ''hi'' \<rparr>"

definition sample_http_world :: "message list server_world" where
  "sample_http_world = db.extend (one_client None) ([(''u1'', peer_token_new ''t'' 0)], supervisor_new, [])"

text \<open>With its token the same request reaches the handlers.\<close>

lemma sample_request_served:
  "\<exists>r. fst (serve_request plain_deps sample_http_state \<lparr> sx_lock_wait_ms = 0, sx_between = (\<lambda>c. c) \<rparr>
     (sample_http_request (Some ''Bearer tk'')) sample_http_world) = Handled r"
  by (simp add: serve_request_def require_bearer_auth_def auth_policy_for_path_def sample_http_request_def sample_http_state_def
      health_path_def feishu_webhook_path_def authorize_bearer_def strip_prefix_def starts_with_def trim_tk hash_tk
      load_by_token_hash_def sql_def quiet_env_def sample_http_world_def one_client_def empty_db_def db.defs record_from_row_def
      Api_Auth.parse_scopes_def map_err_def plain_deps_def clock_s_def clock_ms_def matches_scope_def hash_tk [unfolded plain_deps_def]
      Let_def split_beta)

theorem http_api_protected_witness:
  "let run = serve_request plain_deps sample_http_state \<lparr> sx_lock_wait_ms = 0, sx_between = (\<lambda>c. c) \<rparr>
       (sample_http_request None) sample_http_world
   in cache_of (snd run) = [(''u1'', peer_token_new ''t'' 0)] \<and> only_ticks sample_http_world (snd run) \<and>
     (\<exists>text. fst run = Status 401 text \<or> fst run = Status 403 text)"
proof -
  let ?run = "serve_request plain_deps sample_http_state \<lparr> sx_lock_wait_ms = 0, sx_between = (\<lambda>c. c) \<rparr>
       (sample_http_request None) sample_http_world"
  have "\<not> bears_token plain_deps e (sample_http_request None) scope d" for e scope and d :: "message list server_world"
    by (simp add: bears_token_def sample_http_request_def)
  moreover have "hq_path (sample_http_request None) \<notin> {health_path, feishu_webhook_path}"
    by (simp add: sample_http_request_def health_path_def feishu_webhook_path_def)
  moreover have "cache_of sample_http_world = [(''u1'', peer_token_new ''t'' 0)]"
    by (simp add: cache_of_def sample_http_world_def db.defs)
  ultimately show ?thesis using http_api_protected [OF prod.collapse [symmetric, of ?run]] by simp
qed

end
