(* ===== verification/Spec2Isabelle.thy ===== *)
theory Spec2Isabelle
  imports Reorder Audit_Store Resilience Outbox_Worker Outbox_Burial Key_Stores Conversation_Store Inbound Agent_Command Pipeline
    Api_Auth Push Channels Feishu_Channel Dingtalk Cli_Agent Supervisor
    Wechat_Media Wechat_Polling Http_Api Mcp_Server Cli_Parser Cli_Config Cli_Send Cli_Login Runtime Cli_Main Http_Server
begin

text \<open>
  A verification development of magiclaw, a bridge between messaging platforms (WeChat, Feishu,
  DingTalk) and AI backends. The Rust code is under \<open>src/src\<close>; the theories name its files without
  the first directory.

  \<^bold>\<open>How the parts interact.\<close> A channel polls its platform, or the webhook of the HTTP server takes an
  event in. The inbox stores the message and refuses known identifiers, the deduplication cache and
  the router put it into the bounded queue of its conversation. A worker per conversation orders the
  messages in a window and runs each through the pipeline: normalising, permission, rate limit, agent
  commands, the AI backend, formatting, and the outbox stage. The outbox worker takes pending
  entries, sends them through the channel registry behind a circuit breaker and a bulkhead,
  reschedules failures and buries what failed too often in the dead letters. Every outcome goes to a
  hash-chained audit log, which startup verifies. Beside this path, the MCP server, push jobs, the
  HTTP API and the command line queue or send messages.

  \<^bold>\<open>Foundations.\<close>

  \<^item> \<open>Magiclaw_Prelude\<close>: results as sums, byte strings with the functions of \<open>str\<close>, tables as lists of
    rows with the effects of SQL statements, 64-bit arithmetic; the collections \<open>table_simps\<close> and \<open>frame_simps\<close>.
  \<^item> \<open>Domain\<close>: \<open>domain/value_objects\<close>, \<open>entities\<close>, \<open>error.rs\<close>.
  \<^item> \<open>Storage\<close>: \<open>infrastructure/storage\<close>; entries with their status alphabets and the retry policy.
  \<^item> \<open>Database\<close>: \<open>infrastructure/db.rs\<close>. One record of tables; the record \<open>env\<close> decides which statement
    fails, what the clocks show and how equal sort keys are ordered, one answer per tick, so a
    theorem over all \<open>env\<close> covers every pattern of faults. The connection pool is a step relation.
  \<^item> \<open>Json_Http\<close>: JSON values and what the HTTP clients share.

  \<^bold>\<open>From inbox to outbox.\<close>

  \<^item> \<open>Reorder\<close>: \<open>domain/services/reorder_window.rs\<close> and \<open>domain/aggregates\<close>. Nothing is lost or doubled; messages that
    are on time leave in order.
  \<^item> \<open>Inbound\<close>: \<open>application/inbox_processor.rs\<close>, \<open>deduplicate.rs\<close>, \<open>route_message.rs\<close>, \<open>send_message.rs\<close> and the
    loop of the router. Each identifier is routed at most once.
  \<^item> \<open>Conversation_Store\<close>: \<open>adapters/conversation_store.rs\<close>. Enqueueing, workers, flush timers and the
    collection of idle routes interleave as the step relation \<open>store_step\<close>; the invariant is proved by
    rule induction over its runs.
  \<^item> \<open>Agent_Command\<close>, \<open>Pipeline\<close>, \<open>Cli_Agent\<close>: \<open>core/pipeline\<close>, \<open>core/ai\<close>. The chain refines the specified reply;
    what a command line agent returns is bounded and cleaned.
  \<^item> \<open>Key_Stores\<close>: the keyed stores of \<open>adapters\<close>; the two stores of preferences give the same answers, listings up to order.

  \<^bold>\<open>Delivery.\<close>

  \<^item> \<open>Outbox_Store\<close>: \<open>adapters/sqlite_outbox.rs\<close>, \<open>sqlite_dead_letter.rs\<close>, \<open>sqlite_inbox.rs\<close> behind their ports.
  \<^item> \<open>Outbox_Worker\<close>: \<open>application/outbox_worker.rs\<close>, \<open>crash_recovery.rs\<close>, \<open>dlq_manager.rs\<close>, \<open>resilient_sender.rs\<close>. The
    worker refines the life cycle \<open>entry_step\<close> of an entry under every pattern of failures; \<open>behind_gate\<close> is its sender
    behind the breaker and the bulkhead.
  \<^item> \<open>Outbox_Burial\<close>: what the rounds of the worker do to an entry that cannot be delivered. The attempts left in the outbox
    fall with every delivery, which bounds the calls and ends the retries.
  \<^item> \<open>Resilience\<close>: \<open>core/resilience\<close>; reachable states of the breaker and the bulkhead, whose callers interleave
    at the atomic steps of the code.
  \<^item> \<open>Audit_Chain\<close>, \<open>Audit_Store\<close>: \<open>domain/services/audit_chain.rs\<close> and the audit adapters. The chain is tamper
    evident as long as the digest does not collide; recording keeps it verified.
  \<^item> \<open>Channels\<close>: \<open>channels/channel_trait.rs\<close>, \<open>registry.rs\<close>, the startup of \<open>infrastructure/runtime.rs\<close>, the
    janitor and the health report.
  \<^item> \<open>Bindings\<close>, \<open>Push\<close>: \<open>application/binding.rs\<close>, \<open>push.rs\<close>. A push job writes exactly the planned rows.

  \<^bold>\<open>Platforms.\<close>

  \<^item> \<open>Feishu_Webhook\<close>, \<open>Feishu_Channel\<close>: \<open>channels/feishu\<close> and the webhook of the runtime; authenticity of events,
    truthfulness of delivery reports.
  \<^item> \<open>Dingtalk\<close>: \<open>channels/dingtalk\<close>.
  \<^item> \<open>Wechat_Ilink\<close>, \<open>Wechat_Media\<close>, \<open>Wechat_Channel\<close>, \<open>Wechat_Polling\<close>: \<open>channels/wechat\<close>. The protocol client with
    AES in ECB mode, media streams, the channel with its polling task, and what is proved of them.

  \<^bold>\<open>Services and the program.\<close>

  \<^item> \<open>Api_Auth\<close>, \<open>Http_Api\<close>, \<open>Http_Server\<close>: \<open>adapters/api_client_registry.rs\<close>, \<open>http_auth.rs\<close> and \<open>start_http_api\<close> of
    \<open>infrastructure/runtime.rs\<close>: tokens, handlers, and the routes behind the guard.
  \<^item> \<open>Mcp_Transport\<close>, \<open>Mcp_Server\<close>: \<open>adapters/mcp\<close>. Framing round trip; a session refines the relation \<open>session\<close>.
  \<^item> \<open>Supervisor\<close>: \<open>infrastructure/task_supervisor.rs\<close>. \<open>Runtime\<close>: \<open>daemon/singleton.rs\<close>, \<open>AppRuntime::new\<close>, the daily log.
  \<^item> \<open>Config\<close>: \<open>infrastructure/config.rs\<close>. \<open>Cli_Parser\<close>, \<open>Cli_Config\<close>, \<open>Cli_Send\<close>, \<open>Cli_Login\<close>, \<open>Cli_Main\<close>: \<open>cli\<close> and \<open>main.rs\<close>.
  \<^item> This theory: the outbox worker of the runtime (\<open>runtime_worker\<close>), and properties that span components, from an inbound
    text to the message at the platform, and from a push job to the next start.

  \<^bold>\<open>Conventions.\<close> A struct is a record, an enum a datatype, a trait object a record of functions on a world
  \<open>'w\<close>. Operations take and return the world; errors are the left side of a sum, a panic is an
  error value or \<open>None\<close> as each theory says. Counters the code bounds are words or naturals with
  the saturation written out. Hash maps are association lists in iteration order where the order shows,
  maps otherwise. Crates (JSON text, SHA-256, base64, UUIDs, HTTP, SQLite's faults, the block cipher) are
  parameters, and what is relied on is a premise of the theorem that needs it. No model type needs an order or equality
  of its own; sorting uses the library's orders on integers and strings.

  \<^bold>\<open>Locales.\<close> Contracts between components are locales, each interpreted on the model where the provider is
  defined: \<open>outbox_store\<close>, \<open>outbox_worker\<close> and \<open>reliable_worker\<close> (the SQLite adapters with any sender),
  \<open>kv_store\<close>, \<open>exact_kv_store\<close> and \<open>reliable_kv_store\<close> (the in-memory and the SQLite stores), \<open>conversation_queue\<close> (the conversation
  store), \<open>sync_store\<close>, \<open>token_store\<close>, \<open>reliable_token_store\<close> and \<open>polling\<close> (the SQLite stores with any platform).

  \<^bold>\<open>Loops.\<close> Tasks that never end are cut after \<open>n\<close> turns and the theorems quantify over \<open>n\<close>: \<open>worker_rounds\<close>,
  \<open>gc_janitor\<close>, \<open>poll_loop\<close>, \<open>poller_run\<close>. The reader of the MCP server ends with its input, by the measure of the bytes left; the wait for a login
  by that of the seconds of pauses left of its five minutes; the requests to the daemon are three attempts. The other loops
  recur on their list.

  \<^bold>\<open>Not modelled.\<close> PRAGMAs, indexes and migrations of the database and the table \<open>binding_tokens\<close>, which nothing reads;
  \<open>start_all\<close> of the registry, which only spawns each channel's task; accepting connections
  and reading requests in \<open>axum\<close>; tracing, the panic hook and module declarations; the unit tests. The
  product with a jitter factor in \<open>f64\<close> is a configuration function. The derived debug texts of errors are arguments.
\<close>

section \<open>From a reply to the platform\<close>

text \<open>
  The world of the assembled program is the rate limiter's map and the rest; a sender acts
  on the rest.
\<close>

definition on_rest :: "(outbox_entry \<Rightarrow> 'm \<Rightarrow> (string + unit) \<times> 'm) \<Rightarrow> outbox_entry \<Rightarrow> 'l \<times> 'm \<Rightarrow> (string + unit) \<times> 'l \<times> 'm" where
  "on_rest s x lm = (let (r, m) = s x (snd lm) in (r, fst lm, m))"

lemma on_rest_result: "fst (on_rest s x lm) = fst (s x (snd lm))" "snd (snd (on_rest s x lm)) = snd (s x (snd lm))"
  by (simp_all add: on_rest_def split_beta)

text \<open>A round over an outbox with one pending row delivers that row.\<close>

lemma round_of_one:
  assumes "no_faults e" and "0 < sint n" and "filter (\<lambda>r. ob_status r = ''pending'') (t_outbox d) = [entry_to_row x]"
  shows "process_pending (sqlite_worker sha e c s) n d = deliver (sqlite_worker sha e c s) x (d\<lparr>db_tick := Suc (db_tick d)\<rparr>)"
proof -
  have "outbox_fetch_pending e n d = (Ok [x], d\<lparr>db_tick := Suc (db_tick d)\<rparr>)"
    using assms by (simp add: outbox_fetch_pending_def sql_read_eq order_by_def sql_limit_def)
  then show ?thesis by (simp add: process_pending_def sqlite_worker_def sqlite_outbox_def)
qed

lemma registry_send_known:
  assumes "parse_key (ob_route_key x) = Ok k" and "parse_content (ob_payload x) = Ok c"
  shows "snd (registry_send parse_key parse_content reg x w) = snd (send_via reg (rk_channel k) (rk_peer_id k) c w)"
    and "is_Ok (fst (registry_send parse_key parse_content reg x w)) =
      is_Ok (fst (send_via reg (rk_channel k) (rk_peer_id k) c w))"
  using assms by (simp_all add: registry_send_def split_beta is_Ok_def split: sum.split)

lemma queued_outbox:
  assumes "outbox_ok d" and "m_id m \<notin> ob_id ` set (t_outbox d)" and "queued m kj cj body d d'"
    and "\<forall>r \<in> set (t_outbox d). ob_status r \<noteq> ''pending''"
  obtains x where "outbox_ok d'" and "outbox_view d' (m_id m) = Some x" and "ob_id x = m_id m"
    and "ob_route_key x = kj (m_route_key m)" and "ob_payload x = cj (Text body)" and "ob_retry_count x = 0"
    and "filter (\<lambda>r. ob_status r = ''pending'') (t_outbox d') = [entry_to_row x]"
proof -
  obtain now where t: "t_outbox d' = t_outbox d @
      [entry_to_row (outbox_entry_new (m_id m) (kj (m_route_key m)) (cj (Text body)) now)]" (is "_ = _ @ [entry_to_row ?x]")
    using assms(3) by (auto simp: queued_def)
  have row: "entry_to_row ?x \<in> set (t_outbox d')" by (simp add: t)
  have ok: "outbox_ok d'" using assms(1,2)
    by (auto simp: outbox_ok_def t entry_to_row_def outbox_entry_new_def outbox_status_parse_def)
  have "filter (\<lambda>r. ob_status r = ''pending'') (t_outbox d) = []" using assms(4) by (simp add: filter_empty_conv)
  then have "filter (\<lambda>r. ob_status r = ''pending'') (t_outbox d') = [entry_to_row ?x]"
    by (simp add: t entry_to_row_def outbox_entry_new_def)
  with outbox_view_row [OF ok row] ok show thesis
    by (intro that [of ?x]) (simp_all add: outbox_entry_new_def entry_to_row_def row_to_entry_def outbox_status_parse_def)
qed

text \<open>
  The outbox worker the runtime starts: the default retry policy, and the registry behind the gate for
  sending. \<open>jitter\<close> is the product with the jitter factor, \<open>clock\<close> the monotonic clock the breaker reads.
\<close>

definition runtime_sender ::
  "('w \<Rightarrow> nat) \<Rightarrow> (string \<Rightarrow> string + route_key) \<Rightarrow> (string \<Rightarrow> string + message_content) \<Rightarrow> 'w registry \<Rightarrow>
   outbox_entry \<Rightarrow> gate \<times> 'w \<Rightarrow> (string + unit) \<times> gate \<times> 'w" where
  "runtime_sender clock parse_key parse_content reg = behind_gate clock (registry_send parse_key parse_content reg)"

definition runtime_worker ::
  "digest \<Rightarrow> env \<Rightarrow> (nat \<Rightarrow> nat) \<Rightarrow> ('w \<Rightarrow> nat) \<Rightarrow> (string \<Rightarrow> string + route_key) \<Rightarrow>
   (string \<Rightarrow> string + message_content) \<Rightarrow> 'w registry \<Rightarrow> ('l \<times> gate \<times> 'w) db_scheme worker_deps" where
  "runtime_worker sha e jitter clock parse_key parse_content reg =
     sqlite_worker sha e (retry_default jitter) (on_rest (runtime_sender clock parse_key parse_content reg))"

lemma runtime_sender_known:
  assumes "parse_key (ob_route_key x) = Ok k" and "parse_content (ob_payload x) = Ok c" and "0 < bh_permits (g_bulkhead g)"
    and "send_via reg (rk_channel k) (rk_peer_id k) c w = (q, w')" and "allow_request (clock w) (g_breaker g) = (allowed, br)"
  shows "if allowed
    then snd (runtime_sender clock parse_key parse_content reg x (g, w)) =
        (g\<lparr>g_breaker := if is_Ok q then record_success br else record_failure (clock w') 0 br\<rparr>, w') \<and>
      is_Ok (fst (runtime_sender clock parse_key parse_content reg x (g, w))) = is_Ok q
    else runtime_sender clock parse_key parse_content reg x (g, w) = (Err ''circuit breaker open'', g\<lparr>g_breaker := br\<rparr>, w)"
  using registry_send_known [of parse_key x k parse_content c reg w, OF assms(1,2)] assms(4,5)
  by (cases "registry_send parse_key parse_content reg x w")
    (simp add: runtime_sender_def behind_gate_eq [OF assms(3)])

text \<open>
  C2. A text message is answered on the platform it came from: without database faults, when
  the outbox holds nothing else to send and the stored key and body are read back as they
  were written, running the chain on a text message for which a reply is due and then one
  round of the runtime's outbox worker does what the breaker of the sending gate says. If it admits the request, the
  message's channel is called exactly once, with the sender of the message as recipient and the specified reply as text,
  and the breaker learns the outcome; the entry ends as sent if the channel accepted. If it refuses, no channel is called.
  Without a delivery the entry is kept, with the error, to be tried again.
\<close>

theorem reply_reaches_sender:
  fixes d :: "((string \<rightharpoonup> nat) \<times> gate \<times> 'w) db_scheme"
  assumes "calm_env_ok e" and "m_content m = Text t" and "m_direction m = Inbound"
    and "m_id m \<notin> ob_id ` set (t_outbox d)" and "outbox_ok d" and "\<forall>r \<in> set (t_outbox d). ob_status r \<noteq> ''pending''"
    and "expected_reply cfg ac mi tick b bs dbg snap m t d = Some body"
    and "parse_key (kj (m_route_key m)) = Ok (m_route_key m)" and "parse_content (cj (Text body)) = Ok (Text body)"
    and run: "pipeline_run (sqlite_pipeline sha e cfg ac mi tick b bs kj cj dbg) (initial_context cfg m snap) d = (r, d1)"
    and round: "d2 = process_pending (runtime_worker sha e jitter clock parse_key parse_content reg) 64 d1"
    and world: "snd (db.more d1) = (g, w)" "0 < bh_permits (g_bulkhead g)"
    and gate: "allow_request (clock w) (g_breaker g) = (allowed, br)"
    and sent: "send_via reg (rk_channel (m_route_key m)) (rk_peer_id (m_route_key m)) (Text body) w = (q, w')"
  shows "snd (db.more d2) =
      (if allowed then (g\<lparr>g_breaker := if is_Ok q then record_success br else record_failure (clock w') 0 br\<rparr>, w')
       else (g\<lparr>g_breaker := br\<rparr>, w)) \<and>
    (\<exists>z. outbox_view d2 (m_id m) = Some z \<and> ob_payload z = cj (Text body) \<and>
       (if allowed \<and> is_Ok q then ob_status z = Sent
        else ob_status z = Retrying \<and> ob_retry_count z = 1 \<and> ob_next_retry_at z \<noteq> None \<and> ob_last_error z \<noteq> None \<and>
             (\<not> allowed \<longrightarrow> ob_last_error z = Some ''circuit breaker open'')))"
proof -
  let ?s = "on_rest (runtime_sender clock parse_key parse_content reg) ::
    outbox_entry \<Rightarrow> (string \<rightharpoonup> nat) \<times> gate \<times> 'w \<Rightarrow> (string + unit) \<times> (string \<rightharpoonup> nat) \<times> gate \<times> 'w"
  have nf: "no_faults e" using assms(1) by (simp add: calm_env_ok_def)
  have "queued m kj cj body d d1" using chain_answers [OF assms(1-4) run] assms(7) by simp
  with queued_outbox [OF assms(5,4) _ assms(6)] obtain x where x: "outbox_ok d1" "outbox_view d1 (m_id m) = Some x"
      "ob_id x = m_id m" "ob_route_key x = kj (m_route_key m)" "ob_payload x = cj (Text body)" "ob_retry_count x = 0"
      "filter (\<lambda>r. ob_status r = ''pending'') (t_outbox d1) = [entry_to_row x]" by metis
  let ?d = "d1\<lparr>db_tick := Suc (db_tick d1)\<rparr>"
  have d2: "d2 = deliver (sqlite_worker sha e (retry_default jitter) ?s) x ?d"
    unfolding round runtime_worker_def using nf x(7) by (intro round_of_one) simp_all
  have view: "outbox_view ?d (ob_id x) = Some x" using x(2,3) by simp
  have key: "parse_key (ob_route_key x) = Ok (m_route_key m)" "parse_content (ob_payload x) = Ok (Text body)"
    using assms(8,9) x(4,5) by simp_all
  note s = runtime_sender_known [where g = g and w = w and clock = clock and parse_key = parse_key and parse_content = parse_content and
      reg = reg, OF key world(2) sent gate]
  have "outbox_ok ?d" using x(1) by simp
  from calm_delivery [OF nf this view d2] obtain z where z: "db.more d2 = snd (?s x (db.more d1))"
      "outbox_view d2 (ob_id x) = Some z" "delivered_as 5 x (fst (?s x (db.more d1))) z"
    by (auto simp: retry_default_def)
  have more: "fst (?s x (db.more d1)) = fst (runtime_sender clock parse_key parse_content reg x (g, w))"
    "snd (db.more d2) = snd (runtime_sender clock parse_key parse_content reg x (g, w))"
    using world(1) z(1) by (simp_all add: on_rest_result)
  have "\<not> (5 :: 32 word) \<le> 1" by (simp add: word_le_nat_alt)
  then show ?thesis
    using s more z(2,3) x(3,5,6)
    by (cases "fst (runtime_sender clock parse_key parse_content reg x (g, w))")
      (auto simp: delivered_as_def same_letter_def is_Ok_def split: if_splits)
qed

text \<open>What clock and backends keep of the rest of the world, the gate for instance, the chain keeps.\<close>

lemma pipeline_run_keeps:
  assumes "\<And>s ctx d. s \<in> set steps \<Longrightarrow> P d \<Longrightarrow> P (snd (mw_process s ctx d))" and "P d"
  shows "P (snd (pipeline_run steps ctx d))"
  using assms
proof (induction steps arbitrary: ctx d)
  case (Cons s steps)
  then have "P (snd (mw_process s ctx d))" by simp
  with Cons show ?case by (cases "mw_process s ctx d") (auto split: sum.split)
qed simp

lemma preference_calls_more:
  "db.more (snd (ps_get (sqlite_preferences e) k d)) = db.more d"
  "db.more (snd (ps_set (sqlite_preferences e) k v d)) = db.more d"
  by (simp_all add: sqlite_preferences_def pref_get_def pref_set_def sql_read_eq sql_write_eq since_epoch_def clock_s_def
      clock_ms_def Let_def split: option.split)

lemma agent_command_more: "db.more (snd (agent_command_process (sqlite_preferences e) ac ctx d)) = db.more d"
  by (auto simp: agent_command_process_def get_user_agent_via_port_def set_user_agent_via_port_def preference_calls_more
      split_beta Let_def split: message_content.split agent_command.split sum.split option.split)

lemma ai_process_keeps:
  assumes "\<And>i c. P (snd (db.more (snd (ab_generate (select_backend dp ctx) i c d))))"
    and "\<And>d k a r. db.more (ai_audit dp k a r d) = db.more d" and "P (snd (db.more d))"
  shows "P (snd (db.more (snd (ai_process dp ctx d))))"
  using assms by (auto simp: ai_process_def split_beta Let_def split: message_content.split sum.split)

lemma chain_keeps:
  fixes d :: "((string \<rightharpoonup> nat) \<times> 'm) db_scheme"
  assumes "\<And>w. P w \<Longrightarrow> P (snd (tick w))" and "\<And>i c w. P w \<Longrightarrow> P (snd (ab_generate b i c w))"
    and "\<And>a b i c w. bs a = Some b \<Longrightarrow> P w \<Longrightarrow> P (snd (ab_generate b i c w))" and "P (snd (db.more d))"
  shows "P (snd (db.more (snd (pipeline_run (sqlite_pipeline sha e cfg ac mi tick b bs kj cj dbg) ctx d))))"
proof (rule pipeline_run_keeps [where P = "\<lambda>d. P (snd (db.more d))"])
  fix s ctx and d :: "((string \<rightharpoonup> nat) \<times> 'm) db_scheme"
  assume "s \<in> set (sqlite_pipeline sha e cfg ac mi tick b bs kj cj dbg)" and d: "P (snd (db.more d))"
  then consider "s = agent_command_middleware (sqlite_preferences e) ac" | "s \<in> {normalize, permission, formatter}"
    | "s = sqlite_limiter mi tick" | "s = ai_middleware (sqlite_ai_deps sha e b bs kj dbg)"
    | "s = outbox_stage (sqlite_outbox_deps e kj cj)"
    by (auto simp: sqlite_pipeline_def assemble_def sqlite_ai_deps_def sqlite_outbox_deps_def split: if_splits)
  then show "P (snd (db.more (snd (mw_process s ctx d))))"
  proof cases
    case 3
    then show ?thesis using limiter_stage [of mi tick ctx d] d assms(1)
      by (auto simp: after_limit_def split: option.split)
  next
    case 4
    have "P (snd (db.more (snd (ab_generate (outside_backend b') i c d))))" if "b' = b \<or> (\<exists>a. bs a = Some b')" for b' i c
      using that d assms(2,3) by (auto simp: outside_backend_def on_more_def split_beta Let_def)
    then have "P (snd (db.more (snd (ab_generate (select_backend (sqlite_ai_deps sha e b bs kj dbg) ctx) i c d))))" for i c
      unfolding selected_backend by (auto split: option.split)
    from ai_process_keeps [of P, OF this _ d] show ?thesis by (simp add: 4 ai_middleware_def sqlite_ai_deps_def)
  qed (use d in \<open>auto simp: agent_command_middleware_def agent_command_more normalize_def permission_def formatter_def
      formatter_process_def outbox_stage_def outbox_stage_process_def sqlite_outbox_deps_def sqlite_outbox_def
      outbox_insert_def sql_write_eq clock_s_def clock_ms_def split: option.split\<close>)
qed (rule assms(4))

text \<open>A world that records what is sent, with a WeChat and a Feishu channel, behind a fresh gate.\<close>

definition recording_world :: "((string \<rightharpoonup> nat) \<times> gate \<times> (string \<times> string \<times> message_content) list) db_scheme" where
  "recording_world = db.extend empty_db (Map.empty, gate_send_default, [])"

definition text_of :: "message_content \<Rightarrow> string" where
  "text_of c = (case c of Text t \<Rightarrow> t | _ \<Rightarrow> [])"

theorem reply_reaches_sender_witness:
  "let cfg = \<lparr> cf_ai_backend = ''echo'', cf_wechat_account_id = ''a'' \<rparr>;
       ac = \<lparr> ag_enable_user_preferences = False, ag_aliases = [] \<rparr>;
       m = (sample_msg ''m1'' 5)\<lparr>m_content := Text ''hi''\<rparr>;
       reg = register (recording ''feishu'' ''f'') (register (recording ''wechat'' ''w'') registry_new);
       d1 = snd (pipeline_run (sqlite_pipeline (\<lambda>x. x) calm_env cfg ac 1000 (\<lambda>x. (0, x)) echo_backend Map.empty
              (\<lambda>k. ''key'') text_of concat) (initial_context cfg m sample_snapshot) recording_world);
       d2 = process_pending (runtime_worker (\<lambda>x. x) calm_env id (\<lambda>w. 0) (\<lambda>s. Ok (m_route_key m)) (\<lambda>s. Ok (Text s)) reg) 64 d1
   in snd (snd (db.more d2)) = [(''w'', ''u1'', Text ''[echo] hi'')]"
proof -
  let ?cfg = "\<lparr> cf_ai_backend = ''echo'', cf_wechat_account_id = ''a'' \<rparr>"
  let ?ac = "\<lparr> ag_enable_user_preferences = False, ag_aliases = [] \<rparr>"
  let ?m = "(sample_msg ''m1'' 5)\<lparr>m_content := Text ''hi''\<rparr>"
  let ?reg = "register (recording ''feishu'' ''f'') (register (recording ''wechat'' ''w'') registry_new)"
  let ?d1 = "snd (pipeline_run (sqlite_pipeline (\<lambda>x. x) calm_env ?cfg ?ac 1000 (\<lambda>x. (0, x)) echo_backend Map.empty
      (\<lambda>k. ''key'') text_of concat) (initial_context ?cfg ?m sample_snapshot) recording_world)"
  have calm: "calm_env_ok calm_env" by (simp add: calm_env_ok_def calm_env_def no_faults_def)
  have ins: "m_content ?m = Text ''hi''" "m_direction ?m = Inbound" "m_id ?m \<notin> ob_id ` set (t_outbox recording_world)"
      "outbox_ok recording_world" "\<forall>r \<in> set (t_outbox recording_world). ob_status r \<noteq> ''pending''"
    by (simp_all add: sample_simps recording_world_def db.defs empty_db_def outbox_ok_def)
  have "parse (effective_aliases ?ac) ''hi'' = NotCommand" by code_simp
  then have reply: "expected_reply ?cfg ?ac 1000 (\<lambda>x. (0, x)) echo_backend Map.empty concat sample_snapshot ?m ''hi''
      recording_world = Some ''[echo] hi''"
    by (simp add: expected_reply_def plan_reply_def ask_reply_def Let_def backend_answer_def echo_backend_def
        add_responder_prefix_def starts_with_def)
  have key: "m_route_key ?m = sample_key" by (simp add: sample_simps)
  have send: "send_via ?reg (rk_channel sample_key) (rk_peer_id sample_key) (Text ''[echo] hi'') w =
      (Ok \<lparr> sr_message_id = [], sr_platform_msg_id = None, sr_timestamp_ms = 0 \<rparr>, w @ [(''w'', ''u1'', Text ''[echo] hi'')])" for w
    by (simp add: send_via_def lookup_register registry_new_def recording_def sample_key_def route_key_new_def)
  have world: "snd (db.more ?d1) = (gate_send_default, [])"
    by (rule chain_keeps [where P = "\<lambda>w. w = (gate_send_default, [])"]) (simp_all add: echo_backend_def recording_world_def db.defs del: pipeline_run.simps)
  have gate: "0 < bh_permits (g_bulkhead gate_send_default)"
    "allow_request 0 (g_breaker gate_send_default) = (True, g_breaker gate_send_default)"
    by (simp_all add: gate_send_default_def gate_new_def bulkhead_new_def breaker_new_def allow_request_def)
  let ?d2 = "process_pending (runtime_worker (\<lambda>x. x) calm_env id (\<lambda>w. 0) (\<lambda>s. Ok (m_route_key ?m)) (\<lambda>s. Ok (Text s)) ?reg) 64 ?d1"
  have keys: "Ok (m_route_key ?m) = (Ok (m_route_key ?m) :: string + route_key)"
    "Ok (Text (text_of (Text ''[echo] hi''))) = (Ok (Text ''[echo] hi'') :: string + message_content)"
    by (simp_all add: text_of_def)
  from reply_reaches_sender [OF calm ins reply, where parse_key = "\<lambda>s. Ok (m_route_key ?m)" and kj = "\<lambda>k. ''key''"
        and parse_content = "\<lambda>s. Ok (Text s)" and cj = text_of and reg = ?reg and sha = "\<lambda>x. x" and jitter = id and
        clock = "\<lambda>w. 0", OF keys prod.collapse [symmetric] refl world gate send [folded key], THEN conjunct1]
  have "snd (snd (db.more ?d2)) = [] @ [(''w'', ''u1'', Text ''[echo] hi'')]" by simp
  then show ?thesis unfolding Let_def by simp
qed

section \<open>From a push to the next start\<close>

text \<open>
  C40. After a push the daemon does not start any more: the run of a job with a pending item
  leaves an audit log that the check at startup cannot read, so every later start is refused,
  whatever else happens to the database statements.
\<close>

theorem push_prevents_restart:
  assumes "no_faults e" and "serialises pd kj cj" and "fresh_ids e d" and "log_ids_ok (t_audit_log d)"
    and "pending_rows job (t_push_job_items d) \<noteq> []" and "run_push_job pd e job d = (res, d')"
  shows "\<not> is_Ok (fst (start_background sha e' debug d'))"
  using start_background_verifies [of sha e' debug d'] push_run_unreadable_chain [OF assms] by auto

theorem push_prevents_restart_witness:
  "\<not> is_Ok (fst (start_background toy_sha calm_env (\<lambda>er. []) (snd (run_push_job plain_push_deps push_env ''j'' one_push))))"
proof (rule push_prevents_restart [OF push_env_ok(1) plain_serialises push_env_ok(2) _ _ prod.collapse [symmetric]])
  show "log_ids_ok (t_audit_log one_push)" by (simp add: one_push_def empty_db_def log_ids_ok_def)
  show "pending_rows ''j'' (t_push_job_items one_push) \<noteq> []" by (simp add: one_push_def pending_rows_def)
qed

end
